(* ===== verification/Prelude.thy ===== *)
theory Prelude
  imports
    Main
    "HOL-Library.Word"
    "HOL-Library.Finite_Map"
    "HOL-Library.Char_ord"
    "HOL-Library.List_Lexorder"
    "HOL-Library.Sublist"
begin

text \<open>
  Shared vocabulary of the development.

  Rust strings are modelled by \<^typ>\<open>string\<close>, read as the UTF-8 bytes of the Rust value:
  \<open>length\<close> is \<open>str::len\<close>, the order of \<open>HOL-Library.List_Lexorder\<close> over
  \<open>HOL-Library.Char_ord\<close> is \<open>str::cmp\<close>, and ASCII case mapping acts on bytes exactly as
  \<open>to_ascii_lowercase\<close> does. \<open>trim\<close> removes every code point with the Unicode
  \<open>White_Space\<close> property, recognised by its UTF-8 encoding.
  \<open>HashMap\<close> and \<open>BTreeMap\<close> are finite maps (\<open>fmap\<close>), \<open>HashSet\<close> and \<open>BTreeSet\<close> are
  finite sets (\<open>fset\<close>). Signed 64-bit time stamps are \<^typ>\<open>int\<close> with the saturating and
  wrapping operations written out.
\<close>

section \<open>Types and collections of facts\<close>

type_synonym u8 = "8 word"
type_synonym u16 = "16 word"
type_synonym bytes = "u8 list"
type_synonym ('e, 'a) result = "'e + 'a"

abbreviation Ok :: "'a \<Rightarrow> ('e, 'a) result" where
  "Ok \<equiv> Inr"

abbreviation Err :: "'e \<Rightarrow> ('e, 'a) result" where
  "Err \<equiv> Inl"

named_theorems str_simps \<open>facts about trimming, case mapping and rendering of strings\<close>
named_theorems int_simps \<open>facts about saturating and wrapping machine integers\<close>
named_theorems frame_simps \<open>fields an operation leaves unchanged\<close>

section \<open>Machine integers\<close>

definition i64_min :: int where
  "i64_min = - (2 ^ 63)"

definition i64_max :: int where
  "i64_max = 2 ^ 63 - 1"

definition u32_max :: nat where
  "u32_max = 2 ^ 32 - 1"

definition u64_max :: nat where
  "u64_max = 2 ^ 64 - 1"

definition is_i64 :: "int \<Rightarrow> bool" where
  "is_i64 x \<longleftrightarrow> i64_min \<le> x \<and> x \<le> i64_max"

definition i64_sat :: "int \<Rightarrow> int" where
  "i64_sat x = max i64_min (min i64_max x)"

definition i64_saturating_sub :: "int \<Rightarrow> int \<Rightarrow> int" where
  "i64_saturating_sub a b = i64_sat (a - b)"

definition i64_saturating_add :: "int \<Rightarrow> int \<Rightarrow> int" where
  "i64_saturating_add a b = i64_sat (a + b)"

definition i64_saturating_mul :: "int \<Rightarrow> int \<Rightarrow> int" where
  "i64_saturating_mul a b = i64_sat (a * b)"

definition i64_wrap :: "int \<Rightarrow> int" where
  "i64_wrap x = (x + 2 ^ 63) mod 2 ^ 64 - 2 ^ 63"

definition u32_saturating_add :: "nat \<Rightarrow> nat \<Rightarrow> nat" where
  "u32_saturating_add a b = min u32_max (a + b)"

definition as_u32 :: "nat \<Rightarrow> nat" where
  "as_u32 n = n mod 2 ^ 32"

lemmas i64_defs = i64_min_def i64_max_def is_i64_def i64_sat_def i64_saturating_sub_def
  i64_saturating_add_def i64_saturating_mul_def

lemma i64_sat_is_i64 [simp, int_simps]: "is_i64 (i64_sat x)"
  by (simp add: i64_defs)

lemma i64_sat_id [int_simps]: "is_i64 x \<Longrightarrow> i64_sat x = x"
  by (simp add: i64_defs)

lemma i64_sat_mono [int_simps]: "x \<le> y \<Longrightarrow> i64_sat x \<le> i64_sat y"
  by (auto simp: i64_defs)

lemma i64_sat_less_iff [int_simps]: "is_i64 t \<Longrightarrow> i64_min < t \<Longrightarrow> i64_sat x < t \<longleftrightarrow> x < t"
  by (auto simp: i64_defs)

lemma i64_sat_le_iff [int_simps]: "is_i64 t \<Longrightarrow> t < i64_max \<Longrightarrow> i64_sat x \<le> t \<longleftrightarrow> x \<le> t"
  by (auto simp: i64_defs)

lemma i64_wrap_id [int_simps]: "is_i64 x \<Longrightarrow> i64_wrap x = x"
  by (simp add: i64_defs i64_wrap_def)

lemma u32_saturating_add_le [simp, int_simps]: "u32_saturating_add a b \<le> u32_max"
  by (simp add: u32_saturating_add_def)

lemma u32_saturating_add_id [int_simps]: "a + b \<le> u32_max \<Longrightarrow> u32_saturating_add a b = a + b"
  by (simp add: u32_saturating_add_def)

section \<open>ASCII case and white space\<close>

definition code :: "char \<Rightarrow> nat" where
  "code c = of_char c"

definition ascii_lower_char :: "char \<Rightarrow> char" where
  "ascii_lower_char c = (if 65 \<le> code c \<and> code c \<le> 90 then char_of (code c + 32) else c)"

definition ascii_upper_char :: "char \<Rightarrow> char" where
  "ascii_upper_char c = (if 97 \<le> code c \<and> code c \<le> 122 then char_of (code c - 32) else c)"

definition to_ascii_lowercase :: "string \<Rightarrow> string" where
  "to_ascii_lowercase s = map ascii_lower_char s"

definition to_ascii_uppercase :: "string \<Rightarrow> string" where
  "to_ascii_uppercase s = map ascii_upper_char s"

definition is_ascii_alphanumeric :: "char \<Rightarrow> bool" where
  "is_ascii_alphanumeric c \<longleftrightarrow>
     48 \<le> code c \<and> code c \<le> 57 \<or> 65 \<le> code c \<and> code c \<le> 90 \<or> 97 \<le> code c \<and> code c \<le> 122"

definition is_ascii :: "string \<Rightarrow> bool" where
  "is_ascii s \<longleftrightarrow> (\<forall>c\<in>set s. code c < 128)"

lemma code_char_of [simp]: "n < 256 \<Longrightarrow> code (char_of n) = n"
  by (simp add: code_def)

lemma char_of_code [simp]: "char_of (code c) = c"
  by (simp add: code_def)

lemma code_less [simp]: "code c < 256"
  using of_char_mod_256 [of c, where ?'a = nat] by (simp add: code_def del: of_char_mod_256)

lemma code_eq_iff [simp]: "code c = code d \<longleftrightarrow> c = d"
  by (metis char_of_code)

lemma code_ascii_lower: "code (ascii_lower_char c) = (if 65 \<le> code c \<and> code c \<le> 90 then code c + 32 else code c)"
  by (simp add: ascii_lower_char_def)

lemma code_ascii_upper: "code (ascii_upper_char c) = (if 97 \<le> code c \<and> code c \<le> 122 then code c - 32 else code c)"
  using code_less [of c] by (auto simp: ascii_upper_char_def)

lemma ascii_lower_idem [simp, str_simps]: "to_ascii_lowercase (to_ascii_lowercase s) = to_ascii_lowercase s"
  by (auto simp: to_ascii_lowercase_def ascii_lower_char_def)

lemma to_ascii_lowercase_Nil [simp]: "to_ascii_lowercase s = [] \<longleftrightarrow> s = []"
  by (simp add: to_ascii_lowercase_def)

lemma to_ascii_lowercase_empty [simp]: "to_ascii_lowercase [] = []"
  by (simp add: to_ascii_lowercase_def)

lemma to_ascii_lowercase_append [str_simps]:
  "to_ascii_lowercase (s @ t) = to_ascii_lowercase s @ to_ascii_lowercase t"
  by (simp add: to_ascii_lowercase_def)

lemma length_to_ascii_lowercase [simp]: "length (to_ascii_lowercase s) = length s"
  by (simp add: to_ascii_lowercase_def)

text \<open>
  The number of bytes of the white-space code point at the head of a string, 0 when the
  head is no white space: the ASCII ones, U+0085, U+00A0, U+1680, U+2000 to U+200A, U+2028,
  U+2029, U+202F, U+205F and U+3000.
\<close>

definition ws1 :: "nat \<Rightarrow> bool" where
  "ws1 a \<longleftrightarrow> 9 \<le> a \<and> a \<le> 13 \<or> a = 32"

definition ws2 :: "nat \<Rightarrow> nat \<Rightarrow> bool" where
  "ws2 a b \<longleftrightarrow> a = 194 \<and> (b = 133 \<or> b = 160)"

definition ws3 :: "nat \<Rightarrow> nat \<Rightarrow> nat \<Rightarrow> bool" where
  "ws3 a b c \<longleftrightarrow>
     a = 225 \<and> b = 154 \<and> c = 128 \<or>
     a = 226 \<and> b = 128 \<and> (128 \<le> c \<and> c \<le> 138 \<or> c = 168 \<or> c = 169 \<or> c = 175) \<or>
     a = 226 \<and> b = 129 \<and> c = 159 \<or>
     a = 227 \<and> b = 128 \<and> c = 128"

fun ws_head :: "string \<Rightarrow> nat" where
  "ws_head [] = 0"
| "ws_head (a # s) =
     (if ws1 (code a) then 1
      else case s of [] \<Rightarrow> 0
           | b # t \<Rightarrow> if ws2 (code a) (code b) then 2
                    else case t of [] \<Rightarrow> 0
                         | c # _ \<Rightarrow> if ws3 (code a) (code b) (code c) then 3 else 0)"

fun ws_last :: "string \<Rightarrow> nat" where
  "ws_last [] = 0"
| "ws_last (a # s) =
     (if ws1 (code a) then 1
      else case s of [] \<Rightarrow> 0
           | b # t \<Rightarrow> if ws2 (code b) (code a) then 2
                    else case t of [] \<Rightarrow> 0
                         | c # _ \<Rightarrow> if ws3 (code c) (code b) (code a) then 3 else 0)"

lemma ws_head_le: "ws_head s \<le> length s"
  by (cases s) (auto split: list.splits)

lemma ws_last_le: "ws_last s \<le> length s"
  by (cases s) (auto split: list.splits)

function trim_start :: "string \<Rightarrow> string" where
  "trim_start s = (if ws_head s = 0 then s else trim_start (drop (ws_head s) s))"
  by pat_completeness auto
termination
proof (relation "measure length")
  fix s assume "ws_head s \<noteq> 0"
  moreover from this have "s \<noteq> []" by (cases s) auto
  ultimately show "(drop (ws_head s) s, s) \<in> measure length" by simp
qed simp

function trim_rev :: "string \<Rightarrow> string" where
  "trim_rev s = (if ws_last s = 0 then s else trim_rev (drop (ws_last s) s))"
  by pat_completeness auto
termination
proof (relation "measure length")
  fix s assume "ws_last s \<noteq> 0"
  moreover from this have "s \<noteq> []" by (cases s) auto
  ultimately show "(drop (ws_last s) s, s) \<in> measure length" by simp
qed simp

declare trim_start.simps [simp del] trim_rev.simps [simp del]

definition trim_end :: "string \<Rightarrow> string" where
  "trim_end s = rev (trim_rev (rev s))"

definition trim :: "string \<Rightarrow> string" where
  "trim s = trim_end (trim_start s)"

lemma ws_head_trim_start [simp]: "ws_head (trim_start s) = 0"
  by (induction s rule: trim_start.induct) (subst trim_start.simps, simp)

lemma ws_last_trim_rev [simp]: "ws_last (trim_rev s) = 0"
  by (induction s rule: trim_rev.induct) (subst trim_rev.simps, simp)

lemma trim_start_id: "ws_head s = 0 \<Longrightarrow> trim_start s = s"
  by (subst trim_start.simps) simp

lemma trim_rev_id: "ws_last s = 0 \<Longrightarrow> trim_rev s = s"
  by (subst trim_rev.simps) simp

lemma trim_rev_suffix: "suffix (trim_rev s) s"
proof (induction s rule: trim_rev.induct)
  case (1 s)
  show ?case
  proof (cases "ws_last s = 0")
    case True
    then show ?thesis by (simp add: trim_rev_id)
  next
    case False
    have "suffix (trim_rev (drop (ws_last s) s)) s"
      using "1.IH" [OF False] suffix_drop suffix_order.trans by blast
    then show ?thesis by (subst trim_rev.simps) (simp add: False)
  qed
qed

lemma trim_end_prefix: "prefix (trim_end s) s"
  using trim_rev_suffix [of "rev s"] by (simp add: trim_end_def suffix_to_prefix)

lemma ws_head_append: "ws_head p \<noteq> 0 \<Longrightarrow> ws_head (p @ q) = ws_head p"
  by (cases p) (auto split: list.splits if_splits)

lemma ws_head_prefix: "prefix p s \<Longrightarrow> ws_head s = 0 \<Longrightarrow> ws_head p = 0"
  using ws_head_append by (metis prefix_def)

lemma trim_trim [simp, str_simps]: "trim (trim s) = trim s"
proof -
  have h: "ws_head (trim_end (trim_start s)) = 0"
    by (rule ws_head_prefix [OF trim_end_prefix]) simp
  have "trim_end (trim_end (trim_start s)) = trim_end (trim_start s)"
    by (simp add: trim_end_def trim_rev_id)
  then show ?thesis by (simp add: trim_def trim_start_id [OF h])
qed

lemma trim_Nil [simp, str_simps]: "trim [] = []"
  using trim_end_prefix [of "trim_start []"] by (simp add: trim_def trim_start_id)

text \<open>Case mapping neither makes nor removes white space, so it commutes with trimming.\<close>

lemma ws1_lower [simp]: "ws1 (code (ascii_lower_char a)) = ws1 (code a)"
  by (auto simp: code_ascii_lower ws1_def)

lemma ws2_lower [simp]:
  "ws2 (code (ascii_lower_char a)) (code (ascii_lower_char b)) = ws2 (code a) (code b)"
  by (auto simp: code_ascii_lower ws2_def)

lemma ws3_lower [simp]:
  "ws3 (code (ascii_lower_char a)) (code (ascii_lower_char b)) (code (ascii_lower_char c)) =
   ws3 (code a) (code b) (code c)"
proof -
  have eq: "code (ascii_lower_char x) = n \<longleftrightarrow> code x = n" if "n \<ge> 128" for x n
    using that by (auto simp: code_ascii_lower)
  have rng: "128 \<le> code (ascii_lower_char x) \<and> code (ascii_lower_char x) \<le> 138 \<longleftrightarrow>
      128 \<le> code x \<and> code x \<le> 138" for x
    by (auto simp: code_ascii_lower)
  show ?thesis by (simp add: ws3_def eq rng)
qed

lemma ws_head_lower [simp]: "ws_head (to_ascii_lowercase s) = ws_head s"
  by (cases s) (auto simp: to_ascii_lowercase_def split: list.split)

lemma ws_last_lower [simp]: "ws_last (to_ascii_lowercase s) = ws_last s"
  by (cases s) (auto simp: to_ascii_lowercase_def split: list.split)

lemma drop_lower: "drop n (to_ascii_lowercase s) = to_ascii_lowercase (drop n s)"
  by (simp add: to_ascii_lowercase_def drop_map)

lemma rev_lower: "rev (to_ascii_lowercase s) = to_ascii_lowercase (rev s)"
  by (simp add: to_ascii_lowercase_def rev_map)

lemma trim_start_lower: "trim_start (to_ascii_lowercase s) = to_ascii_lowercase (trim_start s)"
  by (induction s rule: trim_start.induct) (subst (1 2) trim_start.simps, simp add: drop_lower)

lemma trim_rev_lower: "trim_rev (to_ascii_lowercase s) = to_ascii_lowercase (trim_rev s)"
  by (induction s rule: trim_rev.induct) (subst (1 2) trim_rev.simps, simp add: drop_lower)

lemma trim_lower [str_simps]: "trim (to_ascii_lowercase s) = to_ascii_lowercase (trim s)"
  by (simp add: trim_def trim_end_def trim_start_lower rev_lower trim_rev_lower)

definition trim_lower_str :: "string \<Rightarrow> string" where
  "trim_lower_str s = to_ascii_lowercase (trim s)"

lemma trim_lower_str_idem [simp, str_simps]: "trim_lower_str (trim_lower_str s) = trim_lower_str s"
  by (simp add: trim_lower_str_def trim_lower)

section \<open>Rendering bytes and numbers\<close>

definition hex_digits :: string where
  "hex_digits = ''0123456789abcdef''"

fun hex :: "bytes \<Rightarrow> string" where
  "hex [] = []"
| "hex (b # bs) =
     hex_digits ! unat (drop_bit 4 b) # hex_digits ! unat (and b 15) # hex bs"

definition as_bytes :: "string \<Rightarrow> bytes" where
  "as_bytes s = map (\<lambda>c. word_of_nat (code c)) s"

fun show_nat :: "nat \<Rightarrow> string" where
  "show_nat n = (if n < 10 then [char_of (48 + n)] else show_nat (n div 10) @ [char_of (48 + n mod 10)])"

declare show_nat.simps [simp del]

definition show_int :: "int \<Rightarrow> string" where
  "show_int i = (if i < 0 then CHR ''-'' # show_nat (nat (- i)) else show_nat (nat i))"

lemma length_hex [simp]: "length (hex bs) = 2 * length bs"
  by (induction bs) auto

lemma hex_Nil_iff [simp]: "hex bs = [] \<longleftrightarrow> bs = []"
  by (cases bs) auto

lemma hex_nibbles: "unat (drop_bit 4 b) < 16" "unat (and b 15) < 16" for b :: u8
proof -
  have "unat (drop_bit 4 b) = unat b div 16"
    by (simp add: unat_drop_bit_eq drop_bit_eq_div [of 4 "unat b"] del: drop_bit_numeral_bit0)
  moreover have "unat b < 256" using unsigned_less [of b] by simp
  ultimately show "unat (drop_bit 4 b) < 16" by simp
  have "and b 15 = take_bit 4 b" by (simp add: take_bit_eq_mask mask_eq_exp_minus_1)
  then show "unat (and b 15) < 16"
    by (simp add: unsigned_take_bit_eq take_bit_nat_less_exp [of 4, simplified])
qed

lemma byte_of_nibbles:
  assumes "drop_bit 4 a = drop_bit 4 b" "and a 15 = and b 15"
  shows "a = (b :: u8)"
proof -
  have m: "and x 15 = take_bit 4 x" for x :: u8
    by (simp add: take_bit_eq_mask mask_eq_exp_minus_1)
  have "push_bit 4 (drop_bit 4 a) + take_bit 4 a = push_bit 4 (drop_bit 4 b) + take_bit 4 b"
    using assms by (simp add: m)
  then show ?thesis by (simp only: bits_ident)
qed

lemma hex_digits_inj: "i < 16 \<Longrightarrow> j < 16 \<Longrightarrow> hex_digits ! i = hex_digits ! j \<longleftrightarrow> i = j"
  by (rule nth_eq_iff_index_eq) (simp_all add: hex_digits_def)

lemma hex_inj [simp]: "hex as = hex bs \<longleftrightarrow> as = bs"
proof (induction as arbitrary: bs)
  case Nil
  then show ?case by (cases bs) auto
next
  case (Cons a as)
  show ?case
  proof (cases bs)
    case (Cons b bs')
    then show ?thesis
      using Cons.IH [of bs'] hex_nibbles [of a] hex_nibbles [of b] byte_of_nibbles [of a b]
      by (auto simp: hex_digits_inj word_unat_eq_iff [of "drop_bit 4 a"] word_unat_eq_iff [of "and a 15"])
  qed simp
qed

lemma as_bytes_inj [simp]: "as_bytes s = as_bytes t \<longleftrightarrow> s = t"
proof -
  have "inj (\<lambda>c. word_of_nat (code c) :: u8)"
  proof (rule injI)
    fix c d
    assume "word_of_nat (code c) = (word_of_nat (code d) :: u8)"
    then show "c = d" by (simp add: word_of_nat_eq_iff take_bit_eq_mod)
  qed
  then show ?thesis by (simp add: as_bytes_def inj_map_eq_map)
qed

lemma length_as_bytes [simp]: "length (as_bytes s) = length s"
  by (simp add: as_bytes_def)

definition is_digit :: "char \<Rightarrow> bool" where
  "is_digit c \<longleftrightarrow> 48 \<le> code c \<and> code c \<le> 57"

lemma show_nat_digits: "c \<in> set (show_nat n) \<Longrightarrow> is_digit c"
proof (induction n rule: show_nat.induct)
  case (1 n)
  then show ?case
    by (cases "n < 10") (auto simp: is_digit_def show_nat.simps [of n])
qed

lemma show_nat_Nil [simp]: "show_nat n \<noteq> []"
  by (simp add: show_nat.simps [of n])

fun parse_nat_acc :: "nat \<Rightarrow> string \<Rightarrow> nat" where
  "parse_nat_acc acc [] = acc"
| "parse_nat_acc acc (c # s) = parse_nat_acc (10 * acc + (code c - 48)) s"

lemma parse_nat_acc_append: "parse_nat_acc acc (s @ t) = parse_nat_acc (parse_nat_acc acc s) t"
  by (induction s arbitrary: acc) auto

lemma parse_show_nat: "parse_nat_acc 0 (show_nat n) = n"
proof (induction n rule: show_nat.induct)
  case (1 n)
  then show ?case
    by (cases "n < 10") (simp_all add: show_nat.simps [of n] parse_nat_acc_append)
qed

lemma show_nat_inj [simp]: "show_nat m = show_nat n \<longleftrightarrow> m = n"
  by (metis parse_show_nat)

lemma show_nat_not_minus: "show_nat n \<noteq> CHR ''-'' # s"
  using show_nat_digits [of "CHR ''-''" n] by (auto simp: is_digit_def code_def)

lemma show_int_inj [simp]: "show_int i = show_int j \<longleftrightarrow> i = j"
  using show_nat_not_minus show_nat_not_minus [THEN not_sym] by (auto simp: show_int_def)

section \<open>Results, lists and finite maps\<close>

text \<open>The question mark operator: a case on a result that returns errors as they are.\<close>

lemma bind_Ok_iff [simp]:
  "(case r of Inl e \<Rightarrow> Inl e | Inr x \<Rightarrow> f x) = Inr y \<longleftrightarrow> (\<exists>x. r = Inr x \<and> f x = Inr y)"
  by (cases r) auto

lemma bind_Err_iff:
  "(case r of Inl e \<Rightarrow> Inl e | Inr x \<Rightarrow> f x) = Inl e \<longleftrightarrow> r = Inl e \<or> (\<exists>x. r = Inr x \<and> f x = Inl e)"
  by (cases r) auto

lemma set_sorted_list_of_fmap: "set (sorted_list_of_fmap m) = {(k, v). fmlookup m k = Some v}"
  by (auto simp: sorted_list_of_fmap_def fmdomI image_iff)

text \<open>\<open>HashMap::retain\<close>.\<close>

definition fm_retain :: "('k \<Rightarrow> 'v \<Rightarrow> bool) \<Rightarrow> ('k, 'v) fmap \<Rightarrow> ('k, 'v) fmap" where
  "fm_retain P m = fmfilter (\<lambda>k. case fmlookup m k of None \<Rightarrow> False | Some v \<Rightarrow> P k v) m"

lemma fmlookup_retain [simp]:
  "fmlookup (fm_retain P m) k = (case fmlookup m k of None \<Rightarrow> None | Some v \<Rightarrow> if P k v then Some v else None)"
  by (simp add: fm_retain_def split: option.split)

lemma find_SomeD: "find p xs = Some x \<Longrightarrow> x \<in> set xs \<and> p x"
  by (induction xs) (auto split: if_splits)

lemma find_append_Some: "find p xs = Some x \<Longrightarrow> find p (xs @ ys) = Some x"
  by (induction xs) (auto split: if_splits)

fun find_index :: "('a \<Rightarrow> bool) \<Rightarrow> 'a list \<Rightarrow> nat option" where
  "find_index p [] = None"
| "find_index p (x # xs) = (if p x then Some 0 else map_option Suc (find_index p xs))"

lemma find_index_Some:
  "find_index p xs = Some i \<Longrightarrow> i < length xs \<and> p (xs ! i) \<and> (\<forall>j<i. \<not> p (xs ! j))"
proof (induction xs arbitrary: i)
  case (Cons x xs)
  then show ?case by (auto simp: less_Suc_eq_0_disj split: if_splits)
qed simp

lemma find_index_None: "find_index p xs = None \<longleftrightarrow> (\<forall>x\<in>set xs. \<not> p x)"
  by (induction xs) auto

definition remove_at :: "nat \<Rightarrow> 'a list \<Rightarrow> 'a list" where
  "remove_at i xs = take i xs @ drop (Suc i) xs"

lemma length_remove_at: "i < length xs \<Longrightarrow> length (remove_at i xs) = length xs - 1"
  by (simp add: remove_at_def)

lemma remove_at_split: "i < length xs \<Longrightarrow> xs = take i xs @ xs ! i # drop (Suc i) xs"
  by (simp add: id_take_nth_drop)

lemma sum_list_remove_at:
  fixes f :: "'a \<Rightarrow> nat"
  shows "i < length xs \<Longrightarrow> sum_list (map f xs) = f (xs ! i) + sum_list (map f (remove_at i xs))"
  by (subst remove_at_split, assumption) (simp add: remove_at_def)

lemma set_remove_at: "set (remove_at i xs) \<subseteq> set xs"
  using set_take_subset set_drop_subset by (fastforce simp: remove_at_def)

lemma distinct_remove_at:
  assumes "distinct (map f xs)"
  shows "distinct (map f (remove_at i xs))"
proof -
  have "distinct (take i (map f xs) @ drop i (map f xs))" using assms by simp
  moreover have "set (drop (Suc i) (map f xs)) \<subseteq> set (drop i (map f xs))"
    by (rule set_drop_subset_set_drop) simp
  ultimately have "distinct (take i (map f xs) @ drop (Suc i) (map f xs))"
    using assms distinct_drop [of "map f xs" "Suc i"] by (simp only: distinct_append) blast
  then show ?thesis by (simp add: remove_at_def take_map drop_map)
qed

end
