(* ===== verification/F32.thy ===== *)
theory F32
  imports Prelude
begin

text \<open>
  IEEE 754 binary32 values as the scores and thresholds of the program use them: compared,
  clamped, tested for finiteness and printed with two decimals. A finite value is the
  rational number it denotes; negative zero is kept apart because it prints differently.
  Every comparison with a NaN is false, as in Rust.
\<close>

type_synonym f32_bits = "32 word"

datatype f32 = NaN | PInf | NInf | NZero | Fin rat

definition f32_is_nan :: "f32 \<Rightarrow> bool" where
  "f32_is_nan x \<longleftrightarrow> x = NaN"

fun f32_val :: "f32 \<Rightarrow> rat" where
  "f32_val (Fin q) = q"
| "f32_val _ = 0"

fun f32_is_finite :: "f32 \<Rightarrow> bool" where
  "f32_is_finite (Fin q) = True"
| "f32_is_finite NZero = True"
| "f32_is_finite _ = False"

fun f32_lt :: "f32 \<Rightarrow> f32 \<Rightarrow> bool" where
  "f32_lt NaN _ = False"
| "f32_lt _ NaN = False"
| "f32_lt PInf _ = False"
| "f32_lt _ NInf = False"
| "f32_lt NInf _ = True"
| "f32_lt _ PInf = True"
| "f32_lt x y = (f32_val x < f32_val y)"

fun f32_le :: "f32 \<Rightarrow> f32 \<Rightarrow> bool" where
  "f32_le NaN _ = False"
| "f32_le _ NaN = False"
| "f32_le NInf _ = True"
| "f32_le _ PInf = True"
| "f32_le PInf _ = False"
| "f32_le _ NInf = False"
| "f32_le x y = (f32_val x \<le> f32_val y)"

abbreviation f32_ge :: "f32 \<Rightarrow> f32 \<Rightarrow> bool" where
  "f32_ge x y \<equiv> f32_le y x"

text \<open>\<open>f32::clamp\<close>: a NaN stays a NaN.\<close>

definition f32_clamp :: "f32 \<Rightarrow> f32 \<Rightarrow> f32 \<Rightarrow> f32" where
  "f32_clamp lo hi x =
     (let y = (if f32_lt x lo then lo else x) in if f32_lt hi y then hi else y)"

text \<open>
  A message or a table carries the 32 bits of the value. Decoding reads sign, biased exponent
  and fraction; subnormal numbers have exponent field 0.
\<close>

definition f32_of_bits :: "f32_bits \<Rightarrow> f32" where
  "f32_of_bits w =
     (let b = unat w; neg = b div 2 ^ 31 = 1; e = b div 2 ^ 23 mod 256; m = b mod 2 ^ 23;
          mag = (if e = 0 then Fract (int m) (2 ^ 149)
                 else if e < 150 then Fract (int (2 ^ 23 + m)) (2 ^ (150 - e))
                 else of_int (int (2 ^ 23 + m) * 2 ^ (e - 150)))
      in if e = 255 then (if m \<noteq> 0 then NaN else if neg then NInf else PInf)
         else if neg then (if e = 0 \<and> m = 0 then NZero else Fin (- mag))
         else Fin mag)"

text \<open>
  A decimal literal denotes the nearest binary32 value: \<open>nearest_f32 q m e\<close> says that \<open>m / 2 ^ e\<close>
  with a 24-bit mantissa \<open>m\<close> is within half a unit in the last place of \<open>q\<close>.
\<close>

definition f32_lit :: "int \<Rightarrow> nat \<Rightarrow> f32" where
  "f32_lit m e = Fin (Fract m (2 ^ e))"

definition nearest_f32 :: "rat \<Rightarrow> int \<Rightarrow> nat \<Rightarrow> bool" where
  "nearest_f32 q m e \<longleftrightarrow> 2 ^ 23 \<le> m \<and> m < 2 ^ 24 \<and> 2 * \<bar>of_int m - q * 2 ^ e\<bar> < 1"

text \<open>\<open>{:.2}\<close>: the exact value rounded to two decimals, ties to even.\<close>

definition round_half_even :: "rat \<Rightarrow> int" where
  "round_half_even q =
     (let n = \<lfloor>q\<rfloor>; r = q - of_int n
      in if r < 1 / 2 then n else if r > 1 / 2 then n + 1 else if even n then n else n + 1)"

definition show_hundredths :: "nat \<Rightarrow> string" where
  "show_hundredths n =
     show_nat (n div 100) @ ''.'' @ show_nat (n mod 100 div 10) @ show_nat (n mod 10)"

fun fmt2 :: "f32 \<Rightarrow> string" where
  "fmt2 NaN = ''NaN''"
| "fmt2 PInf = ''inf''"
| "fmt2 NInf = ''-inf''"
| "fmt2 NZero = ''-0.00''"
| "fmt2 (Fin q) =
     (if q < 0 then ''-'' else '''') @ show_hundredths (nat (round_half_even (\<bar>q\<bar> * 100)))"

lemma f32_of_bits_examples:
  "f32_of_bits 0x3F333333 = f32_lit 11744051 24"
  "f32_of_bits 0x80000000 = NZero" "f32_of_bits 0x7FC00000 = NaN" "f32_of_bits 0x3F800000 = Fin 1"
  "f32_of_bits 0x3F000000 = Fin (1 / 2)" "f32_of_bits 0 = Fin 0" "f32_of_bits 0x3F1C28F6 = f32_lit 10234102 24"
  by (simp_all add: f32_of_bits_def f32_lit_def Let_def Fract_of_int_quotient)

lemma f32_le_refl [simp]: "f32_le x x \<longleftrightarrow> x \<noteq> NaN"
  by (cases x) auto

lemma f32_lt_irrefl [simp]: "\<not> f32_lt x x"
  by (cases x) auto

lemma f32_not_lt: "x \<noteq> NaN \<Longrightarrow> y \<noteq> NaN \<Longrightarrow> \<not> f32_lt x y \<longleftrightarrow> f32_le y x"
  by (cases x; cases y) auto

lemma f32_lt_imp_not_le: "f32_lt x y \<Longrightarrow> \<not> f32_le y x"
  by (cases x; cases y) auto

lemma f32_le_trans: "f32_le x y \<Longrightarrow> f32_le y z \<Longrightarrow> f32_le x z"
  by (cases x; cases y; cases z) auto

lemma f32_le_not_nan: "f32_le x y \<Longrightarrow> x \<noteq> NaN \<and> y \<noteq> NaN"
  by (cases x; cases y) auto

lemma f32_lt_le_trans: "f32_lt x y \<Longrightarrow> f32_le y z \<Longrightarrow> f32_lt x z"
  by (cases x; cases y; cases z) auto

lemma f32_le_lt_trans: "f32_le x y \<Longrightarrow> f32_lt y z \<Longrightarrow> f32_lt x z"
  by (cases x; cases y; cases z) auto

lemma f32_nan_cmp [simp]:
  "\<not> f32_lt NaN x" "\<not> f32_lt x NaN" "\<not> f32_le NaN x" "\<not> f32_le x NaN"
  by (cases x; simp)+

lemma f32_clamp_NaN [simp]: "f32_clamp lo hi NaN = NaN"
  by (simp add: f32_clamp_def)

lemma f32_clamp_bounds:
  assumes "x \<noteq> NaN" "f32_le lo hi"
  shows "f32_le lo (f32_clamp lo hi x) \<and> f32_le (f32_clamp lo hi x) hi"
  using assms f32_le_not_nan [of lo hi]
  by (auto simp: f32_clamp_def Let_def f32_not_lt)

lemma f32_clamp_cases:
  "f32_le lo hi \<Longrightarrow>
     f32_clamp lo hi x = (if f32_lt x lo then lo else if f32_lt hi x then hi else x)"
  using f32_lt_imp_not_le by (auto simp: f32_clamp_def Let_def)

lemma f32_clamp_mono:
  assumes xy: "f32_le x y" and lh: "f32_le lo hi"
  shows "f32_le (f32_clamp lo hi x) (f32_clamp lo hi y)"
proof -
  have n: "x \<noteq> NaN" "y \<noteq> NaN" "lo \<noteq> NaN" "hi \<noteq> NaN"
    using f32_le_not_nan assms by blast+
  consider "f32_lt x lo" | "f32_le lo x" "f32_lt hi x" | "f32_le lo x" "f32_le x hi"
    using f32_not_lt n by blast
  then show ?thesis
  proof cases
    case 1
    then show ?thesis using f32_clamp_bounds [OF n(2) lh] lh by (simp add: f32_clamp_cases)
  next
    case 2
    then have "f32_lt hi y" "\<not> f32_lt x lo" "\<not> f32_lt y lo"
      using xy f32_lt_le_trans f32_lt_imp_not_le f32_le_trans by blast+
    with 2 lh n show ?thesis by (simp add: f32_clamp_cases)
  next
    case 3
    then have "\<not> f32_lt x lo" "\<not> f32_lt hi x" "\<not> f32_lt y lo"
      using xy f32_lt_imp_not_le f32_le_trans by blast+
    with 3 xy lh show ?thesis by (simp add: f32_clamp_cases)
  qed
qed

lemma f32_clamp_finite:
  "x \<noteq> NaN \<Longrightarrow> f32_is_finite lo \<Longrightarrow> f32_is_finite hi \<Longrightarrow> f32_is_finite (f32_clamp lo hi x)"
  by (cases x; cases lo; cases hi) (auto simp: f32_clamp_def Let_def)

end
