(* ===== verification/Proto.thy ===== *)
theory Proto
  imports F32
begin

text \<open>
  The wire contract shared by every crate: the enumerations and messages of
  \<open>bulwark.proto\<close> that the modelled components exchange, and the helpers of
  \<open>bulwark-proto/src/lib.rs\<close> (grooming rule names, severity bands). An enumeration
  field travels as a 32-bit integer; the generated accessor maps an unknown number to the
  \<open>UNSPECIFIED\<close> member.
\<close>

section \<open>Enumerations\<close>

datatype category = CatUnspecified | Safe | AdultImage | AdultAudio | AdultText | Grooming
  | CsamSuspected | Violence | SelfHarm | Hate

datatype severity = SevUnspecified | Info | Low | Medium | High | Critical

datatype action = ActUnspecified | Allow | Block | Blur | Mute | Warn | Log

datatype source_channel = ChUnspecified | Web | VideoStream | LiveStream | OcrOnscreen | Notification

datatype media_kind = MkUnspecified | MkText | MkImage | MkAudio | MkVideo

datatype alert_kind = AkUnspecified | Intervention | GroomingSuspected | ProtectionDisabled
  | ChildSos | SafetyBroadcast

datatype review_decision = RdUnspecified | Approve | Deny

datatype review_scope = RsUnspecified | ThisItem | ThisHost

fun category_i32 :: "category \<Rightarrow> int" where
  "category_i32 CatUnspecified = 0"
| "category_i32 Safe = 1"
| "category_i32 AdultImage = 2"
| "category_i32 AdultAudio = 3"
| "category_i32 AdultText = 4"
| "category_i32 Grooming = 5"
| "category_i32 CsamSuspected = 6"
| "category_i32 Violence = 7"
| "category_i32 SelfHarm = 8"
| "category_i32 Hate = 9"

definition category_all :: "category list" where
  "category_all = [CatUnspecified, Safe, AdultImage, AdultAudio, AdultText, Grooming,
     CsamSuspected, Violence, SelfHarm, Hate]"

definition category_of_i32 :: "int \<Rightarrow> category" where
  "category_of_i32 n =
     (case find (\<lambda>c. category_i32 c = n) category_all of None \<Rightarrow> CatUnspecified | Some c \<Rightarrow> c)"

fun severity_i32 :: "severity \<Rightarrow> int" where
  "severity_i32 SevUnspecified = 0"
| "severity_i32 Info = 1"
| "severity_i32 Low = 2"
| "severity_i32 Medium = 3"
| "severity_i32 High = 4"
| "severity_i32 Critical = 5"

instantiation severity :: linorder
begin

definition less_eq_severity :: "severity \<Rightarrow> severity \<Rightarrow> bool" where
  "less_eq_severity a b \<longleftrightarrow> severity_i32 a \<le> severity_i32 b"

definition less_severity :: "severity \<Rightarrow> severity \<Rightarrow> bool" where
  "less_severity a b \<longleftrightarrow> severity_i32 a < severity_i32 b"

instance
proof
  show "a \<le> b \<Longrightarrow> b \<le> a \<Longrightarrow> a = b" for a b :: severity
    by (cases a; cases b) (simp_all add: less_eq_severity_def)
qed (auto simp: less_eq_severity_def less_severity_def)

end

section \<open>Messages\<close>

record evidence =
  ev_sha256 :: bytes
  ev_perceptual_hash :: bytes
  ev_safe_thumbnail :: bytes
  ev_text_snippet :: string
  ev_model_id :: string
  ev_model_version :: string

record grooming_signal =
  gs_fired_categories :: "string list"
  gs_score :: f32_bits
  gs_excerpt :: string
  gs_classifier_backed :: bool

record verdict =
  v_request_id :: string
  v_category :: int
  v_action :: int
  v_severity :: int
  v_score :: f32_bits
  v_rationale :: string
  v_evidence :: "evidence option"
  v_grooming :: "grooming_signal option"
  v_worker_id :: string
  v_latency_ms :: nat
  v_local_segment_uri :: string
  v_remediated_media :: bytes

definition verdict_score :: "verdict \<Rightarrow> f32" where
  "verdict_score v = f32_of_bits (v_score v)"

definition verdict_category :: "verdict \<Rightarrow> category" where
  "verdict_category v = category_of_i32 (v_category v)"

record alert_event =
  ae_alert_id :: string
  ae_kind :: int
  ae_category :: int
  ae_severity :: int
  ae_app :: string
  ae_device_id :: string
  ae_ts :: int
  ae_redacted_context :: string
  ae_evidence :: "evidence option"
  ae_child_id :: string
  ae_family_id :: string
  ae_local_segment_uri :: string

lemma category_of_i32_i32 [simp]: "category_of_i32 (category_i32 c) = c"
  by (cases c) (simp_all add: category_of_i32_def category_all_def)

lemma category_of_i32_unknown: "n < 0 \<or> 9 < n \<Longrightarrow> category_of_i32 n = CatUnspecified"
  by (auto simp: category_of_i32_def category_all_def)

lemma category_i32_inj [simp]: "category_i32 c = category_i32 d \<longleftrightarrow> c = d"
  by (metis category_of_i32_i32)

section \<open>Helpers of bulwark-proto\<close>

datatype grooming_rule = Secrecy | SecrecyIsolation | PlatformSwitching | PersonalInfoAgeProbing
  | Sexualization | GiftsBribery | EmotionalManipulation | BoundaryTesting | ImageRequest

definition grooming_rule_all :: "grooming_rule list" where
  "grooming_rule_all = [Secrecy, SecrecyIsolation, PlatformSwitching, PersonalInfoAgeProbing,
     Sexualization, GiftsBribery, EmotionalManipulation, BoundaryTesting, ImageRequest]"

fun grooming_rule_as_str :: "grooming_rule \<Rightarrow> string" where
  "grooming_rule_as_str Secrecy = ''secrecy''"
| "grooming_rule_as_str SecrecyIsolation = ''secrecy_isolation''"
| "grooming_rule_as_str PlatformSwitching = ''platform_switching''"
| "grooming_rule_as_str PersonalInfoAgeProbing = ''personal_info_age_probing''"
| "grooming_rule_as_str Sexualization = ''sexualization''"
| "grooming_rule_as_str GiftsBribery = ''gifts_bribery''"
| "grooming_rule_as_str EmotionalManipulation = ''emotional_manipulation''"
| "grooming_rule_as_str BoundaryTesting = ''boundary_testing''"
| "grooming_rule_as_str ImageRequest = ''image_request''"

definition grooming_rule_from_str :: "string \<Rightarrow> grooming_rule option" where
  "grooming_rule_from_str s = find (\<lambda>r. grooming_rule_as_str r = s) grooming_rule_all"

definition severity_for_score :: "f32 \<Rightarrow> severity" where
  "severity_for_score score =
     (if f32_ge score (f32_lit 11744051 24) then High
      else if f32_ge score (f32_lit 8388608 24) then Medium
      else if f32_ge score (f32_lit 10066330 25) then Low
      else Info)"

lemma severity_literals:
  "nearest_f32 (7 / 10) 11744051 24" "nearest_f32 (5 / 10) 8388608 24"
  "nearest_f32 (3 / 10) 10066330 25"
  by (simp_all add: nearest_f32_def)

lemma set_grooming_rule_all: "set grooming_rule_all = UNIV"
proof -
  have "r \<in> set grooming_rule_all" for r
    by (cases r) (simp_all add: grooming_rule_all_def)
  then show ?thesis by blast
qed

lemma grooming_rule_roundtrip [simp]: "grooming_rule_from_str (grooming_rule_as_str r) = Some r"
  by (cases r) (simp_all add: grooming_rule_from_str_def grooming_rule_all_def)

lemma grooming_rule_from_str_Some:
  "grooming_rule_from_str s = Some r \<longleftrightarrow> s = grooming_rule_as_str r"
proof
  assume "grooming_rule_from_str s = Some r"
  then show "s = grooming_rule_as_str r"
    unfolding grooming_rule_from_str_def find_Some_iff by blast
qed simp

lemma severity_for_score_mono:
  "f32_le x y \<Longrightarrow> severity_for_score x \<le> severity_for_score y"
  using f32_le_trans [of "f32_lit 11744051 24" x y] f32_le_trans [of "f32_lit 8388608 24" x y]
    f32_le_trans [of "f32_lit 10066330 25" x y]
  by (auto simp: severity_for_score_def less_eq_severity_def)

end
