(* ===== verification/PolicyConfig.thy ===== *)
theory PolicyConfig
  imports Proto
begin

text \<open>
  The loadable policy configuration of \<open>bulwark-policy/src/config.rs\<close>: score-band edges per
  age band, the behavioural switches, the built-in defaults, and validation. Merging of
  defaults, file and environment is done by the \<open>figment\<close> crate; its result is the
  argument of \<open>policy_config_load\<close>. An error of validation carries the values the source
  formats into its message.
\<close>

section \<open>Age profiles and thresholds\<close>

datatype age_profile = YoungChild | PreTeen | Teen

fun age_rank :: "age_profile \<Rightarrow> nat" where
  "age_rank YoungChild = 0"
| "age_rank PreTeen = 1"
| "age_rank Teen = 2"

instantiation age_profile :: linorder
begin

definition less_eq_age_profile :: "age_profile \<Rightarrow> age_profile \<Rightarrow> bool" where
  "less_eq_age_profile a b \<longleftrightarrow> age_rank a \<le> age_rank b"

definition less_age_profile :: "age_profile \<Rightarrow> age_profile \<Rightarrow> bool" where
  "less_age_profile a b \<longleftrightarrow> age_rank a < age_rank b"

instance
proof
  show "a \<le> b \<Longrightarrow> b \<le> a \<Longrightarrow> a = b" for a b :: age_profile
    by (cases a; cases b) (simp_all add: less_eq_age_profile_def)
qed (auto simp: less_eq_age_profile_def less_age_profile_def)

end

definition age_profile_default :: age_profile where
  "age_profile_default = Teen"

definition age_profile_all :: "age_profile list" where
  "age_profile_all = [YoungChild, PreTeen, Teen]"

fun age_key :: "age_profile \<Rightarrow> string" where
  "age_key YoungChild = ''young_child''"
| "age_key PreTeen = ''pre_teen''"
| "age_key Teen = ''teen''"

record thresholds =
  th_log :: f32
  th_flag :: f32
  th_block :: f32

definition thresholds_default :: thresholds where
  "thresholds_default =
     \<lparr>th_log = f32_lit 10066330 25, th_flag = f32_lit 8388608 24, th_block = f32_lit 11744051 24\<rparr>"

datatype policy_error = Load string
  | InvalidRange string string f32
  | InvalidOrder string thresholds

definition threshold_in_range :: "f32 \<Rightarrow> bool" where
  "threshold_in_range v \<longleftrightarrow> f32_is_finite v \<and> f32_le (Fin 0) v \<and> f32_le v (Fin 1)"

fun thresholds_check :: "string \<Rightarrow> (string \<times> f32) list \<Rightarrow> (policy_error, unit) result" where
  "thresholds_check ctx [] = Ok ()"
| "thresholds_check ctx ((name, v) # rest) =
     (if \<not> threshold_in_range v then Err (InvalidRange ctx name v) else thresholds_check ctx rest)"

definition thresholds_validate :: "string \<Rightarrow> thresholds \<Rightarrow> (policy_error, unit) result" where
  "thresholds_validate ctx t =
     (case thresholds_check ctx [(''log'', th_log t), (''flag'', th_flag t), (''block'', th_block t)] of
        Inl e \<Rightarrow> Err e
      | Inr _ \<Rightarrow>
          if \<not> (f32_le (th_log t) (th_flag t) \<and> f32_le (th_flag t) (th_block t))
          then Err (InvalidOrder ctx t) else Ok ())"

record age_band =
  ab_thresholds :: thresholds
  ab_adult_text_flag_blocks :: bool
  ab_adult_image_prefer_blur :: bool

fun age_band_for_profile :: "age_profile \<Rightarrow> age_band" where
  "age_band_for_profile YoungChild =
     \<lparr>ab_thresholds = \<lparr>th_log = f32_lit 8388608 25, th_flag = f32_lit 13421773 25,
                       th_block = f32_lit 10066330 24\<rparr>,
      ab_adult_text_flag_blocks = True, ab_adult_image_prefer_blur = True\<rparr>"
| "age_band_for_profile PreTeen =
     \<lparr>ab_thresholds = \<lparr>th_log = f32_lit 10066330 25, th_flag = f32_lit 15099494 25,
                       th_block = f32_lit 10905190 24\<rparr>,
      ab_adult_text_flag_blocks = True, ab_adult_image_prefer_blur = True\<rparr>"
| "age_band_for_profile Teen =
     \<lparr>ab_thresholds = thresholds_default,
      ab_adult_text_flag_blocks = False, ab_adult_image_prefer_blur = True\<rparr>"

section \<open>The configuration\<close>

record policy_config =
  pc_age_bands :: "(string, age_band) fmap"
  pc_grooming_alert_not_block :: bool
  pc_csam_report_flag :: bool
  pc_fail_closed_uncovered :: bool

definition policy_config_default :: policy_config where
  "policy_config_default =
     \<lparr>pc_age_bands = fold (\<lambda>p m. fmupd (age_key p) (age_band_for_profile p) m) age_profile_all fmempty,
      pc_grooming_alert_not_block = True, pc_csam_report_flag = True, pc_fail_closed_uncovered = True\<rparr>"

definition policy_band :: "policy_config \<Rightarrow> age_profile \<Rightarrow> age_band" where
  "policy_band cfg profile =
     (case fmlookup (pc_age_bands cfg) (age_key profile) of
        None \<Rightarrow> age_band_for_profile profile
      | Some b \<Rightarrow> b)"

fun validate_bands :: "(string \<times> age_band) list \<Rightarrow> (policy_error, unit) result" where
  "validate_bands [] = Ok ()"
| "validate_bands ((key, band) # rest) =
     (case thresholds_validate key (ab_thresholds band) of
        Inl e \<Rightarrow> Err e
      | Inr _ \<Rightarrow> validate_bands rest)"

definition policy_config_validate :: "policy_config \<Rightarrow> (policy_error, unit) result" where
  "policy_config_validate cfg =
     (case validate_bands (map (\<lambda>p. (age_key p, policy_band cfg p)) age_profile_all) of
        Inl e \<Rightarrow> Err e
      | Inr _ \<Rightarrow> validate_bands (sorted_list_of_fmap (pc_age_bands cfg)))"

definition policy_config_load :: "(string, policy_config) result \<Rightarrow> (policy_error, policy_config) result" where
  "policy_config_load extracted =
     (case extracted of
        Inl e \<Rightarrow> Err (Load e)
      | Inr cfg \<Rightarrow> (case policy_config_validate cfg of Inl e \<Rightarrow> Err e | Inr _ \<Rightarrow> Ok cfg))"

section \<open>What validation establishes\<close>

definition thresholds_valid :: "thresholds \<Rightarrow> bool" where
  "thresholds_valid t \<longleftrightarrow>
     threshold_in_range (th_log t) \<and> threshold_in_range (th_flag t) \<and> threshold_in_range (th_block t) \<and>
     f32_le (th_log t) (th_flag t) \<and> f32_le (th_flag t) (th_block t)"

lemma default_literals:
  "nearest_f32 (25 / 100) 8388608 25" "nearest_f32 (4 / 10) 13421773 25" "nearest_f32 (6 / 10) 10066330 24"
  "nearest_f32 (3 / 10) 10066330 25" "nearest_f32 (45 / 100) 15099494 25" "nearest_f32 (65 / 100) 10905190 24"
  "nearest_f32 (5 / 10) 8388608 24" "nearest_f32 (7 / 10) 11744051 24"
  by (simp_all add: nearest_f32_def)

lemma thresholds_validate_Ok [simp]: "thresholds_validate ctx t = Ok u \<longleftrightarrow> thresholds_valid t"
  by (auto simp: thresholds_validate_def thresholds_valid_def)

lemma validate_bands_Ok:
  "validate_bands bs = Ok u \<longleftrightarrow> (\<forall>(k, b)\<in>set bs. thresholds_valid (ab_thresholds b))"
  by (induction bs rule: validate_bands.induct) auto

lemma set_age_profile_all [simp]: "set age_profile_all = UNIV"
proof -
  have "p \<in> set age_profile_all" for p by (cases p) (simp_all add: age_profile_all_def)
  then show ?thesis by blast
qed

lemma policy_config_validate_Ok:
  "policy_config_validate cfg = Ok u \<longleftrightarrow>
     (\<forall>p. thresholds_valid (ab_thresholds (policy_band cfg p))) \<and>
     (\<forall>k b. fmlookup (pc_age_bands cfg) k = Some b \<longrightarrow> thresholds_valid (ab_thresholds b))"
  unfolding policy_config_validate_def bind_Ok_iff validate_bands_Ok
  by (auto simp: set_sorted_list_of_fmap)

lemma age_band_for_profile_valid [simp]: "thresholds_valid (ab_thresholds (age_band_for_profile p))"
  by (cases p; simp only:; code_simp)

declare age_band_for_profile.simps [simp del]

lemma policy_band_default [simp]: "policy_band policy_config_default p = age_band_for_profile p"
  by (cases p) (simp_all add: policy_band_def policy_config_default_def age_profile_all_def)

lemma policy_config_default_valid: "policy_config_validate policy_config_default = Ok ()"
  unfolding policy_config_validate_Ok
proof (intro conjI allI impI)
  fix k b
  assume "fmlookup (pc_age_bands policy_config_default) k = Some b"
  then show "thresholds_valid (ab_thresholds b)"
    by (auto simp: policy_config_default_def age_profile_all_def split: if_splits)
qed simp

end
