(* ===== verification/HashChain.thy ===== *)
theory HashChain
  imports Prelude
begin

text \<open>
  The contract of a hash-chained log, stated once and interpreted by every component that
  keeps one. An entry is a pair of a content and the hash stored beside it; \<open>chain_link\<close> hashes the
  previous stored hash together with a content; \<open>chain_verify\<close> answers \<open>None\<close> for an intact log
  and the index of the first mismatch otherwise. The lemmas of the locale say what such a
  log promises: appending keeps it intact, an edit is reported at its own index, equal
  heads mean equal histories as long as the hash does not collide on them, and which
  removals it can and cannot notice.
\<close>

definition prev_hash :: "'h \<Rightarrow> ('c \<times> 'h) list \<Rightarrow> nat \<Rightarrow> 'h" where
  "prev_hash g es i = (if i = 0 then g else snd (es ! (i - 1)))"

definition head_hash :: "'h \<Rightarrow> ('c \<times> 'h) list \<Rightarrow> 'h" where
  "head_hash g es = (if es = [] then g else snd (last es))"

definition collision_free :: "('h \<Rightarrow> 'c \<Rightarrow> 'h) \<Rightarrow> ('h \<times> 'c) set \<Rightarrow> bool" where
  "collision_free lnk S \<longleftrightarrow>
     (\<forall>(p, c)\<in>S. \<forall>(q, d)\<in>S. lnk p c = lnk q d \<longrightarrow> p = q \<and> c = d)"

definition chain_inputs :: "'h \<Rightarrow> ('c \<times> 'h) list \<Rightarrow> ('h \<times> 'c) set" where
  "chain_inputs g es = {(prev_hash g es i, fst (es ! i)) | i. i < length es}"

lemma head_hash_prev: "es \<noteq> [] \<Longrightarrow> head_hash g es = snd (es ! (length es - 1))"
  by (simp add: head_hash_def last_conv_nth)

lemma prev_hash_append_left [simp]: "i \<le> length es \<Longrightarrow> prev_hash g (es @ fs) i = prev_hash g es i"
  if "i < length es \<or> fs = []"
  using that by (auto simp: prev_hash_def nth_append)

lemma prev_hash_end: "prev_hash g (es @ fs) (length es) = head_hash g es"
  by (cases es rule: rev_cases) (auto simp: prev_hash_def head_hash_def nth_append)

lemma collision_freeD:
  "collision_free lnk S \<Longrightarrow> (p, c) \<in> S \<Longrightarrow> (q, d) \<in> S \<Longrightarrow> lnk p c = lnk q d \<Longrightarrow> p = q \<and> c = d"
  by (fastforce simp: collision_free_def)

locale hash_chain =
  fixes chain_link :: "'h \<Rightarrow> 'c \<Rightarrow> 'h"
    and genesis_hash :: 'h
    and chain_verify :: "('c \<times> 'h) list \<Rightarrow> nat option"
  assumes verify_ok: "chain_verify es = None \<longleftrightarrow>
      (\<forall>i<length es. snd (es ! i) = chain_link (prev_hash genesis_hash es i) (fst (es ! i)))"
    and verify_bad: "chain_verify es = Some i \<longleftrightarrow>
      i < length es \<and> snd (es ! i) \<noteq> chain_link (prev_hash genesis_hash es i) (fst (es ! i)) \<and>
      (\<forall>j<i. snd (es ! j) = chain_link (prev_hash genesis_hash es j) (fst (es ! j)))"
begin

lemma empty_verifies: "chain_verify [] = None"
  by (simp add: verify_ok)

lemma append_verifies:
  assumes "chain_verify es = None"
  shows "chain_verify (es @ [(c, chain_link (head_hash genesis_hash es) c)]) = None"
proof -
  have "snd ((es @ [(c, chain_link (head_hash genesis_hash es) c)]) ! i) =
      chain_link (prev_hash genesis_hash (es @ [(c, chain_link (head_hash genesis_hash es) c)]) i)
        (fst ((es @ [(c, chain_link (head_hash genesis_hash es) c)]) ! i))"
    if "i < Suc (length es)" for i
  proof (cases "i = length es")
    case True
    then show ?thesis by (simp add: prev_hash_end)
  next
    case False
    with that have "i < length es" by simp
    with assms show ?thesis by (simp add: verify_ok nth_append)
  qed
  then show ?thesis by (simp add: verify_ok)
qed

lemma prefix_verifies:
  assumes "chain_verify (xs @ ys) = None"
  shows "chain_verify xs = None"
proof -
  have "snd (xs ! i) = chain_link (prev_hash genesis_hash xs i) (fst (xs ! i))" if "i < length xs" for i
    using assms that unfolding verify_ok by (auto dest!: spec [of _ i] simp: nth_append)
  then show ?thesis by (simp add: verify_ok)
qed

lemma edit_reported:
  assumes ok: "chain_verify es = None" and i: "i < length es"
    and new: "chain_link (prev_hash genesis_hash es i) c \<noteq> snd (es ! i)"
  shows "chain_verify (es[i := (c, snd (es ! i))]) = Some i"
proof -
  let ?fs = "es[i := (c, snd (es ! i))]"
  have p: "prev_hash genesis_hash ?fs j = prev_hash genesis_hash es j" if "j \<le> i" for j
    using that by (auto simp: prev_hash_def nth_list_update)
  have "snd (?fs ! j) = chain_link (prev_hash genesis_hash ?fs j) (fst (?fs ! j))" if "j < i" for j
    using ok that i p [of j] by (simp add: verify_ok)
  moreover have "snd (?fs ! i) \<noteq> chain_link (prev_hash genesis_hash ?fs i) (fst (?fs ! i))"
    using new i p [of i] by simp
  ultimately show ?thesis using i by (simp add: verify_bad)
qed

lemma dropped_prefix_reported:
  assumes k: "k < length es"
    and new: "chain_link genesis_hash (fst (es ! k)) \<noteq> snd (es ! k)"
  shows "chain_verify (drop k es) = Some 0"
  using new k by (simp add: verify_bad prev_hash_def)

lemma last_entry:
  assumes "chain_verify (es @ [e]) = None"
  shows "snd e = chain_link (head_hash genesis_hash es) (fst e)"
  using assms prev_hash_end [of genesis_hash es "[e]"]
  unfolding verify_ok by (auto dest: spec [of _ "length es"])

lemma heads_commit:
  assumes "chain_verify xs = None" "chain_verify ys = None" "length xs = length ys"
    and "head_hash genesis_hash xs = head_hash genesis_hash ys"
    and "collision_free chain_link (chain_inputs genesis_hash xs \<union> chain_inputs genesis_hash ys)"
  shows "xs = ys"
  using assms
proof (induction xs arbitrary: ys rule: rev_induct)
  case (snoc x xs)
  from snoc.prems(3) obtain y zs where ys: "ys = zs @ [y]" "length zs = length xs"
    by (cases ys rule: rev_cases) auto
  let ?g = genesis_hash
  have "snd x = chain_link (head_hash ?g xs) (fst x)" "snd y = chain_link (head_hash ?g zs) (fst y)"
    using snoc.prems(1,2) ys last_entry by blast+
  moreover have xy: "snd x = snd y"
    using snoc.prems(4) ys by (simp add: head_hash_def)
  moreover have "(head_hash ?g xs, fst x) \<in> chain_inputs ?g (xs @ [x])"
    unfolding chain_inputs_def using prev_hash_end [of ?g xs "[x]"] by force
  moreover have "(head_hash ?g zs, fst y) \<in> chain_inputs ?g ys"
    unfolding chain_inputs_def ys using prev_hash_end [of ?g zs "[y]"] by force
  ultimately have eq: "head_hash ?g xs = head_hash ?g zs" "fst x = fst y"
    using collision_freeD [OF snoc.prems(5)] by (metis UnI1 UnI2)+
  have sub: "chain_inputs ?g xs \<subseteq> chain_inputs ?g (xs @ [x])"
      "chain_inputs ?g zs \<subseteq> chain_inputs ?g (zs @ [y])"
    unfolding chain_inputs_def by (force simp: nth_append)+
  have "collision_free chain_link (chain_inputs ?g xs \<union> chain_inputs ?g zs)"
    using snoc.prems(5) sub ys unfolding collision_free_def by blast
  then have "xs = zs"
    using snoc.IH [of zs] snoc.prems(1,2) ys eq(1) prefix_verifies by metis
  with ys xy eq(2) show ?case by (simp add: prod_eq_iff)
qed auto

end

section \<open>Walking a chain\<close>

text \<open>
  The loop every verifier of the program runs: compare each stored hash with the link from
  the previous one, stop at the first difference. Started at the genesis hash it satisfies
  the contract, so a component only shows that its own loop is this walk.
\<close>

fun walk :: "('h \<Rightarrow> 'c \<Rightarrow> 'h) \<Rightarrow> 'h \<Rightarrow> nat \<Rightarrow> ('c \<times> 'h) list \<Rightarrow> nat option" where
  "walk lnk p i [] = None"
| "walk lnk p i ((c, h) # es) = (if lnk p c \<noteq> h then Some i else walk lnk h (Suc i) es)"

lemma prev_hash_Cons [simp]: "prev_hash g (e # es) (Suc i) = prev_hash (snd e) es i"
  by (cases i) (auto simp: prev_hash_def)

lemma prev_hash_0 [simp]: "prev_hash g es 0 = g"
  by (simp add: prev_hash_def)

lemma walk_None:
  "walk lnk g k es = None \<longleftrightarrow>
     (\<forall>i<length es. snd (es ! i) = lnk (prev_hash g es i) (fst (es ! i)))"
proof (induction lnk g k es rule: walk.induct)
  case (2 lnk p i c h es)
  then show ?case by (auto simp: All_less_Suc2)
qed simp

lemma walk_Some:
  "walk lnk g k es = Some j \<longleftrightarrow>
     (\<exists>i<length es. j = k + i \<and> snd (es ! i) \<noteq> lnk (prev_hash g es i) (fst (es ! i)) \<and>
       (\<forall>m<i. snd (es ! m) = lnk (prev_hash g es m) (fst (es ! m))))"
proof (induction lnk g k es rule: walk.induct)
  case (2 lnk p i c h es)
  then show ?case by (auto simp: Ex_less_Suc2 All_less_Suc2)
qed simp

lemma walk_hash_chain: "hash_chain lnk g (walk lnk g 0)"
proof
  show "walk lnk g 0 es = None \<longleftrightarrow>
      (\<forall>i<length es. snd (es ! i) = lnk (prev_hash g es i) (fst (es ! i)))" for es
    by (rule walk_None)
  show "walk lnk g 0 es = Some i \<longleftrightarrow>
      i < length es \<and> snd (es ! i) \<noteq> lnk (prev_hash g es i) (fst (es ! i)) \<and>
      (\<forall>j<i. snd (es ! j) = lnk (prev_hash g es j) (fst (es ! j)))" for es i
    unfolding walk_Some by auto
qed

end
