(* ===== verification/Allowlist.thy ===== *)
theory Allowlist
  imports Proto HashChain
begin

text \<open>
  The guardian override allowlist of \<open>bulwark-policy/src/allowlist.rs\<close>: per device a set of
  approved hosts and a set of approved content hashes, and an audit log that records every
  decision in a SHA-256 chain. The digest of the \<open>ring\<close> crate is the parameter \<open>sha\<close>.
\<close>

section \<open>State\<close>

record device_allowlist =
  da_hosts :: "string fset"
  da_hashes :: "string fset"

record review_item =
  ri_device :: string
  ri_alert_id :: string
  ri_host :: string
  ri_sha256 :: bytes
  ri_category :: category

datatype apply_outcome = Approved | DenyConfirmed | Refused string

record audit_entry =
  au_device :: string
  au_alert :: string
  au_decision :: review_decision
  au_scope :: review_scope
  au_host :: string
  au_sha256_hex :: string
  au_cat :: category
  au_outcome :: apply_outcome
  au_time :: int
  au_chain_hash :: string

record allowlist =
  al_per_device :: "(string, device_allowlist) fmap"
  al_audit :: "audit_entry list"

definition empty_device_allowlist :: device_allowlist where
  "empty_device_allowlist = \<lparr>da_hosts = {||}, da_hashes = {||}\<rparr>"

definition allowlist_new :: allowlist where
  "allowlist_new = \<lparr>al_per_device = fmempty, al_audit = []\<rparr>"

section \<open>Queries\<close>

definition allows_host :: "device_allowlist \<Rightarrow> string \<Rightarrow> bool" where
  "allows_host d host = (let h = to_ascii_lowercase (trim host) in h \<noteq> [] \<and> h |\<in>| da_hosts d)"

definition allows_hash :: "device_allowlist \<Rightarrow> bytes \<Rightarrow> bool" where
  "allows_hash d sha256 \<longleftrightarrow> sha256 \<noteq> [] \<and> hex sha256 |\<in>| da_hashes d"

definition device_is_empty :: "device_allowlist \<Rightarrow> bool" where
  "device_is_empty d \<longleftrightarrow> da_hosts d = {||} \<and> da_hashes d = {||}"

definition is_host_allowed :: "allowlist \<Rightarrow> string \<Rightarrow> string \<Rightarrow> bool" where
  "is_host_allowed al device host =
     (case fmlookup (al_per_device al) device of None \<Rightarrow> False | Some d \<Rightarrow> allows_host d host)"

definition is_hash_allowed :: "allowlist \<Rightarrow> string \<Rightarrow> bytes \<Rightarrow> bool" where
  "is_hash_allowed al device sha256 =
     (case fmlookup (al_per_device al) device of None \<Rightarrow> False | Some d \<Rightarrow> allows_hash d sha256)"

section \<open>The audit log\<close>

fun decision_name :: "review_decision \<Rightarrow> string" where
  "decision_name RdUnspecified = ''unspecified''"
| "decision_name Approve = ''approve''"
| "decision_name Deny = ''deny''"

fun scope_name :: "review_scope \<Rightarrow> string" where
  "scope_name RsUnspecified = ''unspecified''"
| "scope_name ThisItem = ''this_item''"
| "scope_name ThisHost = ''this_host''"

fun outcome_name :: "apply_outcome \<Rightarrow> string" where
  "outcome_name Approved = ''approved''"
| "outcome_name DenyConfirmed = ''deny_confirmed''"
| "outcome_name (Refused _) = ''refused''"

definition canonical :: "string \<Rightarrow> audit_entry \<Rightarrow> string" where
  "canonical previous e =
     previous @ ''|'' @ au_device e @ ''|'' @ au_alert e @ ''|'' @ decision_name (au_decision e) @ ''|'' @
     scope_name (au_scope e) @ ''|'' @ au_host e @ ''|'' @ au_sha256_hex e @ ''|'' @
     show_int (category_i32 (au_cat e)) @ ''|'' @ outcome_name (au_outcome e) @ ''|'' @ show_int (au_time e)"

definition chain_hash :: "(string \<Rightarrow> bytes) \<Rightarrow> string \<Rightarrow> audit_entry \<Rightarrow> string" where
  "chain_hash sha previous e = hex (sha (canonical previous e))"

definition audit_genesis :: string where
  "audit_genesis = ''bulwark-audit-genesis''"

fun audit_verify_from :: "(string \<Rightarrow> bytes) \<Rightarrow> string \<Rightarrow> nat \<Rightarrow> audit_entry list \<Rightarrow> (nat, unit) result" where
  "audit_verify_from sha previous index [] = Ok ()"
| "audit_verify_from sha previous index (e # es) =
     (if chain_hash sha previous e \<noteq> au_chain_hash e then Err index
      else audit_verify_from sha (au_chain_hash e) (Suc index) es)"

definition audit_verify :: "(string \<Rightarrow> bytes) \<Rightarrow> audit_entry list \<Rightarrow> (nat, unit) result" where
  "audit_verify sha es = audit_verify_from sha audit_genesis 0 es"

definition audit_append :: "(string \<Rightarrow> bytes) \<Rightarrow> audit_entry list \<Rightarrow> audit_entry \<Rightarrow> audit_entry list" where
  "audit_append sha es e =
     (let previous = (if es = [] then audit_genesis else au_chain_hash (last es))
      in es @ [e\<lparr>au_chain_hash := chain_hash sha previous e\<rparr>])"

section \<open>Applying a guardian decision\<close>

definition apply_approve :: "review_item \<Rightarrow> review_scope \<Rightarrow> (string, device_allowlist) fmap \<Rightarrow>
    apply_outcome \<times> (string, device_allowlist) fmap" where
  "apply_approve item scope m =
     (if ri_category item = CsamSuspected \<or> ri_category item = CatUnspecified
      then (Refused ''CSAM and incomplete coverage are never allowlistable'', m)
      else
        let entry = (case fmlookup m (ri_device item) of None \<Rightarrow> empty_device_allowlist | Some d \<Rightarrow> d);
            m' = fmupd (ri_device item) entry m
        in case scope of
             ThisHost \<Rightarrow>
               (let host = to_ascii_lowercase (trim (ri_host item))
                in if host = [] then (Refused ''THIS_HOST approve with no host'', m')
                   else (Approved, fmupd (ri_device item) (entry\<lparr>da_hosts := finsert host (da_hosts entry)\<rparr>) m'))
           | _ \<Rightarrow>
               (if ri_sha256 item = [] then (Refused ''THIS_ITEM approve with no content hash'', m')
                else (Approved,
                  fmupd (ri_device item) (entry\<lparr>da_hashes := finsert (hex (ri_sha256 item)) (da_hashes entry)\<rparr>) m')))"

definition deny_entry :: "review_item \<Rightarrow> review_scope \<Rightarrow> device_allowlist \<Rightarrow> device_allowlist" where
  "deny_entry item scope entry =
     (let host = to_ascii_lowercase (trim (ri_host item));
          drop_host = (\<lambda>d. if host \<noteq> [] then d\<lparr>da_hosts := da_hosts d |-| {|host|}\<rparr> else d);
          drop_hash = (\<lambda>d. if ri_sha256 item \<noteq> []
                           then d\<lparr>da_hashes := da_hashes d |-| {|hex (ri_sha256 item)|}\<rparr> else d)
      in case scope of
           ThisHost \<Rightarrow> drop_host entry
         | ThisItem \<Rightarrow> drop_hash entry
         | RsUnspecified \<Rightarrow> drop_hash (drop_host entry))"

definition apply_deny :: "review_item \<Rightarrow> review_scope \<Rightarrow> (string, device_allowlist) fmap \<Rightarrow>
    apply_outcome \<times> (string, device_allowlist) fmap" where
  "apply_deny item scope m =
     (case fmlookup m (ri_device item) of
        None \<Rightarrow> (DenyConfirmed, m)
      | Some entry \<Rightarrow>
          let entry' = deny_entry item scope entry
          in (DenyConfirmed,
              if device_is_empty entry' then fmdrop (ri_device item) m
              else fmupd (ri_device item) entry' m))"

definition apply_decision :: "review_item \<Rightarrow> review_decision \<Rightarrow> review_scope \<Rightarrow>
    (string, device_allowlist) fmap \<Rightarrow> apply_outcome \<times> (string, device_allowlist) fmap" where
  "apply_decision item decision scope m =
     (case decision of
        Approve \<Rightarrow> apply_approve item scope m
      | Deny \<Rightarrow> apply_deny item scope m
      | RdUnspecified \<Rightarrow> (Refused ''decision unspecified'', m))"

definition allowlist_apply :: "(string \<Rightarrow> bytes) \<Rightarrow> allowlist \<Rightarrow> review_item \<Rightarrow> review_decision \<Rightarrow>
    review_scope \<Rightarrow> int \<Rightarrow> apply_outcome \<times> allowlist" where
  "allowlist_apply sha al item decision scope ts =
     (let (outcome, m) = apply_decision item decision scope (al_per_device al);
          entry = \<lparr>au_device = ri_device item, au_alert = ri_alert_id item, au_decision = decision,
                   au_scope = scope, au_host = to_ascii_lowercase (trim (ri_host item)),
                   au_sha256_hex = (if ri_sha256 item = [] then [] else hex (ri_sha256 item)),
                   au_cat = ri_category item, au_outcome = outcome, au_time = ts, au_chain_hash = []\<rparr>
      in (outcome, \<lparr>al_per_device = m, al_audit = audit_append sha (al_audit al) entry\<rparr>))"

section \<open>Specification: a set of grants\<close>

datatype grant = GrantHost string | GrantHash string

definition grants :: "(string, device_allowlist) fmap \<Rightarrow> (string \<times> grant) set" where
  "grants m =
     {(d, GrantHost h) | d h. \<exists>e. fmlookup m d = Some e \<and> h |\<in>| da_hosts e} \<union>
     {(d, GrantHash x) | d x. \<exists>e. fmlookup m d = Some e \<and> x |\<in>| da_hashes e}"

definition item_grant :: "review_item \<Rightarrow> review_scope \<Rightarrow> (string \<times> grant) set" where
  "item_grant item scope =
     (if scope = ThisHost
      then {(ri_device item, GrantHost h) | h. h = to_ascii_lowercase (trim (ri_host item)) \<and> h \<noteq> []}
      else {(ri_device item, GrantHash (hex b)) | b. b = ri_sha256 item \<and> b \<noteq> []})"

definition spec_apply :: "review_item \<Rightarrow> review_decision \<Rightarrow> review_scope \<Rightarrow>
    (string \<times> grant) set \<Rightarrow> (string \<times> grant) set" where
  "spec_apply item decision scope G =
     (case decision of
        Approve \<Rightarrow> (if ri_category item \<in> {CsamSuspected, CatUnspecified} then G
                    else G \<union> item_grant item scope)
      | Deny \<Rightarrow> (if scope = RsUnspecified then G - item_grant item ThisHost - item_grant item ThisItem
                 else G - item_grant item scope)
      | RdUnspecified \<Rightarrow> G)"

lemma grants_host [simp]:
  "(d, GrantHost h) \<in> grants m \<longleftrightarrow> (\<exists>e. fmlookup m d = Some e \<and> h |\<in>| da_hosts e)"
  by (auto simp: grants_def)

lemma grants_hash [simp]:
  "(d, GrantHash x) \<in> grants m \<longleftrightarrow> (\<exists>e. fmlookup m d = Some e \<and> x |\<in>| da_hashes e)"
  by (auto simp: grants_def)

lemma grants_eqI:
  "(\<And>d h. (d, GrantHost h) \<in> A \<longleftrightarrow> (d, GrantHost h) \<in> B) \<Longrightarrow>
   (\<And>d x. (d, GrantHash x) \<in> A \<longleftrightarrow> (d, GrantHash x) \<in> B) \<Longrightarrow> A = B"
  by (metis grant.exhaust set_eqI surj_pair)

lemma host_allowed_iff_grant:
  "is_host_allowed al d host \<longleftrightarrow>
     to_ascii_lowercase (trim host) \<noteq> [] \<and>
     (d, GrantHost (to_ascii_lowercase (trim host))) \<in> grants (al_per_device al)"
  by (auto simp: is_host_allowed_def allows_host_def Let_def split: option.splits)

lemma hash_allowed_iff_grant:
  "is_hash_allowed al d b \<longleftrightarrow> b \<noteq> [] \<and> (d, GrantHash (hex b)) \<in> grants (al_per_device al)"
  by (auto simp: is_hash_allowed_def allows_hash_def split: option.splits)

lemma grants_fmupd:
  "grants (fmupd d e m) =
     {g \<in> grants m. fst g \<noteq> d} \<union> {(d, GrantHost h) | h. h |\<in>| da_hosts e} \<union> {(d, GrantHash x) | x. x |\<in>| da_hashes e}"
  by (rule grants_eqI) auto

lemma grants_fmdrop: "grants (fmdrop d m) = {g \<in> grants m. fst g \<noteq> d}"
  by (rule grants_eqI) auto

lemma grants_default:
  "grants (fmupd d (case fmlookup m d of None \<Rightarrow> empty_device_allowlist | Some e \<Rightarrow> e) m) = grants m"
  by (rule grants_eqI) (auto simp: empty_device_allowlist_def split: option.splits)

lemma apply_approve_grants:
  "grants (snd (apply_approve item scope m)) = spec_apply item Approve scope (grants m)"
  by (rule grants_eqI)
     (auto simp: apply_approve_def spec_apply_def item_grant_def empty_device_allowlist_def Let_def
        split: review_scope.splits option.splits if_splits)

lemma deny_entry_hosts:
  "h |\<in>| da_hosts (deny_entry item scope e) \<longleftrightarrow>
     h |\<in>| da_hosts e \<and> \<not> (scope \<noteq> ThisItem \<and> h = to_ascii_lowercase (trim (ri_host item)) \<and> h \<noteq> [])"
  by (cases scope) (auto simp: deny_entry_def Let_def)

lemma deny_entry_hashes:
  "x |\<in>| da_hashes (deny_entry item scope e) \<longleftrightarrow>
     x |\<in>| da_hashes e \<and> \<not> (scope \<noteq> ThisHost \<and> ri_sha256 item \<noteq> [] \<and> x = hex (ri_sha256 item))"
  by (cases scope) (auto simp: deny_entry_def Let_def)

lemma apply_deny_grants:
  "grants (snd (apply_deny item scope m)) = spec_apply item Deny scope (grants m)"
proof (cases "fmlookup m (ri_device item)")
  case None
  then show ?thesis
    by (intro grants_eqI) (auto simp: apply_deny_def spec_apply_def item_grant_def)
next
  case (Some e)
  have E: "grants (snd (apply_deny item scope m)) = grants (fmupd (ri_device item) (deny_entry item scope e) m)"
    using Some by (auto simp: apply_deny_def Let_def device_is_empty_def grants_fmupd grants_fmdrop)
  show ?thesis unfolding E
    using Some
    by (cases scope; intro grants_eqI)
       (auto simp: spec_apply_def item_grant_def deny_entry_hosts deny_entry_hashes split: if_splits)
qed

lemma apply_decision_grants:
  "grants (snd (apply_decision item decision scope m)) = spec_apply item decision scope (grants m)"
  by (cases decision)
     (simp_all add: apply_decision_def apply_approve_grants apply_deny_grants, simp add: spec_apply_def)

lemma allowlist_apply_per_device:
  "al_per_device (snd (allowlist_apply sha al item decision scope ts)) =
     snd (apply_decision item decision scope (al_per_device al))"
  by (simp add: allowlist_apply_def Let_def split: prod.split)

lemma allowlist_apply_outcome:
  "fst (allowlist_apply sha al item decision scope ts) =
     fst (apply_decision item decision scope (al_per_device al))"
  by (simp add: allowlist_apply_def Let_def split: prod.split)

section \<open>The audit chain\<close>

definition audit_pairs :: "audit_entry list \<Rightarrow> (audit_entry \<times> string) list" where
  "audit_pairs es = map (\<lambda>e. (e\<lparr>au_chain_hash := []\<rparr>, au_chain_hash e)) es"

definition audit_entries :: "(audit_entry \<times> string) list \<Rightarrow> audit_entry list" where
  "audit_entries ps = map (\<lambda>(c, h). c\<lparr>au_chain_hash := h\<rparr>) ps"

definition audit_verify_pairs :: "(string \<Rightarrow> bytes) \<Rightarrow> (audit_entry \<times> string) list \<Rightarrow> nat option" where
  "audit_verify_pairs sha ps =
     (case audit_verify sha (audit_entries ps) of Inl i \<Rightarrow> Some i | Inr _ \<Rightarrow> None)"

lemma chain_hash_frame [simp]: "chain_hash sha p (e\<lparr>au_chain_hash := h\<rparr>) = chain_hash sha p e"
  by (simp add: chain_hash_def canonical_def)

lemma audit_verify_from_walk:
  "(case audit_verify_from sha p i (audit_entries ps) of Inl j \<Rightarrow> Some j | Inr _ \<Rightarrow> None) =
     walk (chain_hash sha) p i ps"
  by (induction "chain_hash sha" p i ps rule: walk.induct) (auto simp: audit_entries_def)

lemma audit_verify_pairs_walk: "audit_verify_pairs sha = walk (chain_hash sha) audit_genesis 0"
  by (rule ext) (simp add: audit_verify_pairs_def audit_verify_def audit_verify_from_walk)

interpretation audit_log: hash_chain "chain_hash sha" audit_genesis "audit_verify_pairs sha" for sha
  unfolding audit_verify_pairs_walk by (rule walk_hash_chain)

lemma audit_entries_pairs [simp]: "audit_entries (audit_pairs es) = es"
  by (induction es) (auto simp: audit_entries_def audit_pairs_def)

lemma audit_verify_Ok_iff: "audit_verify sha es = Ok () \<longleftrightarrow> audit_verify_pairs sha (audit_pairs es) = None"
  by (auto simp: audit_verify_pairs_def split: sum.splits)

lemma audit_verify_Err_iff: "audit_verify sha es = Err i \<longleftrightarrow> audit_verify_pairs sha (audit_pairs es) = Some i"
  by (auto simp: audit_verify_pairs_def split: sum.splits)

lemma audit_pairs_append:
  "audit_pairs (audit_append sha es e) =
     audit_pairs es @ [(e\<lparr>au_chain_hash := []\<rparr>, chain_hash sha (head_hash audit_genesis (audit_pairs es)) e)]"
  by (simp add: audit_pairs_def audit_append_def head_hash_def last_map Let_def)

lemma audit_append_verifies:
  assumes "audit_verify sha es = Ok ()"
  shows "audit_verify sha (audit_append sha es e) = Ok ()"
  using assms audit_log.append_verifies [of sha "audit_pairs es" "e\<lparr>au_chain_hash := []\<rparr>"]
  by (simp add: audit_verify_Ok_iff audit_pairs_append)

lemma allowlist_apply_audit:
  "\<exists>e. al_audit (snd (allowlist_apply sha al item decision scope ts)) = audit_append sha (al_audit al) e \<and>
     au_device e = ri_device item \<and> au_decision e = decision \<and> au_scope e = scope \<and>
     au_host e = to_ascii_lowercase (trim (ri_host item)) \<and>
     au_sha256_hex e = hex (ri_sha256 item) \<and> au_cat e = ri_category item \<and> au_time e = ts \<and>
     au_outcome e = fst (allowlist_apply sha al item decision scope ts)"
  by (auto simp: allowlist_apply_def Let_def split: prod.split)

section \<open>Reachable allowlists\<close>

inductive allowlist_reach :: "(string \<Rightarrow> bytes) \<Rightarrow> allowlist \<Rightarrow> bool" for sha where
  new: "allowlist_reach sha allowlist_new"
| decide: "allowlist_reach sha al \<Longrightarrow>
    allowlist_reach sha (snd (allowlist_apply sha al item decision scope ts))"

definition backs :: "audit_entry \<Rightarrow> string \<Rightarrow> grant \<Rightarrow> bool" where
  "backs e d g \<longleftrightarrow>
     au_device e = d \<and> au_decision e = Approve \<and> au_outcome e = Approved \<and>
     au_cat e \<notin> {CsamSuspected, CatUnspecified} \<and>
     (case g of GrantHost h \<Rightarrow> au_scope e = ThisHost \<and> au_host e = h
              | GrantHash x \<Rightarrow> au_scope e \<noteq> ThisHost \<and> au_sha256_hex e = x)"

lemma set_audit_append:
  "set (audit_append sha es e) = insert (e\<lparr>au_chain_hash := chain_hash sha (head_hash audit_genesis (audit_pairs es)) e\<rparr>) (set es)"
  by (simp add: audit_append_def head_hash_def audit_pairs_def last_map Let_def)

lemma backs_frame [simp]: "backs (e\<lparr>au_chain_hash := h\<rparr>) d g = backs e d g"
  by (cases g) (simp_all add: backs_def)

lemma approve_new_grant:
  assumes "(d, g) \<in> grants (snd (apply_decision item decision scope m))" "(d, g) \<notin> grants m"
  shows "decision = Approve \<and> d = ri_device item \<and> ri_category item \<notin> {CsamSuspected, CatUnspecified} \<and>
    fst (apply_decision item decision scope m) = Approved \<and>
    (case g of GrantHost h \<Rightarrow> scope = ThisHost \<and> h = to_ascii_lowercase (trim (ri_host item))
             | GrantHash x \<Rightarrow> scope \<noteq> ThisHost \<and> x = hex (ri_sha256 item))"
  using assms unfolding apply_decision_grants
  by (cases g)
     (auto simp: spec_apply_def item_grant_def apply_decision_def apply_approve_def Let_def
        split: review_decision.splits review_scope.splits if_splits)

lemma reach_backed:
  assumes "allowlist_reach sha al" "(d, g) \<in> grants (al_per_device al)"
  shows "\<exists>e\<in>set (al_audit al). backs e d g"
  using assms
proof (induction rule: allowlist_reach.induct)
  case new
  then show ?case by (simp add: allowlist_new_def grants_def)
next
  case (decide al item decision scope ts)
  obtain e where e: "al_audit (snd (allowlist_apply sha al item decision scope ts)) = audit_append sha (al_audit al) e"
      "au_device e = ri_device item" "au_decision e = decision" "au_scope e = scope"
      "au_host e = to_ascii_lowercase (trim (ri_host item))" "au_sha256_hex e = hex (ri_sha256 item)"
      "au_cat e = ri_category item" "au_outcome e = fst (allowlist_apply sha al item decision scope ts)"
    using allowlist_apply_audit by blast
  show ?case
  proof (cases "(d, g) \<in> grants (al_per_device al)")
    case True
    then show ?thesis using decide.IH e(1) by (auto simp: set_audit_append)
  next
    case False
    then have "backs e d g"
      using approve_new_grant [of d g item decision scope "al_per_device al"] decide.prems e
      by (auto simp: backs_def allowlist_apply_per_device allowlist_apply_outcome split: grant.splits)
    then show ?thesis using e(1) by (simp add: set_audit_append)
  qed
qed

lemma reach_verifies: "allowlist_reach sha al \<Longrightarrow> audit_verify sha (al_audit al) = Ok ()"
proof (induction rule: allowlist_reach.induct)
  case new
  then show ?case by (simp add: allowlist_new_def audit_verify_def)
next
  case (decide al item decision scope ts)
  then show ?case using allowlist_apply_audit audit_append_verifies by metis
qed

section \<open>Properties\<close>

text \<open>
  Applying a guardian decision acts on the stored hosts and hashes exactly as the
  specification acts on a set of grants: an approval adds the normalised host or the content
  hash of the reviewed item and nothing else, CSAM and uncovered items add nothing, a denial
  removes what its scope names, and no other device is touched. The two queries answer
  membership in that set.
\<close>

theorem allowlist_refines_grants:
  "grants (al_per_device (snd (allowlist_apply sha al item decision scope ts))) =
     spec_apply item decision scope (grants (al_per_device al)) \<and>
   is_host_allowed al d host =
     (to_ascii_lowercase (trim host) \<noteq> [] \<and>
      (d, GrantHost (to_ascii_lowercase (trim host))) \<in> grants (al_per_device al)) \<and>
   is_hash_allowed al d b = (b \<noteq> [] \<and> (d, GrantHash (hex b)) \<in> grants (al_per_device al))"
  by (simp add: allowlist_apply_per_device apply_decision_grants host_allowed_iff_grant
      hash_allowed_iff_grant)

text \<open>
  Claim C8. In every allowlist reachable from the empty one, a host or hash that is allowed
  for a device is backed by an entry of the audit log: an approval for that device and that
  host or hash, recorded with outcome approved and with a category other than CSAM and
  unspecified. So CSAM and uncovered content are never allowlisted, by any history.
\<close>

theorem allowed_only_by_audited_approval:
  assumes "allowlist_reach sha al"
  shows "(is_host_allowed al d host \<longrightarrow>
            (\<exists>e\<in>set (al_audit al). backs e d (GrantHost (to_ascii_lowercase (trim host))))) \<and>
         (is_hash_allowed al d b \<longrightarrow> (\<exists>e\<in>set (al_audit al). backs e d (GrantHash (hex b))))"
  using reach_backed [OF assms] by (simp add: host_allowed_iff_grant hash_allowed_iff_grant)

definition wit_sha :: "string \<Rightarrow> bytes" where
  "wit_sha s = [of_nat (length s), 171]"

definition wit_item :: review_item where
  "wit_item = \<lparr>ri_device = ''tablet'', ri_alert_id = ''a1'', ri_host = '' Example.COM '',
     ri_sha256 = [222, 173], ri_category = AdultImage\<rparr>"

definition wit_allowlist :: allowlist where
  "wit_allowlist = snd (allowlist_apply wit_sha allowlist_new wit_item Approve ThisHost 1)"

lemma wit_allowlist_reach: "allowlist_reach wit_sha wit_allowlist"
  unfolding wit_allowlist_def by (rule allowlist_reach.decide [OF allowlist_reach.new])

lemma wit_allowlist_allows: "is_host_allowed wit_allowlist ''tablet'' ''example.com''"
  by code_simp

theorem allowed_only_by_audited_approval_witness:
  "is_host_allowed wit_allowlist ''tablet'' ''example.com'' \<and>
   (\<exists>e\<in>set (al_audit wit_allowlist).
      backs e ''tablet'' (GrantHost (to_ascii_lowercase (trim ''example.com''))))"
  using allowed_only_by_audited_approval [OF wit_allowlist_reach] wit_allowlist_allows by blast

text \<open>
  The audit log of every reachable allowlist verifies, whatever decisions were
  applied: every call of apply appends exactly one entry, refusals included, and links it to
  the entry before.
\<close>

theorem reachable_audit_log_verifies:
  assumes "allowlist_reach sha al"
  shows "audit_verify sha (al_audit al) = Ok () \<and>
    audit_verify sha (al_audit (snd (allowlist_apply sha al item decision scope ts))) = Ok () \<and>
    length (al_audit (snd (allowlist_apply sha al item decision scope ts))) = Suc (length (al_audit al))"
proof -
  have "length (al_audit (snd (allowlist_apply sha al item decision scope ts))) = Suc (length (al_audit al))"
    by (simp add: allowlist_apply_def audit_append_def Let_def split: prod.split)
  then show ?thesis
    using reach_verifies [OF assms] reach_verifies [OF allowlist_reach.decide [OF assms]] by blast
qed

theorem reachable_audit_log_verifies_witness:
  "audit_verify wit_sha (al_audit wit_allowlist) = Ok () \<and>
   audit_verify wit_sha (al_audit (snd (allowlist_apply wit_sha wit_allowlist wit_item Deny RsUnspecified 2))) = Ok ()"
  using reachable_audit_log_verifies [OF wit_allowlist_reach] by blast

text \<open>
  Rewriting one entry of an intact audit log in place, its stored hash left as it
  was, is reported at the index of that entry, unless the digest of the new canonical line
  collides with the stored one.
\<close>

theorem audit_edit_reported:
  assumes ok: "audit_verify sha es = Ok ()" and i: "i < length es"
    and hash: "au_chain_hash e = au_chain_hash (es ! i)"
    and fresh: "chain_hash sha (if i = 0 then audit_genesis else au_chain_hash (es ! (i - 1))) e \<noteq> au_chain_hash e"
  shows "audit_verify sha (es[i := e]) = Err i"
proof -
  let ?c = "e\<lparr>au_chain_hash := []\<rparr>"
  have p: "audit_pairs (es[i := e]) = (audit_pairs es)[i := (?c, snd (audit_pairs es ! i))]"
    using i hash by (simp add: audit_pairs_def map_update)
  have "prev_hash audit_genesis (audit_pairs es) i = (if i = 0 then audit_genesis else au_chain_hash (es ! (i - 1)))"
    using i by (simp add: prev_hash_def audit_pairs_def)
  then show ?thesis
    using audit_log.edit_reported [of sha "audit_pairs es" i ?c] ok i hash fresh
    unfolding p audit_verify_Ok_iff audit_verify_Err_iff
    by (simp add: p audit_pairs_def)
qed

theorem audit_edit_reported_witness:
  "let es = al_audit wit_allowlist in
   audit_verify wit_sha (es[0 := (es ! 0)\<lparr>au_device := ''phone''\<rparr>]) = Err 0"
proof -
  have "audit_verify wit_sha (al_audit wit_allowlist) = Ok ()" by code_simp
  moreover have "0 < length (al_audit wit_allowlist)" by code_simp
  moreover have "au_chain_hash ((al_audit wit_allowlist ! 0)\<lparr>au_device := ''phone''\<rparr>) = au_chain_hash (al_audit wit_allowlist ! 0)"
    by simp
  moreover have "chain_hash wit_sha (if (0::nat) = 0 then audit_genesis else au_chain_hash (al_audit wit_allowlist ! (0 - 1)))
      ((al_audit wit_allowlist ! 0)\<lparr>au_device := ''phone''\<rparr>) \<noteq>
      au_chain_hash ((al_audit wit_allowlist ! 0)\<lparr>au_device := ''phone''\<rparr>)"
    by code_simp
  ultimately show ?thesis unfolding Let_def by (rule audit_edit_reported)
qed

text \<open>
  The audit chain does not tell all entries apart: the canonical line separates its
  fields with a bar and does not escape bars, so for every digest there are two entries with
  different device ids and alert ids that have the same chain hash, and one can replace the
  other in a log that still verifies.
\<close>

theorem audit_canonical_ambiguous:
  "\<exists>e e'. au_device e \<noteq> au_device e' \<and> au_alert e \<noteq> au_alert e' \<and>
     (\<forall>sha previous. chain_hash sha previous e = chain_hash sha previous e') \<and>
     (\<forall>sha. audit_verify sha (audit_append sha [] e) = Ok () \<and>
        audit_verify sha [e'\<lparr>au_chain_hash := chain_hash sha audit_genesis e\<rparr>] = Ok ())"
proof -
  let ?mk = "\<lambda>d a. \<lparr>au_device = d, au_alert = a, au_decision = Approve, au_scope = ThisHost, au_host = ''h'',
    au_sha256_hex = [], au_cat = AdultText, au_outcome = Approved, au_time = 1, au_chain_hash = []\<rparr>"
  let ?e = "?mk ''a'' ''b|c''" and ?e' = "?mk ''a|b'' ''c''"
  have same: "chain_hash sha p ?e = chain_hash sha p ?e'" for sha p
    by (simp add: chain_hash_def canonical_def)
  moreover have "audit_verify sha (audit_append sha [] ?e) = Ok ()" for sha
    by (rule audit_append_verifies) (simp add: audit_verify_def)
  moreover have "audit_verify sha [?e'\<lparr>au_chain_hash := chain_hash sha audit_genesis ?e\<rparr>] = Ok ()" for sha
    by (simp add: audit_verify_def chain_hash_def canonical_def)
  ultimately show ?thesis by (intro exI [of _ ?e] exI [of _ ?e']) simp
qed

end
