(* ===== verification/Policy.thy ===== *)
theory Policy
  imports PolicyConfig Allowlist
begin

text \<open>
  The policy engine of \<open>bulwark-policy/src/lib.rs\<close>: one total function from a verdict, the
  context and the configuration to a decision (action, alert, severity, reason, report
  flag), the variant that consults the guardian allowlist first, and the \<open>PolicyEngine\<close>
  trait, whose contract is the locale \<open>policy_engine\<close>.
\<close>

section \<open>Decisions\<close>

record policy_context =
  ctx_device :: string
  ctx_source_channel :: source_channel
  ctx_age_profile :: age_profile

record policy_decision =
  pd_action :: action
  pd_raise_alert :: "alert_kind option"
  pd_severity :: severity
  pd_reason :: string
  pd_report :: bool

definition policy_decision_new :: "action \<Rightarrow> alert_kind option \<Rightarrow> severity \<Rightarrow> string \<Rightarrow> policy_decision" where
  "policy_decision_new a k s r =
     \<lparr>pd_action = a, pd_raise_alert = k, pd_severity = s, pd_reason = r, pd_report = False\<rparr>"

fun category_label :: "category \<Rightarrow> string" where
  "category_label CatUnspecified = ''unspecified''"
| "category_label Safe = ''safe''"
| "category_label AdultImage = ''adult image''"
| "category_label AdultAudio = ''adult audio''"
| "category_label AdultText = ''adult text''"
| "category_label Grooming = ''grooming''"
| "category_label CsamSuspected = ''CSAM suspected''"
| "category_label Violence = ''violence''"
| "category_label SelfHarm = ''self-harm''"
| "category_label Hate = ''hate''"

definition decide_grooming :: "policy_config \<Rightarrow> f32 \<Rightarrow> thresholds \<Rightarrow> policy_decision" where
  "decide_grooming cfg score t =
     (if \<not> pc_grooming_alert_not_block cfg \<and> f32_ge score (th_block t) then
        policy_decision_new Block (Some Intervention) High
          (''grooming at/above block threshold ('' @ fmt2 score @ ''); blocked (grooming_alert_not_block disabled)'')
      else if f32_ge score (th_block t) then
        policy_decision_new Log (Some GroomingSuspected) High
          (''grooming suspected (high, '' @ fmt2 score @
           ''); logged + alerted for human review (not auto-blocked: minimize false-positive harm)'')
      else if f32_ge score (th_flag t) then
        policy_decision_new Log (Some GroomingSuspected) Medium
          (''grooming suspected (borderline, '' @ fmt2 score @ ''); logged + alerted, conversation NOT blocked'')
      else
        policy_decision_new Log None Low (''grooming indicators (low, '' @ fmt2 score @ ''); logged''))"

fun enforce_action :: "category \<Rightarrow> age_band \<Rightarrow> action" where
  "enforce_action AdultImage band = (if ab_adult_image_prefer_blur band then Blur else Block)"
| "enforce_action AdultAudio band = Mute"
| "enforce_action _ band = Block"

fun flag_action :: "category \<Rightarrow> age_band \<Rightarrow> action \<times> alert_kind option" where
  "flag_action AdultImage band =
     ((if ab_adult_image_prefer_blur band then Blur else Block), Some Intervention)"
| "flag_action AdultAudio band = (Mute, Some Intervention)"
| "flag_action AdultText band =
     (if ab_adult_text_flag_blocks band then (Block, Some Intervention) else (Warn, Some Intervention))"
| "flag_action _ band = (Warn, Some Intervention)"

definition evaluate :: "policy_config \<Rightarrow> verdict \<Rightarrow> policy_context \<Rightarrow> policy_decision" where
  "evaluate cfg v ctx =
     (let category = verdict_category v;
          score = f32_clamp (Fin 0) (Fin 1) (verdict_score v);
          band = policy_band cfg (ctx_age_profile ctx);
          t = ab_thresholds band
      in if category = CsamSuspected then
           (policy_decision_new Block (Some Intervention) Critical
              ''CSAM suspected: blocked and never shown or stored'')\<lparr>pd_report := pc_csam_report_flag cfg\<rparr>
         else if category = CatUnspecified then
           (if pc_fail_closed_uncovered cfg then
              policy_decision_new Block (Some Intervention) High
                ''content could not be analyzed (no coverage); blocked (fail-closed)''
            else policy_decision_new Allow None Info
                ''content could not be analyzed (no coverage); allowed (fail-open)'')
         else if category = Safe then policy_decision_new Allow None Info ''safe content''
         else if f32_lt score (th_log t) then
           policy_decision_new Allow None Info ''score below log threshold; allowed''
         else if category = Grooming then decide_grooming cfg score t
         else if f32_ge score (th_block t) then
           policy_decision_new (enforce_action category band) (Some Intervention) High
             (category_label category @ '' at/above block threshold ('' @ fmt2 score @ '' >= '' @
              fmt2 (th_block t) @ ''); enforced'')
         else if f32_ge score (th_flag t) then
           (let (act, alert) = flag_action category band
            in policy_decision_new act alert Medium
                 (category_label category @ '' in flag band ('' @ fmt2 score @ ''); recorded''))
         else policy_decision_new Log None Low
                (category_label category @ '' in log band ('' @ fmt2 score @ ''); recorded''))"

definition decide_with_allowlist ::
    "policy_config \<Rightarrow> verdict \<Rightarrow> policy_context \<Rightarrow> allowlist \<Rightarrow> string \<Rightarrow> policy_decision" where
  "decide_with_allowlist cfg v ctx al host =
     (let host_allowed = host \<noteq> [] \<and> is_host_allowed al (ctx_device ctx) host;
          hash_allowed = (case v_evidence v of
                            None \<Rightarrow> False
                          | Some e \<Rightarrow> is_hash_allowed al (ctx_device ctx) (ev_sha256 e));
          why = (if host_allowed \<and> hash_allowed then ''host and content hash''
                 else if host_allowed then ''host'' else ''content hash'')
      in if verdict_category v \<notin> {CsamSuspected, CatUnspecified} \<and> (host_allowed \<or> hash_allowed)
         then policy_decision_new Allow None Info
                (''guardian-approved ('' @ why @ ''); allowlisted for this device'')
         else evaluate cfg v ctx)"

section \<open>The PolicyEngine trait\<close>

definition is_intervention :: "action \<Rightarrow> bool" where
  "is_intervention a \<longleftrightarrow> a \<in> {Block, Blur, Mute, Warn}"

definition policy_decide :: "policy_config \<Rightarrow> verdict \<Rightarrow> policy_context \<Rightarrow> action" where
  "policy_decide cfg v ctx = pd_action (evaluate cfg v ctx)"

definition policy_alert_for ::
    "policy_config \<Rightarrow> verdict \<Rightarrow> action \<Rightarrow> policy_context \<Rightarrow> alert_kind option" where
  "policy_alert_for cfg v a ctx =
     (case pd_raise_alert (evaluate cfg v ctx) of
        Some kind \<Rightarrow> Some kind
      | None \<Rightarrow> if is_intervention a then Some Intervention else None)"

text \<open>
  What a caller of the trait relies on: an action that visibly acts on content is always
  accompanied by an alert, whether the engine chose it or the caller overrode it, and
  suspected CSAM is blocked and alerted in every context.
\<close>

locale policy_engine =
  fixes decide :: "verdict \<Rightarrow> policy_context \<Rightarrow> action"
    and alert_for :: "verdict \<Rightarrow> action \<Rightarrow> policy_context \<Rightarrow> alert_kind option"
  assumes acted_alerts: "is_intervention a \<Longrightarrow> alert_for v a c \<noteq> None"
    and csam_blocked: "verdict_category v = CsamSuspected \<Longrightarrow> decide v c = Block"
    and csam_alerted: "verdict_category v = CsamSuspected \<Longrightarrow> alert_for v a c = Some Intervention"
    and alert_own: "alert_for v (decide v c) c = alert_for v a c \<or> is_intervention a \<and> alert_for v a c = Some Intervention"
begin

lemma silent_never_acts:
  assumes "alert_for v (decide v c) c = None"
  shows "\<not> is_intervention (decide v c)"
  using assms acted_alerts by blast

lemma override_adds_only_interventions:
  assumes "alert_for v (decide v c) c = None" "alert_for v a c = Some k"
  shows "is_intervention a \<and> k = Intervention"
  using assms alert_own [of v c a] by auto

lemma csam_never_overridden_silently:
  "verdict_category v = CsamSuspected \<Longrightarrow> alert_for v (decide v c) c = Some Intervention \<and> is_intervention (decide v c)"
  by (simp add: csam_alerted csam_blocked is_intervention_def)

end

section \<open>Specification: the band table\<close>

text \<open>
  The table of the crate's documentation, written over the band a score falls into rather
  than over the ladder of comparisons.
\<close>

datatype score_band = BelowLog | LogBand | FlagBand | BlockBand

definition score_band :: "thresholds \<Rightarrow> f32 \<Rightarrow> score_band" where
  "score_band t s =
     (if f32_lt s (th_log t) then BelowLog
      else if f32_lt s (th_flag t) then LogBand
      else if f32_lt s (th_block t) then FlagBand
      else BlockBand)"

definition band_rank :: "score_band \<Rightarrow> nat" where
  "band_rank b = (case b of BelowLog \<Rightarrow> 0 | LogBand \<Rightarrow> 1 | FlagBand \<Rightarrow> 2 | BlockBand \<Rightarrow> 3)"

fun spec_band :: "policy_config \<Rightarrow> age_band \<Rightarrow> category \<Rightarrow> score_band \<Rightarrow>
    action \<times> alert_kind option \<times> severity" where
  "spec_band cfg ab c BelowLog = (Allow, None, Info)"
| "spec_band cfg ab c LogBand = (Log, None, Low)"
| "spec_band cfg ab c FlagBand =
     (if c = Grooming then (Log, Some GroomingSuspected, Medium)
      else (case c of
              AdultImage \<Rightarrow> if ab_adult_image_prefer_blur ab then Blur else Block
            | AdultAudio \<Rightarrow> Mute
            | AdultText \<Rightarrow> if ab_adult_text_flag_blocks ab then Block else Warn
            | _ \<Rightarrow> Warn, Some Intervention, Medium))"
| "spec_band cfg ab c BlockBand =
     (if c = Grooming \<and> pc_grooming_alert_not_block cfg then (Log, Some GroomingSuspected, High)
      else (case c of
              AdultImage \<Rightarrow> if ab_adult_image_prefer_blur ab then Blur else Block
            | AdultAudio \<Rightarrow> Mute
            | _ \<Rightarrow> Block, Some Intervention, High))"

definition spec_decision :: "policy_config \<Rightarrow> verdict \<Rightarrow> policy_context \<Rightarrow> action \<times> alert_kind option \<times> severity" where
  "spec_decision cfg v ctx =
     (let ab = policy_band cfg (ctx_age_profile ctx)
      in case verdict_category v of
           CsamSuspected \<Rightarrow> (Block, Some Intervention, Critical)
         | CatUnspecified \<Rightarrow> (if pc_fail_closed_uncovered cfg then (Block, Some Intervention, High) else (Allow, None, Info))
         | Safe \<Rightarrow> (Allow, None, Info)
         | c \<Rightarrow> spec_band cfg ab c (score_band (ab_thresholds ab) (f32_clamp (Fin 0) (Fin 1) (verdict_score v))))"

definition decision_view :: "policy_decision \<Rightarrow> action \<times> alert_kind option \<times> severity" where
  "decision_view d = (pd_action d, pd_raise_alert d, pd_severity d)"

section \<open>Lemmas\<close>

lemma policy_decision_new_simps [simp]:
  "pd_action (policy_decision_new a k s r) = a" "pd_raise_alert (policy_decision_new a k s r) = k"
  "pd_severity (policy_decision_new a k s r) = s" "pd_reason (policy_decision_new a k s r) = r"
  "pd_report (policy_decision_new a k s r) = False"
  by (simp_all add: policy_decision_new_def)

lemma decision_view_new [simp]: "decision_view (policy_decision_new a k s r) = (a, k, s)"
  by (simp add: decision_view_def)

lemma enforce_intervenes: "is_intervention (enforce_action c b)"
  by (cases c) (simp_all add: is_intervention_def)

lemma flag_alerts: "snd (flag_action c b) = Some Intervention"
  by (cases c) simp_all

lemma flag_intervenes: "is_intervention (fst (flag_action c b))"
  by (cases c) (simp_all add: is_intervention_def)

lemma decide_grooming_report [simp]: "\<not> pd_report (decide_grooming cfg s t)"
  by (simp add: decide_grooming_def)

lemma evaluate_report:
  "pd_report (evaluate cfg v ctx) \<longleftrightarrow> verdict_category v = CsamSuspected \<and> pc_csam_report_flag cfg"
  by (simp add: evaluate_def Let_def split: prod.split)

lemma evaluate_alert_iff:
  "pd_raise_alert (evaluate cfg v ctx) = None \<longleftrightarrow>
     pd_action (evaluate cfg v ctx) = Allow \<or>
     pd_action (evaluate cfg v ctx) = Log \<and> pd_severity (evaluate cfg v ctx) = Low"
proof -
  have "fst (flag_action c b) \<noteq> Allow \<and> fst (flag_action c b) \<noteq> Log" for c b
    using flag_intervenes [of c b] by (auto simp: is_intervention_def)
  moreover have "enforce_action c b \<noteq> Allow \<and> enforce_action c b \<noteq> Log" for c b
    using enforce_intervenes [of c b] by (auto simp: is_intervention_def)
  ultimately show ?thesis
    using flag_alerts [of "verdict_category v"]
    by (auto simp: evaluate_def decide_grooming_def Let_def case_prod_beta)
qed

lemma evaluate_intervention_alerts:
  "is_intervention (pd_action (evaluate cfg v ctx)) \<Longrightarrow> pd_raise_alert (evaluate cfg v ctx) \<noteq> None"
  using evaluate_alert_iff [of cfg v ctx] by (auto simp: is_intervention_def)

lemma evaluate_csam:
  "verdict_category v = CsamSuspected \<Longrightarrow>
     decision_view (evaluate cfg v ctx) = (Block, Some Intervention, Critical)"
  by (simp add: evaluate_def Let_def decision_view_def)

interpretation policy: policy_engine "policy_decide cfg" "policy_alert_for cfg" for cfg
proof
  show "is_intervention a \<Longrightarrow> policy_alert_for cfg v a c \<noteq> None" for a v c
    by (simp add: policy_alert_for_def split: option.split)
  show "policy_decide cfg v c = Block" if "verdict_category v = CsamSuspected" for v c
    using evaluate_csam [OF that] by (simp add: policy_decide_def decision_view_def)
  show "policy_alert_for cfg v a c = Some Intervention" if "verdict_category v = CsamSuspected" for v a c
    using evaluate_csam [OF that, of cfg c] by (simp add: policy_alert_for_def decision_view_def)
  show "policy_alert_for cfg v (policy_decide cfg v c) c = policy_alert_for cfg v a c \<or>
      is_intervention a \<and> policy_alert_for cfg v a c = Some Intervention" for v c a
    using evaluate_intervention_alerts [of cfg v c]
    by (auto simp: policy_alert_for_def policy_decide_def split: option.split)
qed

lemma thresholds_valid_not_nan:
  "thresholds_valid t \<Longrightarrow> th_log t \<noteq> NaN \<and> th_flag t \<noteq> NaN \<and> th_block t \<noteq> NaN"
  by (auto simp: thresholds_valid_def threshold_in_range_def)

lemma score_band_ladder:
  assumes "s \<noteq> NaN" "thresholds_valid t"
  shows "score_band t s =
    (if f32_lt s (th_log t) then BelowLog else if f32_ge s (th_block t) then BlockBand
     else if f32_ge s (th_flag t) then FlagBand else LogBand)"
proof -
  have "f32_lt s x \<longleftrightarrow> \<not> f32_ge s x" if "x \<noteq> NaN" for x
    using f32_not_lt [OF assms(1) that] by blast
  then show ?thesis
    using thresholds_valid_not_nan [OF assms(2)] assms(2) f32_le_trans [of "th_flag t" "th_block t" s]
    by (auto simp: score_band_def thresholds_valid_def)
qed

lemma clamp_not_nan: "x \<noteq> NaN \<Longrightarrow> f32_clamp (Fin 0) (Fin 1) x \<noteq> NaN"
  by (auto simp: f32_clamp_def Let_def)

lemma score_band_mono:
  assumes "f32_le x y" "thresholds_valid t"
  shows "band_rank (score_band t x) \<le> band_rank (score_band t y)"
proof -
  note n = f32_le_not_nan [OF assms(1)] thresholds_valid_not_nan [OF assms(2)]
  have "f32_lt y e \<Longrightarrow> f32_lt x e" for e
    using assms(1) f32_le_lt_trans by blast
  then show ?thesis by (auto simp: score_band_def band_rank_def)
qed

fun band_severity :: "score_band \<Rightarrow> severity" where
  "band_severity BelowLog = Info"
| "band_severity LogBand = Low"
| "band_severity FlagBand = Medium"
| "band_severity BlockBand = High"

lemma spec_band_severity: "snd (snd (spec_band cfg ab c b)) = band_severity b"
  by (cases b) (auto split: category.split)

lemma spec_band_intervenes:
  "c \<noteq> Grooming \<Longrightarrow> is_intervention (fst (spec_band cfg ab c b)) \<longleftrightarrow> 2 \<le> band_rank b"
  by (cases b) (auto simp: is_intervention_def band_rank_def split: category.split)

lemma band_severity_mono: "band_rank a \<le> band_rank b \<Longrightarrow> band_severity a \<le> band_severity b"
  by (cases a; cases b) (simp_all add: band_rank_def less_eq_severity_def)

lemma score_band_antimono:
  assumes "f32_le (th_log t) (th_log t')" "f32_le (th_flag t) (th_flag t')" "f32_le (th_block t) (th_block t')"
  shows "band_rank (score_band t' s) \<le> band_rank (score_band t s)"
proof -
  have "f32_lt s x \<Longrightarrow> f32_lt s y" if "f32_le x y" for x y
    using that f32_lt_le_trans by blast
  then show ?thesis using assms by (auto simp: score_band_def band_rank_def)
qed

lemma age_thresholds_mono:
  assumes "p \<le> q"
  shows "f32_le (th_log (ab_thresholds (age_band_for_profile p))) (th_log (ab_thresholds (age_band_for_profile q)))"
    and "f32_le (th_flag (ab_thresholds (age_band_for_profile p))) (th_flag (ab_thresholds (age_band_for_profile q)))"
    and "f32_le (th_block (ab_thresholds (age_band_for_profile p))) (th_block (ab_thresholds (age_band_for_profile q)))"
  using assms
  by (cases p; cases q;
      simp add: less_eq_age_profile_def age_band_for_profile.simps thresholds_default_def f32_lit_def)+

lemma evaluate_spec:
  assumes valid: "policy_config_validate cfg = Ok ()" and score: "verdict_score v \<noteq> NaN"
  shows "decision_view (evaluate cfg v ctx) = spec_decision cfg v ctx"
proof -
  let ?ab = "policy_band cfg (ctx_age_profile ctx)" and ?s = "f32_clamp (Fin 0) (Fin 1) (verdict_score v)"
  have "thresholds_valid (ab_thresholds ?ab)" using valid by (simp add: policy_config_validate_Ok)
  then have band: "score_band (ab_thresholds ?ab) ?s =
      (if f32_lt ?s (th_log (ab_thresholds ?ab)) then BelowLog
       else if f32_ge ?s (th_block (ab_thresholds ?ab)) then BlockBand
       else if f32_ge ?s (th_flag (ab_thresholds ?ab)) then FlagBand else LogBand)"
    using score_band_ladder clamp_not_nan [OF score] by blast
  show ?thesis
    by (cases "verdict_category v")
       (simp_all add: evaluate_def spec_decision_def Let_def band decide_grooming_def decision_view_def)
qed

lemma evaluate_graded:
  assumes "policy_config_validate cfg = Ok ()" "verdict_score v \<noteq> NaN"
    and "verdict_category v \<notin> {CsamSuspected, CatUnspecified, Safe}"
  shows "decision_view (evaluate cfg v ctx) =
    spec_band cfg (policy_band cfg (ctx_age_profile ctx)) (verdict_category v)
      (score_band (ab_thresholds (policy_band cfg (ctx_age_profile ctx))) (f32_clamp (Fin 0) (Fin 1) (verdict_score v)))"
  using assms(3) unfolding evaluate_spec [OF assms(1,2)]
  by (cases "verdict_category v") (simp_all add: spec_decision_def Let_def)

lemma decision_view_sel:
  "pd_action d = fst (decision_view d)" "pd_severity d = snd (snd (decision_view d))"
  by (simp_all add: decision_view_def)

lemma evaluate_ungraded:
  assumes "verdict_category v \<in> {CsamSuspected, CatUnspecified, Safe}" "verdict_category v' = verdict_category v"
  shows "evaluate cfg v' ctx' = evaluate cfg v ctx"
  using assms by (auto simp: evaluate_def Let_def)

section \<open>Properties\<close>


definition sample_verdict :: "category \<Rightarrow> f32_bits \<Rightarrow> verdict" where
  "sample_verdict c score = \<lparr>v_request_id = ''r1'', v_category = category_i32 c, v_action = 1, v_severity = 0,
     v_score = score, v_rationale = [], v_evidence = None, v_grooming = None, v_worker_id = [],
     v_latency_ms = 0, v_local_segment_uri = [], v_remediated_media = []\<rparr>"

definition sample_context :: "age_profile \<Rightarrow> policy_context" where
  "sample_context p = \<lparr>ctx_device = ''tablet'', ctx_source_channel = Web, ctx_age_profile = p\<rparr>"

lemma sample_verdict_category [simp]: "verdict_category (sample_verdict c s) = c"
  by (simp add: sample_verdict_def verdict_category_def)

lemma sample_verdict_score [simp]: "verdict_score (sample_verdict c s) = f32_of_bits s"
  by (simp add: sample_verdict_def verdict_score_def)

lemma load_default: "policy_config_load (Ok policy_config_default) = Ok policy_config_default"
  by (simp add: policy_config_load_def policy_config_default_valid)


text \<open>
  Claim C2. Suspected CSAM is blocked, alerted as an intervention and graded critical under
  every configuration, age profile, score (NaN included), allowlist and host, and the report
  flag follows the configuration; no other category ever sets the report flag.
\<close>

theorem csam_always_blocked:
  "(verdict_category v = CsamSuspected \<longrightarrow>
      decision_view (decide_with_allowlist cfg v ctx al host) = (Block, Some Intervention, Critical) \<and>
      pd_report (decide_with_allowlist cfg v ctx al host) = pc_csam_report_flag cfg) \<and>
   (pd_report (decide_with_allowlist cfg v ctx al host) \<longrightarrow> verdict_category v = CsamSuspected)"
  using evaluate_csam [of v cfg ctx] evaluate_report [of cfg v ctx]
  by (auto simp: decide_with_allowlist_def Let_def)

theorem csam_always_blocked_witness:
  "decision_view (decide_with_allowlist policy_config_default (sample_verdict CsamSuspected 0) (sample_context Teen)
     wit_allowlist ''example.com'') = (Block, Some Intervention, Critical)"
  using csam_always_blocked [of "sample_verdict CsamSuspected 0"] by simp

text \<open>
  A verdict whose category number is no known category, negative or unspecified
  included, is treated as uncovered content: with the fail-closed switch on it is blocked
  with an intervention alert, whatever the score and whatever the guardian has allowlisted.
\<close>

theorem unknown_category_fails_closed:
  assumes "v_category v < 1 \<or> 9 < v_category v" and "pc_fail_closed_uncovered cfg"
  shows "decision_view (decide_with_allowlist cfg v ctx al host) = (Block, Some Intervention, High)"
proof -
  have "verdict_category v = CatUnspecified"
    using assms(1) category_of_i32_unknown [of "v_category v"] category_of_i32_i32 [of CatUnspecified]
    by (cases "v_category v = 0") (auto simp: verdict_category_def)
  then show ?thesis
    using assms(2) by (simp add: decide_with_allowlist_def evaluate_def Let_def)
qed

theorem unknown_category_fails_closed_witness:
  "decision_view (decide_with_allowlist policy_config_default
     ((sample_verdict Safe 0)\<lparr>v_category := 42\<rparr>) (sample_context Teen) wit_allowlist ''example.com'') =
   (Block, Some Intervention, High)"
  by (rule unknown_category_fails_closed) (simp_all add: policy_config_default_def)

text \<open>
  For a fixed category the engine never relents as the score grows: with a
  validated configuration a higher score gives at least the same severity, and for every
  category but grooming it keeps an intervention an intervention.
\<close>

theorem decision_monotone_in_score:
  assumes valid: "policy_config_validate cfg = Ok ()" and le: "f32_le (verdict_score v) (verdict_score v')"
    and cat: "verdict_category v' = verdict_category v"
  shows "pd_severity (evaluate cfg v ctx) \<le> pd_severity (evaluate cfg v' ctx) \<and>
    (verdict_category v \<noteq> Grooming \<and> is_intervention (pd_action (evaluate cfg v ctx)) \<longrightarrow>
      is_intervention (pd_action (evaluate cfg v' ctx)))"
proof (cases "verdict_category v \<in> {CsamSuspected, CatUnspecified, Safe}")
  case True
  then show ?thesis using evaluate_ungraded [OF _ cat, of cfg ctx ctx] by simp
next
  case False
  let ?ab = "policy_band cfg (ctx_age_profile ctx)"
  have tv: "thresholds_valid (ab_thresholds ?ab)" using valid by (simp add: policy_config_validate_Ok)
  have "f32_le (f32_clamp (Fin 0) (Fin 1) (verdict_score v)) (f32_clamp (Fin 0) (Fin 1) (verdict_score v'))"
    by (rule f32_clamp_mono [OF le]) simp
  note band = score_band_mono [OF this tv]
  have "verdict_score v \<noteq> NaN" "verdict_score v' \<noteq> NaN" using f32_le_not_nan [OF le] by auto
  note views = evaluate_graded [OF valid this(1) False, of ctx]
    evaluate_graded [OF valid this(2), of ctx, unfolded cat, OF False]
  show ?thesis
    using band band_severity_mono [OF band]
    by (cases "verdict_category v = Grooming")
       (simp_all add: decision_view_sel views spec_band_severity spec_band_intervenes)
qed

theorem decision_monotone_in_score_witness:
  "pd_severity (evaluate policy_config_default (sample_verdict AdultImage 0x3F000000) (sample_context Teen)) \<le>
   pd_severity (evaluate policy_config_default (sample_verdict AdultImage 0x3F800000) (sample_context Teen))"
proof -
  have "f32_le (verdict_score (sample_verdict AdultImage 0x3F000000)) (verdict_score (sample_verdict AdultImage 0x3F800000))"
    by (simp add: f32_of_bits_examples)
  then show ?thesis using decision_monotone_in_score [OF policy_config_default_valid] by simp
qed

text \<open>
  Under the default configuration a younger age profile is never treated more
  leniently: the same verdict gets at least the same severity, and an intervention for the
  older profile is an intervention for the younger one.
\<close>

theorem younger_profiles_stricter:
  assumes "p \<le> q" and "verdict_score v \<noteq> NaN"
  shows "pd_severity (evaluate policy_config_default v (ctx\<lparr>ctx_age_profile := q\<rparr>)) \<le>
      pd_severity (evaluate policy_config_default v (ctx\<lparr>ctx_age_profile := p\<rparr>)) \<and>
    (is_intervention (pd_action (evaluate policy_config_default v (ctx\<lparr>ctx_age_profile := q\<rparr>))) \<longrightarrow>
      is_intervention (pd_action (evaluate policy_config_default v (ctx\<lparr>ctx_age_profile := p\<rparr>))))"
proof (cases "verdict_category v \<in> {CsamSuspected, CatUnspecified, Safe}")
  case True
  then show ?thesis
    using evaluate_ungraded [OF True refl, of _ "ctx\<lparr>ctx_age_profile := q\<rparr>" "ctx\<lparr>ctx_age_profile := p\<rparr>"] by simp
next
  case False
  note band = score_band_antimono [OF age_thresholds_mono [OF assms(1)],
      of "f32_clamp (Fin 0) (Fin 1) (verdict_score v)"]
  note views = evaluate_graded [OF policy_config_default_valid assms(2) False]
  have groom: "pc_grooming_alert_not_block policy_config_default"
    by (simp add: policy_config_default_def)
  have "is_intervention (fst (spec_band policy_config_default ab Grooming b)) \<longleftrightarrow> False" for ab b
    using groom by (cases b) (simp_all add: is_intervention_def)
  then show ?thesis
    using band band_severity_mono [OF band]
    by (cases "verdict_category v = Grooming")
       (simp_all add: decision_view_sel views spec_band_severity spec_band_intervenes)
qed

theorem younger_profiles_stricter_witness:
  "pd_severity (evaluate policy_config_default (sample_verdict AdultText 0x3F1C28F6) (sample_context Teen)) \<le>
   pd_severity (evaluate policy_config_default (sample_verdict AdultText 0x3F1C28F6) (sample_context YoungChild))"
proof -
  have "YoungChild \<le> Teen" by (simp add: less_eq_age_profile_def)
  moreover have "verdict_score (sample_verdict AdultText 0x3F1C28F6) \<noteq> NaN"
    by (simp add: f32_of_bits_examples f32_lit_def)
  ultimately show ?thesis
    using younger_profiles_stricter [of YoungChild Teen "sample_verdict AdultText 0x3F1C28F6" "sample_context Teen"]
    by (simp add: sample_context_def)
qed

text \<open>
  The engine never acts silently: if no alert is raised for its own decision then
  the action only forwards or records, and a caller who overrides the action gets an
  intervention alert exactly when the override visibly acts on the content.
\<close>

theorem interventions_always_alert:
  "(policy_alert_for cfg v (policy_decide cfg v ctx) ctx = None \<longrightarrow>
      \<not> is_intervention (policy_decide cfg v ctx) \<and>
      policy_alert_for cfg v a ctx = (if is_intervention a then Some Intervention else None)) \<and>
   (is_intervention a \<longrightarrow> policy_alert_for cfg v a ctx \<noteq> None)"
proof -
  have "policy_alert_for cfg v a ctx = (if is_intervention a then Some Intervention else None)"
    if "policy_alert_for cfg v (policy_decide cfg v ctx) ctx = None"
    using policy.override_adds_only_interventions [OF that, of a] policy.acted_alerts [of a cfg v ctx]
    by (cases "policy_alert_for cfg v a ctx") auto
  then show ?thesis
    using policy.silent_never_acts [of cfg v ctx] policy.acted_alerts [of a cfg v ctx] by auto
qed

theorem interventions_always_alert_witness:
  "policy_alert_for policy_config_default (sample_verdict AdultText 0) Block (sample_context Teen) = Some Intervention \<and>
   policy_alert_for policy_config_default (sample_verdict AdultText 0) Log (sample_context Teen) = None"
proof -
  have "policy_alert_for policy_config_default (sample_verdict AdultText 0)
      (policy_decide policy_config_default (sample_verdict AdultText 0) (sample_context Teen)) (sample_context Teen) = None"
    by (simp add: policy_alert_for_def policy_decide_def evaluate_def sample_context_def is_intervention_def
        age_band_for_profile.simps thresholds_default_def f32_of_bits_examples f32_lit_def f32_clamp_def Let_def Fract_of_int_quotient)
  with interventions_always_alert [of policy_config_default "sample_verdict AdultText 0" "sample_context Teen" Block]
    interventions_always_alert [of policy_config_default "sample_verdict AdultText 0" "sample_context Teen" Log]
  show ?thesis by (simp add: is_intervention_def)
qed

text \<open>
  With the false-positive switch on, which is the default, a grooming verdict never
  blocks, blurs, mutes or warns: it is allowed or logged, and from the flag edge on it raises
  a grooming alert.
\<close>

theorem grooming_alerts_never_blocks:
  assumes "verdict_category v = Grooming" and "pc_grooming_alert_not_block cfg"
  shows "pd_action (evaluate cfg v ctx) \<in> {Allow, Log} \<and>
    (f32_ge (f32_clamp (Fin 0) (Fin 1) (verdict_score v))
        (th_flag (ab_thresholds (policy_band cfg (ctx_age_profile ctx)))) \<and>
     thresholds_valid (ab_thresholds (policy_band cfg (ctx_age_profile ctx))) \<longrightarrow>
       pd_raise_alert (evaluate cfg v ctx) = Some GroomingSuspected)"
proof -
  let ?s = "f32_clamp (Fin 0) (Fin 1) (verdict_score v)"
  let ?t = "ab_thresholds (policy_band cfg (ctx_age_profile ctx))"
  have "\<not> f32_lt ?s (th_log ?t)" if "f32_ge ?s (th_flag ?t)" "thresholds_valid ?t"
    using that f32_le_trans [of "th_log ?t" "th_flag ?t" ?s] f32_lt_imp_not_le [of ?s "th_log ?t"]
    by (auto simp: thresholds_valid_def)
  with assms show ?thesis by (simp add: evaluate_def decide_grooming_def Let_def)
qed

theorem grooming_alerts_never_blocks_witness:
  "pd_action (evaluate policy_config_default (sample_verdict Grooming 0x3F800000) (sample_context Teen)) \<in> {Allow, Log}"
  using grooming_alerts_never_blocks [of "sample_verdict Grooming 0x3F800000" policy_config_default]
  by (simp add: policy_config_default_def)

text \<open>
  A NaN score falls through every comparison: for each graded category the verdict
  is only logged, without an alert, whatever the configuration says, so an analyzer that
  yields NaN for explicit content is not enforced.
\<close>

theorem nan_score_only_logged:
  assumes "verdict_score v = NaN" and "verdict_category v \<notin> {CsamSuspected, CatUnspecified, Safe}"
  shows "decision_view (evaluate cfg v ctx) = (Log, None, Low)"
  using assms by (auto simp: evaluate_def decide_grooming_def Let_def)

theorem nan_score_only_logged_witness:
  "decision_view (evaluate policy_config_default (sample_verdict AdultImage 0x7FC00000) (sample_context YoungChild)) =
     (Log, None, Low)"
  by (rule nan_score_only_logged) (simp_all add: f32_of_bits_examples)

text \<open>
  A guardian approval takes effect and a denial undoes it: after approving the host
  of an item that is neither CSAM nor uncovered, every such verdict from that device and host
  is allowed without an alert; after a denial that names the host, the engine decides again
  as if the host had never been approved, unless the content hash is approved separately.
\<close>

theorem approval_allows_denial_restores:
  assumes item: "ri_category item \<notin> {CsamSuspected, CatUnspecified}" "ri_device item = ctx_device ctx"
    and host: "trim (ri_host item) \<noteq> []" "to_ascii_lowercase (trim host) = to_ascii_lowercase (trim (ri_host item))"
    and v: "verdict_category v \<notin> {CsamSuspected, CatUnspecified}"
  shows "decision_view (decide_with_allowlist cfg v ctx
      (snd (allowlist_apply sha al item Approve ThisHost ts)) host) = (Allow, None, Info) \<and>
    (v_evidence v = None \<longrightarrow> scope \<noteq> ThisItem \<longrightarrow>
      decide_with_allowlist cfg v ctx (snd (allowlist_apply sha al item Deny scope ts)) host = evaluate cfg v ctx)"
proof -
  have ne: "to_ascii_lowercase (trim host) \<noteq> []"
    using host by (simp add: to_ascii_lowercase_def)
  then have "host \<noteq> []" by (auto simp: to_ascii_lowercase_def)
  note ne = ne this
  have "is_host_allowed (snd (allowlist_apply sha al item Approve ThisHost ts)) (ctx_device ctx) host"
    using item host ne
    by (auto simp: host_allowed_iff_grant allowlist_apply_per_device apply_decision_grants spec_apply_def item_grant_def)
  moreover have "\<not> is_host_allowed (snd (allowlist_apply sha al item Deny scope ts)) (ctx_device ctx) host"
    if "scope \<noteq> ThisItem"
    using that item host ne
    by (cases scope)
       (auto simp: host_allowed_iff_grant allowlist_apply_per_device apply_decision_grants spec_apply_def item_grant_def
         simp del: grants_host)
  ultimately show ?thesis using v ne by (simp add: decide_with_allowlist_def Let_def)
qed

theorem approval_allows_denial_restores_witness:
  "decision_view (decide_with_allowlist policy_config_default (sample_verdict AdultImage 0x3F800000) (sample_context Teen)
     (snd (allowlist_apply wit_sha allowlist_new wit_item Approve ThisHost 1)) ''example.com'') = (Allow, None, Info)"
proof -
  have "trim (ri_host wit_item) \<noteq> []"
    "to_ascii_lowercase (trim ''example.com'') = to_ascii_lowercase (trim (ri_host wit_item))" by code_simp+
  with approval_allows_denial_restores [of wit_item "sample_context Teen" "''example.com''" "sample_verdict AdultImage 0x3F800000"]
  show ?thesis by (simp add: wit_item_def sample_context_def)
qed

end
