(* ===== verification/AuditRow.thy ===== *)
theory AuditRow
  imports Proto HashChain
begin

text \<open>
  The rows of the audit store and their hash chain: \<open>bulwark-store/src/model.rs\<close> (the
  content-free row, its projection from and back to an event, the canonical byte form) and
  \<open>bulwark-store/src/hashchain.rs\<close> (plain and keyed links, the two verifiers). Numbers keep
  the width they are serialised at; the SHA-256 and HMAC of the \<open>ring\<close> crate are the
  parameters \<open>sha\<close> and \<open>mac\<close>.
\<close>

section \<open>Serialised numbers and fields\<close>

fun be_bytes :: "nat \<Rightarrow> int \<Rightarrow> bytes" where
  "be_bytes 0 x = []"
| "be_bytes (Suc n) x = be_bytes n (x div 256) @ [word_of_int x]"

definition push_field :: "bytes \<Rightarrow> bytes" where
  "push_field field = be_bytes 4 (int (as_u32 (length field))) @ field"

fun hex_val :: "char \<Rightarrow> u8 option" where
  "hex_val ch =
     (let c = code ch
      in if 48 \<le> c \<and> c \<le> 57 then Some (word_of_nat (c - 48))
         else if 97 \<le> c \<and> c \<le> 102 then Some (word_of_nat (c - 97 + 10))
         else if 65 \<le> c \<and> c \<le> 70 then Some (word_of_nat (c - 65 + 10))
         else None)"

fun hex_pairs :: "string \<Rightarrow> bytes option" where
  "hex_pairs (a # b # rest) =
     (case (hex_val a, hex_val b) of
        (Some hi, Some lo) \<Rightarrow> map_option (\<lambda>out. or (push_bit 4 hi) lo # out) (hex_pairs rest)
      | _ \<Rightarrow> None)"
| "hex_pairs _ = Some []"

definition hex_decode :: "string \<Rightarrow> bytes" where
  "hex_decode s =
     (if odd (length s) then [] else (case hex_pairs s of None \<Rightarrow> [] | Some out \<Rightarrow> out))"

section \<open>Events and rows\<close>

fun action_i32 :: "action \<Rightarrow> int" where
  "action_i32 ActUnspecified = 0"
| "action_i32 Allow = 1"
| "action_i32 Block = 2"
| "action_i32 Blur = 3"
| "action_i32 Mute = 4"
| "action_i32 Warn = 5"
| "action_i32 Log = 6"

definition action_from_i32 :: "int \<Rightarrow> action" where
  "action_from_i32 v =
     (case find (\<lambda>a. action_i32 a = v) [ActUnspecified, Allow, Block, Blur, Mute, Warn, Log] of
        None \<Rightarrow> ActUnspecified | Some a \<Rightarrow> a)"

fun alert_kind_i32 :: "alert_kind \<Rightarrow> int" where
  "alert_kind_i32 AkUnspecified = 0"
| "alert_kind_i32 Intervention = 1"
| "alert_kind_i32 GroomingSuspected = 2"
| "alert_kind_i32 ProtectionDisabled = 3"
| "alert_kind_i32 ChildSos = 4"
| "alert_kind_i32 SafetyBroadcast = 5"

definition alert_kind_from_i32 :: "int \<Rightarrow> alert_kind option" where
  "alert_kind_from_i32 v =
     find (\<lambda>k. alert_kind_i32 k = v)
       [AkUnspecified, Intervention, GroomingSuspected, ProtectionDisabled, ChildSos, SafetyBroadcast]"

record stored_event =
  se_device :: string
  se_verdict :: verdict
  se_action :: action
  se_alert :: "alert_kind option"
  se_ts :: int

record audit_row =
  ar_id :: int
  ar_ts :: int
  ar_device_id :: string
  ar_category :: int
  ar_action :: int
  ar_severity :: int
  ar_score :: f32_bits
  ar_reason_codes :: "string list"
  ar_model_id :: string
  ar_app :: string
  ar_alert_kind :: "int option"
  ar_content_sha256 :: string

definition derive_app :: "verdict \<Rightarrow> string" where
  "derive_app v = []"

definition from_event :: "int \<Rightarrow> stored_event \<Rightarrow> audit_row" where
  "from_event i ev =
     (let v = se_verdict ev; e = v_evidence v
      in \<lparr>ar_id = i, ar_ts = se_ts ev, ar_device_id = se_device ev, ar_category = v_category v,
          ar_action = action_i32 (se_action ev), ar_severity = v_severity v, ar_score = v_score v,
          ar_reason_codes = (case v_grooming v of None \<Rightarrow> [] | Some g \<Rightarrow> gs_fired_categories g),
          ar_model_id = (case e of None \<Rightarrow> [] | Some d \<Rightarrow> ev_model_id d),
          ar_app = derive_app v,
          ar_alert_kind = map_option alert_kind_i32 (se_alert ev),
          ar_content_sha256 = (case e of None \<Rightarrow> [] | Some d \<Rightarrow> hex (ev_sha256 d))\<rparr>)"

definition to_event :: "audit_row \<Rightarrow> stored_event" where
  "to_event r =
     \<lparr>se_device = ar_device_id r,
      se_verdict =
        \<lparr>v_request_id = [], v_category = ar_category r, v_action = ar_action r,
         v_severity = ar_severity r, v_score = ar_score r, v_rationale = [],
         v_evidence = Some \<lparr>ev_sha256 = hex_decode (ar_content_sha256 r), ev_perceptual_hash = [],
           ev_safe_thumbnail = [], ev_text_snippet = [], ev_model_id = ar_model_id r, ev_model_version = []\<rparr>,
         v_grooming = (if ar_reason_codes r = [] then None
           else Some \<lparr>gs_fired_categories = ar_reason_codes r, gs_score = ar_score r,
                  gs_excerpt = [], gs_classifier_backed = False\<rparr>),
         v_worker_id = [], v_latency_ms = 0, v_local_segment_uri = [], v_remediated_media = []\<rparr>,
      se_action = action_from_i32 (ar_action r),
      se_alert = Option.bind (ar_alert_kind r) alert_kind_from_i32,
      se_ts = ar_ts r\<rparr>"

definition canonical_bytes :: "audit_row \<Rightarrow> bytes" where
  "canonical_bytes r =
     be_bytes 8 (ar_ts r) @
     push_field (as_bytes (ar_device_id r)) @
     be_bytes 4 (ar_category r) @
     be_bytes 4 (ar_action r) @
     be_bytes 4 (ar_severity r) @
     be_bytes 4 (uint (ar_score r)) @
     be_bytes 4 (int (as_u32 (length (ar_reason_codes r)))) @
     concat (map (\<lambda>c. push_field (as_bytes c)) (ar_reason_codes r)) @
     push_field (as_bytes (ar_model_id r)) @
     push_field (as_bytes (ar_app r)) @
     be_bytes 4 (case ar_alert_kind r of None \<Rightarrow> -1 | Some k \<Rightarrow> k) @
     push_field (as_bytes (ar_content_sha256 r))"

section \<open>The chain\<close>

datatype verify_result = VerifyOk | Tampered nat

definition genesis :: "(bytes \<Rightarrow> bytes) \<Rightarrow> bytes" where
  "genesis sha = sha (as_bytes ''bulwark-store/audit-log/genesis/v1'')"

definition link :: "(bytes \<Rightarrow> bytes) \<Rightarrow> bytes \<Rightarrow> audit_row \<Rightarrow> bytes" where
  "link sha prev row = sha (prev @ canonical_bytes row)"

definition keyed_link :: "('k \<Rightarrow> bytes \<Rightarrow> bytes) \<Rightarrow> 'k \<Rightarrow> bytes \<Rightarrow> audit_row \<Rightarrow> bytes" where
  "keyed_link mac key prev row = mac key (prev @ canonical_bytes row)"

definition hash_hex :: "bytes \<Rightarrow> string" where
  "hash_hex h = hex h"

definition hash_from_hex :: "string \<Rightarrow> bytes option" where
  "hash_from_hex s = (let bs = hex_decode s in if length bs \<noteq> 32 then None else Some bs)"

fun verify_loop :: "(bytes \<Rightarrow> audit_row \<Rightarrow> bytes) \<Rightarrow> bytes \<Rightarrow> nat \<Rightarrow> audit_row list \<Rightarrow> bytes list \<Rightarrow> verify_result" where
  "verify_loop lnk prev i (row # rows) (h # hs) =
     (let derived = lnk prev row
      in if derived \<noteq> h then Tampered i else verify_loop lnk derived (Suc i) rows hs)"
| "verify_loop lnk prev i _ _ = VerifyOk"

definition verify :: "(bytes \<Rightarrow> bytes) \<Rightarrow> audit_row list \<Rightarrow> bytes list \<Rightarrow> verify_result" where
  "verify sha rows stored_hashes =
     (if length rows \<noteq> length stored_hashes then Tampered (min (length rows) (length stored_hashes))
      else verify_loop (link sha) (genesis sha) 0 rows stored_hashes)"

definition verify_keyed ::
    "(bytes \<Rightarrow> bytes) \<Rightarrow> ('k \<Rightarrow> bytes \<Rightarrow> bytes) \<Rightarrow> 'k \<Rightarrow> audit_row list \<Rightarrow> bytes list \<Rightarrow> verify_result" where
  "verify_keyed sha mac key rows stored_hashes =
     (if length rows \<noteq> length stored_hashes then Tampered (min (length rows) (length stored_hashes))
      else verify_loop (keyed_link mac key) (genesis sha) 0 rows stored_hashes)"

section \<open>Byte lemmas\<close>

lemma length_be_bytes [simp]: "length (be_bytes n x) = n"
  by (induction n arbitrary: x) auto

lemma be_bytes_mod: "be_bytes n x = be_bytes n y \<Longrightarrow> x mod 256 ^ n = y mod 256 ^ n"
proof (induction n arbitrary: x y)
  case (Suc n)
  from Suc.prems have low: "x mod 256 = y mod 256" and high: "be_bytes n (x div 256) = be_bytes n (y div 256)"
    by (simp_all add: word_of_int_eq_iff take_bit_eq_mod)
  have "a mod 256 ^ Suc n = 256 * (a div 256 mod 256 ^ n) + a mod 256" for a :: int
    using zmod_zmult2_eq [of "256 ^ n" a 256] by simp
  with low Suc.IH [OF high] show ?case by simp
qed simp

definition in_signed :: "nat \<Rightarrow> int \<Rightarrow> bool" where
  "in_signed n x \<longleftrightarrow> - (256 ^ n div 2) \<le> x \<and> x < 256 ^ n div 2"

lemma be_bytes_signed_inj:
  assumes "in_signed n x" "in_signed n y" "be_bytes n x = be_bytes n y" "0 < n"
  shows "x = y"
proof -
  let ?m = "256 ^ n :: int"
  have "x mod ?m = y mod ?m" using assms(3) by (rule be_bytes_mod)
  then have "?m dvd x - y" by (simp add: mod_eq_dvd_iff)
  then obtain k where k: "x - y = ?m * k" ..
  have pos: "0 < ?m" by simp
  have "\<bar>x - y\<bar> < ?m"
    using assms(1,2) by (auto simp: in_signed_def abs_if)
  then have "?m * \<bar>k\<bar> < ?m * 1" using k pos by (simp add: abs_mult)
  then have "k = 0" using pos mult_less_cancel_left_pos [OF pos] by simp
  with k show ?thesis by simp
qed

lemma be_bytes_unsigned_inj:
  assumes "be_bytes n (int x) = be_bytes n (int y)" "x < 256 ^ n" "y < 256 ^ n"
  shows "x = y"
proof -
  have "int x < 256 ^ n" "int y < 256 ^ n"
    using assms(2,3) by (simp_all add: zless_nat_eq_int_zless flip: of_nat_power)
  then show ?thesis using be_bytes_mod [OF assms(1)] by simp
qed

lemma be_bytes_app [simp]: "be_bytes n x @ r = be_bytes n y @ s \<longleftrightarrow> be_bytes n x = be_bytes n y \<and> r = s"
  by (simp add: append_eq_append_conv)

lemma push_field_app:
  assumes "length f < 2 ^ 32" "length g < 2 ^ 32" "push_field f @ r = push_field g @ s"
  shows "f = g \<and> r = s"
proof -
  have eq: "be_bytes 4 (int (length f)) = be_bytes 4 (int (length g)) \<and> f @ r = g @ s"
    using assms by (simp add: push_field_def as_u32_def)
  then have "length f = length g"
    using be_bytes_unsigned_inj [of 4 "length f" "length g"] assms(1,2) by simp
  with eq show ?thesis by simp
qed

lemma push_fields_app:
  assumes "\<forall>c\<in>set cs. length c < 2 ^ 32" "\<forall>c\<in>set ds. length c < 2 ^ 32" "length cs = length ds"
    and "concat (map (\<lambda>c. push_field (as_bytes c)) cs) @ r = concat (map (\<lambda>c. push_field (as_bytes c)) ds) @ s"
  shows "cs = ds \<and> r = s"
  using assms(3,1,2,4)
proof (induction cs ds rule: list_induct2)
  case (Cons c cs d ds)
  then have "as_bytes c = as_bytes d \<and>
      concat (map (\<lambda>c. push_field (as_bytes c)) cs) @ r = concat (map (\<lambda>c. push_field (as_bytes c)) ds) @ s"
    using push_field_app [of "as_bytes c" "as_bytes d"] by simp
  with Cons show ?case by simp
qed simp

section \<open>Hex round trip\<close>

lemma hex_val_digit:
  assumes "n < 16"
  shows "hex_val (hex_digits ! n) = Some (word_of_nat n)"
proof -
  have "\<forall>n\<in>set [0..<16]. hex_val (hex_digits ! n) = Some (word_of_nat n)" by code_simp
  with assms show ?thesis by auto
qed

lemma nibbles_join: "or (push_bit 4 (drop_bit 4 b)) (and b 15) = (b :: u8)"
proof -
  have "and b 15 = take_bit 4 b" by (simp add: take_bit_eq_mask mask_eq_exp_minus_1)
  then show ?thesis
    by (auto intro!: bit_eqI simp: bit_simps)
qed

lemma hex_pairs_hex: "hex_pairs (hex bs) = Some bs"
proof (induction bs)
  case (Cons b bs)
  have "hex_val (hex_digits ! unat (drop_bit 4 b)) = Some (drop_bit 4 b)"
    "hex_val (hex_digits ! unat (and b 15)) = Some (and b 15)"
    using hex_nibbles [of b] by (simp_all add: hex_val_digit del: hex_val.simps)
  with Cons show ?case by (simp add: nibbles_join del: hex_val.simps)
qed simp

lemma hex_decode_hex [simp]: "hex_decode (hex bs) = bs"
  by (simp add: hex_decode_def hex_pairs_hex)

lemma hex_decode_Nil [simp]: "hex_decode [] = []"
  using hex_decode_hex [of "[]"] by simp

lemma hash_from_hex_hex: "hash_from_hex (hash_hex h) = (if length h = 32 then Some h else None)"
  by (simp add: hash_from_hex_def hash_hex_def)

section \<open>What a row commits to\<close>

definition row_ok :: "audit_row \<Rightarrow> bool" where
  "row_ok r \<longleftrightarrow>
     in_signed 8 (ar_ts r) \<and> in_signed 4 (ar_category r) \<and> in_signed 4 (ar_action r) \<and>
     in_signed 4 (ar_severity r) \<and>
     (case ar_alert_kind r of None \<Rightarrow> True | Some k \<Rightarrow> in_signed 4 k \<and> k \<noteq> -1) \<and>
     length (ar_device_id r) < 2 ^ 32 \<and> length (ar_model_id r) < 2 ^ 32 \<and> length (ar_app r) < 2 ^ 32 \<and>
     length (ar_content_sha256 r) < 2 ^ 32 \<and> length (ar_reason_codes r) < 2 ^ 32 \<and>
     (\<forall>c\<in>set (ar_reason_codes r). length c < 2 ^ 32)"

definition alert_code :: "audit_row \<Rightarrow> int" where
  "alert_code r = (case ar_alert_kind r of None \<Rightarrow> -1 | Some k \<Rightarrow> k)"

lemma in_signed_minus1 [simp]: "in_signed 4 (-1)"
  by (simp add: in_signed_def)

lemma alert_code_inj:
  assumes "row_ok r" "row_ok s" "alert_code r = alert_code s"
  shows "ar_alert_kind r = ar_alert_kind s"
  using assms by (auto simp: row_ok_def alert_code_def split: option.splits)

lemma uint_be_bytes_inj:
  fixes v w :: f32_bits
  assumes "be_bytes 4 (uint v) = be_bytes 4 (uint w)"
  shows "v = w"
proof -
  have "uint x < 2 ^ LENGTH(32)" for x :: f32_bits by (rule unsigned_less)
  then have "uint x mod 4294967296 = uint x" for x :: f32_bits by simp
  with be_bytes_mod [OF assms] show ?thesis by (simp add: word_uint_eq_iff)
qed

lemma canonical_fields:
  assumes ok: "row_ok r" "row_ok s" and eq: "canonical_bytes r = canonical_bytes s"
  shows "ar_ts r = ar_ts s" "ar_device_id r = ar_device_id s" "ar_category r = ar_category s"
    "ar_action r = ar_action s" "ar_severity r = ar_severity s" "ar_score r = ar_score s"
    "ar_reason_codes r = ar_reason_codes s" "ar_model_id r = ar_model_id s" "ar_app r = ar_app s"
    "alert_code r = alert_code s" "ar_content_sha256 r = ar_content_sha256 s"
proof -
  note eq1 = eq [unfolded canonical_bytes_def be_bytes_app]
  have dev: "ar_device_id r = ar_device_id s" and eq2:
    "be_bytes 4 (ar_category r) = be_bytes 4 (ar_category s)" "be_bytes 4 (ar_action r) = be_bytes 4 (ar_action s)"
    "be_bytes 4 (ar_severity r) = be_bytes 4 (ar_severity s)"
    "be_bytes 4 (uint (ar_score r)) = be_bytes 4 (uint (ar_score s))"
    "be_bytes 4 (int (as_u32 (length (ar_reason_codes r)))) = be_bytes 4 (int (as_u32 (length (ar_reason_codes s))))"
    and rest: "concat (map (\<lambda>c. push_field (as_bytes c)) (ar_reason_codes r)) @
       push_field (as_bytes (ar_model_id r)) @ push_field (as_bytes (ar_app r)) @
       be_bytes 4 (alert_code r) @ push_field (as_bytes (ar_content_sha256 r)) @ [] =
     concat (map (\<lambda>c. push_field (as_bytes c)) (ar_reason_codes s)) @
       push_field (as_bytes (ar_model_id s)) @ push_field (as_bytes (ar_app s)) @
       be_bytes 4 (alert_code s) @ push_field (as_bytes (ar_content_sha256 s)) @ []"
    using push_field_app [OF _ _ conjunct2 [OF eq1]] ok by (simp_all add: row_ok_def alert_code_def)
  have "length (ar_reason_codes r) = length (ar_reason_codes s)"
    using be_bytes_unsigned_inj [OF eq2(5)] ok by (simp add: row_ok_def as_u32_def)
  note codes = push_fields_app [OF _ _ this rest]
  have cs: "ar_reason_codes r = ar_reason_codes s" and r1: "push_field (as_bytes (ar_model_id r)) @
       push_field (as_bytes (ar_app r)) @ be_bytes 4 (alert_code r) @ push_field (as_bytes (ar_content_sha256 r)) @ [] =
     push_field (as_bytes (ar_model_id s)) @ push_field (as_bytes (ar_app s)) @
       be_bytes 4 (alert_code s) @ push_field (as_bytes (ar_content_sha256 s)) @ []"
    using codes ok by (simp_all add: row_ok_def)
  have m: "ar_model_id r = ar_model_id s" and r2: "push_field (as_bytes (ar_app r)) @ be_bytes 4 (alert_code r) @
       push_field (as_bytes (ar_content_sha256 r)) @ [] = push_field (as_bytes (ar_app s)) @ be_bytes 4 (alert_code s) @
       push_field (as_bytes (ar_content_sha256 s)) @ []"
    using push_field_app [OF _ _ r1] ok by (simp_all add: row_ok_def)
  have a: "ar_app r = ar_app s" and r3: "be_bytes 4 (alert_code r) = be_bytes 4 (alert_code s)"
    "push_field (as_bytes (ar_content_sha256 r)) @ [] = push_field (as_bytes (ar_content_sha256 s)) @ []"
    using push_field_app [OF _ _ r2] ok by (simp_all add: row_ok_def)
  have sha: "ar_content_sha256 r = ar_content_sha256 s"
    using push_field_app [OF _ _ r3(2)] ok by (simp add: row_ok_def)
  have code: "in_signed 4 (alert_code r)" "in_signed 4 (alert_code s)"
    using ok by (auto simp: row_ok_def alert_code_def split: option.splits)
  show "ar_ts r = ar_ts s" "ar_device_id r = ar_device_id s" "ar_category r = ar_category s"
    "ar_action r = ar_action s" "ar_severity r = ar_severity s" "ar_score r = ar_score s"
    "ar_reason_codes r = ar_reason_codes s" "ar_model_id r = ar_model_id s" "ar_app r = ar_app s"
    "alert_code r = alert_code s" "ar_content_sha256 r = ar_content_sha256 s"
    using ok be_bytes_signed_inj [OF _ _ conjunct1 [OF eq1]] dev be_bytes_signed_inj [OF _ _ eq2(1)]
      be_bytes_signed_inj [OF _ _ eq2(2)] be_bytes_signed_inj [OF _ _ eq2(3)] uint_be_bytes_inj [OF eq2(4)]
      cs m a be_bytes_signed_inj [OF code r3(1)] sha
    by (simp_all add: row_ok_def)
qed

section \<open>The chain contract\<close>

fun tamper_index :: "verify_result \<Rightarrow> nat option" where
  "tamper_index VerifyOk = None"
| "tamper_index (Tampered i) = Some i"

lemma verify_loop_walk:
  "tamper_index (verify_loop lnk p i (map fst es) (map snd es)) = walk lnk p i es"
proof (induction es arbitrary: p i)
  case (Cons e es)
  then show ?case by (cases e) (auto simp: Let_def)
qed simp

lemma verify_walk: "tamper_index (verify sha (map fst es) (map snd es)) = walk (link sha) (genesis sha) 0 es"
  by (simp add: verify_def verify_loop_walk)

lemma verify_keyed_walk:
  "tamper_index (verify_keyed sha mac key (map fst es) (map snd es)) = walk (keyed_link mac key) (genesis sha) 0 es"
  by (simp add: verify_keyed_def verify_loop_walk)

interpretation plain_chain: hash_chain "link sha" "genesis sha"
    "\<lambda>es. tamper_index (verify sha (map fst es) (map snd es))" for sha
  unfolding verify_walk by (rule walk_hash_chain)

interpretation keyed_chain: hash_chain "keyed_link mac key" "genesis sha"
    "\<lambda>es. tamper_index (verify_keyed sha mac key (map fst es) (map snd es))" for sha mac key
  unfolding verify_keyed_walk by (rule walk_hash_chain)

section \<open>Properties\<close>


definition sample_row :: audit_row where
  "sample_row = \<lparr>ar_id = 0, ar_ts = 1700000000000, ar_device_id = ''tablet'', ar_category = 2, ar_action = 2,
     ar_severity = 4, ar_score = 0x3F800000, ar_reason_codes = [''secrecy''], ar_model_id = ''nsfw'', ar_app = [],
     ar_alert_kind = Some 1, ar_content_sha256 = ''ab''\<rparr>"

lemma sample_row_ok: "row_ok sample_row" "row_ok (sample_row\<lparr>ar_id := 7\<rparr>)"
  by (simp_all add: row_ok_def sample_row_def in_signed_def)


text \<open>
  Reading a row back gives the event it was made from, without its content: the
  device, time, action, alert, category, severity, score, hash, model and grooming labels
  survive, every free text and media field is empty, and projecting the read event again
  gives the same row.
\<close>

theorem stored_event_content_free:
  "(let e = to_event (from_event i ev); v = se_verdict e
    in se_device e = se_device ev \<and> se_ts e = se_ts ev \<and> se_action e = se_action ev \<and> se_alert e = se_alert ev \<and>
       v_category v = v_category (se_verdict ev) \<and> v_severity v = v_severity (se_verdict ev) \<and>
       v_score v = v_score (se_verdict ev) \<and>
       v_rationale v = [] \<and> v_remediated_media v = [] \<and> v_local_segment_uri v = [] \<and>
       (case v_evidence v of None \<Rightarrow> False
        | Some d \<Rightarrow> ev_text_snippet d = [] \<and> ev_safe_thumbnail d = [] \<and>
            ev_sha256 d = (case v_evidence (se_verdict ev) of None \<Rightarrow> [] | Some d0 \<Rightarrow> ev_sha256 d0)) \<and>
       (case v_grooming v of None \<Rightarrow> True | Some g \<Rightarrow> gs_excerpt g = []) \<and>
       from_event i e = from_event i ev)"
proof -
  have "action_from_i32 (action_i32 a) = a" for a
    by (cases a) (simp_all add: action_from_i32_def)
  moreover have "alert_kind_from_i32 (alert_kind_i32 k) = Some k" for k
    by (cases k) (simp_all add: alert_kind_from_i32_def)
  then have "Option.bind (map_option alert_kind_i32 x) alert_kind_from_i32 = x" for x
    by (cases x) simp_all
  ultimately show ?thesis
    by (simp add: from_event_def to_event_def derive_app_def Let_def split: option.split)
qed

definition row_content :: "audit_row \<Rightarrow> audit_row" where
  "row_content r = r\<lparr>ar_id := 0\<rparr>"

definition hash_inputs :: "(bytes \<Rightarrow> bytes) \<Rightarrow> (audit_row \<times> bytes) list \<Rightarrow> bytes set" where
  "hash_inputs sha es = {prev_hash (genesis sha) es i @ canonical_bytes (fst (es ! i)) | i. i < length es}"

lemma link_row_content [simp]: "link sha p (row_content r) = link sha p r"
  by (simp add: link_def row_content_def canonical_bytes_def)

lemma row_content_eq: "row_ok r \<Longrightarrow> row_ok s \<Longrightarrow> canonical_bytes r = canonical_bytes s \<Longrightarrow> row_content r = row_content s"
  using canonical_fields [of r s] alert_code_inj [of r s]
  by (intro audit_row.equality) (simp_all add: row_content_def)

lemma walk_row_content: "walk (link sha) g i (map (apfst row_content) es) = walk (link sha) g i es"
  by (induction "link sha" g i es rule: walk.induct) auto

lemma prev_hash_content [simp]: "i \<le> length es \<Longrightarrow> prev_hash g (map (apfst row_content) es) i = prev_hash g es i"
  by (auto simp: prev_hash_def)

lemma prev_hash_length:
  assumes "\<And>x. length (sha x) = 32" "walk (link sha) (genesis sha) 0 es = None" "i < length es"
  shows "length (prev_hash (genesis sha) es i) = 32"
  using assms by (cases i) (auto simp: prev_hash_def genesis_def walk_None link_def)

lemma chain_inputs_collision_free:
  assumes len: "\<And>x. length (sha x) = 32" and inj: "inj_on sha (hash_inputs sha es \<union> hash_inputs sha fs)"
    and ok: "walk (link sha) (genesis sha) 0 es = None" "walk (link sha) (genesis sha) 0 fs = None"
    and rows: "\<forall>e\<in>set es \<union> set fs. row_ok (fst e)"
  shows "collision_free (link sha) (chain_inputs (genesis sha) (map (apfst row_content) es) \<union>
    chain_inputs (genesis sha) (map (apfst row_content) fs))"
proof -
  let ?g = "genesis sha" and ?c = "map (apfst row_content)"
  let ?I = "hash_inputs sha es \<union> hash_inputs sha fs"
  define P where "P p c \<longleftrightarrow> (\<exists>r. row_ok r \<and> c = row_content r \<and> p @ canonical_bytes r \<in> ?I \<and> length p = 32)" for p c
  have src: "P p c" if pc: "(p, c) \<in> chain_inputs ?g (?c xs)" and xs: "xs = es \<or> xs = fs" for p c xs
  proof -
    from pc obtain i where i: "i < length xs" "p = prev_hash ?g xs i" "c = row_content (fst (xs ! i))"
      by (auto simp: chain_inputs_def)
    have "row_ok (fst (xs ! i))" using rows xs i(1) by (auto simp: set_conv_nth)
    moreover have "p @ canonical_bytes (fst (xs ! i)) \<in> hash_inputs sha xs"
      using i by (auto simp: hash_inputs_def)
    moreover have "length p = 32" using prev_hash_length [OF len] ok xs i by auto
    ultimately show ?thesis unfolding P_def using i(3) xs by blast
  qed
  have step: "p = q \<and> c = d" if "P p c" "P q d" "link sha p c = link sha q d" for p c q d
  proof -
    from that(1,2) obtain r s where rs: "row_ok r" "c = row_content r" "row_ok s" "d = row_content s"
      and I: "p @ canonical_bytes r \<in> ?I" "q @ canonical_bytes s \<in> ?I" and l: "length p = length q"
      unfolding P_def by auto
    have "sha (p @ canonical_bytes r) = sha (q @ canonical_bytes s)"
      using that(3) rs by (simp add: link_def [symmetric])
    with inj I have "p @ canonical_bytes r = q @ canonical_bytes s" by (auto dest: inj_onD)
    with l have "p = q" "canonical_bytes r = canonical_bytes s" by simp_all
    with rs row_content_eq [of r s] show ?thesis by simp
  qed
  have "P (fst x) (snd x)" if "x \<in> chain_inputs ?g (?c es) \<union> chain_inputs ?g (?c fs)" for x
    using that src by (cases x) auto
  note all = this
  show ?thesis unfolding collision_free_def case_prod_beta
    by (intro ballI impI) (rule step [OF all all])
qed

text \<open>
  The head hash commits to the whole history: two logs of the same length that both
  verify and end in the same stored hash hold the same rows, ids apart, and the same hashes,
  provided SHA-256 does not collide on the inputs of the two logs.
\<close>

theorem log_head_commits:
  assumes "\<And>x. length (sha x) = 32" "inj_on sha (hash_inputs sha es \<union> hash_inputs sha fs)"
    and "verify sha (map fst es) (map snd es) = VerifyOk" "verify sha (map fst fs) (map snd fs) = VerifyOk"
    and "length es = length fs" "head_hash (genesis sha) es = head_hash (genesis sha) fs"
    and "\<forall>e\<in>set es \<union> set fs. row_ok (fst e)"
  shows "map (apfst row_content) es = map (apfst row_content) fs"
proof -
  let ?c = "map (apfst row_content)"
  have ok: "walk (link sha) (genesis sha) 0 es = None" "walk (link sha) (genesis sha) 0 fs = None"
    using assms(3,4) verify_walk [of sha es] verify_walk [of sha fs] by simp_all
  then have "tamper_index (verify sha (map fst (?c es)) (map snd (?c es))) = None"
    "tamper_index (verify sha (map fst (?c fs)) (map snd (?c fs))) = None"
    by (simp_all only: verify_walk walk_row_content)
  moreover have "head_hash (genesis sha) (?c es) = head_hash (genesis sha) (?c fs)"
    using assms(5,6) by (auto simp: head_hash_def last_map)
  ultimately show ?thesis
    using plain_chain.heads_commit chain_inputs_collision_free [OF assms(1,2) ok assms(7)] assms(5) by simp
qed

definition sample_sha :: "bytes \<Rightarrow> bytes" where
  "sample_sha x = replicate 31 0 @ [word_of_nat (length x)]"

theorem log_head_commits_witness:
  "map (apfst row_content) [(sample_row, link sample_sha (genesis sample_sha) sample_row)] =
   map (apfst row_content)
     [(sample_row\<lparr>ar_id := 7\<rparr>, link sample_sha (genesis sample_sha) (sample_row\<lparr>ar_id := 7\<rparr>))]"
proof (rule log_head_commits [where sha = sample_sha])
  have same: "canonical_bytes (sample_row\<lparr>ar_id := 7\<rparr>) = canonical_bytes sample_row"
    by (simp add: canonical_bytes_def)
  then show "inj_on sample_sha
     (hash_inputs sample_sha [(sample_row, link sample_sha (genesis sample_sha) sample_row)] \<union>
      hash_inputs sample_sha [(sample_row\<lparr>ar_id := 7\<rparr>, link sample_sha (genesis sample_sha) (sample_row\<lparr>ar_id := 7\<rparr>))])"
    by (simp add: hash_inputs_def)
  from same show "head_hash (genesis sample_sha) [(sample_row, link sample_sha (genesis sample_sha) sample_row)] =
    head_hash (genesis sample_sha) [(sample_row\<lparr>ar_id := 7\<rparr>, link sample_sha (genesis sample_sha) (sample_row\<lparr>ar_id := 7\<rparr>))]"
    by (simp add: head_hash_def link_def)
  show "length (sample_sha x) = 32" for x by (simp add: sample_sha_def)
qed (simp_all add: verify_def sample_row_ok)

end
