(* ===== verification/PortableStore.thy ===== *)
theory PortableStore
  imports AuditRow "HOL-Library.Finite_Map"
begin

text \<open>
  The portable audit store: \<open>bulwark-store/src/portable.rs\<close>, with the retention policy of
  \<open>retention.rs\<close> and the at-rest key of \<open>crypto.rs\<close>. The mutex makes every operation one
  atomic step, so an operation is a function from the store to a result and the next store.
  Writing the image to disk is the parameter \<open>wr\<close>, its outcome for a path and an image;
  reading one back is \<open>rd\<close> (\<open>None\<close> when the file does not exist). Memory is updated before the
  write, so a failed write leaves the in-memory change in place, as the code does.
\<close>

section \<open>Errors, keys and retention\<close>

datatype store_error = Backend string | OpenError string | Serde string | Crypto string
  | Integrity string | InvalidValue string

definition at_rest_key_new :: "bytes \<Rightarrow> (store_error, bytes) result" where
  "at_rest_key_new k = (if k = [] then Err (Crypto ''at-rest key must not be empty'') else Ok k)"

definition audit_hmac_key :: "(bytes \<Rightarrow> bytes \<Rightarrow> bytes) \<Rightarrow> bytes \<Rightarrow> bytes" where
  "audit_hmac_key mac key = mac (as_bytes ''bulwark-store/audit-hmac/v1'') key"

definition ms_per_day :: int where
  "ms_per_day = 24 * 60 * 60 * 1000"

record retention_policy =
  rp_evidence_ttl_days :: nat
  rp_audit_ttl_days :: nat
  rp_audit_max_rows :: nat
  rp_honor_pins :: bool

definition retention_default :: retention_policy where
  "retention_default = \<lparr>rp_evidence_ttl_days = 30, rp_audit_ttl_days = 90, rp_audit_max_rows = 500000, rp_honor_pins = True\<rparr>"

definition audit_cutoff_ms :: "retention_policy \<Rightarrow> int \<Rightarrow> int option" where
  "audit_cutoff_ms p now =
     (if rp_audit_ttl_days p = 0 then None else Some (i64_wrap (now - int (rp_audit_ttl_days p) * ms_per_day)))"

definition evidence_cutoff_ms :: "retention_policy \<Rightarrow> int \<Rightarrow> int option" where
  "evidence_cutoff_ms p now =
     (if rp_evidence_ttl_days p = 0 then None else Some (i64_wrap (now - int (rp_evidence_ttl_days p) * ms_per_day)))"

definition retention_validate :: "retention_policy \<Rightarrow> (store_error, unit) result" where
  "retention_validate p =
     (if 365 < rp_evidence_ttl_days p then
        Err (InvalidValue ''evidence_ttl_days exceeds the 365-day storage-limitation cap'')
      else if 365 < rp_audit_ttl_days p then
        Err (InvalidValue ''audit_ttl_days exceeds the 365-day storage-limitation cap'')
      else Ok ())"

record purge_report =
  pr_audit_rows_aged_out :: nat
  pr_audit_rows_rotated :: nat
  pr_evidence_rows_purged :: nat

definition purge_total :: "purge_report \<Rightarrow> nat" where
  "purge_total r = pr_audit_rows_aged_out r + pr_audit_rows_rotated r + pr_evidence_rows_purged r"

section \<open>The store\<close>

record evidence_meta =
  em_audit_id :: int
  em_sha256 :: string
  em_phash :: string
  em_safe_thumbnail_ref :: "string option"
  em_label :: string

record alert_dedupe =
  ad_alert_id :: string
  ad_ts :: int

record stored_audit =
  sa_row :: audit_row
  sa_row_hash :: string

record inner =
  in_audit :: "stored_audit list"
  in_evidence :: "evidence_meta list"
  in_thread_state :: "(string, bytes) fmap"
  in_config :: "(string, string) fmap"
  in_dedupe :: "string fset"

definition inner_default :: inner where
  "inner_default = \<lparr>in_audit = [], in_evidence = [], in_thread_state = fmempty, in_config = fmempty, in_dedupe = {||}\<rparr>"

record portable_store =
  ps_inner :: inner
  ps_retention :: retention_policy
  ps_audit_key :: "bytes option"
  ps_path :: "string option"

type_synonym store_write = "string \<Rightarrow> inner \<Rightarrow> (store_error, unit) result"

definition open_in_memory_with ::
    "(bytes \<Rightarrow> bytes \<Rightarrow> bytes) \<Rightarrow> bytes \<Rightarrow> retention_policy \<Rightarrow> (store_error, portable_store) result" where
  "open_in_memory_with mac key retention =
     (case retention_validate retention of
        Inl e \<Rightarrow> Err e
      | Inr _ \<Rightarrow> Ok \<lparr>ps_inner = inner_default, ps_retention = retention,
                      ps_audit_key = Some (audit_hmac_key mac key), ps_path = None\<rparr>)"

definition open_store ::
    "(bytes \<Rightarrow> bytes \<Rightarrow> bytes) \<Rightarrow> (string \<Rightarrow> (store_error, inner) result option) \<Rightarrow>
     string \<Rightarrow> bytes \<Rightarrow> retention_policy \<Rightarrow> (store_error, portable_store) result" where
  "open_store mac rd path key retention =
     (case retention_validate retention of
        Inl e \<Rightarrow> Err e
      | Inr _ \<Rightarrow>
          (case (case rd path of None \<Rightarrow> Ok inner_default | Some r \<Rightarrow> r) of
             Inl e \<Rightarrow> Err e
           | Inr i \<Rightarrow> Ok \<lparr>ps_inner = i, ps_retention = retention,
                           ps_audit_key = Some (audit_hmac_key mac key), ps_path = Some path\<rparr>))"

definition store_chain_link ::
    "(bytes \<Rightarrow> bytes) \<Rightarrow> (bytes \<Rightarrow> bytes \<Rightarrow> bytes) \<Rightarrow> portable_store \<Rightarrow> bytes \<Rightarrow> audit_row \<Rightarrow> bytes" where
  "store_chain_link sha mac st prev row =
     (case ps_audit_key st of Some k \<Rightarrow> keyed_link mac k prev row | None \<Rightarrow> link sha prev row)"

definition persist :: "store_write \<Rightarrow> portable_store \<Rightarrow> inner \<Rightarrow> (store_error, unit) result" where
  "persist wr st i = (case ps_path st of None \<Rightarrow> Ok () | Some path \<Rightarrow> wr path i)"

definition persisted :: "store_write \<Rightarrow> portable_store \<Rightarrow> inner \<Rightarrow> 'a \<Rightarrow> (store_error, 'a) result \<times> portable_store" where
  "persisted wr st i value =
     ((case persist wr st i of Inl e \<Rightarrow> Err e | Inr _ \<Rightarrow> Ok value), st\<lparr>ps_inner := i\<rparr>)"

definition evidence_of :: "int \<Rightarrow> stored_event \<Rightarrow> evidence_meta list" where
  "evidence_of i event =
     (case v_evidence (se_verdict event) of
        None \<Rightarrow> []
      | Some ev \<Rightarrow>
          if ev_sha256 ev \<noteq> [] \<or> ev_perceptual_hash ev \<noteq> [] then
            [\<lparr>em_audit_id = i, em_sha256 = hex (ev_sha256 ev), em_phash = hex (ev_perceptual_hash ev),
              em_safe_thumbnail_ref = None,
              em_label = (case ar_reason_codes (from_event i event) of [] \<Rightarrow> [] | c # _ \<Rightarrow> c)\<rparr>]
          else [])"

definition record_sync ::
    "(bytes \<Rightarrow> bytes) \<Rightarrow> (bytes \<Rightarrow> bytes \<Rightarrow> bytes) \<Rightarrow> store_write \<Rightarrow> portable_store \<Rightarrow> stored_event \<Rightarrow>
     (store_error, int) result \<times> portable_store" where
  "record_sync sha mac wr st event =
     (let inner = ps_inner st;
          next = (if in_audit inner = [] then Ok (0, genesis sha)
                  else let l = last (in_audit inner)
                       in (case hash_from_hex (sa_row_hash l) of
                             None \<Rightarrow> Err (Integrity ''stored row_hash is malformed'')
                           | Some prev \<Rightarrow> Ok (i64_wrap (ar_id (sa_row l) + 1), prev)))
      in (case next of
            Inl e \<Rightarrow> (Err e, st)
          | Inr (next_id, prev) \<Rightarrow>
              (let audit = from_event next_id event;
                   row_hash = store_chain_link sha mac st prev audit;
                   inner' = inner\<lparr>in_evidence := in_evidence inner @ evidence_of next_id event,
                                  in_audit := in_audit inner @ [\<lparr>sa_row = audit, sa_row_hash = hash_hex row_hash\<rparr>]\<rparr>
               in persisted wr st inner' next_id)))"

fun collect_hashes :: "stored_audit list \<Rightarrow> (store_error, bytes list) result" where
  "collect_hashes [] = Ok []"
| "collect_hashes (a # rest) =
     (case hash_from_hex (sa_row_hash a) of
        None \<Rightarrow> Err (Integrity ''stored row_hash malformed'')
      | Some h \<Rightarrow> (case collect_hashes rest of Inl e \<Rightarrow> Err e | Inr hs \<Rightarrow> Ok (h # hs)))"

definition verify_audit_chain_sync ::
    "(bytes \<Rightarrow> bytes) \<Rightarrow> (bytes \<Rightarrow> bytes \<Rightarrow> bytes) \<Rightarrow> portable_store \<Rightarrow> (store_error, unit) result" where
  "verify_audit_chain_sync sha mac st =
     (let rows = map sa_row (in_audit (ps_inner st))
      in (case collect_hashes (in_audit (ps_inner st)) of
            Inl e \<Rightarrow> Err e
          | Inr hashes \<Rightarrow>
              (case (case ps_audit_key st of
                       Some k \<Rightarrow> verify_keyed sha mac k rows hashes
                     | None \<Rightarrow> verify sha rows hashes) of
                 VerifyOk \<Rightarrow> Ok ()
               | Tampered index \<Rightarrow> Err (Integrity (''audit chain broken at row index '' @ show_nat index)))))"

definition recent_sync :: "portable_store \<Rightarrow> string \<Rightarrow> nat \<Rightarrow> stored_event list" where
  "recent_sync st device limit =
     map (\<lambda>a. to_event (sa_row a))
       (take limit (filter (\<lambda>a. ar_device_id (sa_row a) = device) (rev (in_audit (ps_inner st)))))"

definition thread_state_sync :: "portable_store \<Rightarrow> string \<Rightarrow> bytes option" where
  "thread_state_sync st thread = fmlookup (in_thread_state (ps_inner st)) thread"

definition put_thread_state_sync ::
    "store_write \<Rightarrow> portable_store \<Rightarrow> string \<Rightarrow> bytes \<Rightarrow> (store_error, unit) result \<times> portable_store" where
  "put_thread_state_sync wr st thread state =
     (let i = ps_inner st
      in persisted wr st (i\<lparr>in_thread_state := fmupd thread state (in_thread_state i)\<rparr>) ())"

definition dedupe_alert_sync ::
    "store_write \<Rightarrow> portable_store \<Rightarrow> alert_dedupe \<Rightarrow> (store_error, bool) result \<times> portable_store" where
  "dedupe_alert_sync wr st d =
     (let i = ps_inner st; inserted = (ad_alert_id d |\<notin>| in_dedupe i)
      in if inserted then persisted wr st (i\<lparr>in_dedupe := finsert (ad_alert_id d) (in_dedupe i)\<rparr>) True
         else (Ok False, st))"

definition config_get_sync :: "portable_store \<Rightarrow> string \<Rightarrow> string option" where
  "config_get_sync st key = fmlookup (in_config (ps_inner st)) key"

definition config_put_sync ::
    "store_write \<Rightarrow> portable_store \<Rightarrow> string \<Rightarrow> string \<Rightarrow> (store_error, unit) result \<times> portable_store" where
  "config_put_sync wr st key value =
     (let i = ps_inner st in persisted wr st (i\<lparr>in_config := fmupd key value (in_config i)\<rparr>) ())"

definition evidence_for_sync :: "portable_store \<Rightarrow> int \<Rightarrow> evidence_meta option" where
  "evidence_for_sync st audit_id = find (\<lambda>e. em_audit_id e = audit_id) (in_evidence (ps_inner st))"

definition purge_evidence :: "retention_policy \<Rightarrow> int \<Rightarrow> inner \<Rightarrow> inner" where
  "purge_evidence p now i =
     (case evidence_cutoff_ms p now of
        None \<Rightarrow> i
      | Some cutoff \<Rightarrow>
          (let expired = map (\<lambda>a. ar_id (sa_row a)) (filter (\<lambda>a. ar_ts (sa_row a) < cutoff) (in_audit i))
           in i\<lparr>in_evidence := filter (\<lambda>e. em_audit_id e \<notin> set expired) (in_evidence i)\<rparr>))"

definition purge_aged :: "retention_policy \<Rightarrow> int \<Rightarrow> inner \<Rightarrow> inner" where
  "purge_aged p now i =
     (case audit_cutoff_ms p now of
        None \<Rightarrow> i
      | Some cutoff \<Rightarrow> i\<lparr>in_audit := filter (\<lambda>a. cutoff \<le> ar_ts (sa_row a)) (in_audit i)\<rparr>)"

definition rotate_count :: "retention_policy \<Rightarrow> inner \<Rightarrow> nat" where
  "rotate_count p i =
     (if 0 < rp_audit_max_rows p \<and> rp_audit_max_rows p < length (in_audit i)
      then length (in_audit i) - rp_audit_max_rows p else 0)"

definition purge_expired_sync ::
    "store_write \<Rightarrow> portable_store \<Rightarrow> int \<Rightarrow> (store_error, purge_report) result \<times> portable_store" where
  "purge_expired_sync wr st now =
     (let p = ps_retention st; i0 = ps_inner st;
          i1 = purge_evidence p now i0;
          i2 = purge_aged p now i1;
          remove = rotate_count p i2;
          i3 = i2\<lparr>in_audit := drop remove (in_audit i2)\<rparr>;
          report = \<lparr>pr_audit_rows_aged_out = length (in_audit i1) - length (in_audit i2),
                    pr_audit_rows_rotated = remove,
                    pr_evidence_rows_purged = length (in_evidence i0) - length (in_evidence i1)\<rparr>
      in persisted wr st i3 report)"

section \<open>The chain of a store\<close>

definition digests_32 :: "(bytes \<Rightarrow> bytes) \<Rightarrow> (bytes \<Rightarrow> bytes \<Rightarrow> bytes) \<Rightarrow> bool" where
  "digests_32 sha mac \<longleftrightarrow> (\<forall>x. length (sha x) = 32) \<and> (\<forall>k x. length (mac k x) = 32)"

lemma persisted_inner [simp]: "snd (persisted wr st i v) = st\<lparr>ps_inner := i\<rparr>"
  by (simp add: persisted_def)

lemma persisted_memory [simp]: "ps_path st = None \<Longrightarrow> fst (persisted wr st i v) = Ok v"
  by (simp add: persisted_def persist_def)

lemma store_chain_link_inner [simp]:
  "store_chain_link sha mac (st\<lparr>ps_inner := i\<rparr>) = store_chain_link sha mac st"
  by (intro ext) (simp add: store_chain_link_def)

lemma store_chain_link_key:
  "ps_audit_key st = Some k \<Longrightarrow> store_chain_link sha mac st = keyed_link mac k"
  "ps_audit_key st = None \<Longrightarrow> store_chain_link sha mac st = link sha"
  by (intro ext; simp add: store_chain_link_def)+

lemma length_store_chain_link: "digests_32 sha mac \<Longrightarrow> length (store_chain_link sha mac st p r) = 32"
  by (simp add: digests_32_def store_chain_link_def keyed_link_def link_def split: option.split)

lemma collect_hashes_Ok:
  "collect_hashes xs = Ok hs \<longleftrightarrow> map (\<lambda>a. hash_from_hex (sa_row_hash a)) xs = map Some hs"
proof (induction xs arbitrary: hs)
  case (Cons a xs)
  show ?case
    using Cons by (cases hs; cases "collect_hashes xs") (auto split: option.splits)
qed auto

lemma collect_hashes_append:
  "collect_hashes xs = Ok hs \<Longrightarrow> collect_hashes ys = Ok ks \<Longrightarrow> collect_hashes (xs @ ys) = Ok (hs @ ks)"
  by (simp add: collect_hashes_Ok)

lemma collect_hashes_length: "collect_hashes xs = Ok hs \<Longrightarrow> length hs = length xs"
  by (metis collect_hashes_Ok length_map)

lemma collect_hashes_subset:
  assumes "collect_hashes xs = Ok hs" "set ys \<subseteq> set xs"
  shows "\<exists>ks. collect_hashes ys = Ok ks"
proof -
  have parsed: "\<exists>h. hash_from_hex (sa_row_hash a) = Some h" if "a \<in> set xs" for a
  proof -
    have "hash_from_hex (sa_row_hash a) \<in> set (map Some hs)"
      using assms(1) that unfolding collect_hashes_Ok by (metis (no_types) image_eqI list.set_map)
    then show ?thesis by auto
  qed
  show ?thesis using assms(2)
  proof (induction ys)
    case (Cons a ys)
    then show ?case using parsed [of a] by auto
  qed simp
qed

lemma collect_hashes_last:
  assumes "collect_hashes xs = Ok hs" "xs \<noteq> []"
  shows "hash_from_hex (sa_row_hash (last xs)) = Some (last hs)"
proof -
  have "hs \<noteq> []" using assms collect_hashes_length by fastforce
  with assms show ?thesis unfolding collect_hashes_Ok by (metis last_map)
qed

interpretation store_log: hash_chain "store_chain_link sha mac st" "genesis sha"
    "walk (store_chain_link sha mac st) (genesis sha) 0" for sha mac st
  by (rule walk_hash_chain)

definition log_pairs :: "portable_store \<Rightarrow> bytes list \<Rightarrow> (audit_row \<times> bytes) list" where
  "log_pairs st hs = zip (map sa_row (in_audit (ps_inner st))) hs"

lemma verify_sync_walk:
  assumes "collect_hashes (in_audit (ps_inner st)) = Ok hs"
  shows "verify_audit_chain_sync sha mac st =
    (case walk (store_chain_link sha mac st) (genesis sha) 0 (log_pairs st hs) of
       None \<Rightarrow> Ok () | Some i \<Rightarrow> Err (Integrity (''audit chain broken at row index '' @ show_nat i)))"
proof -
  let ?rows = "map sa_row (in_audit (ps_inner st))"
  have len: "length hs = length (in_audit (ps_inner st))" using assms by (rule collect_hashes_length)
  have fs: "map fst (log_pairs st hs) = ?rows" "map snd (log_pairs st hs) = hs"
    by (simp_all add: log_pairs_def len)
  have "tamper_index (case ps_audit_key st of Some k \<Rightarrow> verify_keyed sha mac k ?rows hs | None \<Rightarrow> verify sha ?rows hs) =
    walk (store_chain_link sha mac st) (genesis sha) 0 (log_pairs st hs)"
    using verify_walk [of sha "log_pairs st hs"] verify_keyed_walk [of sha mac _ "log_pairs st hs"] fs
    by (cases "ps_audit_key st") (simp_all add: store_chain_link_key)
  note w = this [symmetric]
  show ?thesis unfolding w
    by (cases "case ps_audit_key st of Some k \<Rightarrow> verify_keyed sha mac k ?rows hs | None \<Rightarrow> verify sha ?rows hs")
       (simp_all add: verify_audit_chain_sync_def assms Let_def del: map_map)
qed

lemma verify_sync_Ok:
  "verify_audit_chain_sync sha mac st = Ok () \<longleftrightarrow>
     (\<exists>hs. collect_hashes (in_audit (ps_inner st)) = Ok hs \<and>
        walk (store_chain_link sha mac st) (genesis sha) 0 (log_pairs st hs) = None)"
proof (cases "collect_hashes (in_audit (ps_inner st))")
  case (Inl e)
  then show ?thesis by (simp add: verify_audit_chain_sync_def Let_def)
next
  case (Inr hs)
  then show ?thesis using verify_sync_walk [OF Inr] by (simp split: option.split)
qed

lemma last_zip_snd: "length xs = length ys \<Longrightarrow> ys \<noteq> [] \<Longrightarrow> snd (last (zip xs ys)) = last ys"
  by (cases ys rule: rev_cases; cases xs rule: rev_cases) auto

lemma record_sync_verified:
  assumes hs: "collect_hashes (in_audit (ps_inner st)) = Ok hs"
  defines "next_id \<equiv> (if in_audit (ps_inner st) = [] then 0 else i64_wrap (ar_id (sa_row (last (in_audit (ps_inner st)))) + 1))"
  shows "record_sync sha mac wr st event = persisted wr st
    (ps_inner st\<lparr>in_evidence := in_evidence (ps_inner st) @ evidence_of next_id event,
       in_audit := in_audit (ps_inner st) @ [\<lparr>sa_row = from_event next_id event,
         sa_row_hash = hash_hex (store_chain_link sha mac st (head_hash (genesis sha) (log_pairs st hs)) (from_event next_id event))\<rparr>]\<rparr>) next_id"
proof (cases "in_audit (ps_inner st) = []")
  case True
  then show ?thesis by (simp add: record_sync_def next_id_def Let_def head_hash_def log_pairs_def)
next
  case False
  have "head_hash (genesis sha) (log_pairs st hs) = last hs"
    using False collect_hashes_length [OF hs] by (auto simp: head_hash_def log_pairs_def last_zip_snd)
  then show ?thesis
    using collect_hashes_last [OF hs False] False by (simp add: record_sync_def next_id_def Let_def)
qed

lemma record_sync_keeps_log:
  assumes d: "digests_32 sha mac" and v: "verify_audit_chain_sync sha mac st = Ok ()"
  shows "verify_audit_chain_sync sha mac (snd (record_sync sha mac wr st event)) = Ok ()"
proof -
  from v obtain hs where hs: "collect_hashes (in_audit (ps_inner st)) = Ok hs"
    and w: "walk (store_chain_link sha mac st) (genesis sha) 0 (log_pairs st hs) = None"
    unfolding verify_sync_Ok by blast
  let ?st = "snd (record_sync sha mac wr st event)"
  obtain r h where new: "in_audit (ps_inner ?st) = in_audit (ps_inner st) @ [\<lparr>sa_row = r, sa_row_hash = hash_hex h\<rparr>]"
    and h: "h = store_chain_link sha mac st (head_hash (genesis sha) (log_pairs st hs)) r"
    and key: "store_chain_link sha mac ?st = store_chain_link sha mac st"
    by (simp add: record_sync_verified [OF hs])
  have "collect_hashes [\<lparr>sa_row = r, sa_row_hash = hash_hex h\<rparr>] = Ok [h]"
    using length_store_chain_link [OF d] by (simp add: h hash_from_hex_hex)
  with hs have hs': "collect_hashes (in_audit (ps_inner ?st)) = Ok (hs @ [h])"
    unfolding new by (rule collect_hashes_append)
  have "log_pairs ?st (hs @ [h]) = log_pairs st hs @ [(r, h)]"
    using collect_hashes_length [OF hs] by (simp add: log_pairs_def new)
  with store_log.append_verifies [OF w, of r] h
  have "walk (store_chain_link sha mac ?st) (genesis sha) 0 (log_pairs ?st (hs @ [h])) = None"
    by (simp add: key)
  with hs' show ?thesis unfolding verify_sync_Ok by blast
qed

section \<open>Properties\<close>


definition sample_mac :: "bytes \<Rightarrow> bytes \<Rightarrow> bytes" where
  "sample_mac k x = replicate 31 0 @ [x ! 31 + word_of_nat (length x)]"

definition sample_store :: portable_store where
  "sample_store = \<lparr>ps_inner = inner_default, ps_retention = retention_default, ps_audit_key = Some [1], ps_path = None\<rparr>"

definition sample_event :: stored_event where
  "sample_event = to_event sample_row"

lemma sample_digests: "digests_32 sample_sha sample_mac"
  by (simp add: digests_32_def sample_sha_def sample_mac_def)

lemma sample_store_verifies: "verify_audit_chain_sync sha mac sample_store = Ok ()"
  by (simp add: verify_sync_Ok sample_store_def inner_default_def log_pairs_def)


text \<open>
  Overwriting the row at one index, with its stored hash left as it was, is found
  at that index: the verifier answers an integrity error naming it, provided the new row
  hashes to something else than the old one did.
\<close>

theorem row_edit_reported:
  assumes "verify_audit_chain_sync sha mac st = Ok ()"
    and "collect_hashes (in_audit (ps_inner st)) = Ok hs" and "i < length hs"
    and "store_chain_link sha mac st (prev_hash (genesis sha) (log_pairs st hs) i) r \<noteq> hs ! i"
  shows "verify_audit_chain_sync sha mac
      (st\<lparr>ps_inner := ps_inner st\<lparr>in_audit := (in_audit (ps_inner st))[i := (in_audit (ps_inner st) ! i)\<lparr>sa_row := r\<rparr>]\<rparr>\<rparr>) =
    Err (Integrity (''audit chain broken at row index '' @ show_nat i))"
proof -
  let ?as = "in_audit (ps_inner st)"
  let ?st = "st\<lparr>ps_inner := ps_inner st\<lparr>in_audit := ?as[i := (?as ! i)\<lparr>sa_row := r\<rparr>]\<rparr>\<rparr>"
  have len: "length hs = length ?as" using assms(2) by (rule collect_hashes_length)
  have "map (\<lambda>a. hash_from_hex (sa_row_hash a)) (?as[i := (?as ! i)\<lparr>sa_row := r\<rparr>]) = map (\<lambda>a. hash_from_hex (sa_row_hash a)) ?as"
    using assms(3) len by (simp add: map_update list_update_same_conv)
  then have hs: "collect_hashes (in_audit (ps_inner ?st)) = Ok hs"
    using assms(2) by (simp add: collect_hashes_Ok)
  have e: "log_pairs ?st hs = (log_pairs st hs)[i := (r, snd (log_pairs st hs ! i))]"
    and nth: "snd (log_pairs st hs ! i) = hs ! i" "i < length (log_pairs st hs)"
    using assms(3) len by (simp_all add: log_pairs_def map_update update_zip list_update_id)
  have "walk (store_chain_link sha mac st) (genesis sha) 0 (log_pairs st hs) = None"
    using assms(1,2) unfolding verify_sync_Ok by auto
  then have "walk (store_chain_link sha mac st) (genesis sha) 0 (log_pairs ?st hs) = Some i"
    using store_log.edit_reported [OF _ nth(2)] assms(4) nth(1) unfolding e by simp
  then show ?thesis using verify_sync_walk [OF hs] by simp
qed

definition sample_logged :: portable_store where
  "sample_logged = sample_store\<lparr>ps_inner := inner_default\<lparr>in_audit := [\<lparr>sa_row = sample_row,
     sa_row_hash = hash_hex (store_chain_link sample_sha sample_mac sample_store (genesis sample_sha) sample_row)\<rparr>]\<rparr>\<rparr>"

lemma sample_logged_hashes:
  "collect_hashes (in_audit (ps_inner sample_logged)) =
     Ok [store_chain_link sample_sha sample_mac sample_store (genesis sample_sha) sample_row]"
  using length_store_chain_link [OF sample_digests] by (simp add: sample_logged_def hash_from_hex_hex)

lemma sample_logged_link: "store_chain_link sha mac sample_logged = store_chain_link sha mac sample_store"
  by (simp add: sample_logged_def)

lemma sample_logged_verifies: "verify_audit_chain_sync sample_sha sample_mac sample_logged = Ok ()"
  using sample_logged_hashes by (auto simp: verify_sync_Ok log_pairs_def sample_logged_link) (simp add: sample_logged_def)

theorem row_edit_reported_witness:
  "verify_audit_chain_sync sample_sha sample_mac
      (sample_logged\<lparr>ps_inner := ps_inner sample_logged\<lparr>in_audit := (in_audit (ps_inner sample_logged))
        [0 := (in_audit (ps_inner sample_logged) ! 0)\<lparr>sa_row := sample_row\<lparr>ar_device_id := ''tablet2''\<rparr>\<rparr>]\<rparr>\<rparr>) =
    Err (Integrity (''audit chain broken at row index '' @ show_nat 0))"
proof (rule row_edit_reported [OF sample_logged_verifies sample_logged_hashes])
  show "store_chain_link sample_sha sample_mac sample_logged
      (prev_hash (genesis sample_sha) (log_pairs sample_logged
        [store_chain_link sample_sha sample_mac sample_store (genesis sample_sha) sample_row]) 0)
      (sample_row\<lparr>ar_device_id := ''tablet2''\<rparr>) \<noteq>
    [store_chain_link sample_sha sample_mac sample_store (genesis sample_sha) sample_row] ! 0"
    by (simp add: sample_logged_link store_chain_link_def sample_store_def keyed_link_def sample_mac_def
        sample_sha_def canonical_bytes_def push_field_def sample_row_def genesis_def nth_append)
qed simp

section \<open>Retention\<close>

definition rows_kept :: "retention_policy \<Rightarrow> int \<Rightarrow> stored_audit list \<Rightarrow> stored_audit list" where
  "rows_kept p now rows = filter (\<lambda>a. \<forall>c. audit_cutoff_ms p now = Some c \<longrightarrow> c \<le> ar_ts (sa_row a)) rows"

definition evidence_expired :: "retention_policy \<Rightarrow> int \<Rightarrow> stored_audit list \<Rightarrow> evidence_meta \<Rightarrow> bool" where
  "evidence_expired p now rows e \<longleftrightarrow>
     (\<exists>c. evidence_cutoff_ms p now = Some c \<and>
        (\<exists>a\<in>set rows. ar_id (sa_row a) = em_audit_id e \<and> ar_ts (sa_row a) < c))"

lemma purge_evidence_eq:
  "purge_evidence p now i = i\<lparr>in_evidence := filter (\<lambda>e. \<not> evidence_expired p now (in_audit i) e) (in_evidence i)\<rparr>"
proof (cases "evidence_cutoff_ms p now")
  case None
  then show ?thesis by (simp add: purge_evidence_def evidence_expired_def)
next
  case (Some c)
  have "em_audit_id e \<notin> set (map (\<lambda>a. ar_id (sa_row a)) (filter (\<lambda>a. ar_ts (sa_row a) < c) (in_audit i))) \<longleftrightarrow>
      \<not> evidence_expired p now (in_audit i) e" for e
    by (auto simp: evidence_expired_def Some image_iff)
  then show ?thesis by (simp only: purge_evidence_def Some option.case Let_def)
qed

lemma purge_aged_eq: "purge_aged p now i = i\<lparr>in_audit := rows_kept p now (in_audit i)\<rparr>"
  by (simp add: purge_aged_def rows_kept_def split: option.split)

lemma rows_kept_drop: "rows_kept p now (drop k (rows_kept p now rows)) = drop k (rows_kept p now rows)"
  unfolding rows_kept_def by (rule filter_True) (auto dest: in_set_dropD)

lemma purge_inner:
  "ps_inner (snd (purge_expired_sync wr st now)) =
     (let p = ps_retention st; i = ps_inner st; kept = rows_kept p now (in_audit i)
      in i\<lparr>in_evidence := filter (\<lambda>e. \<not> evidence_expired p now (in_audit i) e) (in_evidence i),
          in_audit := drop (if 0 < rp_audit_max_rows p then length kept - rp_audit_max_rows p else 0) kept\<rparr>)"
  by (simp add: purge_expired_sync_def Let_def purge_evidence_eq purge_aged_eq rotate_count_def)

lemma purge_result:
  "fst (purge_expired_sync wr st now) =
     (case persist wr st (ps_inner (snd (purge_expired_sync wr st now))) of
        Inl e \<Rightarrow> Err e
      | Inr _ \<Rightarrow> Ok \<lparr>pr_audit_rows_aged_out = length (in_audit (ps_inner st)) - length (rows_kept (ps_retention st) now (in_audit (ps_inner st))),
          pr_audit_rows_rotated = length (rows_kept (ps_retention st) now (in_audit (ps_inner st))) -
            length (in_audit (ps_inner (snd (purge_expired_sync wr st now)))),
          pr_evidence_rows_purged = length (in_evidence (ps_inner st)) - length (in_evidence (ps_inner (snd (purge_expired_sync wr st now))))\<rparr>)"
  by (simp add: purge_expired_sync_def Let_def purge_evidence_eq purge_aged_eq rotate_count_def persisted_def
      split: sum.split)

lemma purge_fixpoint:
  assumes "ps_retention st = p" "in_audit (ps_inner st) = drop k (rows_kept p now rows)"
    and "0 < rp_audit_max_rows p \<Longrightarrow> length (in_audit (ps_inner st)) \<le> rp_audit_max_rows p"
    and "\<forall>e\<in>set (in_evidence (ps_inner st)). \<not> evidence_expired p now rows e"
  shows "snd (purge_expired_sync wr st now) = st"
proof -
  have sub: "set (in_audit (ps_inner st)) \<subseteq> set rows"
    using assms(2) by (auto simp: rows_kept_def dest: in_set_dropD)
  have "\<not> evidence_expired p now (in_audit (ps_inner st)) e" if "e \<in> set (in_evidence (ps_inner st))" for e
    using assms(4) that sub unfolding evidence_expired_def by blast
  then have "filter (\<lambda>e. \<not> evidence_expired p now (in_audit (ps_inner st)) e) (in_evidence (ps_inner st)) =
      in_evidence (ps_inner st)" by (simp add: filter_id_conv)
  moreover have "rows_kept p now (in_audit (ps_inner st)) = in_audit (ps_inner st)"
    using rows_kept_drop assms(2) by simp
  ultimately have "ps_inner (snd (purge_expired_sync wr st now)) = ps_inner st"
    using assms(1,3) by (simp add: purge_inner Let_def)
  then show ?thesis by (simp add: purge_expired_sync_def Let_def)
qed

text \<open>
  What a purge keeps: no audit row older than the audit cutoff, at most the
  configured number of rows, always the newest of those young enough and in their order;
  of the evidence exactly what belongs to no row older than the evidence cutoff. The report
  counts the rows that went, and purging again at the same time changes nothing.
\<close>

theorem purge_contract:
  assumes step: "purge_expired_sync wr st now = (res, st')"
  shows "(\<exists>k. in_audit (ps_inner st') = drop k (rows_kept (ps_retention st) now (in_audit (ps_inner st)))) \<and>
    (0 < rp_audit_max_rows (ps_retention st) \<longrightarrow> length (in_audit (ps_inner st')) \<le> rp_audit_max_rows (ps_retention st)) \<and>
    in_evidence (ps_inner st') =
      filter (\<lambda>e. \<not> evidence_expired (ps_retention st) now (in_audit (ps_inner st)) e) (in_evidence (ps_inner st)) \<and>
    (\<forall>report. res = Ok report \<longrightarrow>
       purge_total report + length (in_audit (ps_inner st')) + length (in_evidence (ps_inner st')) =
         length (in_audit (ps_inner st)) + length (in_evidence (ps_inner st))) \<and>
    snd (purge_expired_sync wr st' now) = st'"
proof -
  let ?p = "ps_retention st" and ?i = "ps_inner st"
  let ?kept = "rows_kept ?p now (in_audit ?i)"
  let ?k = "if 0 < rp_audit_max_rows ?p then length ?kept - rp_audit_max_rows ?p else 0"
  have i': "ps_inner st' = ?i\<lparr>in_evidence := filter (\<lambda>e. \<not> evidence_expired ?p now (in_audit ?i) e) (in_evidence ?i),
      in_audit := drop ?k ?kept\<rparr>" and ret: "ps_retention st' = ?p"
    using purge_inner [of wr st now] step by (simp_all add: Let_def) (auto simp: purge_expired_sync_def Let_def persisted_def)
  have len: "length ?kept \<le> length (in_audit ?i)"
    "length (filter (\<lambda>e. \<not> evidence_expired ?p now (in_audit ?i) e) (in_evidence ?i)) \<le> length (in_evidence ?i)"
    by (simp_all add: rows_kept_def)
  have max: "0 < rp_audit_max_rows ?p \<longrightarrow> length (in_audit (ps_inner st')) \<le> rp_audit_max_rows ?p"
    by (auto simp: i')
  have parts: "length (in_audit (ps_inner st')) \<le> length ?kept" "length (in_evidence (ps_inner st')) \<le> length (in_evidence ?i)"
    by (simp_all add: i')
  have "snd (purge_expired_sync wr st' now) = st'"
    by (rule purge_fixpoint [OF ret, where k = ?k and rows = "in_audit ?i"]) (use max in \<open>simp_all add: i'\<close>)
  moreover have "purge_total report + length (in_audit (ps_inner st')) + length (in_evidence (ps_inner st')) =
      length (in_audit ?i) + length (in_evidence ?i)" if "res = Ok report" for report
    using purge_result [of wr st now, unfolded step fst_conv snd_conv] that len(1) parts
    by (auto simp: purge_total_def split: sum.splits)
  moreover have "\<exists>k. in_audit (ps_inner st') = drop k ?kept" "in_evidence (ps_inner st') =
      filter (\<lambda>e. \<not> evidence_expired ?p now (in_audit ?i) e) (in_evidence ?i)"
    by (rule exI [of _ ?k]) (simp_all add: i')
  ultimately show ?thesis using max by blast
qed

text \<open>
  A purge that removes the first row leaves a log that no longer verifies: the
  verifier starts at the genesis hash, nothing recorded where the log now starts, so it
  reports row index 0 as tampered although nobody edited a row.
\<close>

theorem purge_breaks_chain:
  assumes ok: "verify_audit_chain_sync sha mac st = Ok ()"
    and step: "purge_expired_sync wr st now = (res, st')"
    and left: "in_audit (ps_inner st') = a # rest"
    and first: "hash_from_hex (sa_row_hash a) \<noteq> Some (store_chain_link sha mac st (genesis sha) (sa_row a))"
  shows "a \<in> set (in_audit (ps_inner st)) \<and>
    verify_audit_chain_sync sha mac st' = Err (Integrity (''audit chain broken at row index '' @ show_nat 0))"
proof -
  have sub: "set (in_audit (ps_inner st')) \<subseteq> set (in_audit (ps_inner st))"
    using purge_inner [of wr st now] step by (auto simp: Let_def rows_kept_def dest: in_set_dropD split: if_splits)
  obtain hs where hashes: "collect_hashes (in_audit (ps_inner st')) = Ok hs"
    using ok collect_hashes_subset [OF _ sub] unfolding verify_sync_Ok by blast
  have key: "store_chain_link sha mac st' = store_chain_link sha mac st"
    using step by (auto simp: purge_expired_sync_def Let_def persisted_def)
  obtain h t where hs: "hs = h # t" "hash_from_hex (sa_row_hash a) = Some h"
    using hashes left by (cases hs) (auto split: option.splits sum.splits)
  have "walk (store_chain_link sha mac st') (genesis sha) 0 (log_pairs st' hs) = Some 0"
    using first hs by (auto simp: key log_pairs_def left)
  then show ?thesis using sub left verify_sync_walk [OF hashes] by simp
qed

text \<open>
  A store that keeps a single audit row and already holds two, with the evidence of the
  first: the state used to show that the hypotheses of the retention properties can hold
  together.
\<close>

definition sample_entry :: "bytes \<Rightarrow> int \<Rightarrow> stored_audit" where
  "sample_entry prev i = \<lparr>sa_row = sample_row\<lparr>ar_id := i\<rparr>,
     sa_row_hash = hash_hex (keyed_link sample_mac [1] prev sample_row)\<rparr>"

definition sample_two :: portable_store where
  "sample_two = \<lparr>ps_inner = inner_default\<lparr>in_audit := [sample_entry (genesis sample_sha) 0,
       sample_entry (keyed_link sample_mac [1] (genesis sample_sha) sample_row) 1],
     in_evidence := [\<lparr>em_audit_id = 0, em_sha256 = ''ab'', em_phash = [], em_safe_thumbnail_ref = None, em_label = []\<rparr>]\<rparr>,
     ps_retention = retention_default\<lparr>rp_evidence_ttl_days := 0, rp_audit_max_rows := 1\<rparr>,
     ps_audit_key = Some [1], ps_path = None\<rparr>"

lemma keyed_link_id [simp]: "keyed_link mac k p (r\<lparr>ar_id := i\<rparr>) = keyed_link mac k p r"
  by (simp add: keyed_link_def canonical_bytes_def)

lemma sample_entry_hash [simp]:
  "hash_from_hex (sa_row_hash (sample_entry p i)) = Some (keyed_link sample_mac [1] p sample_row)"
  "sa_row (sample_entry p i) = sample_row\<lparr>ar_id := i\<rparr>"
  by (simp_all add: sample_entry_def hash_from_hex_hex keyed_link_def sample_mac_def)

lemma sample_two_link: "store_chain_link sample_sha sample_mac sample_two = keyed_link sample_mac [1]"
  by (rule store_chain_link_key) (simp add: sample_two_def)

lemma sample_two_verifies: "verify_audit_chain_sync sample_sha sample_mac sample_two = Ok ()"
proof -
  let ?h = "keyed_link sample_mac [1] (genesis sample_sha) sample_row"
  have "collect_hashes (in_audit (ps_inner sample_two)) = Ok [?h, keyed_link sample_mac [1] ?h sample_row]"
    by (simp add: sample_two_def)
  then show ?thesis
    by (auto simp: verify_sync_Ok sample_two_link log_pairs_def) (simp add: sample_two_def)
qed

lemma sample_two_rotated:
  "in_audit (ps_inner (snd (purge_expired_sync wr sample_two 1700000000000))) =
     [sample_entry (keyed_link sample_mac [1] (genesis sample_sha) sample_row) 1]"
proof -
  have "ar_ts sample_row = 1700000000000" by (simp add: sample_row_def)
  then show ?thesis
    by (simp add: purge_inner sample_two_def retention_default_def Let_def rows_kept_def audit_cutoff_ms_def
        ms_per_day_def i64_wrap_def)
qed

theorem purge_contract_witness:
  "length (in_audit (ps_inner (snd (purge_expired_sync (\<lambda>p i. Ok ()) sample_two 1700000000000)))) \<le> 1"
  using purge_contract [OF surjective_pairing, of "\<lambda>p i. Ok ()" sample_two 1700000000000]
  by (simp add: sample_two_def)

theorem purge_breaks_chain_witness:
  "verify_audit_chain_sync sample_sha sample_mac (snd (purge_expired_sync (\<lambda>p i. Ok ()) sample_two 1700000000000)) =
     Err (Integrity (''audit chain broken at row index '' @ show_nat 0))"
proof -
  have "keyed_link sample_mac [1] (keyed_link sample_mac [1] (genesis sample_sha) sample_row) sample_row \<noteq>
      keyed_link sample_mac [1] (genesis sample_sha) sample_row"
    by (simp add: keyed_link_def sample_mac_def sample_sha_def genesis_def nth_append canonical_bytes_def
        push_field_def sample_row_def)
  then show ?thesis
    using purge_breaks_chain [OF sample_two_verifies surjective_pairing sample_two_rotated] by (simp add: sample_two_link)
qed

text \<open>
  Row ids restart at zero once every audit row is gone, but evidence of rows that
  were rotated out stays: then the next recorded event gets id 0 and looking up its evidence
  returns the leftover evidence of an earlier event.
\<close>

theorem evidence_misattributed:
  assumes empty: "in_audit (ps_inner st) = []" and left: "evidence_for_sync st 0 = Some e"
    and mem: "ps_path st = None"
  shows "fst (record_sync sha mac wr st event) = Ok 0 \<and>
    evidence_for_sync (snd (record_sync sha mac wr st event)) 0 = Some e"
proof -
  have "find (\<lambda>x. em_audit_id x = 0) (in_evidence (ps_inner st) @ ys) = Some e" for ys
    using left by (simp add: evidence_for_sync_def find_append_Some)
  then show ?thesis
    using mem by (simp add: record_sync_def Let_def empty evidence_for_sync_def)
qed

theorem evidence_misattributed_witness:
  "fst (record_sync sample_sha sample_mac (\<lambda>p i. Ok ()) (snd (purge_expired_sync (\<lambda>p i. Ok ()) sample_two 1800000000000))
     (sample_event\<lparr>se_verdict := (se_verdict sample_event)\<lparr>v_evidence := None\<rparr>\<rparr>)) = Ok 0"
proof -
  let ?st = "snd (purge_expired_sync (\<lambda>p i. Ok ()) sample_two 1800000000000)"
  have "ar_ts sample_row = 1700000000000" by (simp add: sample_row_def)
  then have "in_audit (ps_inner ?st) = []" "evidence_for_sync ?st 0 \<noteq> None" "ps_path ?st = None"
    by (simp_all add: evidence_for_sync_def purge_inner sample_two_def retention_default_def Let_def rows_kept_def
        audit_cutoff_ms_def evidence_cutoff_ms_def evidence_expired_def ms_per_day_def i64_wrap_def)
       (simp add: purge_expired_sync_def Let_def)
  then show ?thesis using evidence_misattributed by blast
qed

end
