(* ===== verification/RateLimit.thy ===== *)
theory RateLimit
  imports Proto "HOL-Library.Multiset"
begin

text \<open>
  Alert pacing: \<open>bulwark-alert/src/ratelimit.rs\<close>. Deduplication by alert id within one
  window, a rolling budget of immediate sends in another, and a bounded digest buffer for
  the rest. An \<open>Instant\<close> is a natural number of nanoseconds, and \<open>duration_since\<close> is
  subtraction that stops at zero, as in the standard library.
\<close>

section \<open>The limiter\<close>

record rate_limit_config =
  rl_dedupe_window :: nat
  rl_burst_window :: nat
  rl_max_immediate_per_window :: nat
  rl_digest_max_events :: nat

datatype decision = SendNow | Deduped | Coalesced

record rate_limiter =
  rl_cfg :: rate_limit_config
  rl_seen :: "(string, nat) fmap"
  rl_recent_sends :: "nat list"
  rl_pending_digest :: "alert_event list"

definition rate_limiter_new :: "rate_limit_config \<Rightarrow> rate_limiter" where
  "rate_limiter_new cfg = \<lparr>rl_cfg = cfg, rl_seen = fmempty, rl_recent_sends = [], rl_pending_digest = []\<rparr>"

definition rl_expire :: "rate_limiter \<Rightarrow> nat \<Rightarrow> rate_limiter" where
  "rl_expire r now =
     r\<lparr>rl_seen := fm_retain (\<lambda>k first. now - first < rl_dedupe_window (rl_cfg r)) (rl_seen r),
       rl_recent_sends := dropWhile (\<lambda>front. now - front \<ge> rl_burst_window (rl_cfg r)) (rl_recent_sends r)\<rparr>"

definition rl_budget :: "rate_limiter \<Rightarrow> alert_event \<Rightarrow> nat \<Rightarrow> decision \<times> rate_limiter" where
  "rl_budget r event now =
     (if as_u32 (length (rl_recent_sends r)) < rl_max_immediate_per_window (rl_cfg r)
      then (SendNow, r\<lparr>rl_recent_sends := rl_recent_sends r @ [now]\<rparr>)
      else (Coalesced,
            if length (rl_pending_digest r) < rl_digest_max_events (rl_cfg r)
            then r\<lparr>rl_pending_digest := rl_pending_digest r @ [event]\<rparr> else r))"

definition rl_admit :: "rate_limiter \<Rightarrow> alert_event \<Rightarrow> nat \<Rightarrow> decision \<times> rate_limiter" where
  "rl_admit r0 event now =
     (let r = rl_expire r0 now; key = ae_alert_id event
      in if key = [] then rl_budget r event now
         else (case fmlookup (rl_seen r) key of
                 Some first \<Rightarrow>
                   if now - first < rl_dedupe_window (rl_cfg r) then (Deduped, r)
                   else rl_budget (r\<lparr>rl_seen := fmupd key now (rl_seen r)\<rparr>) event now
               | None \<Rightarrow> rl_budget (r\<lparr>rl_seen := fmupd key now (rl_seen r)\<rparr>) event now))"

definition has_pending_digest :: "rate_limiter \<Rightarrow> bool" where
  "has_pending_digest r \<longleftrightarrow> rl_pending_digest r \<noteq> []"

definition pending_len :: "rate_limiter \<Rightarrow> nat" where
  "pending_len r = length (rl_pending_digest r)"

definition drain_digest :: "rate_limiter \<Rightarrow> alert_event list \<times> rate_limiter" where
  "drain_digest r = (rl_pending_digest r, r\<lparr>rl_pending_digest := []\<rparr>)"

definition note_digest_sent :: "rate_limiter \<Rightarrow> nat \<Rightarrow> rate_limiter" where
  "note_digest_sent r now = r\<lparr>rl_recent_sends := rl_recent_sends r @ [now]\<rparr>"

section \<open>Histories\<close>

text \<open>One call of the limiter, and the log of what a sequence of admissions decided.\<close>

datatype rl_call = Admit alert_event nat | Drain | NoteDigest nat

fun rl_call_time :: "rl_call \<Rightarrow> nat option" where
  "rl_call_time (Admit e t) = Some t"
| "rl_call_time Drain = None"
| "rl_call_time (NoteDigest t) = Some t"

fun rl_step :: "rate_limiter \<Rightarrow> rl_call \<Rightarrow> (string \<times> nat \<times> decision) list \<times> rate_limiter" where
  "rl_step r (Admit e t) = (let (d, r') = rl_admit r e t in ([(ae_alert_id e, t, d)], r'))"
| "rl_step r Drain = ([], snd (drain_digest r))"
| "rl_step r (NoteDigest t) = ([], note_digest_sent r t)"

fun rl_run :: "rate_limiter \<Rightarrow> rl_call list \<Rightarrow> (string \<times> nat \<times> decision) list \<times> rate_limiter" where
  "rl_run r [] = ([], r)"
| "rl_run r (c # cs) = (let (l, r1) = rl_step r c; (ls, r2) = rl_run r1 cs in (l @ ls, r2))"

definition in_time_order :: "rl_call list \<Rightarrow> bool" where
  "in_time_order cs \<longleftrightarrow> sorted (List.map_filter rl_call_time cs)"

section \<open>The pacing invariant\<close>

definition spaced_from :: "nat \<Rightarrow> (string \<times> nat \<times> decision) list \<Rightarrow> string \<times> nat \<times> decision \<Rightarrow> bool" where
  "spaced_from w earlier = (\<lambda>(k, t, d). k \<noteq> [] \<longrightarrow> d \<noteq> Deduped \<longrightarrow>
     (\<forall>(k', t', d')\<in>set earlier. k' = k \<longrightarrow> d' \<noteq> Deduped \<longrightarrow> w \<le> t - t'))"

definition dedupe_spaced :: "nat \<Rightarrow> (string \<times> nat \<times> decision) list \<Rightarrow> bool" where
  "dedupe_spaced w L \<longleftrightarrow> (\<forall>P e R. L = P @ e # R \<longrightarrow> spaced_from w P e)"

definition sends_within :: "nat \<Rightarrow> nat \<Rightarrow> (string \<times> nat \<times> decision) list \<Rightarrow> nat list" where
  "sends_within b t L = map (\<lambda>(k, t', d). t') (filter (\<lambda>(k, t', d). d = SendNow \<and> t - t' < b) L)"

definition burst_bounded :: "nat \<Rightarrow> nat \<Rightarrow> (string \<times> nat \<times> decision) list \<Rightarrow> bool" where
  "burst_bounded b mx L \<longleftrightarrow>
     (\<forall>P k t R. L = P @ (k, t, SendNow) # R \<longrightarrow> length (sends_within b t P) < mx)"

definition rl_inv :: "rate_limit_config \<Rightarrow> rate_limiter \<Rightarrow> (string \<times> nat \<times> decision) list \<Rightarrow> nat \<Rightarrow> bool" where
  "rl_inv cfg r L t \<longleftrightarrow> rl_cfg r = cfg \<and>
     (\<forall>(k, t0, d)\<in>set L. t0 \<le> t) \<and>
     (\<forall>(k, t0, d)\<in>set L. k \<noteq> [] \<longrightarrow> d \<noteq> Deduped \<longrightarrow> t - t0 < rl_dedupe_window cfg \<longrightarrow>
        (\<exists>f. fmlookup (rl_seen r) k = Some f \<and> t0 \<le> f)) \<and>
     mset (sends_within (rl_burst_window cfg) t L) \<subseteq># mset (rl_recent_sends r) \<and>
     dedupe_spaced (rl_dedupe_window cfg) L \<and>
     burst_bounded (rl_burst_window cfg) (rl_max_immediate_per_window cfg) L"

lemma snoc_split: "L @ [e] = P @ x # R \<longleftrightarrow> (\<exists>R'. R = R' @ [e] \<and> L = P @ x # R') \<or> R = [] \<and> P = L \<and> x = e"
  by (cases R rule: rev_cases) auto

lemma dedupe_spaced_snoc:
  "dedupe_spaced w (L @ [e]) \<longleftrightarrow> dedupe_spaced w L \<and> spaced_from w L e"
  unfolding dedupe_spaced_def snoc_split by blast

lemma burst_bounded_snoc:
  "burst_bounded b mx (L @ [(k, t, d)]) \<longleftrightarrow> burst_bounded b mx L \<and> (d = SendNow \<longrightarrow> length (sends_within b t L) < mx)"
  unfolding burst_bounded_def snoc_split by blast

lemma sends_within_snoc:
  "sends_within b t (L @ [(k, t', d)]) = sends_within b t L @ (if d = SendNow \<and> t - t' < b then [t'] else [])"
  by (simp add: sends_within_def)

lemma sends_within_later: "t \<le> t' \<Longrightarrow> mset (sends_within b t' L) \<subseteq># mset (sends_within b t L)"
  unfolding sends_within_def mset_map by (rule image_mset_subseteq_mono) (auto simp: mset_filter intro!: filter_mset_mono_strong)

lemma dropWhile_keeps: "filter_mset (\<lambda>x. \<not> P x) (mset xs) \<subseteq># mset (dropWhile P xs)"
proof (induction xs)
  case (Cons x xs)
  then show ?case using multiset_filter_subset [of "\<lambda>x. \<not> P x" "mset xs"] by auto
qed simp

lemma sends_within_filter: "filter_mset (\<lambda>x. t - x < b) (mset (sends_within b t L)) = mset (sends_within b t L)"
  by (rule filter_mset_eq_conv [THEN iffD2]) (auto simp: sends_within_def)

lemma expire_keeps_sends:
  assumes "mset (sends_within b t L) \<subseteq># mset xs" "t \<le> t'"
  shows "mset (sends_within b t' L) \<subseteq># mset (dropWhile (\<lambda>x. b \<le> t' - x) xs)"
proof -
  have "mset (sends_within b t' L) \<subseteq># mset xs"
    using assms sends_within_later subset_mset.order_trans by blast
  then have "filter_mset (\<lambda>x. t' - x < b) (mset (sends_within b t' L)) \<subseteq># filter_mset (\<lambda>x. t' - x < b) (mset xs)"
    by (rule multiset_filter_mono)
  then have "mset (sends_within b t' L) \<subseteq># filter_mset (\<lambda>x. \<not> b \<le> t' - x) (mset xs)"
    by (simp add: sends_within_filter not_le)
  also have "\<dots> \<subseteq># mset (dropWhile (\<lambda>x. b \<le> t' - x) xs)" by (rule dropWhile_keeps)
  finally show ?thesis .
qed

lemma rl_budget_cases:
  "rl_budget r e t = (d, r') \<Longrightarrow> rl_cfg r' = rl_cfg r \<and> rl_seen r' = rl_seen r \<and>
     (d = SendNow \<and> as_u32 (length (rl_recent_sends r)) < rl_max_immediate_per_window (rl_cfg r) \<and>
        rl_recent_sends r' = rl_recent_sends r @ [t] \<or>
      d = Coalesced \<and> rl_recent_sends r' = rl_recent_sends r)"
  by (auto simp: rl_budget_def split: if_splits)

lemma rl_admit_cases:
  assumes "rl_admit r e t = (d, r')"
  defines "old \<equiv> fm_retain (\<lambda>k f. t - f < rl_dedupe_window (rl_cfg r)) (rl_seen r)"
    and "recent \<equiv> dropWhile (\<lambda>x. rl_burst_window (rl_cfg r) \<le> t - x) (rl_recent_sends r)"
  shows "rl_cfg r' = rl_cfg r \<and>
     (d = Deduped \<and> ae_alert_id e \<noteq> [] \<and> rl_seen r' = old \<and> rl_recent_sends r' = recent \<or>
      (ae_alert_id e = [] \<and> rl_seen r' = old \<or>
       ae_alert_id e \<noteq> [] \<and> fmlookup old (ae_alert_id e) = None \<and> rl_seen r' = fmupd (ae_alert_id e) t old) \<and>
      (d = SendNow \<and> as_u32 (length recent) < rl_max_immediate_per_window (rl_cfg r) \<and> rl_recent_sends r' = recent @ [t] \<or>
       d = Coalesced \<and> rl_recent_sends r' = recent))"
proof -
  have e: "rl_expire r t = r\<lparr>rl_seen := old, rl_recent_sends := recent\<rparr>"
    by (simp add: rl_expire_def old_def recent_def)
  consider (anon) "ae_alert_id e = []" | (new) "ae_alert_id e \<noteq> []" "fmlookup old (ae_alert_id e) = None"
    | (dup) f where "ae_alert_id e \<noteq> []" "fmlookup old (ae_alert_id e) = Some f" "t - f < rl_dedupe_window (rl_cfg r)"
    by (cases "fmlookup old (ae_alert_id e)") (auto simp: old_def split: option.splits if_splits)
  then show ?thesis
  proof cases
    case anon
    then have "rl_budget (r\<lparr>rl_seen := old, rl_recent_sends := recent\<rparr>) e t = (d, r')"
      using assms(1) by (simp add: rl_admit_def e)
    from rl_budget_cases [OF this] anon show ?thesis by auto
  next
    case new
    then have "rl_budget (r\<lparr>rl_recent_sends := recent, rl_seen := fmupd (ae_alert_id e) t old\<rparr>) e t = (d, r')"
      using assms(1) by (simp add: rl_admit_def e)
    from rl_budget_cases [OF this] new show ?thesis by auto
  next
    case dup
    then show ?thesis using assms(1) by (auto simp: rl_admit_def e)
  qed
qed

lemma rl_admit_length: "rl_admit r e t = (d, r') \<Longrightarrow> length (rl_recent_sends r') \<le> Suc (length (rl_recent_sends r))"
  using rl_admit_cases [of r e t d r'] length_dropWhile_le [of "\<lambda>x. rl_burst_window (rl_cfg r) \<le> t - x" "rl_recent_sends r"]
  by auto

lemma seen_step:
  assumes inv: "rl_inv cfg r L t" and le: "t \<le> t'" and mem: "(k, t0, d0) \<in> set L" "k \<noteq> []" "d0 \<noteq> Deduped"
    and win: "t' - t0 < rl_dedupe_window cfg"
  shows "\<exists>f. fmlookup (fm_retain (\<lambda>k f. t' - f < rl_dedupe_window cfg) (rl_seen r)) k = Some f \<and> t0 \<le> f"
proof -
  have "t - t0 < rl_dedupe_window cfg" using win le by simp
  then obtain f where "fmlookup (rl_seen r) k = Some f" "t0 \<le> f" using inv mem unfolding rl_inv_def by fastforce
  with win show ?thesis by simp
qed

lemma rl_inv_admit:
  assumes inv: "rl_inv cfg r L t" and le: "t \<le> t'" and small: "length (rl_recent_sends r) < 2 ^ 32"
    and step: "rl_admit r e t' = (d, r')"
  shows "rl_inv cfg r' (L @ [(ae_alert_id e, t', d)]) t'"
proof -
  let ?k = "ae_alert_id e" and ?W = "rl_dedupe_window cfg" and ?B = "rl_burst_window cfg"
  let ?old = "fm_retain (\<lambda>k f. t' - f < ?W) (rl_seen r)" and ?recent = "dropWhile (\<lambda>x. ?B \<le> t' - x) (rl_recent_sends r)"
  have cfg: "rl_cfg r = cfg" using inv by (simp add: rl_inv_def)
  note c = rl_admit_cases [OF step, unfolded cfg]
  have subL: "mset (sends_within ?B t' L) \<subseteq># mset ?recent"
    by (rule expire_keeps_sends [OF _ le]) (use inv in \<open>simp add: rl_inv_def\<close>)
  then have sub2: "mset (sends_within ?B t' L) \<subseteq># add_mset t' (mset ?recent)"
    by (rule subset_mset.order_trans) simp
  have fresh: "fmlookup ?old ?k = None \<Longrightarrow> spaced_from ?W L (?k, t', d)"
    using seen_step [OF inv le, of ?k] by (fastforce simp: spaced_from_def not_less [symmetric])
  have sp: "spaced_from ?W L (?k, t', d)"
    using c fresh by (auto simp: spaced_from_def)
  have len: "as_u32 (length ?recent) = length ?recent"
    using small length_dropWhile_le [of "\<lambda>x. ?B \<le> t' - x" "rl_recent_sends r"] by (simp add: as_u32_def)
  have bu: "d = SendNow \<Longrightarrow> length (sends_within ?B t' L) < rl_max_immediate_per_window cfg"
    using c len size_mset_mono [OF subL] by auto
  have sends: "mset (sends_within ?B t' (L @ [(?k, t', d)])) \<subseteq># mset (rl_recent_sends r')"
    unfolding sends_within_snoc using c subL sub2 by (cases d) auto
  have seen: "\<exists>f. fmlookup (rl_seen r') k = Some f \<and> t0 \<le> f"
    if "(k, t0, d0) \<in> set (L @ [(?k, t', d)])" "k \<noteq> []" "d0 \<noteq> Deduped" "t' - t0 < ?W" for k t0 d0
  proof (cases "(k, t0, d0) \<in> set L")
    case True
    then have "t0 \<le> t'" using inv le by (fastforce simp: rl_inv_def)
    moreover have "\<exists>f. fmlookup ?old k = Some f \<and> t0 \<le> f" using seen_step [OF inv le True] that by blast
    ultimately show ?thesis using c by auto
  next
    case False
    with that c show ?thesis by auto
  qed
  have times: "\<forall>(k, t0, d)\<in>set (L @ [(?k, t', d)]). t0 \<le> t'" using inv le by (fastforce simp: rl_inv_def)
  have "rl_cfg r' = cfg" "dedupe_spaced ?W L" "burst_bounded ?B (rl_max_immediate_per_window cfg) L"
    using c inv by (simp_all add: rl_inv_def)
  moreover have "\<forall>(k, t0, d0)\<in>set (L @ [(?k, t', d)]). k \<noteq> [] \<longrightarrow> d0 \<noteq> Deduped \<longrightarrow> t' - t0 < ?W \<longrightarrow>
      (\<exists>f. fmlookup (rl_seen r') k = Some f \<and> t0 \<le> f)"
    using seen by blast
  ultimately show ?thesis
    unfolding rl_inv_def dedupe_spaced_snoc burst_bounded_snoc using times sends sp bu by blast
qed

lemma rl_inv_later:
  assumes inv: "rl_inv cfg r L t" and le: "t \<le> t'" and same: "rl_cfg r' = rl_cfg r" "rl_seen r' = rl_seen r"
    and more: "mset (rl_recent_sends r) \<subseteq># mset (rl_recent_sends r')"
  shows "rl_inv cfg r' L t'"
proof -
  have "mset (sends_within (rl_burst_window cfg) t' L) \<subseteq># mset (rl_recent_sends r')"
    using sends_within_later [OF le] inv more unfolding rl_inv_def by (meson subset_mset.order_trans)
  moreover have "\<forall>(k, t0, d)\<in>set L. t0 \<le> t'" using inv le by (fastforce simp: rl_inv_def)
  moreover have seen: "\<forall>(k, t0, d)\<in>set L. k \<noteq> [] \<longrightarrow> d \<noteq> Deduped \<longrightarrow> t' - t0 < rl_dedupe_window cfg \<longrightarrow>
      (\<exists>f. fmlookup (rl_seen r) k = Some f \<and> t0 \<le> f)"
  proof clarify
    fix k t0 d
    assume "(k, t0, d) \<in> set L" "k \<noteq> []" "d \<noteq> Deduped" "t' - t0 < rl_dedupe_window cfg"
    moreover from this(4) le have "t - t0 < rl_dedupe_window cfg" by simp
    ultimately show "\<exists>f. fmlookup (rl_seen r) k = Some f \<and> t0 \<le> f" using inv unfolding rl_inv_def by fastforce
  qed
  ultimately show ?thesis
    using inv seen unfolding rl_inv_def same by blast
qed

lemma rl_run_snoc:
  "rl_run r (cs @ [c]) =
     (let (L, r1) = rl_run r cs; (l, r2) = rl_step r1 c in (L @ l, r2))"
  by (induction cs arbitrary: r) (auto split: prod.splits)

lemma rl_run_length: "length (rl_recent_sends (snd (rl_run r cs))) \<le> length (rl_recent_sends r) + length cs"
proof (induction cs arbitrary: r)
  case (Cons c cs)
  have "length (rl_recent_sends (snd (rl_step r c))) \<le> Suc (length (rl_recent_sends r))"
    by (cases c) (auto simp: note_digest_sent_def drain_digest_def split: prod.splits dest: rl_admit_length)
  then show ?case using Cons [of "snd (rl_step r c)"] by (auto split: prod.splits)
qed simp

definition last_time :: "rl_call list \<Rightarrow> nat" where
  "last_time cs = (let ts = List.map_filter rl_call_time cs in if ts = [] then 0 else last ts)"

lemma map_filter_snoc:
  "List.map_filter f (xs @ [x]) = List.map_filter f xs @ (case f x of None \<Rightarrow> [] | Some y \<Rightarrow> [y])"
  by (simp add: List.map_filter_def split: option.split)

lemma last_time_snoc:
  assumes "in_time_order (cs @ [c])"
  shows "in_time_order cs \<and>
    (case rl_call_time c of None \<Rightarrow> last_time (cs @ [c]) = last_time cs
     | Some t \<Rightarrow> last_time (cs @ [c]) = t \<and> last_time cs \<le> t)"
  using assms last_in_set [of "List.map_filter rl_call_time cs"]
  by (auto simp: in_time_order_def last_time_def map_filter_snoc sorted_append Let_def split: option.splits)

lemma rl_run_inv:
  assumes "in_time_order cs" "length cs < 2 ^ 32"
  shows "rl_inv cfg (snd (rl_run (rate_limiter_new cfg) cs)) (fst (rl_run (rate_limiter_new cfg) cs)) (last_time cs)"
  using assms
proof (induction cs rule: rev_induct)
  case Nil
  then show ?case
    by (simp add: rl_inv_def rate_limiter_new_def sends_within_def dedupe_spaced_def burst_bounded_def)
next
  case (snoc c cs)
  let ?r = "rate_limiter_new cfg"
  obtain L r where run: "rl_run ?r cs = (L, r)" by force
  have inv: "rl_inv cfg r L (last_time cs)" using snoc last_time_snoc run by force
  have small: "length (rl_recent_sends r) < 2 ^ 32"
  proof -
    have "rl_recent_sends ?r = []" by (simp add: rate_limiter_new_def)
    then show ?thesis using rl_run_length [of ?r cs] snoc.prems(2) by (simp add: run)
  qed
  note t = last_time_snoc [OF snoc.prems(1)]
  show ?case
  proof (cases c)
    case (Admit e now)
    obtain d r' where "rl_admit r e now = (d, r')" by force
    with rl_inv_admit [OF inv _ small this] t show ?thesis by (simp add: rl_run_snoc run Admit)
  next
    case Drain
    have "rl_inv cfg (snd (drain_digest r)) L (last_time cs)"
      by (rule rl_inv_later [OF inv]) (simp_all add: drain_digest_def)
    with t show ?thesis by (simp add: rl_run_snoc run Drain)
  next
    case (NoteDigest now)
    have "rl_inv cfg (note_digest_sent r now) L now"
      by (rule rl_inv_later [OF inv]) (use t NoteDigest in \<open>simp_all add: note_digest_sent_def\<close>)
    with t show ?thesis by (simp add: rl_run_snoc run NoteDigest)
  qed
qed

section \<open>Properties\<close>

text \<open>
  Claim C24. Whatever alerts arrive, in whatever order and mixed with digest flushes, as long as
  the clock does not run backwards: an alert id that was let through is not let through again
  before the dedupe window has passed, and an alert is sent immediately only if fewer than
  the configured number went out immediately within the burst window before it.
\<close>

theorem alert_pacing:
  assumes "in_time_order cs" "length cs < 2 ^ 32"
  shows "dedupe_spaced (rl_dedupe_window cfg) (fst (rl_run (rate_limiter_new cfg) cs)) \<and>
    burst_bounded (rl_burst_window cfg) (rl_max_immediate_per_window cfg) (fst (rl_run (rate_limiter_new cfg) cs))"
  using rl_run_inv [OF assms] by (simp add: rl_inv_def)

definition sample_alert :: "string \<Rightarrow> alert_event" where
  "sample_alert i = \<lparr>ae_alert_id = i, ae_kind = 1, ae_category = 2, ae_severity = 4, ae_app = [], ae_device_id = [], ae_ts = 0,
     ae_redacted_context = [], ae_evidence = None, ae_child_id = [], ae_family_id = [], ae_local_segment_uri = []\<rparr>"

definition sample_limits :: rate_limit_config where
  "sample_limits = \<lparr>rl_dedupe_window = 300, rl_burst_window = 60, rl_max_immediate_per_window = 1, rl_digest_max_events = 1\<rparr>"

theorem alert_pacing_witness:
  "burst_bounded 60 1 (fst (rl_run (rate_limiter_new sample_limits)
     [Admit (sample_alert ''a'') 0, Admit (sample_alert ''b'') 10, Drain, NoteDigest 20, Admit (sample_alert ''a'') 30]))"
proof -
  have "in_time_order [Admit (sample_alert ''a'') 0, Admit (sample_alert ''b'') 10, Drain, NoteDigest 20, Admit (sample_alert ''a'') 30]"
    by code_simp
  from alert_pacing [OF this, of sample_limits] show ?thesis by (simp add: sample_limits_def)
qed

text \<open>
  An alert can be lost without a trace: once the immediate budget is used up and the
  digest buffer is full, a new alert is answered as coalesced although it is stored nowhere,
  and because its id has been remembered, a retry within the dedupe window is suppressed as
  a duplicate.
\<close>

theorem coalesced_alert_lost:
  assumes new: "ae_alert_id e \<noteq> []" "fmlookup (rl_seen r) (ae_alert_id e) = None"
    and busy: "rl_max_immediate_per_window (rl_cfg r) \<le>
      as_u32 (length (dropWhile (\<lambda>x. rl_burst_window (rl_cfg r) \<le> t - x) (rl_recent_sends r)))"
    and full: "rl_digest_max_events (rl_cfg r) \<le> length (rl_pending_digest r)"
    and retry: "t \<le> t'" "t' - t < rl_dedupe_window (rl_cfg r)"
  shows "\<exists>r'. rl_admit r e t = (Coalesced, r') \<and> rl_pending_digest r' = rl_pending_digest r \<and>
    fst (rl_admit r' e t') = Deduped"
  using assms by (auto simp: rl_admit_def rl_expire_def rl_budget_def Let_def)

theorem coalesced_alert_lost_witness:
  "\<exists>r'. rl_admit (snd (rl_run (rate_limiter_new sample_limits) [Admit (sample_alert ''a'') 0, Admit (sample_alert ''b'') 1]))
      (sample_alert ''c'') 2 = (Coalesced, r') \<and> fst (rl_admit r' (sample_alert ''c'') 9) = Deduped"
proof -
  let ?r = "snd (rl_run (rate_limiter_new sample_limits) [Admit (sample_alert ''a'') 0, Admit (sample_alert ''b'') 1])"
  have "fmlookup (rl_seen ?r) (ae_alert_id (sample_alert ''c'')) = None" "ae_alert_id (sample_alert ''c'') \<noteq> []"
    "rl_max_immediate_per_window (rl_cfg ?r) \<le>
       as_u32 (length (dropWhile (\<lambda>x. rl_burst_window (rl_cfg ?r) \<le> 2 - x) (rl_recent_sends ?r)))"
    "rl_digest_max_events (rl_cfg ?r) \<le> length (rl_pending_digest ?r)" "9 - 2 < rl_dedupe_window (rl_cfg ?r)"
    by (simp_all add: sample_limits_def sample_alert_def rate_limiter_new_def rl_admit_def rl_expire_def rl_budget_def
        as_u32_def fm_retain_def Let_def)
  with coalesced_alert_lost [of "sample_alert ''c''" ?r 2 9] show ?thesis by auto
qed

end
