(* ===== verification/StrOps.thy ===== *)
theory StrOps
  imports Prelude
begin

text \<open>
  The string operations of the Rust standard library that the parsers use: splitting at a
  character, prefixes and suffixes, lines. Strings are read as their UTF-8 bytes, and all
  separators are ASCII, so that a search for a separator in the bytes finds what a search in
  the characters finds.
\<close>

section \<open>Definitions\<close>

text \<open>\<open>str::split\<close> at a character: a string with n separators has n + 1 parts.\<close>

fun split_char :: "char \<Rightarrow> string \<Rightarrow> string list" where
  "split_char c [] = [[]]"
| "split_char c (x # xs) =
     (if x = c then [] # split_char c xs
      else (case split_char c xs of [] \<Rightarrow> [[x]] | p # ps \<Rightarrow> (x # p) # ps))"

definition first_part :: "char \<Rightarrow> string \<Rightarrow> string" where
  "first_part c s = takeWhile (\<lambda>x. x \<noteq> c) s"

definition strip_prefix :: "string \<Rightarrow> string \<Rightarrow> string option" where
  "strip_prefix p s = (if take (length p) s = p then Some (drop (length p) s) else None)"

definition ends_with :: "string \<Rightarrow> string \<Rightarrow> bool" where
  "ends_with s t \<longleftrightarrow> length t \<le> length s \<and> drop (length s - length t) s = t"

definition strip_suffix :: "string \<Rightarrow> string \<Rightarrow> string option" where
  "strip_suffix t s = (if ends_with s t then Some (take (length s - length t) s) else None)"

definition trim_end_char :: "char \<Rightarrow> string \<Rightarrow> string" where
  "trim_end_char c s = rev (dropWhile (\<lambda>x. x = c) (rev s))"

text \<open>\<open>str::split_once\<close> at a non-empty pattern.\<close>

fun split_once :: "string \<Rightarrow> string \<Rightarrow> (string \<times> string) option" where
  "split_once p [] = (if p = [] then Some ([], []) else None)"
| "split_once p (x # xs) =
     (case strip_prefix p (x # xs) of
        Some rest \<Rightarrow> Some ([], rest)
      | None \<Rightarrow> map_option (\<lambda>(a, b). (x # a, b)) (split_once p xs))"

definition contains_str :: "string \<Rightarrow> string \<Rightarrow> bool" where
  "contains_str s p \<longleftrightarrow> split_once p s \<noteq> None"

definition strip_cr :: "string \<Rightarrow> string" where
  "strip_cr l = (if l \<noteq> [] \<and> last l = CHR 0x0D then butlast l else l)"

fun lines_acc :: "string \<Rightarrow> string \<Rightarrow> string list" where
  "lines_acc acc [] = (if acc = [] then [] else [rev acc])"
| "lines_acc acc (c # cs) =
     (if c = CHR 0x0A then strip_cr (rev acc) # lines_acc [] cs else lines_acc (c # acc) cs)"

definition lines :: "string \<Rightarrow> string list" where
  "lines s = lines_acc [] s"

section \<open>Facts\<close>

lemma split_char_not_Nil [simp]: "split_char c s \<noteq> []"
  by (induction s) (auto split: list.split)

lemma hd_split_char: "hd (split_char c s) = first_part c s"
  by (induction s) (auto simp: first_part_def split: list.split)

lemma first_part_free [simp, str_simps]: "c \<notin> set (first_part c s)"
  by (simp add: first_part_def) (metis set_takeWhileD)

lemma first_part_id [str_simps]: "c \<notin> set s \<Longrightarrow> first_part c s = s"
  unfolding first_part_def by (induction s) auto

lemma set_first_part: "set (first_part c s) \<subseteq> set s"
  by (auto simp: first_part_def dest: set_takeWhileD)

lemma strip_prefix_Some: "strip_prefix p s = Some r \<longleftrightarrow> s = p @ r"
  by (auto simp: strip_prefix_def) (metis append_take_drop_id)

lemma strip_prefix_append [simp, str_simps]: "strip_prefix p (p @ r) = Some r"
  by (simp add: strip_prefix_Some)

lemma ends_with_iff: "ends_with s t \<longleftrightarrow> (\<exists>p. s = p @ t)"
  by (auto simp: ends_with_def) (metis append_take_drop_id)

lemma trim_end_char_last: "trim_end_char c s = [] \<or> last (trim_end_char c s) \<noteq> c"
  using hd_dropWhile [of "\<lambda>x. x = c" "rev s"] by (fastforce simp: trim_end_char_def last_rev)

lemma trim_end_char_id [str_simps]: "s = [] \<or> last s \<noteq> c \<Longrightarrow> trim_end_char c s = s"
proof (cases s rule: rev_cases)
  case (snoc p x)
  moreover assume "s = [] \<or> last s \<noteq> c"
  ultimately show ?thesis by (simp add: trim_end_char_def)
qed (simp add: trim_end_char_def)

lemma trim_end_char_idem [simp, str_simps]: "trim_end_char c (trim_end_char c s) = trim_end_char c s"
  by (rule trim_end_char_id) (rule trim_end_char_last)

lemma trim_end_char_snoc [simp]: "trim_end_char c (s @ [c]) = trim_end_char c s"
  by (simp add: trim_end_char_def)

lemma split_once_Some: "split_once p s = Some (a, b) \<Longrightarrow> s = a @ p @ b"
proof (induction s arbitrary: a)
  case (Cons x xs)
  then show ?case by (auto simp: strip_prefix_Some split: option.splits)
qed (simp split: if_splits)

text \<open>Trimming leaves a string alone that begins and ends in a printable ASCII character.\<close>

definition graphic :: "char \<Rightarrow> bool" where
  "graphic c \<longleftrightarrow> 33 \<le> code c \<and> code c < 128"

lemma ws_graphic: "graphic c \<Longrightarrow> ws_head (c # s) = 0 \<and> ws_last (c # s) = 0"
  by (auto simp: graphic_def ws1_def ws2_def ws3_def split: list.split)

lemma trim_graphic [str_simps]:
  assumes "s \<noteq> []" "graphic (hd s)" "graphic (last s)"
  shows "trim s = s"
proof -
  obtain c t where c: "s = c # t" using assms(1) by (cases s) auto
  obtain p d where d: "s = p @ [d]" using assms(1) by (cases s rule: rev_cases) auto
  have "trim_start s = s" using assms(2) ws_graphic by (intro trim_start_id) (simp add: c)
  moreover have "trim_rev (rev s) = rev s" using assms(3) ws_graphic by (intro trim_rev_id) (simp add: d)
  ultimately show ?thesis by (simp add: trim_def trim_end_def)
qed

end
