(* ===== verification/Blocklist.thy ===== *)
theory Blocklist
  imports StrOps
begin

text \<open>
  The guardian host blocklist, \<open>bulwark-net/src/blocklist.rs\<close>: the parser of its file, the
  normalisation of hosts and the matcher that the proxy and the packet pump consult before any
  content is analysed. The file system and the environment are parameters.
\<close>

section \<open>Definitions\<close>

record host_blocklist =
  hb_exact :: "string fset"
  hb_suffixes :: "string list"

definition blocklist_default :: host_blocklist where
  "blocklist_default = \<lparr>hb_exact = {||}, hb_suffixes = []\<rparr>"

definition normalize :: "string \<Rightarrow> string option" where
  "normalize host =
     (let h = trim host;
          h' = (case strip_prefix ''['' h of
                  Some rest \<Rightarrow> first_part (CHR '']'') rest
                | None \<Rightarrow> if count_list h (CHR '':'') = 1 then first_part (CHR '':'') h else h);
          n = to_ascii_lowercase (trim_end_char (CHR ''.'') h')
      in if n = [] then None else Some n)"

definition parse_entry :: "string \<Rightarrow> string option" where
  "parse_entry line =
     (let entry = trim (first_part (CHR ''#'') line)
      in if entry = [] then None
         else (let entry = (case split_once ''://'' entry of None \<Rightarrow> entry | Some (_, rest) \<Rightarrow> rest);
                   entry = trim (first_part (CHR ''/'') entry)
               in if entry = [] then None else Some entry))"

definition wildcard_rest :: "string \<Rightarrow> string option" where
  "wildcard_rest entry = (case strip_prefix ''*.'' entry of Some r \<Rightarrow> Some r | None \<Rightarrow> strip_prefix ''.'' entry)"

definition parse_line :: "string \<Rightarrow> host_blocklist \<Rightarrow> host_blocklist" where
  "parse_line line b =
     (case parse_entry line of
        None \<Rightarrow> b
      | Some entry \<Rightarrow>
          (case wildcard_rest entry of
             Some rest \<Rightarrow>
               (case normalize rest of None \<Rightarrow> b | Some apex \<Rightarrow> b\<lparr>hb_suffixes := hb_suffixes b @ [apex]\<rparr>)
           | None \<Rightarrow>
               (case normalize entry of None \<Rightarrow> b | Some host \<Rightarrow> b\<lparr>hb_exact := finsert host (hb_exact b)\<rparr>)))"

definition parse :: "string \<Rightarrow> host_blocklist" where
  "parse text =
     (let b = fold parse_line (lines text) blocklist_default
      in b\<lparr>hb_suffixes := remdups_adj (sort (hb_suffixes b))\<rparr>)"

definition load :: "(string \<Rightarrow> (string, string) result) \<Rightarrow> string \<Rightarrow> (string, host_blocklist) result" where
  "load read path =
     (case read path of
        Inl e \<Rightarrow> Err (''guardian blocklist '' @ path @ '' unreadable (fail-closed): '' @ e)
      | Inr text \<Rightarrow> Ok (parse text))"

definition from_env_or ::
    "(string \<Rightarrow> (string, string) result) \<Rightarrow> string option \<Rightarrow> string option \<Rightarrow> (string, host_blocklist) result" where
  "from_env_or read env path =
     (case path of
        Some p \<Rightarrow> load read p
      | None \<Rightarrow>
          (case env of
             Some p \<Rightarrow> if trim p \<noteq> [] then load read (trim p) else Ok blocklist_default
           | None \<Rightarrow> Ok blocklist_default))"

definition blocklist_is_empty :: "host_blocklist \<Rightarrow> bool" where
  "blocklist_is_empty b \<longleftrightarrow> hb_exact b = {||} \<and> hb_suffixes b = []"

definition blocklist_len :: "host_blocklist \<Rightarrow> nat" where
  "blocklist_len b = fcard (hb_exact b) + length (hb_suffixes b)"

definition suffix_match :: "string \<Rightarrow> string \<Rightarrow> bool" where
  "suffix_match apex h \<longleftrightarrow> h = apex \<or>
     (length apex < length h \<and> ends_with h apex \<and> h ! (length h - length apex - 1) = CHR ''.'')"

definition is_blocked :: "host_blocklist \<Rightarrow> string \<Rightarrow> bool" where
  "is_blocked b host =
     (if blocklist_is_empty b then False
      else (case normalize host of
              None \<Rightarrow> False
            | Some h \<Rightarrow> if h |\<in>| hb_exact b then True else list_ex (\<lambda>apex. suffix_match apex h) (hb_suffixes b)))"

section \<open>Specification: rules over domain labels\<close>

text \<open>
  A line of the file is a rule. An exact rule names one host; a suffix rule names a domain, and
  covers the hosts whose sequence of labels ends in that of the domain.
\<close>

datatype rule = Exact string | Suffix string

definition rule_of_line :: "string \<Rightarrow> rule option" where
  "rule_of_line line =
     (case parse_entry line of
        None \<Rightarrow> None
      | Some entry \<Rightarrow>
          (case wildcard_rest entry of
             Some rest \<Rightarrow> map_option Suffix (normalize rest)
           | None \<Rightarrow> map_option Exact (normalize entry)))"

fun covers :: "rule \<Rightarrow> string \<Rightarrow> bool" where
  "covers (Exact h') h \<longleftrightarrow> h = h'"
| "covers (Suffix apex) h \<longleftrightarrow> suffix (split_char (CHR ''.'') apex) (split_char (CHR ''.'') h)"

definition spec_blocked :: "string \<Rightarrow> string \<Rightarrow> bool" where
  "spec_blocked text host \<longleftrightarrow>
     (\<exists>h r line. normalize host = Some h \<and> line \<in> set (lines text) \<and> rule_of_line line = Some r \<and> covers r h)"

lemma split_char_append: "split_char c (p @ c # q) = split_char c p @ split_char c q"
  by (induction p) (auto split: list.split)

lemma concat_split: "concat (map (\<lambda>l. c # l) (split_char c s)) = c # s"
proof (induction s)
  case (Cons x xs)
  obtain p ps where ps: "split_char c xs = p # ps" by (cases "split_char c xs") auto
  then have "p @ concat (map (\<lambda>l. c # l) ps) = xs" using Cons.IH by simp
  then show ?case using Cons.IH by (cases "x = c") (simp_all add: ps)
qed simp

lemma split_char_inj: "split_char c s = split_char c t \<Longrightarrow> s = t"
  by (metis concat_split list.inject)

text \<open>The byte comparison of the matcher is the comparison of labels.\<close>

lemma suffix_match_labels: "suffix_match apex h \<longleftrightarrow> suffix (split_char (CHR ''.'') apex) (split_char (CHR ''.'') h)"
proof
  assume "suffix_match apex h"
  then consider "h = apex" | p where "h = p @ CHR ''.'' # apex"
  proof (cases "h = apex")
    case False
    then obtain q where h: "h = q @ apex" and q: "q \<noteq> []" "h ! (length h - length apex - 1) = CHR ''.''"
      using \<open>suffix_match apex h\<close> by (auto simp: suffix_match_def ends_with_iff)
    have "q = butlast q @ [CHR ''.'']"
      using q h by (cases q rule: rev_cases) (auto simp: nth_append)
    then show thesis using h that(2) [of "butlast q"] by simp
  qed simp
  then show "suffix (split_char (CHR ''.'') apex) (split_char (CHR ''.'') h)"
    by cases (auto simp: split_char_append suffix_def)
next
  assume "suffix (split_char (CHR ''.'') apex) (split_char (CHR ''.'') h)"
  then obtain ls where ls: "split_char (CHR ''.'') h = ls @ split_char (CHR ''.'') apex" by (auto simp: suffix_def)
  have h: "CHR ''.'' # h = concat (map (\<lambda>l. CHR ''.'' # l) ls) @ CHR ''.'' # apex"
    using arg_cong [OF ls, of "\<lambda>xs. concat (map (\<lambda>l. CHR ''.'' # l) xs)"] by (simp add: concat_split)
  show "suffix_match apex h"
  proof (cases ls)
    case Nil
    then show ?thesis using h by (simp add: suffix_match_def)
  next
    case (Cons l ls')
    then have "h = (l @ concat (map (\<lambda>l. CHR ''.'' # l) ls')) @ CHR ''.'' # apex" using h by simp
    then show ?thesis by (auto simp: suffix_match_def ends_with_iff nth_append)
  qed
qed

lemma parse_line_rule:
  "fset (hb_exact (parse_line l b)) = fset (hb_exact b) \<union> {h. rule_of_line l = Some (Exact h)}"
  "set (hb_suffixes (parse_line l b)) = set (hb_suffixes b) \<union> {h. rule_of_line l = Some (Suffix h)}"
  by (auto simp: parse_line_def rule_of_line_def split: option.splits)

lemma fold_parse_line:
  "fset (hb_exact (fold parse_line ls b)) = fset (hb_exact b) \<union> {h. \<exists>l\<in>set ls. rule_of_line l = Some (Exact h)} \<and>
   set (hb_suffixes (fold parse_line ls b)) = set (hb_suffixes b) \<union> {h. \<exists>l\<in>set ls. rule_of_line l = Some (Suffix h)}"
  by (induction ls arbitrary: b) (auto simp: parse_line_rule)

lemma parse_rules:
  "h |\<in>| hb_exact (parse text) \<longleftrightarrow> (\<exists>l\<in>set (lines text). rule_of_line l = Some (Exact h))"
  "h \<in> set (hb_suffixes (parse text)) \<longleftrightarrow> (\<exists>l\<in>set (lines text). rule_of_line l = Some (Suffix h))"
  using fold_parse_line [of "lines text" blocklist_default]
  by (auto simp: parse_def Let_def blocklist_default_def)

lemma is_blocked_iff:
  "is_blocked b host \<longleftrightarrow> (\<exists>h. normalize host = Some h \<and> (h |\<in>| hb_exact b \<or> (\<exists>a\<in>set (hb_suffixes b). suffix_match a h)))"
  by (auto simp: is_blocked_def blocklist_is_empty_def list_ex_iff split: option.split)

text \<open>
  Claim C26. The blocklist does what its file says: for every file text and every host string,
  the host is refused exactly if, once normalised, it is the host of an exact rule of some line
  or its labels end in the labels of the domain of a suffix rule. In particular a look-alike
  that merely ends in the characters of a listed domain is not matched, the order and
  repetition of lines do not matter, and an empty file refuses nothing.
\<close>

theorem blocklist_refines_label_rules: "is_blocked (parse text) host \<longleftrightarrow> spec_blocked text host"
proof -
  have "(\<exists>h. normalize host = Some h \<and> (h |\<in>| hb_exact (parse text) \<or> (\<exists>a\<in>set (hb_suffixes (parse text)). suffix_match a h))) \<longleftrightarrow>
    spec_blocked text host" (is "?L \<longleftrightarrow> ?R")
  proof
    assume ?L
    then obtain h r line where "normalize host = Some h" "line \<in> set (lines text)" "rule_of_line line = Some r" "covers r h"
      unfolding parse_rules suffix_match_labels covers.simps [symmetric] by (metis covers.simps(1) parse_rules(2))
    then show ?R unfolding spec_blocked_def by metis
  next
    assume ?R
    then obtain h r line where *: "normalize host = Some h" "line \<in> set (lines text)" "rule_of_line line = Some r" "covers r h"
      by (auto simp: spec_blocked_def)
    show ?L
    proof (cases r)
      case (Suffix a)
      then have "a \<in> set (hb_suffixes (parse text))" using * parse_rules(2) by blast
      then show ?thesis using * Suffix by (auto simp: suffix_match_labels)
    qed (use * parse_rules(1) in auto)
  qed
  then show ?thesis by (simp add: is_blocked_iff)
qed

section \<open>Spellings of a host\<close>

text \<open>A name of letters, digits, dots, dashes and underscores that does not end in a dot.\<close>

definition host_char :: "char \<Rightarrow> bool" where
  "host_char c \<longleftrightarrow> is_ascii_alphanumeric c \<or> c = CHR ''-'' \<or> c = CHR ''.'' \<or> c = CHR ''_''"

definition host_name :: "string \<Rightarrow> bool" where
  "host_name h \<longleftrightarrow> h \<noteq> [] \<and> list_all host_char h \<and> last h \<noteq> CHR ''.''"

lemma host_char_facts: "host_char c \<Longrightarrow> graphic c \<and> c \<noteq> CHR '':'' \<and> c \<noteq> CHR ''['' \<and> c \<noteq> CHR '']''"
  by (auto simp: host_char_def graphic_def is_ascii_alphanumeric_def code_def)

lemma host_name_facts:
  assumes "host_name h"
  shows "trim h = h" "h \<noteq> []" "graphic (hd h)" "CHR '':'' \<notin> set h" "CHR '']'' \<notin> set h" "hd h \<noteq> CHR ''[''" "trim_end_char (CHR ''.'') h = h"
proof -
  have chars: "host_char c" if "c \<in> set h" for c using assms that by (simp add: host_name_def list_all_iff)
  show "h \<noteq> []" "trim_end_char (CHR ''.'') h = h" using assms by (simp_all add: host_name_def trim_end_char_id)
  then show "graphic (hd h)" "hd h \<noteq> CHR ''[''" using chars host_char_facts by simp_all
  show "trim h = h" using \<open>h \<noteq> []\<close> chars host_char_facts by (intro trim_graphic) auto
  show "CHR '':'' \<notin> set h" "CHR '']'' \<notin> set h" using chars host_char_facts by auto
qed

lemma strip_bracket: "s \<noteq> [] \<Longrightarrow> hd s \<noteq> CHR ''['' \<Longrightarrow> strip_prefix ''['' s = None"
  by (cases s) (auto simp: strip_prefix_def)

lemma normalize_host: "host_name h \<Longrightarrow> normalize h = Some (to_ascii_lowercase h)"
  by (simp add: normalize_def host_name_facts strip_bracket count_list_0_iff)

lemma normalize_dot: 
  assumes "host_name h"
  shows "normalize (h @ ''.'') = Some (to_ascii_lowercase h)"
proof -
  note f = host_name_facts [OF assms]
  have "trim (h @ ''.'') = h @ ''.''" using f by (intro trim_graphic) (simp_all add: graphic_def code_def)
  then show ?thesis using f by (simp add: normalize_def strip_bracket count_list_0_iff)
qed

lemma first_part_append: "c \<notin> set p \<Longrightarrow> first_part c (p @ c # q) = p"
  by (induction p) (auto simp: first_part_def)

lemma normalize_port:
  assumes "host_name h" "port \<noteq> []" "list_all is_digit port"
  shows "normalize (h @ '':'' @ port) = Some (to_ascii_lowercase h)"
    "normalize (''['' @ h @ '']:'' @ port) = Some (to_ascii_lowercase h)"
proof -
  note f = host_name_facts [OF assms(1)]
  have dig: "graphic c \<and> c \<noteq> CHR '':''" if "c \<in> set port" for c
    using assms(3) that by (auto simp: list_all_iff is_digit_def graphic_def code_def)
  have g: "graphic (last port)" "CHR '':'' \<notin> set port" using dig assms(2) by auto
  have "trim (h @ '':'' @ port) = h @ '':'' @ port"
    using f g assms(2) by (intro trim_graphic) simp_all
  then show "normalize (h @ '':'' @ port) = Some (to_ascii_lowercase h)"
    using f g by (simp add: normalize_def strip_bracket count_list_0_iff first_part_append)
  have "trim (''['' @ h @ '']:'' @ port) = ''['' @ h @ '']:'' @ port"
    using g assms(2) by (intro trim_graphic) (simp_all add: graphic_def code_def)
  then show "normalize (''['' @ h @ '']:'' @ port) = Some (to_ascii_lowercase h)"
    using f by (simp add: normalize_def first_part_append strip_prefix_def)
qed

lemma host_name_upper: "host_name h \<Longrightarrow> host_name (to_ascii_uppercase h)"
proof -
  assume h: "host_name h"
  have "host_char (ascii_upper_char c)" if "host_char c" for c
    using that by (auto simp: host_char_def is_ascii_alphanumeric_def code_ascii_upper ascii_upper_char_def code_def)
  moreover have "ascii_upper_char c = CHR ''.'' \<longleftrightarrow> c = CHR ''.''" for c
    using code_eq_iff [of "ascii_upper_char c" "CHR ''.''"] code_eq_iff [of c "CHR ''.''"] code_ascii_upper [of c]
    by (auto simp: code_def split: if_splits)
  ultimately show ?thesis using h by (auto simp: host_name_def to_ascii_uppercase_def list_all_iff last_map)
qed

lemma host_name_lower: "host_name h \<Longrightarrow> host_name (to_ascii_lowercase h)"
proof -
  assume h: "host_name h"
  have "host_char (ascii_lower_char c)" if "host_char c" for c
    using that by (auto simp: host_char_def is_ascii_alphanumeric_def code_ascii_lower ascii_lower_char_def code_def)
  moreover have "ascii_lower_char c = CHR ''.'' \<longleftrightarrow> c = CHR ''.''" for c
    using code_eq_iff [of "ascii_lower_char c" "CHR ''.''"] code_eq_iff [of c "CHR ''.''"] code_ascii_lower [of c]
    by (auto simp: code_def split: if_splits)
  ultimately show ?thesis using h by (auto simp: host_name_def to_ascii_lowercase_def list_all_iff last_map)
qed

lemma lower_upper: "to_ascii_lowercase (to_ascii_uppercase h) = to_ascii_lowercase h"
proof -
  have "code (ascii_lower_char (ascii_upper_char c)) = code (ascii_lower_char c)" for c
    unfolding code_ascii_lower code_ascii_upper by arith
  then show ?thesis by (simp add: to_ascii_lowercase_def to_ascii_uppercase_def)
qed

text \<open>
  A block cannot be dodged by respelling the host: a host name in any mix of cases,
  with a trailing dot, with a port, or in brackets with a port, is refused by a blocklist
  exactly if the plain name is.
\<close>

theorem host_spellings_block_alike:
  assumes "host_name h" "port \<noteq> []" "list_all is_digit port"
    "v \<in> {to_ascii_lowercase h, to_ascii_uppercase h, h @ ''.'', h @ '':'' @ port, ''['' @ h @ '']:'' @ port}"
  shows "is_blocked b v = is_blocked b h"
proof -
  have "host_name (to_ascii_lowercase h)" using assms(1) host_name_lower by blast
  then have "normalize v = normalize h"
    using assms normalize_host normalize_dot normalize_port host_name_upper [OF assms(1)] by (auto simp: lower_upper)
  then show ?thesis by (simp add: is_blocked_def)
qed

theorem host_spellings_block_alike_witness:
  "is_blocked (parse ''.example.com'') ''[a.example.com]:443'' = is_blocked (parse ''.example.com'') ''a.example.com''"
proof -
  have "host_name ''a.example.com''" "list_all is_digit ''443''" by code_simp+
  then show ?thesis
    using host_spellings_block_alike [of "''a.example.com''" "''443''" "''[a.example.com]:443''"] by simp
qed

end
