(* ===== verification/SniDns.thy ===== *)
theory SniDns
  imports Blocklist
begin

text \<open>
  Host names in the clear, \<open>bulwark-net/src/vpn/sni_dns.rs\<close>: the name of a DNS question, the
  server name of a TLS ClientHello, the verdicts of the packet pump on both, and the
  NXDOMAIN answer to a refused query. Slices are byte lists; a \<open>Cursor\<close> is the bytes it has
  not read yet. The parsers are total functions: every index that the source checks is checked
  here, and \<^const>\<open>None\<close> is the answer that lets the flow pass.
\<close>

unbundle bit_operations_syntax

section \<open>DNS\<close>

datatype host_verdict = Refuse | Pass

definition dns_header_len :: nat where
  "dns_header_len = 12"

definition be16 :: "u8 \<Rightarrow> u8 \<Rightarrow> nat" where
  "be16 hi lo = unat hi * 256 + unat lo"

text \<open>A byte read as a Latin-1 character and appended to a string, that is as UTF-8.\<close>

definition byte_lower :: "u8 \<Rightarrow> u8" where
  "byte_lower b = (if 65 \<le> b \<and> b \<le> 90 then b + 32 else b)"

definition latin1 :: "u8 \<Rightarrow> string" where
  "latin1 b = (if b < 128 then [char_of (unat b)]
     else [char_of (192 + unat b div 64), char_of (128 + unat b mod 64)])"

definition lower_text :: "bytes \<Rightarrow> string" where
  "lower_text bs = concat (map (latin1 \<circ> byte_lower) bs)"

function read_qname_from :: "bytes \<Rightarrow> nat \<Rightarrow> string \<Rightarrow> (string \<times> nat) option" where
  "read_qname_from msg pos name =
     (if length msg \<le> pos then None
      else (let len_byte = msg ! pos
            in if len_byte = 0 then (if name = [] then None else Some (name, pos + 1))
               else if len_byte AND 0xC0 \<noteq> 0 \<or> 63 < len_byte then None
               else (let start = pos + 1; e = start + unat len_byte
                     in if length msg < e then None
                        else read_qname_from msg e
                               ((if name = [] then [] else name @ ''.'') @ lower_text (take (unat len_byte) (drop start msg))))))"
  by pat_completeness auto
termination by (relation "measure (\<lambda>(msg, pos, name). length msg - pos)") auto

declare read_qname_from.simps [simp del]

definition read_qname :: "bytes \<Rightarrow> nat \<Rightarrow> (string \<times> nat) option" where
  "read_qname msg pos = read_qname_from msg pos []"

definition dns_query_name :: "bytes \<Rightarrow> string option" where
  "dns_query_name msg =
     (if length msg < dns_header_len then None
      else if (msg ! 2) AND 0x80 \<noteq> 0 then None
      else if be16 (msg ! 4) (msg ! 5) = 0 then None
      else map_option fst (read_qname msg dns_header_len))"

definition dns_verdict :: "bytes \<Rightarrow> host_blocklist \<Rightarrow> host_verdict" where
  "dns_verdict msg b =
     (if blocklist_is_empty b then Pass
      else (case dns_query_name msg of
              Some name \<Rightarrow> if is_blocked b name then Refuse else Pass
            | None \<Rightarrow> Pass))"

definition build_nxdomain_response :: "bytes \<Rightarrow> bytes option" where
  "build_nxdomain_response query =
     (if length query < dns_header_len then None
      else (case read_qname query dns_header_len of
              None \<Rightarrow> None
            | Some (_, after_qname) \<Rightarrow>
                (let question_end = after_qname + 4
                 in if length query < question_end then None
                    else (let opcode = (query ! 2) AND 0x78; rd = (query ! 2) AND 0x01
                          in Some ((take question_end query)[2 := 0x80 OR opcode OR rd, 3 := 0x03, 4 := 0, 5 := 1,
                                     6 := 0, 7 := 0, 8 := 0, 9 := 0, 10 := 0, 11 := 0])))))"

section \<open>TLS\<close>

definition max_client_hello :: nat where
  "max_client_hello = 16 * 1024"

definition looks_like_tls_handshake :: "bytes \<Rightarrow> bool" where
  "looks_like_tls_handshake buf =
     (if buf \<noteq> [] \<and> hd buf \<noteq> 0x16 then False
      else if 5 < length buf then buf ! 5 = 0x01 else True)"

definition cursor_u8 :: "bytes \<Rightarrow> (u8 \<times> bytes) option" where
  "cursor_u8 p = (case p of [] \<Rightarrow> None | b # r \<Rightarrow> Some (b, r))"

definition cursor_u16 :: "bytes \<Rightarrow> (nat \<times> bytes) option" where
  "cursor_u16 p = (case cursor_u8 p of None \<Rightarrow> None
     | Some (hi, q) \<Rightarrow> (case cursor_u8 q of None \<Rightarrow> None | Some (lo, r) \<Rightarrow> Some (be16 hi lo, r)))"

definition cursor_take :: "nat \<Rightarrow> bytes \<Rightarrow> (bytes \<times> bytes) option" where
  "cursor_take n p = (if n \<le> length p then Some (take n p, drop n p) else None)"

definition cursor_skip :: "nat \<Rightarrow> bytes \<Rightarrow> bytes option" where
  "cursor_skip n p = map_option snd (cursor_take n p)"

lemma cursor_u8_Some [simp]: "cursor_u8 p = Some (b, r) \<longleftrightarrow> p = b # r"
  by (auto simp: cursor_u8_def split: list.split)

lemma cursor_u16_Some [simp]: "cursor_u16 p = Some (n, r) \<longleftrightarrow> (\<exists>hi lo. p = hi # lo # r \<and> n = be16 hi lo)"
  by (auto simp: cursor_u16_def split: option.split) (auto simp: cursor_u8_def split: list.splits)

lemma cursor_take_Some [simp]: "cursor_take n p = Some (d, r) \<longleftrightarrow> p = d @ r \<and> length d = n"
  by (auto simp: cursor_take_def)

lemma cursor_skip_Some [simp]: "cursor_skip n p = Some r \<longleftrightarrow> (\<exists>d. p = d @ r \<and> length d = n)"
  by (auto simp: cursor_skip_def)

function server_name_loop :: "bytes \<Rightarrow> string option" where
  "server_name_loop l =
     (if length l < 3 then None
      else (case cursor_u8 l of None \<Rightarrow> None | Some (name_type, l1) \<Rightarrow>
            (case cursor_u16 l1 of None \<Rightarrow> None | Some (name_len, l2) \<Rightarrow>
            (case cursor_take name_len l2 of None \<Rightarrow> None | Some (name, l3) \<Rightarrow>
               if name_type = 0 then (if name = [] \<or> 0 \<in> set name then None else Some (lower_text name))
               else server_name_loop l3))))"
  by pat_completeness auto
termination by (relation "measure length") auto

definition parse_server_name_list :: "bytes \<Rightarrow> string option" where
  "parse_server_name_list data =
     (case cursor_u16 data of None \<Rightarrow> None | Some (list_len, p) \<Rightarrow>
     (case cursor_take list_len p of None \<Rightarrow> None | Some (l, _) \<Rightarrow> server_name_loop l))"

function parse_sni_from_extensions :: "bytes \<Rightarrow> string option" where
  "parse_sni_from_extensions p =
     (if length p < 4 then None
      else (case cursor_u16 p of None \<Rightarrow> None | Some (ext_type, p1) \<Rightarrow>
            (case cursor_u16 p1 of None \<Rightarrow> None | Some (ext_len, p2) \<Rightarrow>
            (case cursor_take ext_len p2 of None \<Rightarrow> None | Some (ext_data, p3) \<Rightarrow>
               if ext_type = 0 then parse_server_name_list ext_data else parse_sni_from_extensions p3))))"
  by pat_completeness auto
termination by (relation "measure length") auto

declare server_name_loop.simps [simp del] parse_sni_from_extensions.simps [simp del]

definition client_hello_body :: "bytes \<Rightarrow> string option" where
  "client_hello_body p =
     (case cursor_skip (2 + 32) p of None \<Rightarrow> None | Some p \<Rightarrow>
     (case cursor_u8 p of None \<Rightarrow> None | Some (sid_len, p) \<Rightarrow>
     (case cursor_skip (unat sid_len) p of None \<Rightarrow> None | Some p \<Rightarrow>
     (case cursor_u16 p of None \<Rightarrow> None | Some (cs_len, p) \<Rightarrow>
     (case cursor_skip cs_len p of None \<Rightarrow> None | Some p \<Rightarrow>
     (case cursor_u8 p of None \<Rightarrow> None | Some (comp_len, p) \<Rightarrow>
     (case cursor_skip (unat comp_len) p of None \<Rightarrow> None | Some p \<Rightarrow>
     (case cursor_u16 p of None \<Rightarrow> None | Some (ext_total, p) \<Rightarrow>
     (case cursor_take ext_total p of None \<Rightarrow> None | Some (ext_block, _) \<Rightarrow>
        parse_sni_from_extensions ext_block)))))))))"

definition client_hello_sni :: "bytes \<Rightarrow> string option" where
  "client_hello_sni buf =
     (if length buf < 5 \<or> buf ! 0 \<noteq> 0x16 then None
      else (let record_len = be16 (buf ! 3) (buf ! 4); rec_end = 5 + record_len;
                body = drop 5 (take (min rec_end (length buf)) buf)
            in if length body < 4 \<or> body ! 0 \<noteq> 0x01 then None
               else (let hs_len = unat (body ! 1) * 65536 + be16 (body ! 2) (body ! 3); hs_end = 4 + hs_len
                     in if length body < hs_end then None else client_hello_body (drop 4 (take hs_end body)))))"

definition sni_verdict :: "bytes \<Rightarrow> host_blocklist \<Rightarrow> host_verdict" where
  "sni_verdict buf b =
     (if blocklist_is_empty b then Pass
      else (case client_hello_sni buf of
              Some host \<Rightarrow> if is_blocked b host then Refuse else Pass
            | None \<Rightarrow> Pass))"

section \<open>The names of DNS questions\<close>

text \<open>
  The wire form of a question name: labels of 1 to 63 bytes, each after its length, and a zero
  byte. As text, the labels are lower-cased and joined by dots.
\<close>

definition label_ok :: "bytes \<Rightarrow> bool" where
  "label_ok l \<longleftrightarrow> l \<noteq> [] \<and> length l \<le> 63"

definition wire_name :: "bytes list \<Rightarrow> bytes" where
  "wire_name ls = concat (map (\<lambda>l. of_nat (length l) # l) ls) @ [0]"

definition dot_labels :: "bytes list \<Rightarrow> string" where
  "dot_labels ls = concat (map (\<lambda>l. CHR ''.'' # lower_text l) ls)"

definition dotted :: "bytes list \<Rightarrow> string" where
  "dotted ls = (case ls of [] \<Rightarrow> [] | l # ls' \<Rightarrow> lower_text l @ dot_labels ls')"

definition name_of :: "string \<Rightarrow> bytes list \<Rightarrow> string" where
  "name_of name ls = (if name = [] then dotted ls else name @ dot_labels ls)"

lemma low_byte: "b \<le> 63 \<Longrightarrow> b AND 0xC0 = 0" for b :: u8
proof -
  assume "b \<le> 63"
  then have "unat b < 64" by (simp add: word_le_nat_alt)
  then have "b \<in> set (map of_nat [0..<64])" by (auto intro!: image_eqI [of b of_nat "unat b"])
  moreover have "\<forall>b \<in> set (map of_nat [0..<64]). (b :: u8) AND 0xC0 = 0" by code_simp
  ultimately show ?thesis by blast
qed

lemma label_byte:
  assumes "label_ok l"
  shows "unat (of_nat (length l) :: u8) = length l" "(of_nat (length l) :: u8) \<noteq> 0" "\<not> 63 < (of_nat (length l) :: u8)"
    "(of_nat (length l) :: u8) AND 0xC0 = 0"
proof -
  show u: "unat (of_nat (length l) :: u8) = length l" using assms by (simp add: label_ok_def unat_of_nat)
  then show "(of_nat (length l) :: u8) \<noteq> 0" using assms by (auto simp: label_ok_def)
  show le: "\<not> 63 < (of_nat (length l) :: u8)" using assms u by (simp add: label_ok_def word_less_nat_alt)
  then show "(of_nat (length l) :: u8) AND 0xC0 = 0" using low_byte by (simp add: not_less)
qed

lemma lower_text_Nil: "lower_text l = [] \<longleftrightarrow> l = []"
  by (cases l) (simp_all add: lower_text_def latin1_def)

lemma name_of_Cons: "l \<noteq> [] \<Longrightarrow> name_of ((if name = [] then [] else name @ ''.'') @ lower_text l) ls = name_of name (l # ls)"
  by (simp add: name_of_def dotted_def dot_labels_def lower_text_Nil)

lemma name_of_Nil: "label_ok l \<Longrightarrow> name_of name (l # ls) \<noteq> []"
  by (simp add: name_of_def dotted_def lower_text_Nil label_ok_def)

lemma wire_name_simps [simp]:
  "wire_name [] = [0]" "wire_name (l # ls) = of_nat (length l) # l @ wire_name ls"
  by (simp_all add: wire_name_def)

lemma read_wire_name:
  assumes "list_all label_ok ls"
  shows "read_qname_from (pre @ wire_name ls @ tail) (length pre) name =
    (if name = [] \<and> ls = [] then None else Some (name_of name ls, length pre + length (wire_name ls)))"
  using assms
proof (induction ls arbitrary: pre name)
  case Nil
  show ?case by (subst read_qname_from.simps) (simp add: name_of_def dot_labels_def)
next
  case (Cons l ls)
  let ?name = "(if name = [] then [] else name @ ''.'') @ lower_text l"
  have l: "label_ok l" "l \<noteq> []" using Cons.prems by (auto simp: label_ok_def)
  have "read_qname_from (pre @ wire_name (l # ls) @ tail) (length pre) name =
      read_qname_from ((pre @ of_nat (length l) # l) @ wire_name ls @ tail) (length (pre @ of_nat (length l) # l)) ?name"
    using label_byte [OF l(1)] by (subst read_qname_from.simps) (simp add: nth_append)
  also have "\<dots> = Some (name_of ?name ls, length (pre @ of_nat (length l) # l) + length (wire_name ls))"
    using Cons.IH [of "pre @ of_nat (length l) # l" ?name] Cons.prems l(2) by (simp add: lower_text_Nil)
  finally show ?case by (simp add: name_of_Cons [OF l(2)])
qed

lemma read_qname_wire:
  "read_qname_from msg pos name = Some (n, e) \<Longrightarrow>
     \<exists>ls tail. drop pos msg = wire_name ls @ tail \<and> list_all label_ok ls \<and> n = name_of name ls \<and>
       e = pos + length (wire_name ls) \<and> \<not> (name = [] \<and> ls = [])"
proof (induction msg pos name rule: read_qname_from.induct)
  case (1 msg pos name)
  let ?b = "msg ! pos"
  have pos: "pos < length msg" using "1.prems" by (subst (asm) read_qname_from.simps) (simp split: if_splits)
  have d: "drop pos msg = ?b # drop (pos + 1) msg" using pos by (simp add: Cons_nth_drop_Suc)
  show ?case
  proof (cases "?b = 0")
    case True
    then have "name \<noteq> []" "n = name" "e = pos + 1"
      using "1.prems" pos by (subst (asm) read_qname_from.simps, simp split: if_splits)+
    then show ?thesis using d True by (intro exI [of _ "[]"] exI [of _ "drop (pos + 1) msg"]) (simp add: name_of_def dot_labels_def)
  next
    case False
    let ?l = "take (unat ?b) (drop (pos + 1) msg)" and ?e = "pos + 1 + unat ?b"
    let ?name = "(if name = [] then [] else name @ ''.'') @ lower_text ?l"
    have ok: "\<not> (?b AND 0xC0 \<noteq> 0 \<or> 63 < ?b)" "\<not> length msg < ?e"
      and rec: "read_qname_from msg ?e ?name = Some (n, e)"
      using "1.prems" pos False by (subst (asm) read_qname_from.simps, simp add: Let_def split: if_splits)+
    have len: "length ?l = unat ?b" using ok(2) by simp
    then have l: "label_ok ?l" "of_nat (length ?l) = ?b"
      using ok(1) False by (auto simp: label_ok_def word_less_nat_alt unat_eq_zero simp del: length_take)
    have "drop (pos + 1) msg = ?l @ drop ?e msg" by (metis add.commute append_take_drop_id drop_drop)
    moreover obtain ls tail where ls: "drop ?e msg = wire_name ls @ tail" "list_all label_ok ls"
      "n = name_of ?name ls" "e = ?e + length (wire_name ls)"
      using "1.IH" [OF _ refl _ _ refl refl _ rec] pos False ok by auto
    ultimately have "drop pos msg = ?b # ?l @ wire_name ls @ tail" using d by simp
    moreover have "name_of ?name ls = name_of name (?l # ls)" using l(1) by (intro name_of_Cons) (simp only: label_ok_def, simp)
    ultimately show ?thesis using l ls(2-4) len
      by (intro exI [of _ "?l # ls"] exI [of _ tail]) (simp only: wire_name_simps list.pred_inject append_Cons append_assoc, simp)
  qed
qed

lemma read_qname_iff:
  "read_qname msg pos = Some (n, e) \<longleftrightarrow>
     (\<exists>ls tail. drop pos msg = wire_name ls @ tail \<and> ls \<noteq> [] \<and> list_all label_ok ls \<and> n = dotted ls \<and> e = pos + length (wire_name ls))"
  (is "_ \<longleftrightarrow> ?R")
proof
  assume "read_qname msg pos = Some (n, e)"
  then show ?R using read_qname_wire [of msg pos "[]" n e] by (auto simp: read_qname_def name_of_def)
next
  assume ?R
  then obtain ls tail where *: "drop pos msg = wire_name ls @ tail" "ls \<noteq> []" "list_all label_ok ls" "n = dotted ls"
    "e = pos + length (wire_name ls)" by blast
  then have "wire_name ls \<noteq> []" by (cases ls) simp_all
  then have "length (take pos msg) = pos" using *(1) by (metis append_is_Nil_conv drop_all le_cases length_take min.absorb2)
  moreover have "msg = take pos msg @ wire_name ls @ tail" using *(1) by (metis append_take_drop_id)
  ultimately show "read_qname msg pos = Some (n, e)"
    using read_wire_name [OF *(3), of "take pos msg" tail "[]"] *(2,4,5) by (simp add: read_qname_def name_of_def)
qed

text \<open>
  Claim C27. The question parser accepts exactly well-formed questions: it returns a name if and
  only if the message is a query header with a question count, followed by at least one label
  of 1 to 63 bytes each and the closing zero byte, and the name is those labels lower-cased and
  joined by dots. No other byte of the message matters, and no message makes it fail to answer.
\<close>

theorem dns_name_iff_wellformed:
  "dns_query_name msg = Some name \<longleftrightarrow>
     (\<exists>hdr ls tail. msg = hdr @ wire_name ls @ tail \<and> length hdr = dns_header_len \<and> (hdr ! 2) AND 0x80 = 0 \<and>
        (hdr ! 4 \<noteq> 0 \<or> hdr ! 5 \<noteq> 0) \<and> ls \<noteq> [] \<and> list_all label_ok ls \<and> name = dotted ls)" (is "_ \<longleftrightarrow> ?R")
proof
  have be: "be16 a b = 0 \<longleftrightarrow> a = 0 \<and> b = 0" for a b by (simp add: be16_def unat_eq_zero)
  assume "dns_query_name msg = Some name"
  then have h: "dns_header_len \<le> length msg" "(msg ! 2) AND 0x80 = 0" "msg ! 4 \<noteq> 0 \<or> msg ! 5 \<noteq> 0"
    and "\<exists>e. read_qname msg dns_header_len = Some (name, e)"
    by (auto simp: dns_query_name_def be split: if_splits)
  then obtain ls tail where ls: "drop dns_header_len msg = wire_name ls @ tail" "ls \<noteq> []" "list_all label_ok ls" "name = dotted ls"
    by (auto simp: read_qname_iff)
  have "msg = take dns_header_len msg @ wire_name ls @ tail" using ls(1) by (metis append_take_drop_id)
  then show ?R using h ls by (intro exI [of _ "take dns_header_len msg"]) (auto simp: dns_header_len_def)
next
  have be: "be16 a b = 0 \<longleftrightarrow> a = 0 \<and> b = 0" for a b by (simp add: be16_def unat_eq_zero)
  assume ?R
  then obtain hdr ls tail where *: "msg = hdr @ wire_name ls @ tail" "length hdr = dns_header_len" "(hdr ! 2) AND 0x80 = 0"
    "hdr ! 4 \<noteq> 0 \<or> hdr ! 5 \<noteq> 0" "ls \<noteq> []" "list_all label_ok ls" "name = dotted ls" by blast
  then have "read_qname msg dns_header_len = Some (name, dns_header_len + length (wire_name ls))"
    by (auto simp: read_qname_iff)
  then show "dns_query_name msg = Some name"
    using * by (auto simp: dns_query_name_def be nth_append dns_header_len_def)
qed

theorem dns_name_iff_wellformed_witness:
  "dns_query_name ([7, 7, 1, 0, 0, 1, 0, 0, 0, 0, 0, 0] @ wire_name [[65, 66], [67]] @ [0, 1, 0, 1]) = Some ''ab.c''"
proof -
  have "length [7, 7, 1, 0, 0, 1, 0, 0, 0, 0, 0, 0 :: u8] = dns_header_len" "list_all label_ok [[65, 66], [67]]"
    "dotted [[65, 66], [67]] = ''ab.c''" by (simp add: dns_header_len_def, simp add: label_ok_def, code_simp)
  then show ?thesis
    unfolding dns_name_iff_wellformed
    by (intro exI [of _ "[7, 7, 1, 0, 0, 1, 0, 0, 0, 0, 0, 0]"] exI [of _ "[[65, 66], [67]]"] exI [of _ "[0, 1, 0, 1]"]) simp
qed

lemma qr_bit: "bit (0x80 :: u8) 7"
  by (simp add: bit_simps)

lemma list_12:
  assumes "length hdr = 12"
  obtains a0 a1 a2 a3 a4 a5 a6 a7 a8 a9 a10 a11 where "hdr = [a0, a1, a2, a3, a4, a5, a6, a7, a8, a9, a10, a11]"
  using assms that by (auto simp: length_Suc_conv eval_nat_numeral)

text \<open>
  A refused lookup gets a proper answer: for a message made of a header, a well-formed
  question with its type and class, and anything after it, the answer has the query's
  identifier, the response bit, the query's operation code and recursion bit, the code for a
  non-existent name, one question and no records, and repeats the question byte for byte;
  read back, it names the same question but is itself no query, so the pump cannot answer it
  again.
\<close>

theorem nxdomain_answers_question:
  assumes "length hdr = dns_header_len" "ls \<noteq> []" "list_all label_ok ls" "length q = 4"
  shows "build_nxdomain_response (hdr @ wire_name ls @ q @ tail) =
      Some ([hdr ! 0, hdr ! 1, 0x80 OR ((hdr ! 2) AND 0x78) OR ((hdr ! 2) AND 0x01), 3, 0, 1, 0, 0, 0, 0, 0, 0] @ wire_name ls @ q) \<and>
    dns_query_name (the (build_nxdomain_response (hdr @ wire_name ls @ q @ tail))) = None \<and>
    map_option fst (read_qname (the (build_nxdomain_response (hdr @ wire_name ls @ q @ tail))) dns_header_len) = Some (dotted ls)"
proof -
  let ?m = "hdr @ wire_name ls @ q @ tail" and ?f = "0x80 OR ((hdr ! 2) AND 0x78) OR ((hdr ! 2) AND 0x01)"
  let ?r = "[hdr ! 0, hdr ! 1, ?f, 3, 0, 1, 0, 0, 0, 0, 0, 0] @ wire_name ls @ q"
  have len: "length hdr = 12" using assms(1) by (simp add: dns_header_len_def)
  have "read_qname ?m dns_header_len = Some (dotted ls, dns_header_len + length (wire_name ls))"
    using assms by (auto simp: read_qname_iff dns_header_len_def)
  moreover have "take (12 + length (wire_name ls) + 4) ?m = hdr @ wire_name ls @ q" using assms(4) len by simp
  ultimately have r: "build_nxdomain_response ?m = Some ?r"
    using assms(4) len by (elim list_12) (simp add: build_nxdomain_response_def dns_header_len_def Let_def)
  have "bit ?f 7" by (simp add: bit_simps)
  then have "?f AND 0x80 \<noteq> 0" by (metis bit_0_eq bit_and_iff bot_apply bot_bool_def qr_bit)
  then have "dns_query_name ?r = None" by (simp add: dns_query_name_def)
  moreover have "read_qname ?r dns_header_len = Some (dotted ls, dns_header_len + length (wire_name ls))"
    using assms by (auto simp: read_qname_iff dns_header_len_def)
  ultimately show ?thesis by (simp only: r option.sel option.map fst_conv simp_thms)
qed

theorem nxdomain_answers_question_witness:
  "build_nxdomain_response ([7, 7, 1, 0, 0, 1, 0, 0, 0, 0, 0, 0] @ wire_name [[65]] @ [0, 1, 0, 1] @ [9]) =
    Some ([7, 7, 0x80 OR (1 AND 0x78) OR (1 AND 0x01), 3, 0, 1, 0, 0, 0, 0, 0, 0] @ wire_name [[65]] @ [0, 1, 0, 1])"
proof -
  have "length [7, 7, 1, 0, 0, 1, 0, 0, 0, 0, 0, 0 :: u8] = dns_header_len" "list_all label_ok [[65]]"
    by (simp_all add: dns_header_len_def label_ok_def)
  from nxdomain_answers_question [OF this(1) _ this(2), of "[0, 1, 0, 1]" "[9]"] show ?thesis by simp
qed

section \<open>Server names of ClientHellos\<close>

text \<open>The wire form of a ClientHello in one record, of its extensions and of a server name.\<close>

record client_hello =
  ch_version_random :: bytes
  ch_session_id :: bytes
  ch_ciphers :: bytes
  ch_compression :: bytes
  ch_extensions :: "(nat \<times> bytes) list"

definition be2 :: "nat \<Rightarrow> bytes" where
  "be2 n = [of_nat (n div 256), of_nat (n mod 256)]"

definition wire_ext :: "nat \<times> bytes \<Rightarrow> bytes" where
  "wire_ext e = be2 (fst e) @ be2 (length (snd e)) @ snd e"

definition wire_sni :: "bytes \<Rightarrow> bytes" where
  "wire_sni name = be2 (length name + 3) @ 0 # be2 (length name) @ name"

definition wire_hello_body :: "client_hello \<Rightarrow> bytes" where
  "wire_hello_body h = ch_version_random h @ of_nat (length (ch_session_id h)) # ch_session_id h @
     be2 (length (ch_ciphers h)) @ ch_ciphers h @ of_nat (length (ch_compression h)) # ch_compression h @
     be2 (length (concat (map wire_ext (ch_extensions h)))) @ concat (map wire_ext (ch_extensions h))"

definition wire_handshake :: "client_hello \<Rightarrow> bytes" where
  "wire_handshake h = (let b = wire_hello_body h
     in 0x01 # of_nat (length b div 65536) # be2 (length b mod 65536) @ b)"

definition wire_record :: "u8 \<Rightarrow> u8 \<Rightarrow> client_hello \<Rightarrow> bytes" where
  "wire_record major minor h = 0x16 # major # minor # be2 (length (wire_handshake h)) @ wire_handshake h"

definition hello_ok :: "client_hello \<Rightarrow> bool" where
  "hello_ok h \<longleftrightarrow> length (ch_version_random h) = 34 \<and> length (ch_session_id h) < 256 \<and> length (ch_ciphers h) < 65536 \<and>
     length (ch_compression h) < 256 \<and> list_all (\<lambda>e. fst e < 65536 \<and> length (snd e) < 65536) (ch_extensions h) \<and>
     length (concat (map wire_ext (ch_extensions h))) < 65536 \<and> length (wire_handshake h) < 65536"

lemma be16_be2: "n < 65536 \<Longrightarrow> be16 (of_nat (n div 256)) (of_nat (n mod 256)) = n"
  by (simp add: be16_def unat_of_nat)

lemma cursor_simps:
  "cursor_u8 (b # r) = Some (b, r)" "n < 65536 \<Longrightarrow> cursor_u16 (be2 n @ r) = Some (n, r)"
  "length d = n \<Longrightarrow> cursor_take n (d @ r) = Some (d, r)" "length d = n \<Longrightarrow> cursor_skip n (d @ r) = Some r"
  "cursor_take (length d) d = Some (d, [])"
  by (auto simp: be2_def be16_be2 simp del: cursor_u16_Some) (simp add: cursor_u16_def cursor_u8_def be16_be2)

lemma unat_len: "n < 256 \<Longrightarrow> unat (of_nat n :: u8) = n"
  by (simp add: unat_of_nat)

lemma length_be2 [simp]: "length (be2 n) = 2"
  by (simp add: be2_def)

lemma wire_ext_pair: "wire_ext (a, b) = be2 a @ be2 (length b) @ b"
  by (simp add: wire_ext_def)

lemma wire_exts_sni:
  assumes "list_all (\<lambda>e. fst e < 65536 \<and> length (snd e) < 65536) es"
  shows "parse_sni_from_extensions (concat (map wire_ext es)) = Option.bind (map_of es 0) parse_server_name_list"
  using assms
proof (induction es)
  case (Cons e es)
  then show ?case
    by (subst parse_sni_from_extensions.simps) (cases e, simp add: wire_ext_pair cursor_simps)
qed (subst parse_sni_from_extensions.simps, simp)

lemma wire_sni_name:
  assumes "name \<noteq> []" "0 \<notin> set name" "length name + 3 < 65536"
  shows "parse_server_name_list (wire_sni name) = Some (lower_text name)"
proof -
  have "server_name_loop (0 # be2 (length name) @ name) = Some (lower_text name)"
    using assms by (subst server_name_loop.simps) (simp add: cursor_simps)
  moreover have taken: "cursor_take (length name + 3) (0 # be2 (length name) @ name) = Some (0 # be2 (length name) @ name, [])"
    by simp
  ultimately show ?thesis using assms(3) by (simp add: parse_server_name_list_def wire_sni_def cursor_simps taken)
qed

lemma wire_body_sni:
  assumes "hello_ok h"
  shows "client_hello_body (wire_hello_body h) = Option.bind (map_of (ch_extensions h) 0) parse_server_name_list"
proof -
  have "length (concat (map wire_ext (ch_extensions h))) < 65536" using assms by (simp only: hello_ok_def)
  then show ?thesis using assms
    by (simp add: client_hello_body_def wire_hello_body_def cursor_simps unat_len hello_ok_def wire_exts_sni del: length_concat)
qed

lemma wire_handshake_length:
  assumes "hello_ok h"
  shows "length (wire_handshake h) = 4 + length (wire_hello_body h)"
    "unat (wire_handshake h ! 1) * 65536 + be16 (wire_handshake h ! 2) (wire_handshake h ! 3) = length (wire_hello_body h)"
    "wire_handshake h ! 0 = 1" "drop 4 (wire_handshake h) = wire_hello_body h"
proof -
  show len: "length (wire_handshake h) = 4 + length (wire_hello_body h)" by (simp add: wire_handshake_def Let_def)
  then have "length (wire_hello_body h) div 65536 < 256" using assms by (simp add: hello_ok_def)
  then show "unat (wire_handshake h ! 1) * 65536 + be16 (wire_handshake h ! 2) (wire_handshake h ! 3) = length (wire_hello_body h)"
    using be16_be2 [of "length (wire_hello_body h) mod 65536"]
    by (simp add: wire_handshake_def Let_def be2_def unat_len)
  show "wire_handshake h ! 0 = 1" "drop 4 (wire_handshake h) = wire_hello_body h"
    by (simp_all add: wire_handshake_def Let_def be2_def)
qed

text \<open>What the record layer hands to the handshake parser, for a record cut off anywhere after its header.\<close>

lemma record_body:
  assumes "hello_ok h" "5 \<le> length buf" "take (length buf) (wire_record major minor h @ rest) = buf"
  shows "buf ! 0 = 0x16 \<and> be16 (buf ! 3) (buf ! 4) = length (wire_handshake h) \<and>
    drop 5 (take (min (5 + length (wire_handshake h)) (length buf)) buf) = take (length buf - 5) (wire_handshake h)"
proof -
  let ?hs = "wire_handshake h"
  obtain t where buf: "buf = 0x16 # major # minor # be2 (length ?hs) @ t" "t = take (length buf - 5) (?hs @ rest)"
  proof (rule that)
    have "buf = take (length buf) ((0x16 # major # minor # be2 (length ?hs)) @ ?hs @ rest)"
      using assms(3) by (simp add: wire_record_def)
    also have "\<dots> = (0x16 # major # minor # be2 (length ?hs)) @ take (length buf - 5) (?hs @ rest)"
      using assms(2) by (subst take_append, cases "buf = []") (simp_all add: take_Cons')
    finally show "buf = 0x16 # major # minor # be2 (length ?hs) @ take (length buf - 5) (?hs @ rest)" by simp
  qed simp
  have "length buf = 5 + length t" using arg_cong [OF buf(1), of length] by simp
  then have "drop 5 (take (min (5 + length ?hs) (length buf)) buf) = take (length ?hs) t"
    using arg_cong [OF buf(1), of "drop 5"] by (simp add: drop_take be2_def min_def)
  also have "\<dots> = take (length buf - 5) ?hs"
    by (cases "length buf - 5 \<le> length ?hs") (simp_all add: buf(2) min_def)
  finally have "drop 5 (take (min (5 + length ?hs) (length buf)) buf) = take (length buf - 5) ?hs" .
  moreover have "be16 (buf ! 3) (buf ! 4) = length ?hs"
    using assms(1) be16_be2 [of "length ?hs"] arg_cong [OF buf(1), of "\<lambda>x. x ! 3"] arg_cong [OF buf(1), of "\<lambda>x. x ! 4"]
    by (simp add: hello_ok_def be2_def)
  ultimately show ?thesis using buf(1) by (metis nth_Cons_0)
qed

text \<open>
  Claim C28. The server name of a ClientHello that fits one record is found and nothing else is
  taken for it: with whatever session id, cipher suites, compression methods, extensions and
  trailing bytes, the parser answers the lower-cased name of the first server-name extension,
  answers nothing if there is none, and answers nothing as long as any byte of the record is
  still missing, so a name is never read from a part of a hello.
\<close>

theorem sni_found_iff_complete:
  assumes "hello_ok h"
  shows "(map_of (ch_extensions h) 0 = None \<longrightarrow> client_hello_sni (wire_record major minor h @ rest) = None) \<and>
    (\<forall>name. map_of (ch_extensions h) 0 = Some (wire_sni name) \<and> name \<noteq> [] \<and> 0 \<notin> set name \<and> length name < 65533 \<longrightarrow>
       client_hello_sni (wire_record major minor h @ rest) = Some (lower_text name)) \<and>
    (\<forall>n < length (wire_record major minor h). client_hello_sni (take n (wire_record major minor h)) = None)"
proof -
  let ?hs = "wire_handshake h" and ?rec = "wire_record major minor h"
  note hs = wire_handshake_length [OF assms]
  have len: "length ?rec = 5 + length ?hs" by (simp add: wire_record_def)
  have "take (length (?rec @ rest) - 5) ?hs = ?hs" using len by simp
  then have "client_hello_sni (?rec @ rest) = client_hello_body (wire_hello_body h)"
    using record_body [OF assms, of "?rec @ rest" major minor rest] len hs by (simp add: client_hello_sni_def Let_def)
  then have full: "client_hello_sni (?rec @ rest) = Option.bind (map_of (ch_extensions h) 0) parse_server_name_list"
    by (simp only: wire_body_sni [OF assms])
  have part: "client_hello_sni (take n ?rec) = None" if "n < length ?rec" for n
  proof (cases "5 \<le> n")
    case True
    have "length (take n ?rec) = n" using that by simp
    then show ?thesis
      using record_body [OF assms, of "take n ?rec" major minor "[]"] True hs that len
      by (simp add: client_hello_sni_def Let_def)
  qed (use that in \<open>simp add: client_hello_sni_def\<close>)
  show ?thesis using full part wire_sni_name by (simp add: less_diff_conv)
qed

definition sample_hello :: client_hello where
  "sample_hello = \<lparr>ch_version_random = replicate 34 3, ch_session_id = [], ch_ciphers = [0x13, 0x01], ch_compression = [0],
     ch_extensions = [(10, [7]), (0, wire_sni [65, 46, 98])]\<rparr>"

theorem sni_found_iff_complete_witness:
  "client_hello_sni (wire_record 3 1 sample_hello @ [9]) = Some ''a.b''"
proof -
  have "hello_ok sample_hello"
    by (simp add: hello_ok_def sample_hello_def wire_ext_def wire_sni_def wire_handshake_def wire_hello_body_def Let_def)
  moreover have "map_of (ch_extensions sample_hello) 0 = Some (wire_sni [65, 46, 98])" by (simp add: sample_hello_def)
  moreover have "lower_text [65, 46, 98] = ''a.b''" by code_simp
  ultimately show ?thesis using sni_found_iff_complete [of sample_hello 3 1 "[9]"] by auto
qed

end
