(* ===== verification/Throttle.thy ===== *)
theory Throttle
  imports Prelude
begin

text \<open>
  The pacing and expiry helpers of \<open>bulwark-server/src/accounts.rs\<close> that the account,
  staff and pairing paths share: the settings read from the environment, the liveness test
  of a session, and the failed-attempt throttle. Times are \<open>i64\<close> milliseconds with the
  saturating arithmetic of the source.
\<close>

section \<open>Settings from the environment\<close>

fun digits_val :: "nat \<Rightarrow> string \<Rightarrow> nat option" where
  "digits_val acc [] = Some acc"
| "digits_val acc (c # cs) =
     (if 48 \<le> code c \<and> code c \<le> 57 then digits_val (acc * 10 + (code c - 48)) cs else None)"

definition parse_i64 :: "string \<Rightarrow> int option" where
  "parse_i64 s =
     (let (neg, ds) = (case s of
            [] \<Rightarrow> (False, [])
          | c # cs \<Rightarrow> if c = CHR ''-'' then (True, cs) else if c = CHR ''+'' then (False, cs) else (False, s))
      in if ds = [] then None
         else (case digits_val 0 ds of
                 None \<Rightarrow> None
               | Some n \<Rightarrow> (let v = (if neg then - int n else int n) in if is_i64 v then Some v else None)))"

definition parse_u32 :: "string \<Rightarrow> nat option" where
  "parse_u32 s =
     (let ds = (case s of [] \<Rightarrow> [] | c # cs \<Rightarrow> if c = CHR ''+'' then cs else s)
      in if ds = [] then None
         else (case digits_val 0 ds of None \<Rightarrow> None | Some n \<Rightarrow> if n \<le> u32_max then Some n else None))"

definition env_secs_ms :: "string option \<Rightarrow> int \<Rightarrow> int" where
  "env_secs_ms var default_secs =
     (let secs = (case Option.bind var (\<lambda>s. parse_i64 (trim s)) of
                    None \<Rightarrow> default_secs
                  | Some n \<Rightarrow> if 0 < n then n else default_secs)
      in i64_saturating_mul secs 1000)"

definition reset_token_ttl_ms :: "string option \<Rightarrow> int" where
  "reset_token_ttl_ms var = env_secs_ms var (30 * 60)"

definition reset_token_ttl_minutes :: "string option \<Rightarrow> int" where
  "reset_token_ttl_minutes var = max (reset_token_ttl_ms var div 60000) 1"

definition session_ttl_ms :: "string option \<Rightarrow> int" where
  "session_ttl_ms var = env_secs_ms var (12 * 3600)"

definition login_throttle_params :: "string option \<Rightarrow> string option \<Rightarrow> nat \<times> int" where
  "login_throttle_params max_var window_var =
     ((case Option.bind max_var (\<lambda>s. parse_u32 (trim s)) of
         None \<Rightarrow> 5 | Some n \<Rightarrow> if 0 < n then n else 5),
      env_secs_ms window_var (15 * 60))"

section \<open>Liveness and throttling\<close>

definition session_live :: "int \<Rightarrow> int \<Rightarrow> int \<Rightarrow> bool" where
  "session_live issued_ms now_ms ttl_ms \<longleftrightarrow>
     now_ms \<ge> issued_ms \<and> i64_saturating_sub now_ms issued_ms < ttl_ms"

record login_throttle =
  lt_fails :: nat
  lt_window_start_ms :: int

definition throttle_locked :: "login_throttle \<Rightarrow> int \<Rightarrow> int \<Rightarrow> nat \<Rightarrow> bool" where
  "throttle_locked t now_ms window_ms mx \<longleftrightarrow>
     lt_fails t \<ge> mx \<and> i64_saturating_sub now_ms (lt_window_start_ms t) \<le> window_ms"

definition record_failure :: "login_throttle \<Rightarrow> int \<Rightarrow> int \<Rightarrow> login_throttle" where
  "record_failure t now_ms window_ms =
     (if i64_saturating_sub now_ms (lt_window_start_ms t) > window_ms
      then \<lparr>lt_fails = 1, lt_window_start_ms = now_ms\<rparr>
      else t\<lparr>lt_fails := u32_saturating_add (lt_fails t) 1\<rparr>)"

text \<open>The three-step idiom \<open>entry(key).or_insert(fresh)\<close> followed by \<open>record_failure\<close>.\<close>

definition note_failure ::
    "int \<Rightarrow> int \<Rightarrow> string \<Rightarrow> (string, login_throttle) fmap \<Rightarrow> (string, login_throttle) fmap" where
  "note_failure now_ms window_ms key m =
     (let t = (case fmlookup m key of None \<Rightarrow> \<lparr>lt_fails = 0, lt_window_start_ms = now_ms\<rparr> | Some t \<Rightarrow> t)
      in fmupd key (record_failure t now_ms window_ms) m)"

definition key_locked :: "(string, login_throttle) fmap \<Rightarrow> string \<Rightarrow> int \<Rightarrow> int \<Rightarrow> nat \<Rightarrow> bool" where
  "key_locked m key now_ms window_ms mx =
     (case fmlookup m key of None \<Rightarrow> False | Some t \<Rightarrow> throttle_locked t now_ms window_ms mx)"

section \<open>Lockout\<close>

lemma saturating_sub_self [simp]: "i64_saturating_sub t t = 0"
  by (simp add: i64_saturating_sub_def i64_sat_def i64_min_def i64_max_def)

lemma session_live_iff:
  assumes "0 < ttl" "ttl \<le> i64_max"
  shows "session_live issued now ttl \<longleftrightarrow> issued \<le> now \<and> now - issued < ttl"
  using assms by (auto simp: session_live_def i64_saturating_sub_def i64_sat_def i64_min_def i64_max_def)

lemma note_failure_other [simp]: "k \<noteq> key \<Longrightarrow> fmlookup (note_failure now w key m) k = fmlookup m k"
  by (simp add: note_failure_def Let_def)

lemma note_failure_first:
  "0 \<le> w \<Longrightarrow> fmlookup m key = None \<Longrightarrow>
     fmlookup (note_failure now w key m) key = Some \<lparr>lt_fails = 1, lt_window_start_ms = now\<rparr>"
  by (simp add: note_failure_def record_failure_def u32_saturating_add_def u32_max_def)

lemma note_failure_next:
  "fmlookup m key = Some \<lparr>lt_fails = n, lt_window_start_ms = t0\<rparr> \<Longrightarrow> i64_saturating_sub now t0 \<le> w \<Longrightarrow>
     fmlookup (note_failure now w key m) key = Some \<lparr>lt_fails = u32_saturating_add n 1, lt_window_start_ms = t0\<rparr>"
  by (simp add: note_failure_def record_failure_def)

lemma failures_counted:
  assumes "0 \<le> w" "fmlookup m key = None" "\<forall>t\<in>set ts. i64_saturating_sub t t0 \<le> w" "length ts < u32_max"
  shows "fmlookup (fold (\<lambda>t. note_failure t w key) (t0 # ts) m) key =
    Some \<lparr>lt_fails = Suc (length ts), lt_window_start_ms = t0\<rparr>"
  using assms(3,4)
proof (induction ts rule: rev_induct)
  case Nil
  then show ?case using note_failure_first [OF assms(1,2)] by simp
next
  case (snoc t ts)
  then show ?case
    using note_failure_next [of "fold (\<lambda>t. note_failure t w key) (t0 # ts) m" key "Suc (length ts)" t0 t w]
    by (simp add: u32_saturating_add_def)
qed

lemma lock_after_failures:
  assumes "0 \<le> w" "fmlookup m key = None" "\<forall>t\<in>set ts. i64_saturating_sub t t0 \<le> w" "length ts < u32_max"
  shows "key_locked (fold (\<lambda>t. note_failure t w key) (t0 # ts) m) key now w mx \<longleftrightarrow>
    mx \<le> Suc (length ts) \<and> i64_saturating_sub now t0 \<le> w"
  unfolding key_locked_def failures_counted [OF assms] by (simp add: throttle_locked_def)

end
