(* ===== verification/Accounts.thy ===== *)
theory Accounts
  imports Throttle StrOps
begin

text \<open>
  Guardian accounts: \<open>bulwark-server/src/accounts.rs\<close>. \<open>Inner\<close> is the record
  \<open>accounts_inner\<close>; \<open>AccountStore\<close> adds the JSON file, of which the model keeps the last image
  written. Every critical section of the mutex is one definition; an operation that unlocks
  in between (login, password change and reset, which verify Argon2 hashes outside the lock)
  is split into the sections the code has, so that they can be interleaved, and composed
  again into the operation. Time is the argument \<open>now\<close>, every draw of the random generator
  is an argument (\<open>None\<close> where the code handles a failing generator), and the Argon2, PBKDF2,
  SHA-256 and Base32 crates, Unicode upper-casing and the disk are the fields of \<open>account_env\<close>.
\<close>

section \<open>Environment and errors\<close>

datatype account_error = EmailExists | BadCredentials | Unauthorized | NotFound | NotGuardian
  | DeviceInUse | Validation string | TooManyAttempts | PairCodeInvalid | BadRecoveryCode | InternalError

datatype pw_hash = Argon2 string | Pbkdf2 bytes bytes

record reset_token =
  rt_phc :: string
  rt_expires_ms :: int

record account =
  ac_account_id :: string
  ac_family_id :: string
  ac_pw :: pw_hash
  ac_recovery_phc :: "string option"
  ac_reset_token :: "reset_token option"

record child_rec =
  ch_child_id :: string
  ch_family_id :: string
  ch_name :: string
  ch_device_id :: string
  ch_guardians :: "string fset"
  ch_device_token_sha256 :: string

record child_msg =
  cm_child_id :: string
  cm_family_id :: string
  cm_child_name :: string
  cm_device_id :: string
  cm_guardian_account_ids :: "string list"

record session_entry =
  sn_account_id :: string
  sn_issued_ms :: int

record pair_code_rec =
  pc_account_id :: string
  pc_family_id :: string
  pc_child_name :: string
  pc_issued_ms :: int

record accounts_inner =
  by_email :: "(string, account) fmap"
  email_by_id :: "(string, string) fmap"
  sessions :: "(string, session_entry) fmap"
  login_fails :: "(string, login_throttle) fmap"
  reset_fails :: "(string, login_throttle) fmap"
  request_fails :: "(string, login_throttle) fmap"
  children :: "(string, child_rec) fmap"
  device_to_child :: "(string, string) fmap"
  pair_codes :: "(string, pair_code_rec) fmap"
  redeem_fails :: "(string, login_throttle) fmap"

record account_row =
  row_email_key :: string
  row_account_id :: string
  row_family_id :: string
  row_phc :: string
  row_salt_hex :: string
  row_hash_hex :: string
  row_recovery_phc :: string
  row_reset_token_phc :: string
  row_reset_token_expires_ms :: int

record child_row =
  cr_child_id :: string
  cr_family_id :: string
  cr_name :: string
  cr_device_id :: string
  cr_guardians :: "string list"
  cr_device_token_sha256 :: string

record session_row =
  sr_token_sha256 :: string
  sr_token :: string
  sr_account_id :: string
  sr_issued_ms :: int

record account_snapshot =
  snap_accounts :: "account_row list"
  snap_children :: "child_row list"
  snap_sessions :: "session_row list"

record account_env =
  env_sha256 :: "bytes \<Rightarrow> bytes"
  env_argon2_hash :: "bytes \<Rightarrow> bytes \<Rightarrow> string option"
  env_argon2_verify :: "string \<Rightarrow> bytes \<Rightarrow> bool"
  env_pbkdf2_verify :: "bytes \<Rightarrow> bytes \<Rightarrow> bytes \<Rightarrow> bool"
  env_base32 :: "bytes \<Rightarrow> string"
  env_to_uppercase :: "string \<Rightarrow> string"
  env_disk_writes :: "account_snapshot \<Rightarrow> bool"
  env_session_ttl_ms :: int
  env_reset_ttl_ms :: int
  env_max_fails :: nat
  env_window_ms :: int

record account_store =
  st_inner :: accounts_inner
  st_file :: "account_snapshot option"

definition accounts_inner_default :: accounts_inner where
  "accounts_inner_default = \<lparr>by_email = fmempty, email_by_id = fmempty, sessions = fmempty, login_fails = fmempty,
     reset_fails = fmempty, request_fails = fmempty, children = fmempty, device_to_child = fmempty,
     pair_codes = fmempty, redeem_fails = fmempty\<rparr>"

section \<open>Tokens, codes and hashes\<close>

definition normalize_email :: "string \<Rightarrow> string" where
  "normalize_email email = to_ascii_lowercase (trim email)"

definition token_hash :: "account_env \<Rightarrow> string \<Rightarrow> string" where
  "token_hash env token = hex (env_sha256 env (as_bytes (trim token)))"

definition normalize_recovery_code :: "string \<Rightarrow> string" where
  "normalize_recovery_code s = to_ascii_uppercase (filter is_ascii_alphanumeric s)"

fun group_recovery_code :: "string \<Rightarrow> string" where
  "group_recovery_code raw =
     (if length raw \<le> 5 then raw else take 5 raw @ ''-'' @ group_recovery_code (drop 5 raw))"

declare group_recovery_code.simps [simp del]

definition argon2_hash :: "account_env \<Rightarrow> bytes option \<Rightarrow> bytes \<Rightarrow> (account_error, string) result" where
  "argon2_hash env salt secret =
     (case salt of
        None \<Rightarrow> Err InternalError
      | Some s \<Rightarrow> (case env_argon2_hash env s secret of None \<Rightarrow> Err InternalError | Some phc \<Rightarrow> Ok phc))"

definition hash_password :: "account_env \<Rightarrow> bytes option \<Rightarrow> string \<Rightarrow> (account_error, string) result" where
  "hash_password env salt password = argon2_hash env salt (as_bytes password)"

definition new_recovery_code ::
    "account_env \<Rightarrow> bytes option \<Rightarrow> bytes option \<Rightarrow> (account_error, string \<times> string) result" where
  "new_recovery_code env draw salt =
     (case draw of
        None \<Rightarrow> Err InternalError
      | Some buf \<Rightarrow>
          (let display = group_recovery_code (env_base32 env buf)
           in (case argon2_hash env salt (as_bytes (normalize_recovery_code display)) of
                 Inl e \<Rightarrow> Err e
               | Inr phc \<Rightarrow> Ok (display, phc))))"

definition new_reset_token ::
    "account_env \<Rightarrow> bytes option \<Rightarrow> bytes option \<Rightarrow> (account_error, string \<times> string) result" where
  "new_reset_token env draw salt =
     (case draw of
        None \<Rightarrow> Err InternalError
      | Some buf \<Rightarrow>
          (let display = group_recovery_code (env_base32 env buf)
           in (case argon2_hash env salt (as_bytes (normalize_recovery_code display)) of
                 Inl e \<Rightarrow> Err e
               | Inr phc \<Rightarrow> Ok (display, phc))))"

definition pair_code_alphabet :: string where
  "pair_code_alphabet = ''ABCDEFGHJKMNPQRSTUVWXYZ23456789''"

definition gen_pair_code :: "bytes \<Rightarrow> string" where
  "gen_pair_code buf = map (\<lambda>b. pair_code_alphabet ! (unat b mod length pair_code_alphabet)) buf"

definition pw_verify :: "account_env \<Rightarrow> pw_hash \<Rightarrow> string \<Rightarrow> bool" where
  "pw_verify env pw password =
     (case pw of
        Argon2 phc \<Rightarrow> env_argon2_verify env phc (as_bytes password)
      | Pbkdf2 salt hash \<Rightarrow> env_pbkdf2_verify env salt (as_bytes password) hash)"

definition to_proto :: "child_rec \<Rightarrow> child_msg" where
  "to_proto c = \<lparr>cm_child_id = ch_child_id c, cm_family_id = ch_family_id c, cm_child_name = ch_name c,
     cm_device_id = ch_device_id c, cm_guardian_account_ids = sorted_list_of_fset (ch_guardians c)\<rparr>"

section \<open>Snapshots\<close>

definition account_to_row :: "string \<times> account \<Rightarrow> account_row" where
  "account_to_row = (\<lambda>(email_key, a).
     \<lparr>row_email_key = email_key, row_account_id = ac_account_id a, row_family_id = ac_family_id a,
      row_phc = (case ac_pw a of Argon2 s \<Rightarrow> s | Pbkdf2 salt hash \<Rightarrow> []),
      row_salt_hex = (case ac_pw a of Argon2 s \<Rightarrow> [] | Pbkdf2 salt hash \<Rightarrow> hex salt),
      row_hash_hex = (case ac_pw a of Argon2 s \<Rightarrow> [] | Pbkdf2 salt hash \<Rightarrow> hex hash),
      row_recovery_phc = (case ac_recovery_phc a of None \<Rightarrow> [] | Some s \<Rightarrow> s),
      row_reset_token_phc = (case ac_reset_token a of None \<Rightarrow> [] | Some t \<Rightarrow> rt_phc t),
      row_reset_token_expires_ms = (case ac_reset_token a of None \<Rightarrow> 0 | Some t \<Rightarrow> rt_expires_ms t)\<rparr>)"

definition child_to_row :: "child_rec \<Rightarrow> child_row" where
  "child_to_row c = \<lparr>cr_child_id = ch_child_id c, cr_family_id = ch_family_id c, cr_name = ch_name c,
     cr_device_id = ch_device_id c, cr_guardians = sorted_list_of_fset (ch_guardians c),
     cr_device_token_sha256 = ch_device_token_sha256 c\<rparr>"

definition session_to_row :: "string \<times> session_entry \<Rightarrow> session_row" where
  "session_to_row = (\<lambda>(token_sha256, e).
     \<lparr>sr_token_sha256 = token_sha256, sr_token = [], sr_account_id = sn_account_id e, sr_issued_ms = sn_issued_ms e\<rparr>)"

definition snapshot :: "accounts_inner \<Rightarrow> account_snapshot" where
  "snapshot i =
     \<lparr>snap_accounts = sort_key row_email_key (map account_to_row (sorted_list_of_fmap (by_email i))),
      snap_children = sort_key cr_child_id (map (\<lambda>(k, c). child_to_row c) (sorted_list_of_fmap (children i))),
      snap_sessions = sort_key sr_token_sha256 (map session_to_row (sorted_list_of_fmap (sessions i)))\<rparr>"

definition hex_digit_val :: "char \<Rightarrow> nat option" where
  "hex_digit_val ch =
     (let c = code ch
      in if 48 \<le> c \<and> c \<le> 57 then Some (c - 48)
         else if 97 \<le> c \<and> c \<le> 102 then Some (c - 97 + 10)
         else if 65 \<le> c \<and> c \<le> 70 then Some (c - 65 + 10)
         else None)"

text \<open>\<open>u8::from_str_radix\<close> on two characters: a leading plus sign is accepted.\<close>

definition byte_from_radix16 :: "char \<Rightarrow> char \<Rightarrow> u8 option" where
  "byte_from_radix16 a b =
     (if a = CHR ''+'' then map_option word_of_nat (hex_digit_val b)
      else (case (hex_digit_val a, hex_digit_val b) of
              (Some hi, Some lo) \<Rightarrow> Some (word_of_nat (hi * 16 + lo))
            | _ \<Rightarrow> None))"

fun radix16_pairs :: "string \<Rightarrow> bytes option" where
  "radix16_pairs (a # b # rest) =
     (case (byte_from_radix16 a b, radix16_pairs rest) of
        (Some x, Some xs) \<Rightarrow> Some (x # xs)
      | _ \<Rightarrow> None)"
| "radix16_pairs _ = Some []"

definition from_hex_array :: "nat \<Rightarrow> string \<Rightarrow> bytes option" where
  "from_hex_array n s = (if length s \<noteq> n * 2 then None else radix16_pairs s)"

definition row_password :: "account_row \<Rightarrow> pw_hash option" where
  "row_password row =
     (if row_phc row \<noteq> [] then Some (Argon2 (row_phc row))
      else (case (from_hex_array 16 (row_salt_hex row), from_hex_array 32 (row_hash_hex row)) of
              (Some salt, Some hash) \<Rightarrow> Some (Pbkdf2 salt hash)
            | _ \<Rightarrow> None))"

definition load_account :: "int \<Rightarrow> account_row \<Rightarrow> accounts_inner \<Rightarrow> accounts_inner" where
  "load_account now row i =
     (case row_password row of
        None \<Rightarrow> i
      | Some pw \<Rightarrow>
          i\<lparr>email_by_id := fmupd (row_account_id row) (row_email_key row) (email_by_id i),
            by_email := fmupd (row_email_key row)
              \<lparr>ac_account_id = row_account_id row, ac_family_id = row_family_id row, ac_pw = pw,
               ac_recovery_phc = (if row_recovery_phc row \<noteq> [] then Some (row_recovery_phc row) else None),
               ac_reset_token =
                 (if row_reset_token_phc row \<noteq> [] \<and> now < row_reset_token_expires_ms row
                  then Some \<lparr>rt_phc = row_reset_token_phc row, rt_expires_ms = row_reset_token_expires_ms row\<rparr>
                  else None)\<rparr> (by_email i)\<rparr>)"

definition load_child :: "child_row \<Rightarrow> accounts_inner \<Rightarrow> accounts_inner" where
  "load_child row i =
     i\<lparr>device_to_child :=
         (if cr_device_id row \<noteq> [] then fmupd (cr_device_id row) (cr_child_id row) (device_to_child i)
          else device_to_child i),
       children := fmupd (cr_child_id row)
         \<lparr>ch_child_id = cr_child_id row, ch_family_id = cr_family_id row, ch_name = cr_name row,
          ch_device_id = cr_device_id row, ch_guardians = fset_of_list (cr_guardians row),
          ch_device_token_sha256 = cr_device_token_sha256 row\<rparr> (children i)\<rparr>"

definition load_session :: "account_env \<Rightarrow> int \<Rightarrow> session_row \<Rightarrow> accounts_inner \<Rightarrow> accounts_inner" where
  "load_session env now row i =
     (if \<not> session_live (sr_issued_ms row) now (env_session_ttl_ms env) then i
      else if sr_token_sha256 row = [] \<and> sr_token row = [] then i
      else (let key = (if sr_token_sha256 row \<noteq> [] then sr_token_sha256 row else token_hash env (sr_token row))
            in i\<lparr>sessions := fmupd key \<lparr>sn_account_id = sr_account_id row, sn_issued_ms = sr_issued_ms row\<rparr> (sessions i)\<rparr>))"

definition from_snapshot :: "account_env \<Rightarrow> int \<Rightarrow> account_snapshot \<Rightarrow> accounts_inner" where
  "from_snapshot env now snap =
     fold (load_session env now) (snap_sessions snap)
       (fold load_child (snap_children snap)
         (fold (load_account now) (snap_accounts snap) accounts_inner_default))"

definition with_state_dir :: "account_env \<Rightarrow> int \<Rightarrow> account_snapshot \<Rightarrow> account_store" where
  "with_state_dir env now loaded = \<lparr>st_inner = from_snapshot env now loaded, st_file = Some loaded\<rparr>"

definition account_store_new :: account_store where
  "account_store_new = \<lparr>st_inner = accounts_inner_default, st_file = None\<rparr>"

definition persist_locked :: "account_env \<Rightarrow> account_store \<Rightarrow> account_store" where
  "persist_locked env st =
     (case st_file st of
        None \<Rightarrow> st
      | Some old \<Rightarrow>
          (let snap = snapshot (st_inner st)
           in if env_disk_writes env snap then st\<lparr>st_file := Some snap\<rparr> else st))"

section \<open>Store operations\<close>

text \<open>\<open>memo\<close> ends a critical section that only changed memory, \<open>commit\<close> one that also persisted.\<close>

definition memo :: "account_store \<Rightarrow> accounts_inner \<Rightarrow> account_store" where
  "memo st i = st\<lparr>st_inner := i\<rparr>"

definition commit :: "account_env \<Rightarrow> account_store \<Rightarrow> accounts_inner \<Rightarrow> account_store" where
  "commit env st i = persist_locked env (memo st i)"

definition create_account ::
    "account_env \<Rightarrow> account_store \<Rightarrow> string \<Rightarrow> string \<Rightarrow>
     bytes option \<Rightarrow> bytes option \<Rightarrow> bytes option \<Rightarrow> bytes \<Rightarrow> bytes \<Rightarrow>
     (account_error, string \<times> bool \<times> string) result \<times> account_store" where
  "create_account env st email password pw_salt rec_draw rec_salt id_draw family_draw =
     (let email_key = normalize_email email
      in if email_key = [] then (Err (Validation ''email is required''), st)
         else if length password < 8 then (Err (Validation ''password must be at least 8 characters''), st)
         else (case hash_password env pw_salt password of
             Inl e \<Rightarrow> (Err e, st)
           | Inr phc \<Rightarrow>
               (case new_recovery_code env rec_draw rec_salt of
                  Inl e \<Rightarrow> (Err e, st)
                | Inr (recovery_code, recovery_phc) \<Rightarrow>
                    (case fmlookup (by_email (st_inner st)) email_key of
                       Some existing \<Rightarrow> (Ok (ac_account_id existing, False, []), st)
                     | None \<Rightarrow>
                         (let i = st_inner st; account_id = hex id_draw; family_id = hex family_draw;
                              i' = i\<lparr>email_by_id := fmupd account_id email_key (email_by_id i),
                                     by_email := fmupd email_key
                                       \<lparr>ac_account_id = account_id, ac_family_id = family_id, ac_pw = Argon2 phc,
                                        ac_recovery_phc = Some recovery_phc, ac_reset_token = None\<rparr> (by_email i)\<rparr>
                          in (Ok (account_id, True, recovery_code), commit env st i'))))))"

definition login_read ::
    "account_env \<Rightarrow> account_store \<Rightarrow> int \<Rightarrow> string \<Rightarrow> (account_error, (pw_hash \<times> string) option) result" where
  "login_read env st now email_key =
     (if key_locked (login_fails (st_inner st)) email_key now (env_window_ms env) (env_max_fails env)
      then Err TooManyAttempts
      else Ok (map_option (\<lambda>a. (ac_pw a, ac_account_id a)) (fmlookup (by_email (st_inner st)) email_key)))"

definition login_verify :: "account_env \<Rightarrow> (pw_hash \<times> string) option \<Rightarrow> string \<Rightarrow> bool \<times> bool \<times> string" where
  "login_verify env pw password =
     (case pw of
        None \<Rightarrow> (False, False, [])
      | Some (Argon2 phc, aid) \<Rightarrow> (env_argon2_verify env phc (as_bytes password), False, aid)
      | Some (Pbkdf2 salt hash, aid) \<Rightarrow>
          (let ok = env_pbkdf2_verify env salt (as_bytes password) hash in (ok, ok, aid)))"

definition login_commit ::
    "account_env \<Rightarrow> account_store \<Rightarrow> int \<Rightarrow> string \<Rightarrow> bool \<Rightarrow> string option \<Rightarrow> string \<Rightarrow> bytes \<Rightarrow>
     (account_error, string \<times> string \<times> int) result \<times> account_store" where
  "login_commit env st now email_key verified upgraded_phc account_id token_draw =
     (let i = st_inner st
      in if \<not> verified
         then (Err BadCredentials,
               memo st (i\<lparr>login_fails := note_failure now (env_window_ms env) email_key (login_fails i)\<rparr>))
         else (let token = hex token_draw;
                   accts = (case upgraded_phc of
                       None \<Rightarrow> by_email i
                     | Some phc \<Rightarrow>
                         (case fmlookup (by_email i) email_key of
                            None \<Rightarrow> by_email i
                          | Some acct \<Rightarrow> fmupd email_key (acct\<lparr>ac_pw := Argon2 phc\<rparr>) (by_email i)));
                   i' = i\<lparr>login_fails := fmdrop email_key (login_fails i), by_email := accts,
                          sessions := fmupd (token_hash env token)
                            \<lparr>sn_account_id = account_id, sn_issued_ms = now\<rparr> (sessions i)\<rparr>
               in (Ok (token, account_id, now), commit env st i')))"

definition login ::
    "account_env \<Rightarrow> account_store \<Rightarrow> int \<Rightarrow> string \<Rightarrow> string \<Rightarrow> bytes option \<Rightarrow> bytes \<Rightarrow>
     (account_error, string \<times> string \<times> int) result \<times> account_store" where
  "login env st now email password salt token_draw =
     (let email_key = normalize_email email
      in (case login_read env st now email_key of
            Inl e \<Rightarrow> (Err e, st)
          | Inr pw \<Rightarrow>
              (let (verified, needs_rehash, account_id) = login_verify env pw password;
                   upgraded_phc = (if verified \<and> needs_rehash
                                   then (case hash_password env salt password of Inl _ \<Rightarrow> None | Inr phc \<Rightarrow> Some phc)
                                   else None)
               in login_commit env st now email_key verified upgraded_phc account_id token_draw)))"

definition account_for_token :: "account_env \<Rightarrow> accounts_inner \<Rightarrow> int \<Rightarrow> string \<Rightarrow> (account_error, string) result" where
  "account_for_token env i now token =
     (case fmlookup (sessions i) (token_hash env token) of
        None \<Rightarrow> Err Unauthorized
      | Some entry \<Rightarrow>
          if \<not> session_live (sn_issued_ms entry) now (env_session_ttl_ms env) then Err Unauthorized
          else Ok (sn_account_id entry))"

text \<open>\<open>values().find(..)\<close>: the map order is unspecified, and account ids are unique in a consistent store.\<close>

definition account_by_id :: "accounts_inner \<Rightarrow> string \<Rightarrow> account option" where
  "account_by_id i account_id = find (\<lambda>a. ac_account_id a = account_id) (map snd (sorted_list_of_fmap (by_email i)))"

definition change_password_read ::
    "account_env \<Rightarrow> account_store \<Rightarrow> int \<Rightarrow> string \<Rightarrow> (account_error, string \<times> pw_hash) result" where
  "change_password_read env st now token =
     (case account_for_token env (st_inner st) now token of
        Inl e \<Rightarrow> Err e
      | Inr account_id \<Rightarrow>
          (case account_by_id (st_inner st) account_id of
             None \<Rightarrow> Err Unauthorized
           | Some a \<Rightarrow> Ok (account_id, ac_pw a)))"

definition change_password_commit ::
    "account_env \<Rightarrow> account_store \<Rightarrow> string \<Rightarrow> string \<Rightarrow> string \<Rightarrow> (account_error, string) result \<times> account_store" where
  "change_password_commit env st token account_id new_phc =
     (let i = st_inner st; keep = token_hash env token
      in (case fmlookup (email_by_id i) account_id of
            None \<Rightarrow> (Err Unauthorized, st)
          | Some email_key \<Rightarrow>
              (case fmlookup (by_email i) email_key of
                 None \<Rightarrow> (Err Unauthorized, st)
               | Some acct \<Rightarrow>
                   (Ok account_id, commit env st
                      (i\<lparr>by_email := fmupd email_key (acct\<lparr>ac_pw := Argon2 new_phc\<rparr>) (by_email i),
                         sessions := fm_retain (\<lambda>digest e. sn_account_id e \<noteq> account_id \<or> digest = keep) (sessions i)\<rparr>)))))"

definition change_password ::
    "account_env \<Rightarrow> account_store \<Rightarrow> int \<Rightarrow> string \<Rightarrow> string \<Rightarrow> string \<Rightarrow> bytes option \<Rightarrow>
     (account_error, string) result \<times> account_store" where
  "change_password env st now token old_password new_password salt =
     (if length new_password < 8 then (Err (Validation ''password must be at least 8 characters''), st)
      else (case change_password_read env st now token of
          Inl e \<Rightarrow> (Err e, st)
        | Inr (account_id, pw) \<Rightarrow>
            if \<not> pw_verify env pw old_password then (Err BadCredentials, st)
            else (case hash_password env salt new_password of
                Inl e \<Rightarrow> (Err e, st)
              | Inr new_phc \<Rightarrow> change_password_commit env st token account_id new_phc)))"

definition reset_read ::
    "account_env \<Rightarrow> account_store \<Rightarrow> int \<Rightarrow> string \<Rightarrow>
     (account_error, string option \<times> reset_token option) result" where
  "reset_read env st now email_key =
     (if key_locked (reset_fails (st_inner st)) email_key now (env_window_ms env) (env_max_fails env)
      then Err TooManyAttempts
      else Ok (case fmlookup (by_email (st_inner st)) email_key of
                 Some a \<Rightarrow> (ac_recovery_phc a, ac_reset_token a)
               | None \<Rightarrow> (None, None)))"

definition reset_code_ok :: "account_env \<Rightarrow> int \<Rightarrow> string option \<times> reset_token option \<Rightarrow> string \<Rightarrow> bool" where
  "reset_code_ok env now secrets recovery_code =
     (let secret = as_bytes (normalize_recovery_code recovery_code);
          recovery_ok = (case fst secrets of None \<Rightarrow> False | Some phc \<Rightarrow> env_argon2_verify env phc secret);
          token_ok = (\<not> recovery_ok \<and>
            (case snd secrets of
               None \<Rightarrow> False
             | Some t \<Rightarrow> now < rt_expires_ms t \<and> env_argon2_verify env (rt_phc t) secret))
      in recovery_ok \<or> token_ok)"

definition reset_commit ::
    "account_env \<Rightarrow> account_store \<Rightarrow> string \<Rightarrow> string \<Rightarrow> string \<Rightarrow> string \<Rightarrow>
     (account_error, string) result \<times> account_store" where
  "reset_commit env st email_key new_phc new_code new_recovery_phc =
     (let i = (st_inner st)\<lparr>reset_fails := fmdrop email_key (reset_fails (st_inner st))\<rparr>
      in (case fmlookup (by_email i) email_key of
            None \<Rightarrow> (Err BadRecoveryCode, memo st i)
          | Some acct \<Rightarrow>
              (Ok new_code, commit env st
                 (i\<lparr>by_email := fmupd email_key (acct\<lparr>ac_pw := Argon2 new_phc,
                      ac_recovery_phc := Some new_recovery_phc, ac_reset_token := None\<rparr>) (by_email i),
                    sessions := fm_retain (\<lambda>digest e. sn_account_id e \<noteq> ac_account_id acct) (sessions i)\<rparr>))))"

definition reset_password ::
    "account_env \<Rightarrow> account_store \<Rightarrow> int \<Rightarrow> string \<Rightarrow> string \<Rightarrow> string \<Rightarrow>
     bytes option \<Rightarrow> bytes option \<Rightarrow> bytes option \<Rightarrow> (account_error, string) result \<times> account_store" where
  "reset_password env st now email recovery_code new_password pw_salt rec_draw rec_salt =
     (let email_key = normalize_email email
      in if length new_password < 8 then (Err (Validation ''password must be at least 8 characters''), st)
         else (case reset_read env st now email_key of
             Inl e \<Rightarrow> (Err e, st)
           | Inr secrets \<Rightarrow>
               if \<not> reset_code_ok env now secrets recovery_code
               then (Err BadRecoveryCode, memo st ((st_inner st)\<lparr>reset_fails :=
                       note_failure now (env_window_ms env) email_key (reset_fails (st_inner st))\<rparr>))
               else (case hash_password env pw_salt new_password of
                   Inl e \<Rightarrow> (Err e, st)
                 | Inr new_phc \<Rightarrow>
                     (case new_recovery_code env rec_draw rec_salt of
                        Inl e \<Rightarrow> (Err e, st)
                      | Inr (new_code, new_recovery_phc) \<Rightarrow>
                          reset_commit env st email_key new_phc new_code new_recovery_phc))))"

definition request_reset_read :: "account_env \<Rightarrow> account_store \<Rightarrow> int \<Rightarrow> string \<Rightarrow> bool \<times> account_store" where
  "request_reset_read env st now email_key =
     (let i = st_inner st
      in if key_locked (request_fails i) email_key now (env_window_ms env) (env_max_fails env) then (False, st)
         else (email_key |\<in>| fmdom (by_email i),
               memo st (i\<lparr>request_fails := note_failure now (env_window_ms env) email_key (request_fails i)\<rparr>)))"

definition request_reset_commit ::
    "account_env \<Rightarrow> account_store \<Rightarrow> int \<Rightarrow> string \<Rightarrow> string \<Rightarrow> string \<Rightarrow>
     (account_error, (string \<times> string) option) result \<times> account_store" where
  "request_reset_commit env st now email_key reset_code code_phc =
     (let i = st_inner st
      in (case fmlookup (by_email i) email_key of
            None \<Rightarrow> (Ok None, st)
          | Some acct \<Rightarrow>
              (Ok (Some (email_key, reset_code)), commit env st
                 (i\<lparr>by_email := fmupd email_key (acct\<lparr>ac_reset_token :=
                      Some \<lparr>rt_phc = code_phc, rt_expires_ms = i64_saturating_add now (env_reset_ttl_ms env)\<rparr>\<rparr>) (by_email i)\<rparr>))))"

definition request_password_reset ::
    "account_env \<Rightarrow> account_store \<Rightarrow> int \<Rightarrow> string \<Rightarrow> bytes option \<Rightarrow> bytes option \<Rightarrow>
     (account_error, (string \<times> string) option) result \<times> account_store" where
  "request_password_reset env st now email draw salt =
     (let email_key = normalize_email email; (go, st1) = request_reset_read env st now email_key
      in if \<not> go then (Ok None, st1)
         else (case new_reset_token env draw salt of
             Inl e \<Rightarrow> (Err e, st1)
           | Inr (reset_code, code_phc) \<Rightarrow> request_reset_commit env st1 now email_key reset_code code_phc))"

definition staff_clear_lockout :: "account_env \<Rightarrow> account_store \<Rightarrow> string \<Rightarrow> bool \<times> account_store" where
  "staff_clear_lockout env st email =
     (let key = normalize_email email; i = st_inner st
      in (key |\<in>| fmdom (by_email i),
          commit env st (i\<lparr>login_fails := fmdrop key (login_fails i), reset_fails := fmdrop key (reset_fails i),
                           request_fails := fmdrop key (request_fails i)\<rparr>)))"

record guardian_meta =
  gm_exists :: bool
  gm_locked :: bool
  gm_has_recovery_code :: bool
  gm_reset_pending :: bool
  gm_child_count :: nat
  gm_device_count :: nat

definition staff_guardian_meta :: "account_env \<Rightarrow> account_store \<Rightarrow> int \<Rightarrow> string \<Rightarrow> guardian_meta" where
  "staff_guardian_meta env st now email =
     (let key = normalize_email email; i = st_inner st
      in (case fmlookup (by_email i) key of
            None \<Rightarrow> \<lparr>gm_exists = False, gm_locked = False, gm_has_recovery_code = False, gm_reset_pending = False,
                     gm_child_count = 0, gm_device_count = 0\<rparr>
          | Some acct \<Rightarrow>
              (let mine = filter (\<lambda>c. ac_account_id acct |\<in>| ch_guardians c) (map snd (sorted_list_of_fmap (children i)))
               in \<lparr>gm_exists = True,
                   gm_locked = key_locked (login_fails i) key now (env_window_ms env) (env_max_fails env),
                   gm_has_recovery_code = (ac_recovery_phc acct \<noteq> None),
                   gm_reset_pending = (ac_reset_token acct \<noteq> None),
                   gm_child_count = min u32_max (length mine),
                   gm_device_count = min u32_max (length (filter (\<lambda>c. trim (ch_device_id c) \<noteq> []) mine))\<rparr>)))"

definition staff_enrolled_device_count :: "account_store \<Rightarrow> nat" where
  "staff_enrolled_device_count st = as_u32 (fcard (fmdom (device_to_child (st_inner st))))"

definition add_child ::
    "account_env \<Rightarrow> account_store \<Rightarrow> int \<Rightarrow> string \<Rightarrow> string \<Rightarrow> string \<Rightarrow> bytes \<Rightarrow>
     (account_error, child_msg) result \<times> account_store" where
  "add_child env st now token child_name device_id id_draw =
     (let i = st_inner st
      in (case account_for_token env i now token of
            Inl e \<Rightarrow> (Err e, st)
          | Inr account_id \<Rightarrow>
              (case account_by_id i account_id of
                 None \<Rightarrow> (Err Unauthorized, st)
               | Some a \<Rightarrow>
                   if trim child_name = [] then (Err (Validation ''child_name is required''), st)
                   else (let device = trim device_id
                         in if device = [] then (Err (Validation ''device_id is required''), st)
                            else if device |\<in>| fmdom (device_to_child i) then (Err DeviceInUse, st)
                            else (let child_id = hex id_draw;
                                      rec = \<lparr>ch_child_id = child_id, ch_family_id = ac_family_id a, ch_name = trim child_name,
                                             ch_device_id = trim device, ch_guardians = {|account_id|},
                                             ch_device_token_sha256 = []\<rparr>
                                  in (Ok (to_proto rec), commit env st
                                        (i\<lparr>device_to_child := fmupd (ch_device_id rec) child_id (device_to_child i),
                                           children := fmupd child_id rec (children i)\<rparr>)))))))"

definition pair_code_ttl_ms :: int where
  "pair_code_ttl_ms = 15 * 60 * 1000"

definition create_pair_code ::
    "account_env \<Rightarrow> account_store \<Rightarrow> int \<Rightarrow> string \<Rightarrow> string \<Rightarrow> bytes \<Rightarrow>
     (account_error, string \<times> int) result \<times> account_store" where
  "create_pair_code env st now token child_name draw =
     (let i = st_inner st
      in (case account_for_token env i now token of
            Inl e \<Rightarrow> (Err e, st)
          | Inr account_id \<Rightarrow>
              (case account_by_id i account_id of
                 None \<Rightarrow> (Err Unauthorized, st)
               | Some a \<Rightarrow>
                   if trim child_name = [] then (Err (Validation ''child_name is required''), st)
                   else (let pair_code = gen_pair_code draw
                         in (Ok (pair_code, i64_wrap (now + pair_code_ttl_ms)),
                             memo st (i\<lparr>pair_codes := fmupd pair_code
                               \<lparr>pc_account_id = account_id, pc_family_id = ac_family_id a,
                                pc_child_name = trim child_name, pc_issued_ms = now\<rparr> (pair_codes i)\<rparr>))))))"

definition redeem_throttle_key :: string where
  "redeem_throttle_key = ''redeem''"

definition redeem_pair_code ::
    "account_env \<Rightarrow> account_store \<Rightarrow> int \<Rightarrow> string \<Rightarrow> string \<Rightarrow> bytes \<Rightarrow> bytes \<Rightarrow>
     (account_error, string \<times> string \<times> string) result \<times> account_store" where
  "redeem_pair_code env st now pair_code device_id id_draw token_draw =
     (let i = st_inner st
      in if key_locked (redeem_fails i) redeem_throttle_key now (env_window_ms env) (env_max_fails env)
         then (Err TooManyAttempts, st)
         else (let key = env_to_uppercase env (trim pair_code); device = trim device_id
               in if device = [] then (Err (Validation ''device_id is required''), st)
                  else (let found = fmlookup (pair_codes i) key;
                            bad = (Err PairCodeInvalid, memo st
                              (i\<lparr>pair_codes := (if found = None then pair_codes i else fmdrop key (pair_codes i)),
                                 redeem_fails := note_failure now (env_window_ms env) redeem_throttle_key (redeem_fails i)\<rparr>))
                        in (case found of
                              None \<Rightarrow> bad
                            | Some rec \<Rightarrow>
                                if \<not> session_live (pc_issued_ms rec) now pair_code_ttl_ms then bad
                                else if device |\<in>| fmdom (device_to_child i) then (Err DeviceInUse, st)
                                else (let child_id = hex id_draw; device_token = hex token_draw;
                                          child = \<lparr>ch_child_id = child_id, ch_family_id = pc_family_id rec,
                                                   ch_name = pc_child_name rec, ch_device_id = device,
                                                   ch_guardians = {|pc_account_id rec|},
                                                   ch_device_token_sha256 = token_hash env device_token\<rparr>
                                      in (Ok (child_id, pc_family_id rec, device_token), commit env st
                                            (i\<lparr>device_to_child := fmupd device child_id (device_to_child i),
                                               children := fmupd child_id child (children i),
                                               pair_codes := fmdrop key (pair_codes i),
                                               redeem_fails := fmdrop redeem_throttle_key (redeem_fails i)\<rparr>)))))))"

definition assign_guardian ::
    "account_env \<Rightarrow> account_store \<Rightarrow> int \<Rightarrow> string \<Rightarrow> string \<Rightarrow> string \<Rightarrow>
     (account_error, unit) result \<times> account_store" where
  "assign_guardian env st now token child_id guardian_account_id =
     (let i = st_inner st
      in (case account_for_token env i now token of
            Inl e \<Rightarrow> (Err e, st)
          | Inr caller \<Rightarrow>
              if guardian_account_id |\<notin>| fmdom (email_by_id i) then (Err NotFound, st)
              else (case fmlookup (children i) child_id of
                  None \<Rightarrow> (Err NotFound, st)
                | Some rec \<Rightarrow>
                    if caller |\<notin>| ch_guardians rec then (Err NotGuardian, st)
                    else (Ok (), commit env st (i\<lparr>children := fmupd child_id
                            (rec\<lparr>ch_guardians := finsert guardian_account_id (ch_guardians rec)\<rparr>) (children i)\<rparr>)))))"

definition list_children :: "account_env \<Rightarrow> account_store \<Rightarrow> int \<Rightarrow> string \<Rightarrow> (account_error, child_msg list) result" where
  "list_children env st now token =
     (case account_for_token env (st_inner st) now token of
        Inl e \<Rightarrow> Err e
      | Inr account_id \<Rightarrow> Ok (sort_key cm_child_id (map to_proto
          (filter (\<lambda>c. account_id |\<in>| ch_guardians c) (map snd (sorted_list_of_fmap (children (st_inner st))))))))"

record guardian_scope =
  gsc_child_ids :: "string fset"
  gsc_device_ids :: "string fset"

definition scope_add :: "string \<Rightarrow> child_rec \<Rightarrow> guardian_scope \<Rightarrow> guardian_scope" where
  "scope_add account_id c scope =
     (if account_id |\<in>| ch_guardians c
      then scope\<lparr>gsc_child_ids := finsert (ch_child_id c) (gsc_child_ids scope),
                 gsc_device_ids := (if ch_device_id c \<noteq> [] then finsert (ch_device_id c) (gsc_device_ids scope)
                                    else gsc_device_ids scope)\<rparr>
      else scope)"

definition account_for_session :: "account_env \<Rightarrow> account_store \<Rightarrow> int \<Rightarrow> string \<Rightarrow> string option" where
  "account_for_session env st now token =
     (case fmlookup (sessions (st_inner st)) (token_hash env token) of
        None \<Rightarrow> None
      | Some entry \<Rightarrow>
          if \<not> session_live (sn_issued_ms entry) now (env_session_ttl_ms env) then None
          else Some (sn_account_id entry))"

definition guardian_scope_of :: "account_env \<Rightarrow> account_store \<Rightarrow> int \<Rightarrow> string \<Rightarrow> guardian_scope option" where
  "guardian_scope_of env st now token =
     (case fmlookup (sessions (st_inner st)) (token_hash env token) of
        None \<Rightarrow> None
      | Some entry \<Rightarrow>
          if \<not> session_live (sn_issued_ms entry) now (env_session_ttl_ms env) then None
          else Some (fold (scope_add (sn_account_id entry))
                 (map snd (sorted_list_of_fmap (children (st_inner st)))) \<lparr>gsc_child_ids = {||}, gsc_device_ids = {||}\<rparr>))"

definition child_for_device :: "account_store \<Rightarrow> string \<Rightarrow> (string \<times> string \<times> string) option" where
  "child_for_device st device_id =
     (case fmlookup (device_to_child (st_inner st)) (trim device_id) of
        None \<Rightarrow> None
      | Some child_id \<Rightarrow> map_option (\<lambda>c. (ch_child_id c, ch_family_id c, ch_name c)) (fmlookup (children (st_inner st)) child_id))"

definition guardians_for_child :: "account_store \<Rightarrow> string \<Rightarrow> string fset" where
  "guardians_for_child st child_id =
     (case fmlookup (children (st_inner st)) (trim child_id) of None \<Rightarrow> {||} | Some c \<Rightarrow> ch_guardians c)"

definition guardians_for_device :: "account_store \<Rightarrow> string \<Rightarrow> string fset" where
  "guardians_for_device st device_id =
     (case Option.bind (fmlookup (device_to_child (st_inner st)) (trim device_id)) (fmlookup (children (st_inner st))) of
        None \<Rightarrow> {||} | Some c \<Rightarrow> ch_guardians c)"

definition verify_device_token :: "account_env \<Rightarrow> account_store \<Rightarrow> string \<Rightarrow> string \<Rightarrow> bool" where
  "verify_device_token env st device_id token =
     (case fmlookup (device_to_child (st_inner st)) (trim device_id) of
        None \<Rightarrow> False
      | Some child_id \<Rightarrow>
          (case fmlookup (children (st_inner st)) child_id of
             None \<Rightarrow> False
           | Some c \<Rightarrow> if ch_device_token_sha256 c = [] then True else token_hash env token = ch_device_token_sha256 c))"

section \<open>The gRPC service\<close>

datatype status_code = AlreadyExists | Unauthenticated | StNotFound | PermissionDenied | InvalidArgument
  | ResourceExhausted | FailedPrecondition | Unavailable | Unimplemented | Internal

fun status_of :: "account_error \<Rightarrow> status_code \<times> string" where
  "status_of EmailExists = (AlreadyExists, ''an account with that email exists'')"
| "status_of BadCredentials = (Unauthenticated, ''invalid email or password'')"
| "status_of Unauthorized = (Unauthenticated, ''invalid or missing session token'')"
| "status_of NotFound = (StNotFound, ''no such child or account'')"
| "status_of NotGuardian = (PermissionDenied, ''caller is not a guardian of this child'')"
| "status_of DeviceInUse = (AlreadyExists, ''device_id is already registered to another child'')"
| "status_of (Validation m) = (InvalidArgument, m)"
| "status_of TooManyAttempts = (ResourceExhausted, ''too many login attempts; try again later'')"
| "status_of PairCodeInvalid = (StNotFound, ''pairing code is invalid, expired, or already used'')"
| "status_of BadRecoveryCode = (Unauthenticated, ''invalid email or recovery code'')"
| "status_of InternalError = (Internal, ''internal error'')"

text \<open>The argument is the \<open>authorization\<close> metadata value, if there is one and it is printable ASCII.\<close>

definition bearer_token :: "string option \<Rightarrow> string option" where
  "bearer_token authorization =
     (case authorization of
        None \<Rightarrow> None
      | Some raw \<Rightarrow>
          (case (case strip_prefix ''Bearer '' raw of Some t \<Rightarrow> Some t | None \<Rightarrow> strip_prefix ''bearer '' raw) of
             None \<Rightarrow> None
           | Some t \<Rightarrow> if trim t \<noteq> [] then Some (trim t) else None))"

definition token_or_meta :: "string option \<Rightarrow> string \<Rightarrow> string" where
  "token_or_meta authorization field =
     (if trim field \<noteq> [] then trim field else (case bearer_token authorization of None \<Rightarrow> [] | Some t \<Rightarrow> t))"

definition respond ::
    "(account_error, 'a) result \<times> account_store \<Rightarrow> ('a \<Rightarrow> 'b) \<Rightarrow> (status_code \<times> string, 'b) result \<times> account_store" where
  "respond r f = ((case fst r of Inl e \<Rightarrow> Err (status_of e) | Inr v \<Rightarrow> Ok (f v)), snd r)"

record account_ack =
  aa_account_id :: string
  aa_created :: bool
  aa_detail :: string
  aa_recovery_code :: string

definition em_dash :: string where
  "em_dash = [CHR 0xE2, CHR 0x80, CHR 0x94]"

definition service_create_account where
  "service_create_account env st email password pw_salt rec_draw rec_salt id_draw family_draw =
     respond (create_account env st email password pw_salt rec_draw rec_salt id_draw family_draw)
       (\<lambda>(account_id, created, recovery_code).
          \<lparr>aa_account_id = account_id, aa_created = created,
           aa_detail = (if created then ''account created '' @ em_dash @ '' SAVE the recovery code; it is shown only once''
                        else ''email already registered''),
           aa_recovery_code = recovery_code\<rparr>)"

definition service_login where
  "service_login env st now email password salt token_draw =
     respond (login env st now email password salt token_draw) id"

definition service_add_child where
  "service_add_child env st now authorization token child_name device_id id_draw =
     respond (add_child env st now (token_or_meta authorization token) child_name device_id id_draw) id"

definition service_assign_guardian where
  "service_assign_guardian env st now authorization token child_id guardian_account_id =
     respond (assign_guardian env st now (token_or_meta authorization token) child_id guardian_account_id)
       (\<lambda>_. (True, ''guardian assigned''))"

definition service_list_children where
  "service_list_children env st now authorization token =
     (case list_children env st now (token_or_meta authorization token) of
        Inl e \<Rightarrow> Err (status_of e) | Inr cs \<Rightarrow> Ok cs)"

definition service_create_pair_code where
  "service_create_pair_code env st now authorization token child_name draw =
     respond (create_pair_code env st now (token_or_meta authorization token) child_name draw) id"

definition service_redeem_pair_code where
  "service_redeem_pair_code env st now pair_code device_id id_draw token_draw =
     respond (redeem_pair_code env st now pair_code device_id id_draw token_draw) id"

definition service_change_password where
  "service_change_password env st now authorization token old_password new_password salt =
     respond (change_password env st now (token_or_meta authorization token) old_password new_password salt)
       (\<lambda>account_id. \<lparr>aa_account_id = account_id, aa_created = False,
          aa_detail = ''password changed; other sessions signed out'', aa_recovery_code = []\<rparr>)"

definition service_reset_password where
  "service_reset_password env st now email recovery_code new_password pw_salt rec_draw rec_salt =
     respond (reset_password env st now email recovery_code new_password pw_salt rec_draw rec_salt)
       (\<lambda>new_recovery_code. (True,
          ''password reset '' @ em_dash @ '' SAVE the new recovery code; the old one is now void'', new_recovery_code))"

text \<open>
  The answer never depends on the email; what is mailed, when a mailer is configured, is the
  recipient, the code and the lifetime in minutes.
\<close>

definition service_request_password_reset ::
    "account_env \<Rightarrow> bool \<Rightarrow> account_store \<Rightarrow> int \<Rightarrow> string \<Rightarrow> bytes option \<Rightarrow> bytes option \<Rightarrow>
     (bool \<times> string) \<times> (string \<times> string \<times> int) option \<times> account_store" where
  "service_request_password_reset env has_mailer st now email draw salt =
     (let (r, st') = request_password_reset env st now email draw salt
      in ((True, ''If that email has an account, a reset code has been sent.''),
          (case r of
             Inr (Some (recipient, reset_code)) \<Rightarrow>
               if has_mailer then Some (recipient, reset_code, env_reset_ttl_ms env div 60000) else None
           | _ \<Rightarrow> None), st'))"

end
