(* ===== verification/AccountsInv.thy ===== *)
theory AccountsInv
  imports Accounts
begin

text \<open>
  The account store as a transition system and its invariant. A state is a store together
  with the operations whose first critical section has run and whose second has not, so
  every interleaving the two lock sections allow is a path of the system. The invariant
  says that the two account indexes mirror each other, that devices and children are in
  one-to-one correspondence, and that sessions, pairing codes and guardian sets only name
  accounts that exist.
\<close>

section \<open>The system\<close>

datatype pending =
    PLogin int string "(pw_hash \<times> string) option" string
  | PChange string string pw_hash string string
  | PReset int string "string option \<times> reset_token option" string string
  | PRequest int string

record acct_system =
  sys_store :: account_store
  sys_pending :: "pending list"

definition account_id_fresh :: "accounts_inner \<Rightarrow> bytes \<Rightarrow> bool" where
  "account_id_fresh i draw \<longleftrightarrow> hex draw |\<notin>| fmdom (email_by_id i)"

definition child_id_fresh :: "accounts_inner \<Rightarrow> bytes \<Rightarrow> bool" where
  "child_id_fresh i draw \<longleftrightarrow> hex draw |\<notin>| fmdom (children i)"

inductive acct_step :: "account_env \<Rightarrow> acct_system \<Rightarrow> acct_system \<Rightarrow> bool" for env where
  create: "account_id_fresh (st_inner st) id_draw \<Longrightarrow>
    acct_step env \<lparr>sys_store = st, sys_pending = ps\<rparr>
      \<lparr>sys_store = snd (create_account env st email password s1 d2 s2 id_draw family_draw), sys_pending = ps\<rparr>"
| login_begin: "login_read env st now (normalize_email email) = Ok pw \<Longrightarrow>
    acct_step env \<lparr>sys_store = st, sys_pending = ps\<rparr>
      \<lparr>sys_store = st, sys_pending = PLogin now (normalize_email email) pw password # ps\<rparr>"
| login_end: "ps = xs @ PLogin now key pw password # ys \<Longrightarrow> login_verify env pw password = (ok, rehash, aid) \<Longrightarrow>
    upgraded = None \<or> ok \<and> rehash \<Longrightarrow>
    acct_step env \<lparr>sys_store = st, sys_pending = ps\<rparr>
      \<lparr>sys_store = snd (login_commit env st now key ok upgraded aid token_draw), sys_pending = xs @ ys\<rparr>"
| change_begin: "change_password_read env st now token = Ok (aid, pw) \<Longrightarrow> 8 \<le> length new \<Longrightarrow>
    acct_step env \<lparr>sys_store = st, sys_pending = ps\<rparr>
      \<lparr>sys_store = st, sys_pending = PChange token aid pw old new # ps\<rparr>"
| change_end: "ps = xs @ PChange token aid pw old new # ys \<Longrightarrow> pw_verify env pw old \<Longrightarrow>
    hash_password env salt new = Ok phc \<Longrightarrow>
    acct_step env \<lparr>sys_store = st, sys_pending = ps\<rparr>
      \<lparr>sys_store = snd (change_password_commit env st token aid phc), sys_pending = xs @ ys\<rparr>"
| reset_begin: "reset_read env st now (normalize_email email) = Ok secrets \<Longrightarrow> 8 \<le> length new \<Longrightarrow>
    acct_step env \<lparr>sys_store = st, sys_pending = ps\<rparr>
      \<lparr>sys_store = st, sys_pending = PReset now (normalize_email email) secrets rcode new # ps\<rparr>"
| reset_fail: "ps = xs @ PReset now key secrets rcode new # ys \<Longrightarrow> \<not> reset_code_ok env now secrets rcode \<Longrightarrow>
    acct_step env \<lparr>sys_store = st, sys_pending = ps\<rparr>
      \<lparr>sys_store = memo st ((st_inner st)\<lparr>reset_fails := note_failure now (env_window_ms env) key (reset_fails (st_inner st))\<rparr>),
       sys_pending = xs @ ys\<rparr>"
| reset_end: "ps = xs @ PReset now key secrets rcode new # ys \<Longrightarrow> reset_code_ok env now secrets rcode \<Longrightarrow>
    hash_password env salt new = Ok phc \<Longrightarrow> new_recovery_code env draw rsalt = Ok (ncode, nphc) \<Longrightarrow>
    acct_step env \<lparr>sys_store = st, sys_pending = ps\<rparr>
      \<lparr>sys_store = snd (reset_commit env st key phc ncode nphc), sys_pending = xs @ ys\<rparr>"
| request_begin: "request_reset_read env st now (normalize_email email) = (go, st') \<Longrightarrow>
    acct_step env \<lparr>sys_store = st, sys_pending = ps\<rparr>
      \<lparr>sys_store = st', sys_pending = (if go then PRequest now (normalize_email email) # ps else ps)\<rparr>"
| request_end: "ps = xs @ PRequest now key # ys \<Longrightarrow> new_reset_token env draw salt = Ok (rcode, phc) \<Longrightarrow>
    acct_step env \<lparr>sys_store = st, sys_pending = ps\<rparr>
      \<lparr>sys_store = snd (request_reset_commit env st now key rcode phc), sys_pending = xs @ ys\<rparr>"
| give_up: "ps = xs @ p # ys \<Longrightarrow>
    acct_step env \<lparr>sys_store = st, sys_pending = ps\<rparr> \<lparr>sys_store = st, sys_pending = xs @ ys\<rparr>"
| add_child: "child_id_fresh (st_inner st) id_draw \<Longrightarrow>
    acct_step env \<lparr>sys_store = st, sys_pending = ps\<rparr>
      \<lparr>sys_store = snd (add_child env st now token name device id_draw), sys_pending = ps\<rparr>"
| pair_code: "acct_step env \<lparr>sys_store = st, sys_pending = ps\<rparr>
      \<lparr>sys_store = snd (create_pair_code env st now token name draw), sys_pending = ps\<rparr>"
| redeem: "child_id_fresh (st_inner st) id_draw \<Longrightarrow>
    acct_step env \<lparr>sys_store = st, sys_pending = ps\<rparr>
      \<lparr>sys_store = snd (redeem_pair_code env st now pcode device id_draw token_draw), sys_pending = ps\<rparr>"
| assign: "acct_step env \<lparr>sys_store = st, sys_pending = ps\<rparr>
      \<lparr>sys_store = snd (assign_guardian env st now token child guardian), sys_pending = ps\<rparr>"
| clear_lockout: "acct_step env \<lparr>sys_store = st, sys_pending = ps\<rparr>
      \<lparr>sys_store = snd (staff_clear_lockout env st email), sys_pending = ps\<rparr>"

inductive acct_reach :: "account_env \<Rightarrow> acct_system \<Rightarrow> bool" for env where
  fresh: "acct_reach env \<lparr>sys_store = account_store_new\<lparr>st_file := file\<rparr>, sys_pending = []\<rparr>"
| step: "acct_reach env s \<Longrightarrow> acct_step env s s' \<Longrightarrow> acct_reach env s'"

section \<open>The invariant\<close>

definition ids_ok :: "(string, account) fmap \<Rightarrow> (string, string) fmap \<Rightarrow> bool" where
  "ids_ok accts ids \<longleftrightarrow>
     (\<forall>a e. fmlookup ids a = Some e \<longleftrightarrow> (\<exists>acct. fmlookup accts e = Some acct \<and> ac_account_id acct = a))"

definition devices_ok :: "(string, child_rec) fmap \<Rightarrow> (string, string) fmap \<Rightarrow> bool" where
  "devices_ok kids devs \<longleftrightarrow>
     (\<forall>d c. fmlookup devs d = Some c \<longleftrightarrow> (\<exists>k. fmlookup kids c = Some k \<and> ch_device_id k = d)) \<and>
     (\<forall>c k. fmlookup kids c = Some k \<longrightarrow> ch_child_id k = c \<and> ch_device_id k \<noteq> [] \<and> trim (ch_device_id k) = ch_device_id k)"

definition refs_ok ::
    "string fset \<Rightarrow> (string, child_rec) fmap \<Rightarrow> (string, session_entry) fmap \<Rightarrow> (string, pair_code_rec) fmap \<Rightarrow> bool" where
  "refs_ok ids kids sess codes \<longleftrightarrow>
     (\<forall>c k. fmlookup kids c = Some k \<longrightarrow> ch_guardians k \<noteq> {||} \<and> ch_guardians k |\<subseteq>| ids) \<and>
     (\<forall>t e. fmlookup sess t = Some e \<longrightarrow> sn_account_id e |\<in>| ids) \<and>
     (\<forall>t e. fmlookup codes t = Some e \<longrightarrow> pc_account_id e |\<in>| ids)"

definition accounts_ok :: "accounts_inner \<Rightarrow> bool" where
  "accounts_ok i \<longleftrightarrow> ids_ok (by_email i) (email_by_id i) \<and> devices_ok (children i) (device_to_child i) \<and>
     refs_ok (fmdom (email_by_id i)) (children i) (sessions i) (pair_codes i)"

fun pending_ok :: "string fset \<Rightarrow> pending \<Rightarrow> bool" where
  "pending_ok ids (PLogin now key (Some (pw, aid)) password) \<longleftrightarrow> aid |\<in>| ids"
| "pending_ok ids _ \<longleftrightarrow> True"

definition system_ok :: "acct_system \<Rightarrow> bool" where
  "system_ok s \<longleftrightarrow> accounts_ok (st_inner (sys_store s)) \<and>
     (\<forall>p\<in>set (sys_pending s). pending_ok (fmdom (email_by_id (st_inner (sys_store s)))) p)"

lemma st_inner_memo [simp]: "st_inner (memo st i) = i"
  by (simp add: memo_def)

lemma st_inner_commit [simp]: "st_inner (commit env st i) = i"
  by (simp add: commit_def persist_locked_def Let_def split: option.split)

subsection \<open>Indexes\<close>

lemma ids_ok_create:
  assumes "ids_ok accts ids" "fmlookup accts e = None" "ac_account_id acct |\<notin>| fmdom ids"
  shows "ids_ok (fmupd e acct accts) (fmupd (ac_account_id acct) e ids)"
proof -
  have none: "fmlookup ids (ac_account_id acct) = None" using assms(3) by (simp add: fmdom_notD)
  have iff: "fmlookup ids a = Some f \<longleftrightarrow> (\<exists>x. fmlookup accts f = Some x \<and> ac_account_id x = a)" for a f
    using assms(1) by (simp add: ids_ok_def)
  show ?thesis unfolding ids_ok_def
  proof (intro allI)
    fix a f
    have "ac_account_id x \<noteq> ac_account_id acct" if "fmlookup accts f = Some x" for x
      using that none iff [of "ac_account_id acct" f] by auto
    moreover have "fmlookup ids a \<noteq> Some e" using iff [of a e] assms(2) by simp
    ultimately show "fmlookup (fmupd (ac_account_id acct) e ids) a = Some f \<longleftrightarrow>
        (\<exists>x. fmlookup (fmupd e acct accts) f = Some x \<and> ac_account_id x = a)"
      using iff [of a f] by (cases "a = ac_account_id acct"; cases "f = e") auto
  qed
qed

lemma ids_ok_update:
  assumes "ids_ok accts ids" "fmlookup accts e = Some acct" "ac_account_id acct' = ac_account_id acct"
  shows "ids_ok (fmupd e acct' accts) ids"
  using assms unfolding ids_ok_def by auto

lemma ids_ok_dom:
  assumes "ids_ok accts ids" "fmlookup accts e = Some acct"
  shows "ac_account_id acct |\<in>| fmdom ids"
  using assms unfolding ids_ok_def by (metis fmdomI)

lemma devices_ok_insert:
  assumes "devices_ok kids devs" "c |\<notin>| fmdom kids" "ch_device_id k |\<notin>| fmdom devs"
    and "ch_child_id k = c" "ch_device_id k \<noteq> []" "trim (ch_device_id k) = ch_device_id k"
  shows "devices_ok (fmupd c k kids) (fmupd (ch_device_id k) c devs)"
proof -
  have "fmlookup kids c = None" "fmlookup devs (ch_device_id k) = None"
    using assms(2,3) by (auto simp: fmdom_notD)
  then show ?thesis using assms(1,4,5,6) unfolding devices_ok_def by (auto; metis option.distinct(1))
qed

lemma devices_ok_update:
  assumes "devices_ok kids devs" "fmlookup kids c = Some k" "ch_device_id k' = ch_device_id k" "ch_child_id k' = ch_child_id k"
  shows "devices_ok (fmupd c k' kids) devs"
  using assms unfolding devices_ok_def by auto

lemma refs_ok_mono: "refs_ok ids kids sess codes \<Longrightarrow> ids |\<subseteq>| ids' \<Longrightarrow> refs_ok ids' kids sess codes"
  unfolding refs_ok_def by blast

lemma refs_ok_kid:
  "refs_ok ids kids sess codes \<Longrightarrow> ch_guardians k \<noteq> {||} \<Longrightarrow> ch_guardians k |\<subseteq>| ids \<Longrightarrow> refs_ok ids (fmupd c k kids) sess codes"
  unfolding refs_ok_def by simp

lemma refs_ok_session:
  "refs_ok ids kids sess codes \<Longrightarrow> sn_account_id e |\<in>| ids \<Longrightarrow> refs_ok ids kids (fmupd t e sess) codes"
  unfolding refs_ok_def by simp

lemma refs_ok_fewer:
  "refs_ok ids kids sess codes \<Longrightarrow> refs_ok ids kids (fm_retain P sess) codes"
  "refs_ok ids kids sess codes \<Longrightarrow> refs_ok ids kids sess (fmdrop c codes)"
  unfolding refs_ok_def by (auto split: if_splits option.splits)

lemma refs_ok_code:
  "refs_ok ids kids sess codes \<Longrightarrow> pc_account_id r |\<in>| ids \<Longrightarrow> refs_ok ids kids sess (fmupd c r codes)"
  unfolding refs_ok_def by simp

lemmas index_intros = ids_ok_create ids_ok_update devices_ok_insert devices_ok_update
  refs_ok_kid refs_ok_session refs_ok_fewer refs_ok_code

lemma account_for_token_dom:
  assumes "accounts_ok i" "account_for_token env i now token = Ok a"
  shows "a |\<in>| fmdom (email_by_id i)"
  using assms by (auto simp: accounts_ok_def refs_ok_def account_for_token_def split: option.splits if_splits)

subsection \<open>Every critical section preserves it\<close>

definition kept :: "account_store \<Rightarrow> account_store \<Rightarrow> bool" where
  "kept st st' \<longleftrightarrow> (accounts_ok (st_inner st) \<longrightarrow> accounts_ok (st_inner st')) \<and>
     fmdom (email_by_id (st_inner st)) |\<subseteq>| fmdom (email_by_id (st_inner st'))"

lemma kept_refl [simp]: "kept st st"
  by (simp add: kept_def)

lemma create_account_kept:
  assumes "account_id_fresh (st_inner st) id_draw"
  shows "kept st (snd (create_account env st email password s1 d2 s2 id_draw family_draw))"
proof -
  have "kept st (commit env st ((st_inner st)\<lparr>
      email_by_id := fmupd (ac_account_id acct) key (email_by_id (st_inner st)), by_email := fmupd key acct (by_email (st_inner st))\<rparr>))"
    if "fmlookup (by_email (st_inner st)) key = None" "ac_account_id acct = hex id_draw" for key acct
    using that assms ids_ok_create [of "by_email (st_inner st)" "email_by_id (st_inner st)" key acct]
      refs_ok_mono [of "fmdom (email_by_id (st_inner st))" _ _ _ "finsert (hex id_draw) (fmdom (email_by_id (st_inner st)))"]
    by (auto simp: kept_def accounts_ok_def account_id_fresh_def)
  from this [OF _ account.select_convs(1)] show ?thesis
    by (auto simp: create_account_def Let_def split: sum.split prod.split option.split)
qed

lemma login_commit_kept:
  assumes "ok \<longrightarrow> aid |\<in>| fmdom (email_by_id (st_inner st))"
  shows "kept st (snd (login_commit env st now key ok upgraded aid token_draw))"
  using assms
  by (auto simp: login_commit_def kept_def accounts_ok_def Let_def intro!: index_intros split: option.split)

lemma change_password_commit_kept: "kept st (snd (change_password_commit env st token aid phc))"
  by (auto simp: change_password_commit_def kept_def accounts_ok_def Let_def intro: index_intros split: option.split)

lemma reset_commit_kept: "kept st (snd (reset_commit env st key phc ncode nphc))"
  by (auto simp: reset_commit_def kept_def accounts_ok_def Let_def intro: index_intros split: option.split)

lemma request_reset_kept:
  "kept st (snd (request_reset_read env st now key))" "kept st (snd (request_reset_commit env st now key rcode phc))"
  by (auto simp: request_reset_read_def request_reset_commit_def kept_def accounts_ok_def Let_def
      intro: index_intros split: option.split)

lemma staff_clear_lockout_kept: "kept st (snd (staff_clear_lockout env st email))"
  by (simp add: staff_clear_lockout_def kept_def accounts_ok_def Let_def)

lemma insert_child_kept:
  assumes "accounts_ok i \<Longrightarrow> a |\<in>| fmdom (email_by_id i)" "ch_guardians k = {|a|}" "ch_child_id k |\<notin>| fmdom (children i)"
    and "ch_device_id k |\<notin>| fmdom (device_to_child i)" "ch_device_id k \<noteq> []" "trim (ch_device_id k) = ch_device_id k"
    and "email_by_id j = email_by_id i" "by_email j = by_email i" "sessions j = sessions i"
    and "device_to_child j = fmupd (ch_device_id k) (ch_child_id k) (device_to_child i)"
    and "children j = fmupd (ch_child_id k) k (children i)" "pair_codes j = pair_codes i \<or> pair_codes j = fmdrop c (pair_codes i)"
    and "accounts_ok i"
  shows "accounts_ok j"
proof -
  have "devices_ok (children j) (device_to_child j)"
    using devices_ok_insert [of "children i" "device_to_child i" "ch_child_id k" k] assms by (simp add: accounts_ok_def)
  moreover have ok: "refs_ok (fmdom (email_by_id i)) (children i) (sessions i) (pair_codes i)" "a |\<in>| fmdom (email_by_id i)"
    using assms(1,13) by (simp_all add: accounts_ok_def)
  then have refs: "refs_ok (fmdom (email_by_id i)) (children j) (sessions i) (pair_codes i)"
    unfolding assms(11) by (intro refs_ok_kid) (simp_all add: assms(2))
  moreover have "refs_ok (fmdom (email_by_id i)) (children j) (sessions i) (pair_codes j)"
    using assms(12) refs refs_ok_fewer(2) [OF refs, of c] by (elim disjE) simp_all
  ultimately show ?thesis using assms(7,8,9,13) by (simp add: accounts_ok_def)
qed

lemma add_child_kept:
  assumes "child_id_fresh (st_inner st) id_draw"
  shows "kept st (snd (add_child env st now token name device id_draw))"
proof (cases "\<exists>msg. fst (add_child env st now token name device id_draw) = Ok msg")
  case False
  then show ?thesis
    by (auto simp: add_child_def Let_def split: sum.splits option.splits if_splits)
next
  case True
  then obtain a acct where tok: "account_for_token env (st_inner st) now token = Ok a" "account_by_id (st_inner st) a = Some acct"
    and "trim name \<noteq> []" "trim device \<noteq> []" "trim device |\<notin>| fmdom (device_to_child (st_inner st))"
    by (auto simp: add_child_def Let_def split: sum.splits option.splits if_splits)
  then show ?thesis
    using assms insert_child_kept [where i = "st_inner st" and a = a and j = "st_inner (snd (add_child env st now token name device id_draw))"
        and k = "\<lparr>ch_child_id = hex id_draw, ch_family_id = ac_family_id acct, ch_name = trim name,
          ch_device_id = trim device, ch_guardians = {|a|}, ch_device_token_sha256 = []\<rparr>"]
      account_for_token_dom [OF _ tok(1)]
    by (simp add: kept_def add_child_def Let_def child_id_fresh_def)
qed

lemma create_pair_code_kept: "kept st (snd (create_pair_code env st now token name draw))"
  using account_for_token_dom [of "st_inner st" env now token]
  by (auto simp: create_pair_code_def kept_def accounts_ok_def Let_def intro!: refs_ok_code
      split: sum.split option.split)

lemma redeem_success:
  assumes "fst (redeem_pair_code env st now pcode device id_draw token_draw) = Ok res"
  obtains rec where "fmlookup (pair_codes (st_inner st)) (env_to_uppercase env (trim pcode)) = Some rec"
    "session_live (pc_issued_ms rec) now pair_code_ttl_ms" "trim device \<noteq> []"
    "trim device |\<notin>| fmdom (device_to_child (st_inner st))"
    "res = (hex id_draw, pc_family_id rec, hex token_draw)"
    "snd (redeem_pair_code env st now pcode device id_draw token_draw) = commit env st ((st_inner st)
       \<lparr>device_to_child := fmupd (trim device) (hex id_draw) (device_to_child (st_inner st)),
        children := fmupd (hex id_draw) \<lparr>ch_child_id = hex id_draw, ch_family_id = pc_family_id rec,
          ch_name = pc_child_name rec, ch_device_id = trim device, ch_guardians = {|pc_account_id rec|},
          ch_device_token_sha256 = token_hash env (hex token_draw)\<rparr> (children (st_inner st)),
        pair_codes := fmdrop (env_to_uppercase env (trim pcode)) (pair_codes (st_inner st)),
        redeem_fails := fmdrop redeem_throttle_key (redeem_fails (st_inner st))\<rparr>)"
  using assms by (auto simp: redeem_pair_code_def Let_def split: if_splits option.splits)

lemma redeem_failure:
  assumes "fst (redeem_pair_code env st now pcode device id_draw token_draw) = Err e"
  shows "let i = st_inner st; j = st_inner (snd (redeem_pair_code env st now pcode device id_draw token_draw))
    in by_email j = by_email i \<and> email_by_id j = email_by_id i \<and> sessions j = sessions i \<and> children j = children i \<and>
       device_to_child j = device_to_child i \<and>
       (pair_codes j = pair_codes i \<or> pair_codes j = fmdrop (env_to_uppercase env (trim pcode)) (pair_codes i))"
  using assms by (auto simp: redeem_pair_code_def Let_def split: if_splits option.splits)

lemma redeem_kept:
  assumes "child_id_fresh (st_inner st) id_draw"
  shows "kept st (snd (redeem_pair_code env st now pcode device id_draw token_draw))" (is "kept st ?st'")
proof (cases "fst (redeem_pair_code env st now pcode device id_draw token_draw)")
  case (Inl e)
  from redeem_failure [OF Inl] refs_ok_fewer(2) show ?thesis
    unfolding kept_def accounts_ok_def Let_def by fastforce
next
  case (Inr res)
  then obtain rec where rec: "fmlookup (pair_codes (st_inner st)) (env_to_uppercase env (trim pcode)) = Some rec"
    and dev: "trim device \<noteq> []" "trim device |\<notin>| fmdom (device_to_child (st_inner st))"
    and st': "st_inner ?st' = (st_inner st)
       \<lparr>device_to_child := fmupd (trim device) (hex id_draw) (device_to_child (st_inner st)),
        children := fmupd (hex id_draw) \<lparr>ch_child_id = hex id_draw, ch_family_id = pc_family_id rec,
          ch_name = pc_child_name rec, ch_device_id = trim device, ch_guardians = {|pc_account_id rec|},
          ch_device_token_sha256 = token_hash env (hex token_draw)\<rparr> (children (st_inner st)),
        pair_codes := fmdrop (env_to_uppercase env (trim pcode)) (pair_codes (st_inner st)),
        redeem_fails := fmdrop redeem_throttle_key (redeem_fails (st_inner st))\<rparr>"
    by (elim redeem_success) simp
  have "accounts_ok (st_inner st) \<Longrightarrow> pc_account_id rec |\<in>| fmdom (email_by_id (st_inner st))"
    using rec by (auto simp: accounts_ok_def refs_ok_def)
  from insert_child_kept [OF this, where j = "st_inner ?st'" and c = "env_to_uppercase env (trim pcode)"
      and k = "\<lparr>ch_child_id = hex id_draw, ch_family_id = pc_family_id rec, ch_name = pc_child_name rec,
        ch_device_id = trim device, ch_guardians = {|pc_account_id rec|}, ch_device_token_sha256 = token_hash env (hex token_draw)\<rparr>"]
  show ?thesis using dev assms by (simp add: kept_def st' child_id_fresh_def)
qed

lemma assign_guardian_kept: "kept st (snd (assign_guardian env st now token child guardian))"
  by (auto simp: assign_guardian_def kept_def accounts_ok_def Let_def intro: devices_ok_update
      split: sum.split option.split intro!: refs_ok_kid) (auto simp: refs_ok_def)

lemma kept_system:
  assumes "kept st st'" "system_ok \<lparr>sys_store = st, sys_pending = ps\<rparr>" "set ps' \<subseteq> set ps"
  shows "system_ok \<lparr>sys_store = st', sys_pending = ps'\<rparr>"
proof -
  have "pending_ok ids p \<Longrightarrow> ids |\<subseteq>| ids' \<Longrightarrow> pending_ok ids' p" for ids ids' p
    by (cases "(ids, p)" rule: pending_ok.cases) auto
  then show ?thesis using assms unfolding system_ok_def kept_def acct_system.simps by blast
qed

lemma kept_remove:
  assumes "kept st st'" "system_ok \<lparr>sys_store = st, sys_pending = xs @ p # ys\<rparr>"
  shows "system_ok \<lparr>sys_store = st', sys_pending = xs @ ys\<rparr>"
  by (rule kept_system [OF assms]) auto

lemma login_read_pending:
  assumes "accounts_ok (st_inner st)" "login_read env st now key = Ok pw"
  shows "pending_ok (fmdom (email_by_id (st_inner st))) (PLogin now k pw password)"
  using assms ids_ok_dom [of "by_email (st_inner st)" "email_by_id (st_inner st)" key]
  by (cases "fmlookup (by_email (st_inner st)) key") (auto simp: login_read_def accounts_ok_def split: if_splits)

lemma login_verify_pending:
  assumes "pending_ok ids (PLogin now key pw password)" "login_verify env pw password = (ok, rehash, aid)"
  shows "ok \<longrightarrow> aid |\<in>| ids"
  using assms by (auto simp: login_verify_def Let_def split: option.splits pw_hash.splits)

lemma system_step_ok:
  assumes "acct_step env s s'" "system_ok s"
  shows "system_ok s'"
  using assms
proof (cases rule: acct_step.cases)
  case (create st id_draw ps)
  then show ?thesis using kept_system [OF create_account_kept] assms(2) by blast
next
  case (login_begin st now email pw ps password)
  then show ?thesis using assms(2) login_read_pending by (auto simp: system_ok_def)
next
  case (login_end ps xs now key pw password ys ok rehash aid upgraded st token_draw)
  then have "ok \<longrightarrow> aid |\<in>| fmdom (email_by_id (st_inner st))"
    using assms(2) by (intro login_verify_pending) (auto simp: system_ok_def)
  from kept_remove [OF login_commit_kept [OF this]] show ?thesis using login_end assms(2) by metis
next
  case (change_begin st now token aid pw new ps old)
  then show ?thesis using assms(2) by (auto simp: system_ok_def)
next
  case (change_end ps xs token aid pw old new ys salt phc st)
  then show ?thesis using kept_remove [OF change_password_commit_kept] assms(2) by metis
next
  case (reset_begin st now email secrets new ps rcode)
  then show ?thesis using assms(2) by (auto simp: system_ok_def)
next
  case (reset_fail ps xs now key secrets rcode new ys st)
  then show ?thesis using assms(2) by (auto simp: system_ok_def accounts_ok_def)
next
  case (reset_end ps xs now key secrets rcode new ys salt phc draw rsalt ncode nphc st)
  then show ?thesis using kept_remove [OF reset_commit_kept] assms(2) by metis
next
  case (request_begin st now email go st' ps)
  then have "kept st st'" using request_reset_kept(1) [of st env now "normalize_email email"] by simp
  from kept_system [OF this] show ?thesis using request_begin assms(2) by (auto simp: system_ok_def)
next
  case (request_end ps xs now key ys draw salt rcode phc st)
  then show ?thesis using kept_remove [OF request_reset_kept(2)] assms(2) by metis
next
  case (give_up ps xs p ys st)
  then show ?thesis using kept_remove [OF kept_refl] assms(2) by metis
next
  case (add_child st id_draw ps now token name device)
  then show ?thesis using kept_system [OF add_child_kept] assms(2) by blast
next
  case (pair_code st ps now token name draw)
  then show ?thesis using kept_system [OF create_pair_code_kept] assms(2) by blast
next
  case (redeem st id_draw ps now pcode device token_draw)
  then show ?thesis using kept_system [OF redeem_kept] assms(2) by blast
next
  case (assign st ps now token child guardian)
  then show ?thesis using kept_system [OF assign_guardian_kept] assms(2) by blast
next
  case (clear_lockout st ps email)
  then show ?thesis using kept_system [OF staff_clear_lockout_kept] assms(2) by blast
qed

end
