(* ===== verification/AccountsPersist.thy ===== *)
theory AccountsPersist
  imports AccountsInv
begin

text \<open>
  Restarting the server: \<open>snapshot\<close> and \<open>from_snapshot\<close> of \<open>accounts.rs\<close> are inverse to each
  other on what is meant to survive. The throttles and the pairing codes are not stored;
  sessions and reset tokens are dropped once they have expired.
\<close>

section \<open>Folding inserts\<close>

lemma fold_fmupd_Some:
  assumes "\<forall>x\<in>set xs. \<forall>y\<in>set xs. f x = f y \<longrightarrow> g x = g y"
  shows "fmlookup (fold (\<lambda>x. fmupd (f x) (g x)) xs m) k = Some v \<longleftrightarrow>
    (\<exists>x\<in>set xs. f x = k \<and> g x = v) \<or> (\<forall>x\<in>set xs. f x \<noteq> k) \<and> fmlookup m k = Some v"
  using assms
proof (induction xs arbitrary: m)
  case (Cons x xs)
  have sub: "\<forall>y\<in>set xs. \<forall>z\<in>set xs. f y = f z \<longrightarrow> g y = g z" and hd: "\<forall>y\<in>set xs. f y = f x \<longrightarrow> g y = g x"
    using Cons.prems by (meson list.set_intros)+
  note IH = Cons.IH [OF sub, of "fmupd (f x) (g x) m"]
  show ?case
  proof (cases "f x = k")
    case True
    then show ?thesis using IH hd by auto
  next
    case False
    then show ?thesis using IH by auto
  qed
qed simp

lemma fmap_eqI_Some: "(\<And>k v. fmlookup m k = Some v \<longleftrightarrow> fmlookup n k = Some v) \<Longrightarrow> m = n"
  by (rule fmap_ext) (metis option.exhaust)

lemma fold_inserts_eq:
  assumes "\<forall>x\<in>set xs. \<forall>y\<in>set xs. f x = f y \<longrightarrow> g x = g y"
    and "\<And>k v. fmlookup n k = Some v \<longleftrightarrow> (\<exists>x\<in>set xs. f x = k \<and> g x = v)"
  shows "fold (\<lambda>x. fmupd (f x) (g x)) xs fmempty = n"
  by (rule fmap_eqI_Some) (simp add: fold_fmupd_Some [OF assms(1)] assms(2))

section \<open>Hex arrays\<close>

lemma hex_digit_val_digit: "n < 16 \<Longrightarrow> hex_digit_val (hex_digits ! n) = Some n \<and> hex_digits ! n \<noteq> CHR ''+''"
proof -
  have "\<forall>n\<in>set [0..<16]. hex_digit_val (hex_digits ! n) = Some n \<and> hex_digits ! n \<noteq> CHR ''+''" by code_simp
  then show "n < 16 \<Longrightarrow> ?thesis" by simp
qed

lemma nibble_sum: "unat (drop_bit 4 b) * 16 + unat (and b 15) = unat (b :: u8)"
proof -
  have "and b 15 = take_bit 4 b" by (simp add: take_bit_eq_mask mask_eq_exp_minus_1)
  then have "unat (and b 15) = unat b mod 16" by (simp add: unsigned_take_bit_eq take_bit_eq_mod [of 4 "unat b"])
  moreover have "unat (drop_bit 4 b) = unat b div 16"
    by (simp add: unat_drop_bit_eq drop_bit_eq_div [of 4 "unat b"] del: drop_bit_numeral_bit0)
  ultimately show ?thesis by simp
qed

lemma radix16_pairs_hex: "radix16_pairs (hex bs) = Some bs"
proof (induction bs)
  case (Cons b bs)
  have "hex_digit_val (hex_digits ! unat (drop_bit 4 b)) = Some (unat (drop_bit 4 b))"
    "hex_digits ! unat (drop_bit 4 b) \<noteq> CHR ''+''" "hex_digit_val (hex_digits ! unat (and b 15)) = Some (unat (and b 15))"
    using hex_digit_val_digit hex_nibbles [of b] by blast+
  then have "byte_from_radix16 (hex_digits ! unat (drop_bit 4 b)) (hex_digits ! unat (and b 15)) = Some b"
    by (simp add: byte_from_radix16_def nibble_sum del: of_nat_add of_nat_mult)
  with Cons show ?case by simp
qed simp

lemma from_hex_array_hex: "from_hex_array n (hex bs) = (if length bs = n then Some bs else None)"
  by (simp add: from_hex_array_def radix16_pairs_hex)

section \<open>What survives\<close>

definition storable :: "accounts_inner \<Rightarrow> bool" where
  "storable i \<longleftrightarrow>
     (\<forall>e a. fmlookup (by_email i) e = Some a \<longrightarrow>
        (case ac_pw a of Argon2 s \<Rightarrow> s \<noteq> [] | Pbkdf2 salt h \<Rightarrow> length salt = 16 \<and> length h = 32) \<and>
        ac_recovery_phc a \<noteq> Some [] \<and> (\<forall>t. ac_reset_token a = Some t \<longrightarrow> rt_phc t \<noteq> [])) \<and>
     (\<forall>k e. fmlookup (sessions i) k = Some e \<longrightarrow> k \<noteq> [])"

definition drop_expired_token :: "int \<Rightarrow> account \<Rightarrow> account" where
  "drop_expired_token now a =
     (case ac_reset_token a of
        None \<Rightarrow> a
      | Some t \<Rightarrow> if now < rt_expires_ms t then a else a\<lparr>ac_reset_token := None\<rparr>)"

definition restart_view :: "account_env \<Rightarrow> int \<Rightarrow> accounts_inner \<Rightarrow> accounts_inner" where
  "restart_view env now i =
     \<lparr>by_email = fmmap (drop_expired_token now) (by_email i), email_by_id = email_by_id i,
      sessions = fm_retain (\<lambda>k e. session_live (sn_issued_ms e) now (env_session_ttl_ms env)) (sessions i),
      login_fails = fmempty, reset_fails = fmempty, request_fails = fmempty, children = children i,
      device_to_child = device_to_child i, pair_codes = fmempty, redeem_fails = fmempty\<rparr>"

lemma row_password_stored:
  assumes "storable i" "fmlookup (by_email i) e = Some a"
  shows "row_password (account_to_row (e, a)) = Some (ac_pw a)"
proof -
  have "case ac_pw a of Argon2 s \<Rightarrow> s \<noteq> [] | Pbkdf2 salt h \<Rightarrow> length salt = 16 \<and> length h = 32"
    using assms unfolding storable_def by blast
  then show ?thesis
    by (cases "ac_pw a") (auto simp: row_password_def account_to_row_def from_hex_array_hex)
qed

definition row_to_account :: "int \<Rightarrow> account_row \<Rightarrow> account" where
  "row_to_account now row =
     \<lparr>ac_account_id = row_account_id row, ac_family_id = row_family_id row, ac_pw = the (row_password row),
      ac_recovery_phc = (if row_recovery_phc row \<noteq> [] then Some (row_recovery_phc row) else None),
      ac_reset_token =
        (if row_reset_token_phc row \<noteq> [] \<and> now < row_reset_token_expires_ms row
         then Some \<lparr>rt_phc = row_reset_token_phc row, rt_expires_ms = row_reset_token_expires_ms row\<rparr> else None)\<rparr>"

lemma row_to_account_stored:
  assumes "storable i" "fmlookup (by_email i) e = Some a"
  shows "row_to_account now (account_to_row (e, a)) = drop_expired_token now a"
proof -
  have "ac_recovery_phc a \<noteq> Some []" "\<forall>t. ac_reset_token a = Some t \<longrightarrow> rt_phc t \<noteq> []"
    using assms unfolding storable_def by blast+
  with row_password_stored [OF assms] show ?thesis
    by (intro account.equality)
       (auto simp: row_to_account_def drop_expired_token_def account_to_row_def split: option.splits)
qed

lemma load_accounts:
  assumes "\<forall>r\<in>set rows. row_password r \<noteq> None"
  shows "fold (load_account now) rows i = i\<lparr>
    by_email := fold (\<lambda>r. fmupd (row_email_key r) (row_to_account now r)) rows (by_email i),
    email_by_id := fold (\<lambda>r. fmupd (row_account_id r) (row_email_key r)) rows (email_by_id i)\<rparr>"
  using assms
proof (induction rows arbitrary: i)
  case (Cons r rows)
  then obtain pw where "row_password r = Some pw" by auto
  with Cons show ?case by (simp add: load_account_def row_to_account_def)
qed simp

definition row_to_child :: "child_row \<Rightarrow> child_rec" where
  "row_to_child row = \<lparr>ch_child_id = cr_child_id row, ch_family_id = cr_family_id row, ch_name = cr_name row,
     ch_device_id = cr_device_id row, ch_guardians = fset_of_list (cr_guardians row),
     ch_device_token_sha256 = cr_device_token_sha256 row\<rparr>"

lemma row_to_child_inverse [simp]: "row_to_child (child_to_row c) = c"
  by (simp add: row_to_child_def child_to_row_def)

lemma load_children:
  assumes "\<forall>r\<in>set rows. cr_device_id r \<noteq> []"
  shows "fold load_child rows i = i\<lparr>
    device_to_child := fold (\<lambda>r. fmupd (cr_device_id r) (cr_child_id r)) rows (device_to_child i),
    children := fold (\<lambda>r. fmupd (cr_child_id r) (row_to_child r)) rows (children i)\<rparr>"
  using assms by (induction rows arbitrary: i) (simp_all add: load_child_def row_to_child_def)

definition row_to_session :: "session_row \<Rightarrow> session_entry" where
  "row_to_session row = \<lparr>sn_account_id = sr_account_id row, sn_issued_ms = sr_issued_ms row\<rparr>"

lemma load_sessions:
  assumes "\<forall>r\<in>set rows. sr_token_sha256 r \<noteq> []"
  shows "fold (load_session env now) rows i = i\<lparr>sessions :=
    fold (\<lambda>r. fmupd (sr_token_sha256 r) (row_to_session r))
      (filter (\<lambda>r. session_live (sr_issued_ms r) now (env_session_ttl_ms env)) rows) (sessions i)\<rparr>"
  using assms by (induction rows arbitrary: i) (simp_all add: load_session_def row_to_session_def)

section \<open>Rows of a snapshot\<close>

lemma set_snap_accounts: "set (snap_accounts (snapshot i)) = account_to_row ` {(e, a). fmlookup (by_email i) e = Some a}"
  by (simp add: snapshot_def set_sorted_list_of_fmap)

lemma set_snap_children: "r \<in> set (snap_children (snapshot i)) \<longleftrightarrow> (\<exists>c k. fmlookup (children i) c = Some k \<and> r = child_to_row k)"
  by (auto simp: snapshot_def set_sorted_list_of_fmap)

lemma set_snap_sessions: "set (snap_sessions (snapshot i)) = session_to_row ` {(t, e). fmlookup (sessions i) t = Some e}"
  by (simp add: snapshot_def set_sorted_list_of_fmap)

lemma restored_accounts:
  assumes "storable i"
  shows "fold (\<lambda>r. fmupd (row_email_key r) (row_to_account now r)) (snap_accounts (snapshot i)) fmempty =
    fmmap (drop_expired_token now) (by_email i)"
proof (rule fold_inserts_eq)
  have key: "row_email_key (account_to_row (e, a)) = e" for e a by (simp add: account_to_row_def)
  show "\<forall>x\<in>set (snap_accounts (snapshot i)). \<forall>y\<in>set (snap_accounts (snapshot i)).
      row_email_key x = row_email_key y \<longrightarrow> row_to_account now x = row_to_account now y"
    unfolding set_snap_accounts using key by fastforce
  show "fmlookup (fmmap (drop_expired_token now) (by_email i)) k = Some v \<longleftrightarrow>
      (\<exists>x\<in>set (snap_accounts (snapshot i)). row_email_key x = k \<and> row_to_account now x = v)" for k v
    unfolding set_snap_accounts using row_to_account_stored [OF assms, of k] key by (auto simp: row_to_account_stored [OF assms])
qed

lemma restored_ids:
  assumes "accounts_ok i"
  shows "fold (\<lambda>r. fmupd (row_account_id r) (row_email_key r)) (snap_accounts (snapshot i)) fmempty = email_by_id i"
proof (rule fold_inserts_eq)
  have key: "row_email_key (account_to_row (e, a)) = e" "row_account_id (account_to_row (e, a)) = ac_account_id a" for e a
    by (simp_all add: account_to_row_def)
  have iff: "fmlookup (email_by_id i) k = Some e \<longleftrightarrow> (\<exists>a. fmlookup (by_email i) e = Some a \<and> ac_account_id a = k)" for k e
    using assms by (simp add: accounts_ok_def ids_ok_def)
  have "e = f" if "fmlookup (by_email i) e = Some a" "fmlookup (by_email i) f = Some b" "ac_account_id a = ac_account_id b" for e f a b
    using that iff by (metis option.inject)
  then show "\<forall>x\<in>set (snap_accounts (snapshot i)). \<forall>y\<in>set (snap_accounts (snapshot i)).
      row_account_id x = row_account_id y \<longrightarrow> row_email_key x = row_email_key y"
    unfolding set_snap_accounts by (auto simp: key)
  show "fmlookup (email_by_id i) k = Some v \<longleftrightarrow>
      (\<exists>x\<in>set (snap_accounts (snapshot i)). row_account_id x = k \<and> row_email_key x = v)" for k v
    unfolding set_snap_accounts iff by (auto simp: key)
qed

lemma restored_children:
  assumes "accounts_ok i"
  shows "fold (\<lambda>r. fmupd (cr_child_id r) (row_to_child r)) (snap_children (snapshot i)) fmempty = children i"
proof (rule fold_inserts_eq)
  have key: "cr_child_id (child_to_row k) = ch_child_id k" for k by (simp add: child_to_row_def)
  have ids: "fmlookup (children i) c = Some k \<Longrightarrow> ch_child_id k = c" for c k
    using assms by (simp add: accounts_ok_def devices_ok_def)
  show "\<forall>x\<in>set (snap_children (snapshot i)). \<forall>y\<in>set (snap_children (snapshot i)).
      cr_child_id x = cr_child_id y \<longrightarrow> row_to_child x = row_to_child y"
    unfolding Ball_def set_snap_children using ids key by fastforce
  show "fmlookup (children i) k = Some v \<longleftrightarrow>
      (\<exists>x\<in>set (snap_children (snapshot i)). cr_child_id x = k \<and> row_to_child x = v)" for k v
    unfolding Bex_def set_snap_children using ids key by fastforce
qed

lemma restored_devices:
  assumes "accounts_ok i"
  shows "fold (\<lambda>r. fmupd (cr_device_id r) (cr_child_id r)) (snap_children (snapshot i)) fmempty = device_to_child i"
proof (rule fold_inserts_eq)
  have key: "cr_child_id (child_to_row k) = ch_child_id k" "cr_device_id (child_to_row k) = ch_device_id k" for k
    by (simp_all add: child_to_row_def)
  have ids: "fmlookup (children i) c = Some k \<Longrightarrow> ch_child_id k = c" for c k
    using assms by (simp add: accounts_ok_def devices_ok_def)
  have iff: "fmlookup (device_to_child i) d = Some c \<longleftrightarrow> (\<exists>k. fmlookup (children i) c = Some k \<and> ch_device_id k = d)" for c d
    using assms by (simp add: accounts_ok_def devices_ok_def)
  have "c = c'" if "fmlookup (children i) c = Some k" "fmlookup (children i) c' = Some k'" "ch_device_id k = ch_device_id k'" for c c' k k'
    using that iff by (metis option.inject)
  then show "\<forall>x\<in>set (snap_children (snapshot i)). \<forall>y\<in>set (snap_children (snapshot i)).
      cr_device_id x = cr_device_id y \<longrightarrow> cr_child_id x = cr_child_id y"
    unfolding Ball_def set_snap_children using ids by (clarsimp simp: key)
  show "fmlookup (device_to_child i) k = Some v \<longleftrightarrow>
      (\<exists>x\<in>set (snap_children (snapshot i)). cr_device_id x = k \<and> cr_child_id x = v)" for k v
    unfolding Bex_def set_snap_children iff using ids key by fastforce
qed

lemma restored_sessions:
  "fold (\<lambda>r. fmupd (sr_token_sha256 r) (row_to_session r))
     (filter (\<lambda>r. session_live (sr_issued_ms r) now ttl) (snap_sessions (snapshot i))) fmempty =
   fm_retain (\<lambda>k e. session_live (sn_issued_ms e) now ttl) (sessions i)"
proof (rule fold_inserts_eq)
  have key: "sr_token_sha256 (session_to_row (t, e)) = t" "row_to_session (session_to_row (t, e)) = e"
    "sr_issued_ms (session_to_row (t, e)) = sn_issued_ms e" for t e
    by (simp_all add: session_to_row_def row_to_session_def)
  show "\<forall>x\<in>set (filter (\<lambda>r. session_live (sr_issued_ms r) now ttl) (snap_sessions (snapshot i))).
      \<forall>y\<in>set (filter (\<lambda>r. session_live (sr_issued_ms r) now ttl) (snap_sessions (snapshot i))).
      sr_token_sha256 x = sr_token_sha256 y \<longrightarrow> row_to_session x = row_to_session y"
    unfolding set_filter set_snap_sessions by (auto simp: key)
  show "fmlookup (fm_retain (\<lambda>k e. session_live (sn_issued_ms e) now ttl) (sessions i)) k = Some v \<longleftrightarrow>
      (\<exists>x\<in>set (filter (\<lambda>r. session_live (sr_issued_ms r) now ttl) (snap_sessions (snapshot i))).
         sr_token_sha256 x = k \<and> row_to_session x = v)" for k v
    unfolding set_filter set_snap_sessions by (auto simp: key split: option.splits if_splits)
qed

section \<open>Properties\<close>

text \<open>
  A restart loses nothing it should keep and keeps nothing it should lose: loading the
  image of a consistent store gives back the same accounts, account index, children and device
  bindings, exactly the sessions that are still live, and no reset token that has expired;
  throttles and pairing codes start empty.
\<close>

theorem restart_restores_store:
  assumes ok: "accounts_ok i" and st: "storable i"
  shows "from_snapshot env now (snapshot i) = restart_view env now i"
proof -
  have "\<forall>r\<in>set (snap_accounts (snapshot i)). row_password r \<noteq> None"
    unfolding set_snap_accounts using row_password_stored [OF st] by auto
  note accounts = load_accounts [OF this, of now accounts_inner_default]
  have "\<forall>r\<in>set (snap_children (snapshot i)). cr_device_id r \<noteq> []"
    unfolding Ball_def set_snap_children using ok by (auto simp: accounts_ok_def devices_ok_def child_to_row_def)
  note children = load_children [OF this]
  have "\<forall>r\<in>set (snap_sessions (snapshot i)). sr_token_sha256 r \<noteq> []"
    unfolding set_snap_sessions using st by (auto simp: storable_def session_to_row_def)
  note sessions = load_sessions [OF this, of env now]
  show ?thesis
    unfolding from_snapshot_def sessions children accounts
    by (simp add: restart_view_def accounts_inner_default_def
        restored_accounts [OF st] restored_ids [OF ok] restored_children [OF ok] restored_devices [OF ok] restored_sessions)
qed

definition sample_registry :: accounts_inner where
  "sample_registry = accounts_inner_default\<lparr>
     by_email := fmupd ''a@x'' \<lparr>ac_account_id = ''04'', ac_family_id = ''05'', ac_pw = Argon2 ''h'',
       ac_recovery_phc = Some ''r'', ac_reset_token = Some \<lparr>rt_phc = ''t'', rt_expires_ms = 50\<rparr>\<rparr> fmempty,
     email_by_id := fmupd ''04'' ''a@x'' fmempty,
     sessions := fmupd ''d1'' \<lparr>sn_account_id = ''04'', sn_issued_ms = 10\<rparr> fmempty,
     children := fmupd ''08'' \<lparr>ch_child_id = ''08'', ch_family_id = ''05'', ch_name = ''Kim'', ch_device_id = ''tablet'',
       ch_guardians = {|''04''|}, ch_device_token_sha256 = []\<rparr> fmempty,
     device_to_child := fmupd ''tablet'' ''08'' fmempty\<rparr>"

theorem restart_restores_store_witness:
  "\<forall>env. from_snapshot env 60 (snapshot sample_registry) = restart_view env 60 sample_registry \<and>
   map_option ac_reset_token (fmlookup (by_email (restart_view env 60 sample_registry)) ''a@x'') = Some None"
proof
  fix env
  have "trim ''tablet'' = ''tablet''" by code_simp
  then have "accounts_ok sample_registry" "storable sample_registry"
    by (auto simp: sample_registry_def accounts_inner_default_def accounts_ok_def ids_ok_def devices_ok_def refs_ok_def storable_def
        split: if_splits)
  from restart_restores_store [OF this] show "from_snapshot env 60 (snapshot sample_registry) = restart_view env 60 sample_registry \<and>
     map_option ac_reset_token (fmlookup (by_email (restart_view env 60 sample_registry)) ''a@x'') = Some None"
    by (simp add: restart_view_def sample_registry_def drop_expired_token_def)
qed

end
