(* ===== verification/Staff.thy ===== *)
theory Staff
  imports AccountsPersist AuditRow HashChain
begin

text \<open>
  Staff accounts, \<open>StaffStore\<close> of \<open>bulwark-server/src/staff.rs\<close>: bootstrap and creation, sign-in
  with password and one-time code, sessions, and the hash-chained staff audit log. As for
  guardian accounts, each critical section is one definition, so that sign-ins can be
  interleaved; HMAC-SHA1, Base32 decoding and the two files are parameters beside those of
  \<open>account_env\<close>. The audit helper \<open>push_field\<close> is the one of the store crate, which this file
  repeats.
\<close>

section \<open>Environment and state\<close>

record staff_env =
  se_accounts :: account_env
  se_hmac_sha1 :: "bytes \<Rightarrow> bytes \<Rightarrow> bytes"
  se_base32_decode :: "string \<Rightarrow> bytes option"
  se_staff_ttl_ms :: int

datatype staff_error = StaffEmailExists | StaffBadCredentials | StaffUnauthorized | Forbidden | StaffTooManyAttempts
  | BootstrapLocked | StaffValidation string | StaffInternal

datatype staff_role = RoleUnspecified | Support | SafetyOfficer | Operator | Admin

fun role_number :: "staff_role \<Rightarrow> int" where
  "role_number RoleUnspecified = 0"
| "role_number Support = 1"
| "role_number SafetyOfficer = 2"
| "role_number Operator = 3"
| "role_number Admin = 4"

definition all_staff_roles :: "staff_role list" where
  "all_staff_roles = [Support, SafetyOfficer, Operator, Admin]"

definition support_roles :: "staff_role list" where
  "support_roles = [Support, Admin]"

definition safety_roles :: "staff_role list" where
  "safety_roles = [SafetyOfficer, Admin]"

definition staff_session_ttl_ms :: "string option \<Rightarrow> int" where
  "staff_session_ttl_ms var = env_secs_ms var (2 * 3600)"

definition tls_cert_expiry_ts_from_env :: "string option \<Rightarrow> int" where
  "tls_cert_expiry_ts_from_env var =
     (case Option.bind var (\<lambda>s. parse_i64 (trim s)) of None \<Rightarrow> 0 | Some n \<Rightarrow> if 0 < n then n else 0)"

record staff_rec =
  sf_staff_id :: string
  sf_display_name :: string
  sf_role :: int
  sf_phc :: string
  sf_totp_secret_b32 :: string
  sf_last_totp_counter :: int

record staff_session_entry =
  ss_staff_id :: string
  ss_issued_ms :: int

record staff_inner =
  staff_by_email :: "(string, staff_rec) fmap"
  staff_email_by_id :: "(string, string) fmap"
  staff_sessions :: "(string, staff_session_entry) fmap"
  staff_login_fails :: "(string, login_throttle) fmap"

definition staff_inner_default :: staff_inner where
  "staff_inner_default = \<lparr>staff_by_email = fmempty, staff_email_by_id = fmempty, staff_sessions = fmempty, staff_login_fails = fmempty\<rparr>"

record audit_rec =
  au_seq :: nat
  au_ts :: int
  au_staff_id :: string
  au_role :: int
  au_action :: string
  au_target :: string
  au_detail :: string
  au_entry_hash :: string

record staff_row =
  sfr_email_key :: string
  sfr_staff_id :: string
  sfr_display_name :: string
  sfr_role :: int
  sfr_phc :: string
  sfr_totp_secret_base32 :: string
  sfr_last_totp_counter :: int

record staff_session_row =
  ssr_token_sha256 :: string
  ssr_staff_id :: string
  ssr_issued_ms :: int

record staff_snapshot =
  sfs_staff :: "staff_row list"
  sfs_sessions :: "staff_session_row list"

text \<open>The files are kept as their last image; \<open>None\<close> for a store without a state directory.\<close>

record staff_store =
  ts_inner :: staff_inner
  ts_audit :: "audit_rec list"
  ts_file :: "staff_snapshot option"
  ts_audit_file :: "audit_rec list option"
  ts_bootstrap_sha256 :: "string option"

record staff_identity =
  id_staff_id :: string
  id_role :: int

section \<open>One-time codes\<close>

definition totp_code_at :: "staff_env \<Rightarrow> bytes \<Rightarrow> int \<Rightarrow> nat" where
  "totp_code_at env secret counter =
     (let b = se_hmac_sha1 env secret (be_bytes 8 counter);
          off = unat (last b) mod 16;
          bin = (unat (b ! off) mod 128) * 2 ^ 24 + unat (b ! (off + 1)) * 2 ^ 16 + unat (b ! (off + 2)) * 2 ^ 8 + unat (b ! (off + 3))
      in bin mod 1000000)"

text \<open>Signed division of the source rounds towards zero.\<close>

definition trunc_div :: "int \<Rightarrow> int \<Rightarrow> int" where
  "trunc_div x d = (if x < 0 then - ((- x) div d) else x div d)"

definition verify_totp :: "staff_env \<Rightarrow> string \<Rightarrow> string \<Rightarrow> int \<Rightarrow> int \<Rightarrow> int option" where
  "verify_totp env secret_b32 totp_code unix_secs last_counter =
     (case se_base32_decode env secret_b32 of
        None \<Rightarrow> None
      | Some secret \<Rightarrow>
          (case parse_u32 (trim totp_code) of
             None \<Rightarrow> None
           | Some presented \<Rightarrow>
               (let step = trunc_div unix_secs 30
                in find (\<lambda>counter. \<not> (counter < 0 \<or> counter \<le> last_counter) \<and> totp_code_at env secret counter = presented)
                     [step - 1, step, step + 1])))"

section \<open>Audit log\<close>

definition audit_genesis :: "staff_env \<Rightarrow> bytes" where
  "audit_genesis env = env_sha256 (se_accounts env) (as_bytes ''bulwark-server/staff-audit/genesis/v1'')"

definition audit_canonical :: "audit_rec \<Rightarrow> bytes" where
  "audit_canonical e = be_bytes 8 (int (au_seq e)) @ be_bytes 8 (au_ts e) @ push_field (as_bytes (au_staff_id e)) @
     be_bytes 4 (au_role e) @ push_field (as_bytes (au_action e)) @ push_field (as_bytes (au_target e)) @
     push_field (as_bytes (au_detail e))"

definition audit_link :: "staff_env \<Rightarrow> bytes \<Rightarrow> bytes \<Rightarrow> bytes" where
  "audit_link env prev canonical = env_sha256 (se_accounts env) (prev @ canonical)"

fun verify_entries_from :: "staff_env \<Rightarrow> bytes \<Rightarrow> audit_rec list \<Rightarrow> bool" where
  "verify_entries_from env prev [] = True"
| "verify_entries_from env prev (e # es) =
     (let derived = audit_link env prev (audit_canonical e)
      in if hex derived \<noteq> au_entry_hash e then False else verify_entries_from env derived es)"

definition verify_entries :: "staff_env \<Rightarrow> audit_rec list \<Rightarrow> bool" where
  "verify_entries env es = verify_entries_from env (audit_genesis env) es"

definition staff_audit_append ::
    "staff_env \<Rightarrow> (audit_rec list \<Rightarrow> bool) \<Rightarrow> staff_store \<Rightarrow> int \<Rightarrow> string \<Rightarrow> int \<Rightarrow> string \<Rightarrow> string \<Rightarrow> string \<Rightarrow> staff_store" where
  "staff_audit_append env writes st ts staff_id role act target detail =
     (let es = ts_audit st;
          prev = (if es = [] then audit_genesis env
                  else (case from_hex_array 32 (au_entry_hash (last es)) of None \<Rightarrow> audit_genesis env | Some h \<Rightarrow> h));
          seq = (if es = [] then 0 else au_seq (last es) + 1);
          e = \<lparr>au_seq = seq, au_ts = ts, au_staff_id = staff_id, au_role = role, au_action = act, au_target = target,
               au_detail = detail, au_entry_hash = []\<rparr>;
          es' = es @ [e\<lparr>au_entry_hash := hex (audit_link env prev (audit_canonical e))\<rparr>]
      in st\<lparr>ts_audit := es',
            ts_audit_file := (case ts_audit_file st of None \<Rightarrow> None | Some old \<Rightarrow> Some (if writes es' then es' else old))\<rparr>)"

definition query_audit :: "staff_env \<Rightarrow> staff_store \<Rightarrow> nat \<Rightarrow> nat \<Rightarrow> audit_rec list \<times> nat \<times> bool" where
  "query_audit env st after_seq limit =
     (let chain_ok = verify_entries env (ts_audit st);
          n = (if limit = 0 then 100 else min limit 1000);
          es = take n (filter (\<lambda>e. after_seq \<le> au_seq e) (ts_audit st))
      in (es, (if es = [] then after_seq else au_seq (last es) + 1), chain_ok))"

section \<open>Snapshots\<close>

definition staff_snapshot_of :: "staff_inner \<Rightarrow> staff_snapshot" where
  "staff_snapshot_of i =
     \<lparr>sfs_staff = sort_key sfr_email_key (map (\<lambda>(k, r). \<lparr>sfr_email_key = k, sfr_staff_id = sf_staff_id r,
        sfr_display_name = sf_display_name r, sfr_role = sf_role r, sfr_phc = sf_phc r,
        sfr_totp_secret_base32 = sf_totp_secret_b32 r, sfr_last_totp_counter = sf_last_totp_counter r\<rparr>)
        (sorted_list_of_fmap (staff_by_email i))),
      sfs_sessions = sort_key ssr_token_sha256 (map (\<lambda>(k, e). \<lparr>ssr_token_sha256 = k, ssr_staff_id = ss_staff_id e,
        ssr_issued_ms = ss_issued_ms e\<rparr>) (sorted_list_of_fmap (staff_sessions i)))\<rparr>"

definition load_staff_row :: "staff_row \<Rightarrow> staff_inner \<Rightarrow> staff_inner" where
  "load_staff_row row i =
     (if sfr_phc row = [] \<or> sfr_totp_secret_base32 row = [] then i
      else i\<lparr>staff_email_by_id := fmupd (sfr_staff_id row) (sfr_email_key row) (staff_email_by_id i),
             staff_by_email := fmupd (sfr_email_key row)
               \<lparr>sf_staff_id = sfr_staff_id row, sf_display_name = sfr_display_name row, sf_role = sfr_role row,
                sf_phc = sfr_phc row, sf_totp_secret_b32 = sfr_totp_secret_base32 row,
                sf_last_totp_counter = sfr_last_totp_counter row\<rparr> (staff_by_email i)\<rparr>)"

definition load_staff_session :: "staff_env \<Rightarrow> int \<Rightarrow> staff_session_row \<Rightarrow> staff_inner \<Rightarrow> staff_inner" where
  "load_staff_session env now row i =
     (if \<not> session_live (ssr_issued_ms row) now (se_staff_ttl_ms env) then i
      else if ssr_token_sha256 row = [] then i
      else i\<lparr>staff_sessions := fmupd (ssr_token_sha256 row)
               \<lparr>ss_staff_id = ssr_staff_id row, ss_issued_ms = ssr_issued_ms row\<rparr> (staff_sessions i)\<rparr>)"

definition staff_from_snapshot :: "staff_env \<Rightarrow> int \<Rightarrow> staff_snapshot \<Rightarrow> staff_inner" where
  "staff_from_snapshot env now snap =
     fold (load_staff_session env now) (sfs_sessions snap) (fold load_staff_row (sfs_staff snap) staff_inner_default)"

definition staff_store_new :: staff_store where
  "staff_store_new = \<lparr>ts_inner = staff_inner_default, ts_audit = [], ts_file = None, ts_audit_file = None, ts_bootstrap_sha256 = None\<rparr>"

definition staff_with_state_dir :: "staff_env \<Rightarrow> int \<Rightarrow> staff_snapshot \<Rightarrow> audit_rec list \<Rightarrow> staff_store" where
  "staff_with_state_dir env now snap audit =
     \<lparr>ts_inner = staff_from_snapshot env now snap, ts_audit = audit, ts_file = Some snap, ts_audit_file = Some audit,
      ts_bootstrap_sha256 = None\<rparr>"

definition with_bootstrap_code :: "staff_env \<Rightarrow> staff_store \<Rightarrow> string \<Rightarrow> staff_store" where
  "with_bootstrap_code env st boot =
     (if trim boot \<noteq> [] then st\<lparr>ts_bootstrap_sha256 := Some (token_hash (se_accounts env) boot)\<rparr> else st)"

definition with_bootstrap_from_env :: "staff_env \<Rightarrow> staff_store \<Rightarrow> string option \<Rightarrow> staff_store" where
  "with_bootstrap_from_env env st var =
     (case var of Some boot \<Rightarrow> if trim boot \<noteq> [] then with_bootstrap_code env st (trim boot) else st | None \<Rightarrow> st)"

definition staff_persist :: "(staff_snapshot \<Rightarrow> bool) \<Rightarrow> staff_store \<Rightarrow> staff_store" where
  "staff_persist writes st =
     (case ts_file st of
        None \<Rightarrow> st
      | Some old \<Rightarrow> (let snap = staff_snapshot_of (ts_inner st) in if writes snap then st\<lparr>ts_file := Some snap\<rparr> else st))"

section \<open>Operations\<close>

definition identity_for_token :: "staff_env \<Rightarrow> staff_inner \<Rightarrow> int \<Rightarrow> string \<Rightarrow> (staff_error, string \<times> int) result" where
  "identity_for_token env i now token =
     (case fmlookup (staff_sessions i) (token_hash (se_accounts env) token) of
        None \<Rightarrow> Err StaffUnauthorized
      | Some entry \<Rightarrow>
          if \<not> session_live (ss_issued_ms entry) now (se_staff_ttl_ms env) then Err StaffUnauthorized
          else (case fmlookup (staff_email_by_id i) (ss_staff_id entry) of
                  None \<Rightarrow> Err StaffUnauthorized
                | Some email \<Rightarrow>
                    (case fmlookup (staff_by_email i) email of
                       None \<Rightarrow> Err StaffUnauthorized
                     | Some rec \<Rightarrow> Ok (sf_staff_id rec, sf_role rec))))"

definition authorize :: "staff_env \<Rightarrow> staff_store \<Rightarrow> int \<Rightarrow> string \<Rightarrow> staff_role list \<Rightarrow> (staff_error, staff_identity) result" where
  "authorize env st now token allowed =
     (case identity_for_token env (ts_inner st) now token of
        Inl e \<Rightarrow> Err e
      | Inr (staff_id, role) \<Rightarrow>
          if list_ex (\<lambda>r. role_number r = role) allowed then Ok \<lparr>id_staff_id = staff_id, id_role = role\<rparr> else Err Forbidden)"

definition otpauth_uri :: "string \<Rightarrow> string \<Rightarrow> string" where
  "otpauth_uri email_key secret_b32 =
     ''otpauth://totp/PH%20Bulwark%20Staff:'' @ concat (map (\<lambda>c. if c = CHR ''@'' then ''%40'' else [c]) email_key) @
     ''?secret='' @ secret_b32 @ ''&issuer=PH%20Bulwark%20Staff&algorithm=SHA1&digits=6&period=30''"

text \<open>Who may create an account, and with which role: actor, actor's role, role given.\<close>

definition creation_rights ::
    "staff_env \<Rightarrow> staff_store \<Rightarrow> int \<Rightarrow> string \<Rightarrow> string \<Rightarrow> int \<Rightarrow> (staff_error, string \<times> int \<times> int) result" where
  "creation_rights env st now admin_token boot role =
     (if staff_by_email (ts_inner st) = fmempty then
        (case ts_bootstrap_sha256 st of
           None \<Rightarrow> Err BootstrapLocked
         | Some expected \<Rightarrow>
             if token_hash (se_accounts env) boot \<noteq> expected then Err StaffUnauthorized
             else Ok (''bootstrap'', role_number Admin, role_number Admin))
      else
        (case identity_for_token env (ts_inner st) now admin_token of
           Inl e \<Rightarrow> Err e
         | Inr (admin_id, admin_role) \<Rightarrow>
             if admin_role \<noteq> role_number Admin then Err Forbidden
             else if \<not> (role_number Support \<le> role \<and> role \<le> role_number Admin) then Err (StaffValidation ''role is required'')
             else Ok (admin_id, admin_role, role)))"

definition insert_staff :: "string \<Rightarrow> string \<Rightarrow> staff_rec \<Rightarrow> staff_inner \<Rightarrow> staff_inner" where
  "insert_staff staff_id email_key rec i =
     i\<lparr>staff_email_by_id := fmupd staff_id email_key (staff_email_by_id i),
       staff_by_email := fmupd email_key rec (staff_by_email i)\<rparr>"

definition create_staff ::
    "staff_env \<Rightarrow> (staff_snapshot \<Rightarrow> bool) \<Rightarrow> (audit_rec list \<Rightarrow> bool) \<Rightarrow> staff_store \<Rightarrow> int \<Rightarrow> string \<Rightarrow> string \<Rightarrow> string \<Rightarrow> string \<Rightarrow>
     int \<Rightarrow> string \<Rightarrow> bytes option \<Rightarrow> bytes option \<Rightarrow> bytes \<Rightarrow> int \<Rightarrow>
     (staff_error, string \<times> string \<times> string) result \<times> staff_store" where
  "create_staff env writes audit_writes st now admin_token boot email password role display_name salt secret_draw id_draw ts =
     (let email_key = normalize_email email
      in if email_key = [] then (Err (StaffValidation ''email is required''), st)
         else if length password < 12 then (Err (StaffValidation ''staff password must be at least 12 characters''), st)
         else (case argon2_hash (se_accounts env) salt (as_bytes password) of
             Inl e \<Rightarrow> (Err StaffInternal, st)
           | Inr phc \<Rightarrow>
               (case secret_draw of
                  None \<Rightarrow> (Err StaffInternal, st)
                | Some secret \<Rightarrow>
                    (let secret_b32 = env_base32 (se_accounts env) secret; i = ts_inner st
                     in (case creation_rights env st now admin_token boot role of
                           Inl e \<Rightarrow> (Err e, st)
                         | Inr (actor_id, actor_role, effective_role) \<Rightarrow>
                             if email_key |\<in>| fmdom (staff_by_email i) then (Err StaffEmailExists, st)
                             else (let staff_id = hex id_draw;
                                       rec = \<lparr>sf_staff_id = staff_id, sf_display_name = trim display_name, sf_role = effective_role,
                                              sf_phc = phc, sf_totp_secret_b32 = secret_b32, sf_last_totp_counter = -1\<rparr>
                                   in (Ok (staff_id, secret_b32, otpauth_uri email_key secret_b32),
                                       staff_audit_append env audit_writes
                                         (staff_persist writes (st\<lparr>ts_inner := insert_staff staff_id email_key rec i\<rparr>)) ts
                                         actor_id actor_role ''staff.create'' staff_id (''role='' @ show_int effective_role))))))))"

definition staff_login_read ::
    "staff_env \<Rightarrow> staff_store \<Rightarrow> int \<Rightarrow> string \<Rightarrow> (staff_error, (string \<times> string \<times> int) option) result" where
  "staff_login_read env st now email_key =
     (if key_locked (staff_login_fails (ts_inner st)) email_key now (env_window_ms (se_accounts env)) (env_max_fails (se_accounts env))
      then Err StaffTooManyAttempts
      else Ok (map_option (\<lambda>r. (sf_phc r, sf_totp_secret_b32 r, sf_last_totp_counter r))
                 (fmlookup (staff_by_email (ts_inner st)) email_key)))"

definition staff_login_verify ::
    "staff_env \<Rightarrow> int \<Rightarrow> (string \<times> string \<times> int) option \<Rightarrow> string \<Rightarrow> string \<Rightarrow> int option" where
  "staff_login_verify env now snap password totp_code =
     (case snap of
        None \<Rightarrow> None
      | Some (phc, secret_b32, last_counter) \<Rightarrow>
          if env_argon2_verify (se_accounts env) phc (as_bytes password)
          then verify_totp env secret_b32 totp_code (trunc_div now 1000) last_counter else None)"

definition staff_login_commit ::
    "staff_env \<Rightarrow> (staff_snapshot \<Rightarrow> bool) \<Rightarrow> staff_store \<Rightarrow> int \<Rightarrow> string \<Rightarrow> int option \<Rightarrow> bytes \<Rightarrow>
     (staff_error, string \<times> string \<times> int \<times> int) result \<times> staff_store" where
  "staff_login_commit env writes st now email_key accepted token_draw =
     (let i = ts_inner st
      in (case accepted of
            None \<Rightarrow> (Err StaffBadCredentials, st\<lparr>ts_inner := i\<lparr>staff_login_fails :=
                      note_failure now (env_window_ms (se_accounts env)) email_key (staff_login_fails i)\<rparr>\<rparr>)
          | Some counter \<Rightarrow>
              (let i1 = i\<lparr>staff_login_fails := fmdrop email_key (staff_login_fails i)\<rparr>
               in (case fmlookup (staff_by_email i1) email_key of
                     None \<Rightarrow> (Err StaffBadCredentials, st\<lparr>ts_inner := i1\<rparr>)
                   | Some rec \<Rightarrow>
                       (let rec' = (if sf_last_totp_counter rec < counter then rec\<lparr>sf_last_totp_counter := counter\<rparr> else rec);
                            token = hex token_draw;
                            i2 = i1\<lparr>staff_by_email := fmupd email_key rec' (staff_by_email i1),
                                    staff_sessions := fmupd (token_hash (se_accounts env) token)
                                      \<lparr>ss_staff_id = sf_staff_id rec', ss_issued_ms = now\<rparr> (staff_sessions i1)\<rparr>
                        in (Ok (token, sf_staff_id rec', sf_role rec', now), staff_persist writes (st\<lparr>ts_inner := i2\<rparr>)))))))"

definition staff_login ::
    "staff_env \<Rightarrow> (staff_snapshot \<Rightarrow> bool) \<Rightarrow> (audit_rec list \<Rightarrow> bool) \<Rightarrow> staff_store \<Rightarrow> int \<Rightarrow> string \<Rightarrow> string \<Rightarrow> string \<Rightarrow> bytes \<Rightarrow> int \<Rightarrow>
     (staff_error, string \<times> string \<times> int \<times> int) result \<times> staff_store" where
  "staff_login env writes audit_writes st now email password totp_code token_draw ts =
     (let email_key = normalize_email email
      in (case staff_login_read env st now email_key of
            Inl e \<Rightarrow> (Err e, st)
          | Inr snap \<Rightarrow>
              (let (r, st1) = staff_login_commit env writes st now email_key (staff_login_verify env now snap password totp_code) token_draw
               in (case r of
                     Inl e \<Rightarrow> (Err e, st1)
                   | Inr (token, staff_id, role, issued) \<Rightarrow>
                       (Ok (token, staff_id, role, issued),
                        staff_audit_append env audit_writes st1 ts staff_id role ''staff.login'' [] ''sign-in ok'')))))"

section \<open>The audit chain\<close>

text \<open>
  A SHA-256 digest has 32 bytes. With that, verification is the walk of the shared contract,
  over the entries' canonical bytes and stored hashes.
\<close>

definition sha_32 :: "staff_env \<Rightarrow> bool" where
  "sha_32 env \<longleftrightarrow> (\<forall>x. length (env_sha256 (se_accounts env) x) = 32)"

definition staff_link :: "staff_env \<Rightarrow> string \<Rightarrow> bytes \<Rightarrow> string" where
  "staff_link env h c = hex (audit_link env (case from_hex_array 32 h of None \<Rightarrow> audit_genesis env | Some b \<Rightarrow> b) c)"

definition entries_of :: "audit_rec list \<Rightarrow> (bytes \<times> string) list" where
  "entries_of es = map (\<lambda>e. (audit_canonical e, au_entry_hash e)) es"

interpretation staff_chain: hash_chain "staff_link env" "hex (audit_genesis env)" "walk (staff_link env) (hex (audit_genesis env)) 0"
  for env
  by (rule walk_hash_chain)

lemma verify_entries_walk:
  assumes "sha_32 env" "length prev = 32"
  shows "verify_entries_from env prev es \<longleftrightarrow> walk (staff_link env) (hex prev) k (entries_of es) = None"
  using assms(2)
proof (induction es arbitrary: prev k)
  case (Cons e es)
  have "length (audit_link env prev (audit_canonical e)) = 32" using assms(1) by (simp add: sha_32_def audit_link_def)
  then show ?case using Cons.IH [of "audit_link env prev (audit_canonical e)" "Suc k"] Cons.prems
    by (auto simp: entries_of_def staff_link_def from_hex_array_hex Let_def)
qed (simp add: entries_of_def)

lemma verify_entries_chain:
  "sha_32 env \<Longrightarrow> verify_entries env es \<longleftrightarrow> walk (staff_link env) (hex (audit_genesis env)) 0 (entries_of es) = None"
  by (simp add: verify_entries_def verify_entries_walk audit_genesis_def sha_32_def)

lemma canonical_hash [simp]: "audit_canonical (e\<lparr>au_entry_hash := h\<rparr>) = audit_canonical e"
  by (simp add: audit_canonical_def)

lemma audit_append_entry:
  obtains e where "ts_audit (staff_audit_append env writes st ts sid role act target detail) = ts_audit st @ [e]"
    "au_staff_id e = sid" "au_role e = role" "au_action e = act" "au_target e = target" "au_detail e = detail" "au_ts e = ts"
    "au_seq e = (if ts_audit st = [] then 0 else au_seq (last (ts_audit st)) + 1)"
    "au_entry_hash e = hex (audit_link env (if ts_audit st = [] then audit_genesis env
       else (case from_hex_array 32 (au_entry_hash (last (ts_audit st))) of None \<Rightarrow> audit_genesis env | Some h \<Rightarrow> h)) (audit_canonical e))"
  by (rule that, simp add: staff_audit_append_def Let_def) (simp_all add: audit_canonical_def)

lemma audit_append_frames [simp]:
  "ts_inner (staff_audit_append env writes st ts sid role act target detail) = ts_inner st"
  "ts_bootstrap_sha256 (staff_audit_append env writes st ts sid role act target detail) = ts_bootstrap_sha256 st"
  by (simp_all add: staff_audit_append_def Let_def)

lemma staff_persist_frames [simp]:
  "ts_inner (staff_persist writes st) = ts_inner st" "ts_audit (staff_persist writes st) = ts_audit st"
  "ts_bootstrap_sha256 (staff_persist writes st) = ts_bootstrap_sha256 st"
  by (simp_all add: staff_persist_def Let_def split: option.split)

lemma staff_append_verifies:
  assumes "sha_32 env" "verify_entries env (ts_audit st)"
  shows "verify_entries env (ts_audit (staff_audit_append env writes st ts sid role act target detail))"
proof -
  let ?es = "ts_audit st"
  have 32: "length (audit_genesis env) = 32" using assms(1) by (simp add: audit_genesis_def sha_32_def)
  obtain e where e: "ts_audit (staff_audit_append env writes st ts sid role act target detail) = ?es @ [e]"
    "au_entry_hash e = hex (audit_link env (if ?es = [] then audit_genesis env
       else (case from_hex_array 32 (au_entry_hash (last ?es)) of None \<Rightarrow> audit_genesis env | Some h \<Rightarrow> h)) (audit_canonical e))"
    by (rule audit_append_entry)
  have "head_hash (hex (audit_genesis env)) (entries_of ?es) = (if ?es = [] then hex (audit_genesis env) else au_entry_hash (last ?es))"
    by (simp add: head_hash_def entries_of_def last_map)
  then have "au_entry_hash e = staff_link env (head_hash (hex (audit_genesis env)) (entries_of ?es)) (audit_canonical e)"
    using e(2) by (simp add: staff_link_def from_hex_array_hex 32)
  then show ?thesis
    using assms staff_chain.append_verifies [of env "entries_of ?es" "audit_canonical e"]
    by (simp add: verify_entries_chain e(1)) (simp add: entries_of_def)
qed

section \<open>Reachable stores\<close>

text \<open>
  Every interleaving of the critical sections: sign-ins commit with any code that was verified
  against any earlier snapshot, services append entries of their own. Staff ids are fresh.
\<close>

inductive staff_reach :: "staff_env \<Rightarrow> staff_store \<Rightarrow> bool" for env where
  new: "staff_reach env (with_bootstrap_from_env env staff_store_new var)"
| create: "staff_reach env st \<Longrightarrow> hex id_draw |\<notin>| fmdom (staff_email_by_id (ts_inner st)) \<Longrightarrow>
    staff_reach env (snd (create_staff env w aw st now tok boot email pw role nm salt secret id_draw ts))"
| commit: "staff_reach env st \<Longrightarrow> staff_reach env (snd (staff_login_commit env w st now key accepted draw))"
| audited: "staff_reach env st \<Longrightarrow> staff_reach env (staff_audit_append env aw st ts sid role act target detail)"

definition staff_ok :: "staff_env \<Rightarrow> staff_store \<Rightarrow> bool" where
  "staff_ok env st \<longleftrightarrow> verify_entries env (ts_audit st) \<and> map au_seq (ts_audit st) = [0..<length (ts_audit st)] \<and>
     (\<forall>k r. fmlookup (staff_by_email (ts_inner st)) k = Some r \<longrightarrow>
        fmlookup (staff_email_by_id (ts_inner st)) (sf_staff_id r) = Some k \<and> 1 \<le> sf_role r \<and> sf_role r \<le> 4)"

lemma create_staff_cases:
  obtains e where "create_staff env w aw st now tok boot email pw role nm salt secret id_draw ts = (Err e, st)"
  | rec actor arole where
    "create_staff env w aw st now tok boot email pw role nm salt secret id_draw ts =
       (Ok (hex id_draw, sf_totp_secret_b32 rec, otpauth_uri (normalize_email email) (sf_totp_secret_b32 rec)),
        staff_audit_append env aw (staff_persist w (st\<lparr>ts_inner := insert_staff (hex id_draw) (normalize_email email) rec (ts_inner st)\<rparr>))
          ts actor arole ''staff.create'' (hex id_draw) (''role='' @ show_int (sf_role rec)))"
    "creation_rights env st now tok boot role = Ok (actor, arole, sf_role rec)" "sf_staff_id rec = hex id_draw"
    "normalize_email email |\<notin>| fmdom (staff_by_email (ts_inner st))"
proof (cases "normalize_email email = [] \<or> length pw < 12")
  case True
  show thesis by (rule that(1) [of "if normalize_email email = [] then StaffValidation ''email is required''
      else StaffValidation ''staff password must be at least 12 characters''"]) (use True in \<open>auto simp: create_staff_def Let_def\<close>)
next
  case ok: False
  show thesis
  proof (cases "argon2_hash (se_accounts env) salt (as_bytes pw)")
    case (Inl e)
    show thesis by (rule that(1) [of StaffInternal]) (use ok Inl in \<open>simp add: create_staff_def\<close>)
  next
    case phc: (Inr phc)
    show thesis
    proof (cases secret)
      case None
      show thesis by (rule that(1) [of StaffInternal]) (use ok phc None in \<open>simp add: create_staff_def\<close>)
    next
      case sec: (Some sec)
      show thesis
      proof (cases "creation_rights env st now tok boot role")
        case (Inl e)
        show thesis by (rule that(1) [of e]) (use ok phc sec Inl in \<open>simp add: create_staff_def Let_def\<close>)
      next
        case rights: (Inr x)
        obtain actor arole erole where x: "x = (actor, arole, erole)" by (cases x) auto
        show thesis
        proof (cases "normalize_email email |\<in>| fmdom (staff_by_email (ts_inner st))")
          case True
          show thesis by (rule that(1) [of StaffEmailExists]) (use ok phc sec rights x True in \<open>simp add: create_staff_def Let_def\<close>)
        next
          case False
          let ?rec = "\<lparr>sf_staff_id = hex id_draw, sf_display_name = trim nm, sf_role = erole,
              sf_phc = phc, sf_totp_secret_b32 = env_base32 (se_accounts env) sec, sf_last_totp_counter = -1\<rparr>"
          show thesis
            by (rule that(2) [of ?rec actor arole]) (use ok phc sec rights x False in \<open>simp_all add: create_staff_def Let_def\<close>)
        qed
      qed
    qed
  qed
qed

lemma creation_rights_Ok:
  assumes "creation_rights env st now tok boot role = Ok (actor, arole, erole)"
  shows "arole = role_number Admin" "1 \<le> erole \<and> erole \<le> 4"
    "(staff_by_email (ts_inner st) = fmempty \<and> ts_bootstrap_sha256 st = Some (token_hash (se_accounts env) boot) \<and> erole = role_number Admin) \<or>
     (staff_by_email (ts_inner st) \<noteq> fmempty \<and> identity_for_token env (ts_inner st) now tok = Ok (actor, role_number Admin) \<and> erole = role)"
  using assms by (auto simp: creation_rights_def split: if_splits option.splits sum.splits)

lemma append_seqs:
  assumes "map au_seq es = [0..<length es]" "au_seq e = (if es = [] then 0 else au_seq (last es) + 1)"
  shows "map au_seq (es @ [e]) = [0..<length (es @ [e])]"
proof (cases es rule: rev_cases)
  case (snoc xs x)
  then have "au_seq x = length xs" using assms(1) by simp
  then show ?thesis using assms snoc by simp
qed (use assms in simp)

lemma audit_append_ok:
  assumes "sha_32 env" "staff_ok env st"
  shows "staff_ok env (staff_audit_append env aw st ts sid role act target detail)"
proof -
  obtain e where e: "ts_audit (staff_audit_append env aw st ts sid role act target detail) = ts_audit st @ [e]"
    "au_seq e = (if ts_audit st = [] then 0 else au_seq (last (ts_audit st)) + 1)" by (rule audit_append_entry)
  have "map au_seq (ts_audit st @ [e]) = [0..<length (ts_audit st @ [e])]"
    using assms(2) e(2) by (intro append_seqs) (simp_all add: staff_ok_def)
  then show ?thesis
    using assms staff_append_verifies [OF assms(1), of st aw ts sid role act target detail]
    by (simp add: staff_ok_def e(1))
qed

lemma login_commit_cases:
  obtains i' where "staff_login_commit env w st now key accepted draw = (Err StaffBadCredentials, st\<lparr>ts_inner := i'\<rparr>)"
      "staff_by_email i' = staff_by_email (ts_inner st)" "staff_email_by_id i' = staff_email_by_id (ts_inner st)"
      "staff_sessions i' = staff_sessions (ts_inner st)"
  | c rec i' where "accepted = Some c" "fmlookup (staff_by_email (ts_inner st)) key = Some rec"
      "staff_login_commit env w st now key accepted draw =
        (Ok (hex draw, sf_staff_id rec, sf_role rec, now), staff_persist w (st\<lparr>ts_inner := i'\<rparr>))"
      "staff_by_email i' = fmupd key (rec\<lparr>sf_last_totp_counter := max (sf_last_totp_counter rec) c\<rparr>) (staff_by_email (ts_inner st))"
      "staff_email_by_id i' = staff_email_by_id (ts_inner st)"
      "staff_sessions i' = fmupd (token_hash (se_accounts env) (hex draw)) \<lparr>ss_staff_id = sf_staff_id rec, ss_issued_ms = now\<rparr>
        (staff_sessions (ts_inner st))"
proof (cases accepted)
  case None
  show thesis
    by (rule that(1) [of "(ts_inner st)\<lparr>staff_login_fails :=
          note_failure now (env_window_ms (se_accounts env)) key (staff_login_fails (ts_inner st))\<rparr>"])
       (simp_all add: None staff_login_commit_def Let_def)
next
  case acc: (Some c)
  show thesis
  proof (cases "fmlookup (staff_by_email (ts_inner st)) key")
    case None
    show thesis
      by (rule that(1) [of "(ts_inner st)\<lparr>staff_login_fails := fmdrop key (staff_login_fails (ts_inner st))\<rparr>"])
         (simp_all add: acc None staff_login_commit_def Let_def)
  next
    case (Some rec)
    let ?i = "(ts_inner st)\<lparr>staff_login_fails := fmdrop key (staff_login_fails (ts_inner st)),
        staff_by_email := fmupd key (rec\<lparr>sf_last_totp_counter := max (sf_last_totp_counter rec) c\<rparr>) (staff_by_email (ts_inner st)),
        staff_sessions := fmupd (token_hash (se_accounts env) (hex draw)) \<lparr>ss_staff_id = sf_staff_id rec, ss_issued_ms = now\<rparr>
          (staff_sessions (ts_inner st))\<rparr>"
    show thesis by (rule that(2) [OF acc Some, of ?i]) (simp_all add: acc Some staff_login_commit_def Let_def max_def)
  qed
qed

lemma login_commit_ok:
  assumes "staff_ok env st"
  shows "staff_ok env (snd (staff_login_commit env w st now key accepted draw))"
  by (rule login_commit_cases [of env w st now key accepted draw]) (use assms in \<open>auto simp: staff_ok_def\<close>)

lemma create_staff_ok:
  assumes "sha_32 env" "staff_ok env st" "hex id_draw |\<notin>| fmdom (staff_email_by_id (ts_inner st))"
  shows "staff_ok env (snd (create_staff env w aw st now tok boot email pw role nm salt secret id_draw ts))"
proof (rule create_staff_cases [of env w aw st now tok boot email pw role nm salt secret id_draw ts])
  fix rec actor arole
  assume r: "creation_rights env st now tok boot role = Ok (actor, arole, sf_role rec)" and sid: "sf_staff_id rec = hex id_draw"
    and eq: "create_staff env w aw st now tok boot email pw role nm salt secret id_draw ts =
       (Ok (hex id_draw, sf_totp_secret_b32 rec, otpauth_uri (normalize_email email) (sf_totp_secret_b32 rec)),
        staff_audit_append env aw (staff_persist w (st\<lparr>ts_inner := insert_staff (hex id_draw) (normalize_email email) rec (ts_inner st)\<rparr>))
          ts actor arole ''staff.create'' (hex id_draw) (''role='' @ show_int (sf_role rec)))"
  have "fmlookup (fmupd (hex id_draw) (normalize_email email) (staff_email_by_id (ts_inner st))) (sf_staff_id r) = Some k \<and> 1 \<le> sf_role r \<and> sf_role r \<le> 4"
    if "fmlookup (fmupd (normalize_email email) rec (staff_by_email (ts_inner st))) k = Some r" for k r
  proof (cases "k = normalize_email email")
    case False
    then have "fmlookup (staff_email_by_id (ts_inner st)) (sf_staff_id r) = Some k \<and> 1 \<le> sf_role r \<and> sf_role r \<le> 4"
      using assms(2) that by (simp add: staff_ok_def)
    then show ?thesis using fmdom_notD [OF assms(3)] by auto
  qed (use that sid creation_rights_Ok(2) [OF r] in auto)
  then show ?thesis unfolding eq snd_conv
    using assms(2) by (intro audit_append_ok [OF assms(1)]) (simp add: staff_ok_def insert_staff_def)
qed (use assms(2) in simp)

lemma staff_reach_ok:
  assumes "staff_reach env st" "sha_32 env"
  shows "staff_ok env st"
  using assms(1)
proof (induction rule: staff_reach.induct)
  case (new var)
  show ?case
    by (simp add: with_bootstrap_from_env_def with_bootstrap_code_def staff_store_new_def staff_inner_default_def staff_ok_def
        verify_entries_def split: option.split)
qed (simp_all add: assms(2) create_staff_ok login_commit_ok audit_append_ok)

definition sample_staff_env :: staff_env where
  "sample_staff_env = \<lparr>se_accounts =
       \<lparr>env_sha256 = (\<lambda>x. take 32 (x @ replicate 32 0)), env_argon2_hash = (\<lambda>salt x. Some ''h''), env_argon2_verify = (\<lambda>phc x. True),
        env_pbkdf2_verify = (\<lambda>salt x h. False), env_base32 = hex, env_to_uppercase = id, env_disk_writes = (\<lambda>snap. True),
        env_session_ttl_ms = 1000, env_reset_ttl_ms = 500, env_max_fails = 2, env_window_ms = 100\<rparr>,
     se_hmac_sha1 = (\<lambda>k m. replicate 20 0), se_base32_decode = (\<lambda>s. Some []), se_staff_ttl_ms = 1000\<rparr>"

definition sample_staff_rec :: staff_rec where
  "sample_staff_rec = \<lparr>sf_staff_id = ''07'', sf_display_name = [], sf_role = 4, sf_phc = ''h'', sf_totp_secret_b32 = ''A'',
     sf_last_totp_counter = -1\<rparr>"

definition sample_staff :: staff_store where
  "sample_staff = staff_store_new\<lparr>ts_inner := insert_staff ''07'' ''a'' sample_staff_rec staff_inner_default\<rparr>"

lemma sample_sha_32: "sha_32 sample_staff_env"
  by (auto simp: sha_32_def sample_staff_env_def min_def)

lemma sample_staff_ok: "staff_ok sample_staff_env sample_staff"
  by (simp add: staff_ok_def sample_staff_def insert_staff_def staff_inner_default_def staff_store_new_def sample_staff_rec_def
      verify_entries_def)

lemma sample_totp: "verify_totp sample_staff_env ''A'' ''0'' 60 (-1) = Some 1"
proof -
  have "trim ''0'' = ''0''" by code_simp
  then have "parse_u32 (trim ''0'') = Some 0" by (simp add: parse_u32_def u32_max_def code_def)
  then show ?thesis by (simp add: verify_totp_def sample_staff_env_def totp_code_at_def trunc_div_def)
qed

text \<open>
  The staff audit log is tamper-evident at every moment: in every store that any
  interleaving of account creations, sign-ins and service calls produces, the log verifies and
  its entries are numbered from 0 without gaps; and overwriting one entry so that its bytes no
  longer hash to the hash stored in it makes verification fail.
\<close>

theorem staff_audit_verifies:
  assumes "staff_reach env st" "sha_32 env"
  shows "verify_entries env (ts_audit st) \<and> map au_seq (ts_audit st) = [0..<length (ts_audit st)] \<and>
    (\<forall>i e. i < length (ts_audit st) \<and> au_entry_hash e = au_entry_hash (ts_audit st ! i) \<and>
       staff_link env (prev_hash (hex (audit_genesis env)) (entries_of (ts_audit st)) i) (audit_canonical e) \<noteq> au_entry_hash e \<longrightarrow>
       \<not> verify_entries env ((ts_audit st)[i := e]))"
proof -
  have ok: "staff_ok env st" by (rule staff_reach_ok [OF assms])
  have "\<not> verify_entries env ((ts_audit st)[i := e])"
    if "i < length (ts_audit st)" "au_entry_hash e = au_entry_hash (ts_audit st ! i)"
      "staff_link env (prev_hash (hex (audit_genesis env)) (entries_of (ts_audit st)) i) (audit_canonical e) \<noteq> au_entry_hash e" for i e
  proof -
    have "entries_of ((ts_audit st)[i := e]) = (entries_of (ts_audit st))[i := (audit_canonical e, snd (entries_of (ts_audit st) ! i))]"
      using that(1,2) by (simp add: entries_of_def map_update)
    moreover have "walk (staff_link env) (hex (audit_genesis env)) 0 (entries_of (ts_audit st)) = None"
      using ok assms(2) by (simp add: staff_ok_def verify_entries_chain)
    ultimately show ?thesis
      using staff_chain.edit_reported [of env "entries_of (ts_audit st)" i "audit_canonical e"] that
      by (simp add: verify_entries_chain [OF assms(2)]) (simp add: entries_of_def)
  qed
  then show ?thesis using ok by (auto simp: staff_ok_def)
qed

theorem staff_audit_verifies_witness:
  "verify_entries sample_staff_env (ts_audit (staff_audit_append sample_staff_env (\<lambda>_. True)
     (with_bootstrap_from_env sample_staff_env staff_store_new None) 3 ''07'' 4 ''audit.query'' [] []))"
  using staff_audit_verifies [OF staff_reach.audited [OF staff_reach.new] sample_sha_32] by blast

section \<open>Who gets in\<close>

lemma verify_totp_Some:
  assumes "verify_totp env secret_b32 totp_code secs last_counter = Some c"
  shows "last_counter < c \<and> 0 \<le> c \<and> \<bar>c - trunc_div secs 30\<bar> \<le> 1 \<and>
    (\<exists>secret. se_base32_decode env secret_b32 = Some secret \<and> parse_u32 (trim totp_code) = Some (totp_code_at env secret c))"
  using assms by (auto simp: verify_totp_def Let_def split: option.splits if_splits)

text \<open>
  A staff session is issued only for the right password together with a fresh
  one-time code, and a code is good for one sign-in: a successful sign-in means that the
  email was not locked out, that the stored password hash accepts the password, and that the
  code is that of a time step within one of the clock and later than any step accepted
  before; the step is remembered, so the next accepted code for this account is of a strictly
  later step; and the returned token then identifies the account with its stored role.
\<close>

theorem staff_login_needs_password_and_fresh_code:
  assumes "staff_login env w aw st now email password totp_code draw ts = (Ok (token, sid, role, issued), st')"
    "staff_ok env st" "0 < se_staff_ttl_ms env" "is_i64 now" "trim (hex draw) = hex draw"
  shows "\<exists>rec c. fmlookup (staff_by_email (ts_inner st)) (normalize_email email) = Some rec \<and>
    \<not> key_locked (staff_login_fails (ts_inner st)) (normalize_email email) now (env_window_ms (se_accounts env)) (env_max_fails (se_accounts env)) \<and>
    env_argon2_verify (se_accounts env) (sf_phc rec) (as_bytes password) \<and>
    verify_totp env (sf_totp_secret_b32 rec) totp_code (trunc_div now 1000) (sf_last_totp_counter rec) = Some c \<and>
    sf_last_totp_counter rec < c \<and> \<bar>c - trunc_div (trunc_div now 1000) 30\<bar> \<le> 1 \<and>
    (\<forall>now' pw' code' snap c'. staff_login_read env st' now' (normalize_email email) = Ok snap \<and>
       staff_login_verify env now' snap pw' code' = Some c' \<longrightarrow> c < c') \<and>
    identity_for_token env (ts_inner st') now token = Ok (sid, role) \<and> sid = sf_staff_id rec \<and> role = sf_role rec"
proof -
  let ?k = "normalize_email email"
  obtain snap where snap: "staff_login_read env st now ?k = Ok snap"
    and commit: "\<exists>st1. staff_login_commit env w st now ?k (staff_login_verify env now snap password totp_code) draw = (Ok (token, sid, role, issued), st1)
      \<and> st' = staff_audit_append env aw st1 ts sid role ''staff.login'' [] ''sign-in ok''"
    using assms(1) by (auto simp: staff_login_def Let_def split: sum.splits prod.splits)
  then obtain st1 where st1: "staff_login_commit env w st now ?k (staff_login_verify env now snap password totp_code) draw = (Ok (token, sid, role, issued), st1)"
    and st': "st' = staff_audit_append env aw st1 ts sid role ''staff.login'' [] ''sign-in ok''" by blast
  obtain c rec i' where c: "staff_login_verify env now snap password totp_code = Some c"
    and rec: "fmlookup (staff_by_email (ts_inner st)) ?k = Some rec"
    and out: "token = hex draw" "sid = sf_staff_id rec" "role = sf_role rec" "ts_inner st1 = i'"
    and i': "staff_by_email i' = fmupd ?k (rec\<lparr>sf_last_totp_counter := max (sf_last_totp_counter rec) c\<rparr>) (staff_by_email (ts_inner st))"
      "staff_email_by_id i' = staff_email_by_id (ts_inner st)"
      "staff_sessions i' = fmupd (token_hash (se_accounts env) (hex draw)) \<lparr>ss_staff_id = sf_staff_id rec, ss_issued_ms = now\<rparr> (staff_sessions (ts_inner st))"
    by (rule login_commit_cases [of env w st now ?k "staff_login_verify env now snap password totp_code" draw]) (use st1 in auto)
  have s: "snap = Some (sf_phc rec, sf_totp_secret_b32 rec, sf_last_totp_counter rec)"
    and unlocked: "\<not> key_locked (staff_login_fails (ts_inner st)) ?k now (env_window_ms (se_accounts env)) (env_max_fails (se_accounts env))"
    using snap rec by (auto simp: staff_login_read_def split: if_splits)
  have v: "env_argon2_verify (se_accounts env) (sf_phc rec) (as_bytes password)"
    "verify_totp env (sf_totp_secret_b32 rec) totp_code (trunc_div now 1000) (sf_last_totp_counter rec) = Some c"
    using c by (auto simp: s staff_login_verify_def split: if_splits)
  note fresh = verify_totp_Some [OF v(2)]
  have "c < c'" if "staff_login_read env st' now' ?k = Ok snap'" "staff_login_verify env now' snap' pw' code' = Some c'" for now' snap' pw' code' c'
  proof -
    have "snap' = Some (sf_phc rec, sf_totp_secret_b32 rec, max (sf_last_totp_counter rec) c)"
      using that(1) by (auto simp: staff_login_read_def st' out(4) i' split: if_splits)
    then have "verify_totp env (sf_totp_secret_b32 rec) code' (trunc_div now' 1000) (max (sf_last_totp_counter rec) c) = Some c'"
      using that(2) by (auto simp: staff_login_verify_def split: if_splits)
    from verify_totp_Some [OF this] show ?thesis by simp
  qed
  moreover have "session_live now now (se_staff_ttl_ms env)"
    using assms(3,4) by (simp add: session_live_def i64_saturating_sub_def i64_sat_def i64_min_def i64_max_def)
  moreover have "fmlookup (staff_email_by_id (ts_inner st)) (sf_staff_id rec) = Some ?k"
    using assms(2) rec by (simp add: staff_ok_def)
  ultimately show ?thesis
    using rec unlocked v fresh out by (intro exI [of _ rec] exI [of _ c]) (auto simp: identity_for_token_def st' i')
qed

theorem staff_login_needs_password_and_fresh_code_witness:
  "\<exists>rec c. fmlookup (staff_by_email (ts_inner sample_staff)) ''a'' = Some rec \<and> sf_last_totp_counter rec < c"
proof -
  have a: "normalize_email '' A '' = ''a''" by code_simp
  have t: "trim (hex [5]) = hex [5]" by code_simp
  have "staff_login_read sample_staff_env sample_staff 60000 ''a'' = Ok (Some (''h'', ''A'', -1))"
    by (simp add: staff_login_read_def sample_staff_def staff_store_new_def insert_staff_def staff_inner_default_def sample_staff_rec_def
        key_locked_def)
  moreover have "staff_login_verify sample_staff_env 60000 (Some (''h'', ''A'', -1)) ''pw'' ''0'' = Some 1"
    using sample_totp by (simp add: staff_login_verify_def trunc_div_def) (simp add: sample_staff_env_def)
  moreover obtain st1 where "staff_login_commit sample_staff_env (\<lambda>_. True) sample_staff 60000 ''a'' (Some 1) [5] = (Ok (hex [5], ''07'', 4, 60000), st1)"
    by (auto simp: staff_login_commit_def sample_staff_def staff_store_new_def insert_staff_def staff_inner_default_def sample_staff_rec_def Let_def)
  ultimately have "\<exists>st'. staff_login sample_staff_env (\<lambda>_. True) (\<lambda>_. True) sample_staff 60000 '' A '' ''pw'' ''0'' [5] 9 =
      (Ok (hex [5], ''07'', 4, 60000), st')"
    by (simp add: staff_login_def a)
  then obtain st' where st': "staff_login sample_staff_env (\<lambda>_. True) (\<lambda>_. True) sample_staff 60000 '' A '' ''pw'' ''0'' [5] 9 =
      (Ok (hex [5], ''07'', 4, 60000), st')" ..
  have "0 < se_staff_ttl_ms sample_staff_env" "is_i64 60000" by (simp_all add: sample_staff_env_def is_i64_def i64_min_def i64_max_def)
  from staff_login_needs_password_and_fresh_code [OF st' sample_staff_ok this t] show ?thesis unfolding a by blast
qed

text \<open>
  The code is checked against a snapshot and not checked again when the session is issued: two
  sign-ins that both verified one code before either of them committed both get a session.
\<close>

lemma totp_code_race:
  assumes "fmlookup (staff_by_email (ts_inner st)) key = Some rec"
  shows "\<exists>t1 t2. fst (staff_login_commit env w st now key (Some c) d1) = Ok t1 \<and>
    fst (staff_login_commit env w (snd (staff_login_commit env w st now key (Some c) d1)) now' key (Some c) d2) = Ok t2"
  using assms by (auto simp: staff_login_commit_def Let_def)

text \<open>
  Only two things make a staff account: the operator's bootstrap code, while there is no
  staff account at all, which makes an administrator; and a live administrator session, which
  chooses one of the four roles. Either way the creation is recorded in the audit log, the other
  accounts stay as they are, and from then on the bootstrap code opens nothing.
\<close>

theorem staff_created_by_bootstrap_or_admin:
  assumes "create_staff env w aw st now tok boot email pw role nm salt secret id_draw ts = (Ok (sid, sec, uri), st')"
  shows "((staff_by_email (ts_inner st) = fmempty \<and> ts_bootstrap_sha256 st = Some (token_hash (se_accounts env) boot)) \<or>
      (\<exists>admin. identity_for_token env (ts_inner st) now tok = Ok (admin, role_number Admin))) \<and>
    (\<exists>rec. staff_by_email (ts_inner st') = fmupd (normalize_email email) rec (staff_by_email (ts_inner st)) \<and>
       normalize_email email |\<notin>| fmdom (staff_by_email (ts_inner st)) \<and> sf_staff_id rec = sid \<and> 1 \<le> sf_role rec \<and> sf_role rec \<le> 4 \<and>
       (staff_by_email (ts_inner st) = fmempty \<longrightarrow> sf_role rec = role_number Admin) \<and>
       (\<exists>e. ts_audit st' = ts_audit st @ [e] \<and> au_action e = ''staff.create'' \<and> au_target e = sid)) \<and>
    (\<forall>boot' tok' now' role'. (\<nexists>admin. identity_for_token env (ts_inner st') now' tok' = Ok (admin, role_number Admin)) \<longrightarrow>
       (\<exists>e. creation_rights env st' now' tok' boot' role' = Err e))"
proof (rule create_staff_cases [of env w aw st now tok boot email pw role nm salt secret id_draw ts])
  fix rec actor arole
  define st0 where "st0 = staff_persist w (st\<lparr>ts_inner := insert_staff (hex id_draw) (normalize_email email) rec (ts_inner st)\<rparr>)"
  assume r: "creation_rights env st now tok boot role = Ok (actor, arole, sf_role rec)" and rec: "sf_staff_id rec = hex id_draw"
    and new: "normalize_email email |\<notin>| fmdom (staff_by_email (ts_inner st))"
    and eq: "create_staff env w aw st now tok boot email pw role nm salt secret id_draw ts =
       (Ok (hex id_draw, sf_totp_secret_b32 rec, otpauth_uri (normalize_email email) (sf_totp_secret_b32 rec)),
        staff_audit_append env aw (staff_persist w (st\<lparr>ts_inner := insert_staff (hex id_draw) (normalize_email email) rec (ts_inner st)\<rparr>))
          ts actor arole ''staff.create'' (hex id_draw) (''role='' @ show_int (sf_role rec)))"
  have "st' = staff_audit_append env aw st0 ts actor arole ''staff.create'' (hex id_draw) (''role='' @ show_int (sf_role rec)) \<and> sid = hex id_draw"
    using trans [OF assms [symmetric] eq] unfolding st0_def prod.inject sum.inject by metis
  then have st': "st' = staff_audit_append env aw st0 ts actor arole ''staff.create'' (hex id_draw) (''role='' @ show_int (sf_role rec))"
    and sid: "sid = hex id_draw" by blast+
  obtain e where e: "ts_audit st' = ts_audit st0 @ [e]" "au_action e = ''staff.create''" "au_target e = hex id_draw"
    unfolding st' by (rule audit_append_entry)
  have by_email: "staff_by_email (ts_inner st') = fmupd (normalize_email email) rec (staff_by_email (ts_inner st))"
    "ts_audit st0 = ts_audit st" by (simp_all add: st' st0_def insert_staff_def)
  have ne: "fmupd k x m \<noteq> fmempty" for k x and m :: "(string, staff_rec) fmap"
    by (metis fmupd_lookup fmempty_lookup option.distinct(1))
  have "\<exists>e. creation_rights env st' now' tok' boot' role' = Err e"
    if "\<nexists>admin. identity_for_token env (ts_inner st') now' tok' = Ok (admin, role_number Admin)" for boot' tok' now' role'
    using that by (auto simp: creation_rights_def by_email ne split: sum.splits)
  moreover note creation_rights_Ok [OF r]
  ultimately show ?thesis using new e rec sid by_email by auto
qed (use assms in simp)

theorem staff_created_by_bootstrap_or_admin_witness:
  "\<exists>e. creation_rights sample_staff_env (snd (create_staff sample_staff_env (\<lambda>_. True) (\<lambda>_. True)
     (with_bootstrap_code sample_staff_env staff_store_new ''boot'') 5 [] ''boot'' ''b'' ''long password'' 0 [] (Some [1]) (Some [2]) [8] 6))
     7 [] ''boot'' 4 = Err e"
proof -
  let ?st = "with_bootstrap_code sample_staff_env staff_store_new ''boot''"
  have b: "normalize_email ''b'' = ''b''" "trim ''boot'' = ''boot''" by code_simp+
  have "creation_rights sample_staff_env ?st 5 [] ''boot'' 0 = Ok (''bootstrap'', 4, 4)"
    using b by (simp add: creation_rights_def with_bootstrap_code_def staff_store_new_def staff_inner_default_def)
  moreover have "argon2_hash (se_accounts sample_staff_env) (Some [1]) (as_bytes ''long password'') \<noteq> Inl e" for e
    by (simp add: argon2_hash_def sample_staff_env_def)
  moreover have "staff_by_email (ts_inner ?st) = fmempty" by (simp add: with_bootstrap_code_def staff_store_new_def staff_inner_default_def)
  ultimately obtain sid sec uri st' where *: "create_staff sample_staff_env (\<lambda>_. True) (\<lambda>_. True) ?st 5 [] ''boot'' ''b'' ''long password'' 0 []
      (Some [1]) (Some [2]) [8] 6 = (Ok (sid, sec, uri), st')"
    by (cases "argon2_hash (se_accounts sample_staff_env) (Some [1]) (as_bytes ''long password'')")
       (auto simp: create_staff_def b Let_def)
  have "staff_sessions (ts_inner st') = fmempty"
    using * by (auto simp: create_staff_def insert_staff_def with_bootstrap_code_def staff_store_new_def staff_inner_default_def Let_def
        split: sum.splits if_splits)
  then have "\<nexists>admin. identity_for_token sample_staff_env (ts_inner st') 7 [] = Ok (admin, role_number Admin)"
    by (simp add: identity_for_token_def)
  with staff_created_by_bootstrap_or_admin [OF *] show ?thesis by (simp add: *)
qed

end
