(* ===== verification/SafetyCases.thy ===== *)
theory SafetyCases
  imports Accounts "HOL-Library.Product_Lexorder"
begin

text \<open>
  The queue of safety cases, \<open>bulwark-server/src/safety_cases.rs\<close>: the workflow of a report to
  NCMEC as a state machine over content-free records. The clock, the random draw for a case id
  (\<^const>\<open>None\<close> when the generator fails), Unicode lower-casing and the disk are parameters.
\<close>

section \<open>Definitions\<close>

datatype safety_state = ScUnspecified | Opened | UnderReview | ReportedNcmec | LawEnforcement | Closed | Rejected

fun state_number :: "safety_state \<Rightarrow> int" where
  "state_number ScUnspecified = 0"
| "state_number Opened = 1"
| "state_number UnderReview = 2"
| "state_number ReportedNcmec = 3"
| "state_number LawEnforcement = 4"
| "state_number Closed = 5"
| "state_number Rejected = 6"

definition state_of :: "int \<Rightarrow> safety_state option" where
  "state_of n = find (\<lambda>s. state_number s = n)
     [ScUnspecified, Opened, UnderReview, ReportedNcmec, LawEnforcement, Closed, Rejected]"

datatype safety_error = CaseValidation string | CaseNotFound | InvalidTransition | CaseInternal

definition is_valid_transition :: "safety_state \<Rightarrow> safety_state \<Rightarrow> bool" where
  "is_valid_transition from to \<longleftrightarrow> (from, to) \<in>
     {(Opened, UnderReview), (Opened, Rejected), (UnderReview, ReportedNcmec), (UnderReview, Rejected),
      (ReportedNcmec, LawEnforcement), (ReportedNcmec, Closed), (LawEnforcement, Closed)}"

text \<open>\<open>chars().take(n)\<close> on UTF-8: a character starts at every byte that is no continuation byte.\<close>

fun take_chars :: "nat \<Rightarrow> string \<Rightarrow> string" where
  "take_chars n [] = []"
| "take_chars n (c # cs) =
     (if 128 \<le> code c \<and> code c < 192 then c # take_chars n cs
      else (case n of 0 \<Rightarrow> [] | Suc m \<Rightarrow> c # take_chars m cs))"

definition jurisdiction_max_len :: nat where
  "jurisdiction_max_len = 16"

definition normalize_jurisdiction :: "(string \<Rightarrow> string) \<Rightarrow> string \<Rightarrow> string" where
  "normalize_jurisdiction lower jurisdiction = take_chars jurisdiction_max_len (lower (trim jurisdiction))"

record case_rec =
  cs_case_id :: string
  cs_sha256_hex :: string
  cs_phash_hex :: string
  cs_category :: int
  cs_jurisdiction :: string
  cs_state :: int
  cs_ncmec_reference :: string
  cs_opened_ts :: int
  cs_updated_ts :: int

record safety_case =
  sc_case_id :: string
  sc_sha256 :: bytes
  sc_perceptual_hash :: bytes
  sc_category :: int
  sc_jurisdiction :: string
  sc_state :: int
  sc_ncmec_reference :: string
  sc_opened_ts :: int
  sc_updated_ts :: int

fun hex_pairs :: "string \<Rightarrow> bytes option" where
  "hex_pairs (a # b # rest) =
     (case (hex_digit_val a, hex_digit_val b, hex_pairs rest) of
        (Some h, Some l, Some out) \<Rightarrow> Some (word_of_nat (h * 16 + l) # out)
      | _ \<Rightarrow> None)"
| "hex_pairs _ = Some []"

definition hex_to_bytes :: "string \<Rightarrow> bytes" where
  "hex_to_bytes s = (if odd (length s) then [] else (case hex_pairs s of None \<Rightarrow> [] | Some out \<Rightarrow> out))"

definition case_to_proto :: "case_rec \<Rightarrow> safety_case" where
  "case_to_proto c = \<lparr>sc_case_id = cs_case_id c, sc_sha256 = hex_to_bytes (cs_sha256_hex c),
     sc_perceptual_hash = hex_to_bytes (cs_phash_hex c), sc_category = cs_category c,
     sc_jurisdiction = cs_jurisdiction c, sc_state = cs_state c, sc_ncmec_reference = cs_ncmec_reference c,
     sc_opened_ts = cs_opened_ts c, sc_updated_ts = cs_updated_ts c\<rparr>"

record case_store =
  cst_by_id :: "(string, case_rec) fmap"
  cst_file :: "case_rec list option"

definition case_store_new :: case_store where
  "case_store_new = \<lparr>cst_by_id = fmempty, cst_file = None\<rparr>"

definition case_store_load :: "case_rec list \<Rightarrow> case_store" where
  "case_store_load rows = \<lparr>cst_by_id = fold (\<lambda>row. fmupd (cs_case_id row) row) rows fmempty, cst_file = Some rows\<rparr>"

definition case_persist :: "(case_rec list \<Rightarrow> bool) \<Rightarrow> case_store \<Rightarrow> case_store" where
  "case_persist writes st =
     (case cst_file st of
        None \<Rightarrow> st
      | Some old \<Rightarrow>
          (let cases = sort_key cs_case_id (map snd (sorted_list_of_fmap (cst_by_id st)))
           in if writes cases then st\<lparr>cst_file := Some cases\<rparr> else st))"

definition open_case ::
    "(string \<Rightarrow> string) \<Rightarrow> (case_rec list \<Rightarrow> bool) \<Rightarrow> case_store \<Rightarrow> int \<Rightarrow> bytes option \<Rightarrow>
     bytes \<Rightarrow> bytes \<Rightarrow> int \<Rightarrow> string \<Rightarrow> (safety_error, safety_case) result \<times> case_store" where
  "open_case lower writes st now id_draw sha256 perceptual_hash category jurisdiction =
     (if sha256 = [] then (Err (CaseValidation ''content sha256 is required''), st)
      else (case id_draw of
              None \<Rightarrow> (Err CaseInternal, st)
            | Some draw \<Rightarrow>
                (let case_id = hex draw;
                     rec = \<lparr>cs_case_id = case_id, cs_sha256_hex = hex sha256, cs_phash_hex = hex perceptual_hash,
                            cs_category = category, cs_jurisdiction = normalize_jurisdiction lower jurisdiction,
                            cs_state = state_number Opened, cs_ncmec_reference = [], cs_opened_ts = now, cs_updated_ts = now\<rparr>
                 in (Ok (case_to_proto rec), case_persist writes (st\<lparr>cst_by_id := fmupd case_id rec (cst_by_id st)\<rparr>)))))"

definition list_cases :: "case_store \<Rightarrow> int \<Rightarrow> safety_case list" where
  "list_cases st state_filter =
     map case_to_proto (sort_key (\<lambda>c. (- cs_opened_ts c, cs_case_id c))
       (filter (\<lambda>c. state_filter = state_number ScUnspecified \<or> cs_state c = state_filter)
         (map snd (sorted_list_of_fmap (cst_by_id st)))))"

definition get_case :: "case_store \<Rightarrow> string \<Rightarrow> (safety_error, safety_case) result" where
  "get_case st case_id =
     (case fmlookup (cst_by_id st) (trim case_id) of None \<Rightarrow> Err CaseNotFound | Some c \<Rightarrow> Ok (case_to_proto c))"

definition transition ::
    "(case_rec list \<Rightarrow> bool) \<Rightarrow> case_store \<Rightarrow> int \<Rightarrow> string \<Rightarrow> int \<Rightarrow> string \<Rightarrow>
     (safety_error, safety_case) result \<times> case_store" where
  "transition writes st now case_id new_state ncmec_reference =
     (case state_of new_state of
        None \<Rightarrow> (Err InvalidTransition, st)
      | Some to \<Rightarrow>
          (case fmlookup (cst_by_id st) (trim case_id) of
             None \<Rightarrow> (Err CaseNotFound, st)
           | Some rec \<Rightarrow>
               (case state_of (cs_state rec) of
                  None \<Rightarrow> (Err InvalidTransition, st)
                | Some from \<Rightarrow>
                    if \<not> is_valid_transition from to then (Err InvalidTransition, st)
                    else if to = ReportedNcmec \<and> trim ncmec_reference = [] then
                      (Err (CaseValidation ''ncmec_reference is required to report a case to NCMEC''), st)
                    else (let rec' = rec\<lparr>cs_state := new_state,
                                cs_ncmec_reference := (if to = ReportedNcmec then trim ncmec_reference else cs_ncmec_reference rec),
                                cs_updated_ts := now\<rparr>
                          in (Ok (case_to_proto rec'),
                              case_persist writes (st\<lparr>cst_by_id := fmupd (trim case_id) rec' (cst_by_id st)\<rparr>))))))"

section \<open>Workflow\<close>

text \<open>
  Every store that operations can produce, with fresh random case ids. The index carries, for
  each case, the states it went through.
\<close>

inductive case_run ::
    "(string \<Rightarrow> string) \<Rightarrow> (case_rec list \<Rightarrow> bool) \<Rightarrow> case_store \<Rightarrow> (string \<Rightarrow> safety_state list) \<Rightarrow> bool"
  for lower writes where
  new: "case_run lower writes case_store_new (\<lambda>_. [])"
| durable: "case_run lower writes (case_store_load []) (\<lambda>_. [])"
| opened: "case_run lower writes st hist \<Longrightarrow> hex draw |\<notin>| fmdom (cst_by_id st) \<Longrightarrow> sha \<noteq> [] \<Longrightarrow>
    case_run lower writes (snd (open_case lower writes st now (Some draw) sha ph cat jur)) (hist(hex draw := [Opened]))"
| moved: "case_run lower writes st hist \<Longrightarrow> transition writes st now i n ref = (Ok m, st') \<Longrightarrow> state_of n = Some to \<Longrightarrow>
    case_run lower writes st' (hist(trim i := hist (trim i) @ [to]))"

definition reported :: "safety_state \<Rightarrow> bool" where
  "reported s \<longleftrightarrow> s \<in> {ReportedNcmec, LawEnforcement, Closed}"

definition case_ok :: "string \<Rightarrow> case_rec \<Rightarrow> safety_state list \<Rightarrow> bool" where
  "case_ok k c h \<longleftrightarrow> cs_case_id c = k \<and> h \<noteq> [] \<and> hd h = Opened \<and> successively is_valid_transition h \<and>
     cs_state c = state_number (last h) \<and> (cs_ncmec_reference c \<noteq> [] \<longleftrightarrow> reported (last h)) \<and>
     (reported (last h) \<longrightarrow> ReportedNcmec \<in> set h)"

lemma state_of_number [simp]: "state_of (state_number s) = Some s"
  by (cases s) (simp_all add: state_of_def)

lemma state_of_Some: "state_of n = Some s \<Longrightarrow> state_number s = n"
  unfolding state_of_def by (drule find_SomeD) simp

lemma case_persist_by_id [simp]: "cst_by_id (case_persist writes st) = cst_by_id st"
  by (simp add: case_persist_def Let_def split: option.split)

lemma transition_Ok:
  assumes "transition writes st now i n ref = (Ok m, st')" "state_of n = Some to"
  obtains rec src where "fmlookup (cst_by_id st) (trim i) = Some rec" "state_of (cs_state rec) = Some src"
    "is_valid_transition src to" "to = ReportedNcmec \<longrightarrow> trim ref \<noteq> []"
    "cst_by_id st' = fmupd (trim i) (rec\<lparr>cs_state := n,
       cs_ncmec_reference := (if to = ReportedNcmec then trim ref else cs_ncmec_reference rec), cs_updated_ts := now\<rparr>) (cst_by_id st)"
    "m = case_to_proto (rec\<lparr>cs_state := n,
       cs_ncmec_reference := (if to = ReportedNcmec then trim ref else cs_ncmec_reference rec), cs_updated_ts := now\<rparr>)"
  using assms that by (auto simp: transition_def Let_def split: option.splits if_splits)

lemma case_step_ok:
  assumes "case_ok k c h" "state_of (cs_state c) = Some src" "is_valid_transition src to" "state_number to = n"
    "to = ReportedNcmec \<longrightarrow> r \<noteq> []"
  shows "case_ok k (c\<lparr>cs_state := n, cs_ncmec_reference := (if to = ReportedNcmec then r else cs_ncmec_reference c),
    cs_updated_ts := now\<rparr>) (h @ [to])"
proof -
  have src: "src = last h" using assms(1,2) by (simp add: case_ok_def)
  have "successively is_valid_transition (h @ [to])"
    using assms(1,3) src by (simp add: case_ok_def successively_append_iff)
  then show ?thesis using assms src by (auto simp: case_ok_def is_valid_transition_def reported_def)
qed

lemma case_run_ok: "case_run lower writes st hist \<Longrightarrow> fmlookup (cst_by_id st) k = Some c \<Longrightarrow> case_ok k c (hist k)"
proof (induction arbitrary: k c rule: case_run.induct)
  case (opened st hist draw sha now ph cat jur)
  then show ?case
    by (auto simp: open_case_def Let_def case_ok_def reported_def split: if_splits)
next
  case (moved st hist now i n ref m st' to)
  from moved.hyps(2,3) obtain rec src where *: "fmlookup (cst_by_id st) (trim i) = Some rec" "state_of (cs_state rec) = Some src"
    "is_valid_transition src to" "to = ReportedNcmec \<longrightarrow> trim ref \<noteq> []"
    "cst_by_id st' = fmupd (trim i) (rec\<lparr>cs_state := n,
       cs_ncmec_reference := (if to = ReportedNcmec then trim ref else cs_ncmec_reference rec), cs_updated_ts := now\<rparr>) (cst_by_id st)"
    by (rule transition_Ok)
  show ?case
  proof (cases "k = trim i")
    case True
    have "case_ok (trim i) rec (hist (trim i))" using moved.IH *(1) by blast
    from case_step_ok [OF this *(2,3) state_of_Some [OF moved.hyps(3)] *(4)] show ?thesis
      using moved.prems True by (auto simp: *(5))
  qed (use moved *(5) in simp)
qed (simp_all add: case_store_new_def case_store_load_def)

text \<open>
  Claim C30. The legal workflow is followed: whatever calls were made in whatever order, the
  states a stored case went through form a path of the workflow graph from \<open>OPENED\<close> to its
  present state, so no step is skipped and a closed or rejected case never moves again; the
  case has an NCMEC reference exactly when it has been reported, handed on or closed after
  that, and a case that reached those states was reported on the way.
\<close>

theorem safety_case_workflow:
  assumes "case_run lower writes st hist" "fmlookup (cst_by_id st) k = Some c"
  shows "hd (hist k) = Opened \<and> successively is_valid_transition (hist k) \<and> cs_state c = state_number (last (hist k)) \<and>
    (last (hist k) \<in> {Closed, Rejected} \<longrightarrow> (\<forall>i now n ref. trim i = k \<longrightarrow>
        (\<exists>e. transition writes st now i n ref = (Err e, st)))) \<and>
    (cs_ncmec_reference c \<noteq> [] \<longleftrightarrow> last (hist k) \<in> {ReportedNcmec, LawEnforcement, Closed}) \<and>
    (last (hist k) \<in> {ReportedNcmec, LawEnforcement, Closed} \<longrightarrow> ReportedNcmec \<in> set (hist k))"
proof -
  have ok: "case_ok k c (hist k)" using case_run_ok [OF assms] .
  have "\<not> is_valid_transition s to" if "s \<in> {Closed, Rejected}" for s to using that by (auto simp: is_valid_transition_def)
  then have "\<exists>e. transition writes st now i n ref = (Err e, st)"
    if "last (hist k) \<in> {Closed, Rejected}" "trim i = k" for i now n ref
    using that ok assms(2) by (auto simp: transition_def case_ok_def split: option.split)
  then show ?thesis using ok by (simp add: case_ok_def reported_def)
qed

definition sample_cases :: case_store where
  "sample_cases = snd (transition (\<lambda>_. True) (snd (open_case id (\<lambda>_. True) case_store_new 5 (Some [1]) [9] [] 6 ''uk''))
     7 ''01'' 6 [])"

theorem safety_case_workflow_witness:
  "\<exists>e. transition (\<lambda>_. True) sample_cases 9 ''01'' 2 [] = (Err e, sample_cases)"
proof -
  let ?st = "snd (open_case id (\<lambda>_. True) case_store_new 5 (Some [1]) [9] [] 6 ''uk'')"
  have 1: "case_run id (\<lambda>_. True) ?st ((\<lambda>_. [])(hex [1] := [Opened]))"
    by (rule case_run.opened [OF case_run.new]) (simp_all add: case_store_new_def)
  have "\<exists>m. transition (\<lambda>_. True) ?st 7 ''01'' 6 [] = (Ok m, sample_cases)"
    unfolding sample_cases_def by (rule exI [of _ "case_to_proto \<lparr>cs_case_id = ''01'', cs_sha256_hex = ''09'', cs_phash_hex = [],
      cs_category = 6, cs_jurisdiction = ''uk'', cs_state = 6, cs_ncmec_reference = [], cs_opened_ts = 5, cs_updated_ts = 7\<rparr>"]) code_simp
  then obtain m where m: "transition (\<lambda>_. True) ?st 7 ''01'' 6 [] = (Ok m, sample_cases)" ..
  have run: "case_run id (\<lambda>_. True) sample_cases
      (((\<lambda>_. [])(hex [1] := [Opened]))(trim ''01'' := ((\<lambda>_. [])(hex [1] := [Opened])) (trim ''01'') @ [Rejected]))"
    by (rule case_run.moved [OF 1 m]) code_simp
  have "fmlookup (cst_by_id sample_cases) ''01'' \<noteq> None" "trim ''01'' = ''01''" by code_simp+
  then show ?thesis using safety_case_workflow [OF run, of "''01''"] by auto
qed

end
