(* ===== verification/Cluster.thy ===== *)
theory Cluster
  imports Throttle StrOps "HOL-Library.Multiset"
begin

text \<open>
  The work queue and membership view of a cluster node: \<open>bulwark-cluster/src/lib.rs\<close>. Work is
  leased when it is handed out; a lease that is not acknowledged in time puts the item back in
  front of the queue. Every critical section is one step; the long-poll loop of \<open>dequeue\<close> is
  given by one turn of it, which answers or goes back to sleep. The request that an item
  carries is opaque to the queue, and the order in which a \<open>HashMap\<close> is traversed is a
  parameter \<open>iter\<close>. An \<open>Instant\<close> is a number of milliseconds.
\<close>

section \<open>Configuration\<close>

record cluster_config =
  cc_node_id :: string
  cc_cluster_id :: string
  cc_address :: string
  cc_seeds :: "string list"
  cc_backpressure_depth :: nat
  cc_quorum_dsn :: "string option"

definition cluster_config_default :: cluster_config where
  "cluster_config_default =
     \<lparr>cc_node_id = ''node-local'', cc_cluster_id = ''bulwark-local'', cc_address = ''127.0.0.1:8443'',
      cc_seeds = [], cc_backpressure_depth = 512, cc_quorum_dsn = None\<rparr>"

definition set_var :: "(string \<Rightarrow> string option) \<Rightarrow> string \<Rightarrow> string option" where
  "set_var env k = (case env k of None \<Rightarrow> None | Some s \<Rightarrow> if trim s = [] then None else Some s)"

definition cluster_config_from_env :: "(string \<Rightarrow> string option) \<Rightarrow> cluster_config" where
  "cluster_config_from_env env =
     (let d = cluster_config_default; v = set_var env
      in \<lparr>cc_node_id = (case v ''BULWARK_NODE_ID'' of None \<Rightarrow> cc_node_id d | Some x \<Rightarrow> x),
          cc_cluster_id = (case v ''BULWARK_CLUSTER_ID'' of None \<Rightarrow> cc_cluster_id d | Some x \<Rightarrow> x),
          cc_address = (case v ''BULWARK_CLUSTER_ADDRESS'' of None \<Rightarrow> cc_address d | Some x \<Rightarrow> x),
          cc_seeds = (case v ''BULWARK_CLUSTER_SEEDS'' of None \<Rightarrow> cc_seeds d
                      | Some x \<Rightarrow> filter (\<lambda>s. s \<noteq> []) (map trim (split_char (CHR '','') x))),
          cc_backpressure_depth = (case Option.bind (v ''BULWARK_BACKPRESSURE_DEPTH'') parse_u32 of
                      None \<Rightarrow> cc_backpressure_depth d | Some n \<Rightarrow> n),
          cc_quorum_dsn = v ''BULWARK_QUORUM_DSN''\<rparr>)"

section \<open>State\<close>

record 'r work_item =
  wi_work_id :: string
  wi_request :: "'r option"
  wi_priority :: nat
  wi_enqueued_ts :: int
  wi_attempts :: nat

definition work_item_default :: "'r work_item" where
  "work_item_default = \<lparr>wi_work_id = [], wi_request = None, wi_priority = 0, wi_enqueued_ts = 0, wi_attempts = 0\<rparr>"

datatype node_state = NsUnspecified | Alive | Suspect | Dead | Draining

record node_info =
  ni_node_id :: string
  ni_role :: int
  ni_address :: string
  ni_state :: int
  ni_incarnation :: nat
  ni_exec_providers :: "int list"
  ni_version :: string

definition lease_ttl :: nat where
  "lease_ttl = 30 * 1000"

record 'r cluster =
  cl_cfg :: cluster_config
  cl_members :: "(string, node_info) fmap"
  cl_items :: "'r work_item list"
  cl_leased :: "(string, 'r work_item \<times> nat) fmap"
  cl_inflight :: nat
  cl_seq :: nat
  cl_accepting :: bool

definition cluster_new :: "cluster_config \<Rightarrow> 'r cluster" where
  "cluster_new cfg = \<lparr>cl_cfg = cfg, cl_members = fmempty, cl_items = [], cl_leased = fmempty,
     cl_inflight = 0, cl_seq = 1, cl_accepting = True\<rparr>"

record enqueue_response =
  er_work_id :: string
  er_queue_position :: nat
  er_accepted :: bool

record health_status =
  hs_node_id :: string
  hs_state :: node_state
  hs_queue_depth :: nat
  hs_inflight :: nat
  hs_accepting_work :: bool
  hs_ts :: int

section \<open>Operations\<close>

definition complete_inflight :: "'r cluster \<Rightarrow> 'r cluster" where
  "complete_inflight c = c\<lparr>cl_inflight := cl_inflight c - 1\<rparr>"

definition complete :: "'r cluster \<Rightarrow> string \<Rightarrow> 'r cluster" where
  "complete c work_id = complete_inflight (c\<lparr>cl_leased := fmdrop work_id (cl_leased c)\<rparr>)"

definition queue_depth :: "'r cluster \<Rightarrow> nat" where
  "queue_depth c = as_u32 (length (cl_items c))"

definition next_seq :: "'r cluster \<Rightarrow> nat \<times> 'r cluster" where
  "next_seq c = (cl_seq c, c\<lparr>cl_seq := (cl_seq c + 1) mod 2 ^ 64\<rparr>)"

definition join :: "((string, node_info) fmap \<Rightarrow> (string \<times> node_info) list) \<Rightarrow> 'r cluster \<Rightarrow> node_info option \<Rightarrow>
    (bool \<times> node_info list \<times> string \<times> string) \<times> 'r cluster" where
  "join iter c node =
     (let members = (case node of None \<Rightarrow> cl_members c | Some n \<Rightarrow> fmupd (ni_node_id n) n (cl_members c))
      in ((True, map snd (iter members), cc_cluster_id (cl_cfg c), []), c\<lparr>cl_members := members\<rparr>))"

definition leave :: "'r cluster \<Rightarrow> string \<Rightarrow> bool \<Rightarrow> bool \<times> 'r cluster" where
  "leave c node_id graceful =
     (let c' = (if graceful then c\<lparr>cl_accepting := False\<rparr> else c)
      in (True, c'\<lparr>cl_members := fmdrop node_id (cl_members c')\<rparr>))"

definition health :: "'r cluster \<Rightarrow> int \<Rightarrow> health_status" where
  "health c ts = \<lparr>hs_node_id = cc_node_id (cl_cfg c), hs_state = (if cl_accepting c then Alive else Draining),
     hs_queue_depth = queue_depth c, hs_inflight = cl_inflight c, hs_accepting_work = cl_accepting c, hs_ts = ts\<rparr>"

definition enqueue :: "'r cluster \<Rightarrow> 'r work_item option \<Rightarrow> enqueue_response \<times> 'r cluster" where
  "enqueue c req =
     (let depth = queue_depth c
      in if \<not> cl_accepting c \<or> cc_backpressure_depth (cl_cfg c) \<le> depth
         then (\<lparr>er_work_id = [], er_queue_position = depth, er_accepted = False\<rparr>, c)
         else (let item = (case req of None \<Rightarrow> work_item_default | Some i \<Rightarrow> i);
                   (work_id, c1) = (if wi_work_id item = []
                      then (let (n, c1) = next_seq c in (cc_node_id (cl_cfg c) @ ''-'' @ show_nat n, c1))
                      else (wi_work_id item, c));
                   c2 = c1\<lparr>cl_items := cl_items c1 @ [item\<lparr>wi_work_id := work_id\<rparr>]\<rparr>
               in (\<lparr>er_work_id = work_id, er_queue_position = queue_depth c2, er_accepted = True\<rparr>, c2)))"

text \<open>
  Expired leases go back to the front of the queue, in traversal order; \<open>attempts\<close> is a \<open>u32\<close>.
\<close>

definition requeue_one :: "string \<Rightarrow> 'r cluster \<Rightarrow> 'r cluster" where
  "requeue_one i c =
     (case fmlookup (cl_leased c) i of
        None \<Rightarrow> c
      | Some (item, _) \<Rightarrow> c\<lparr>cl_leased := fmdrop i (cl_leased c),
                             cl_items := item\<lparr>wi_attempts := as_u32 (wi_attempts item + 1)\<rparr> # cl_items c\<rparr>)"

definition requeue_expired ::
    "((string, 'r work_item \<times> nat) fmap \<Rightarrow> (string \<times> 'r work_item \<times> nat) list) \<Rightarrow> nat \<Rightarrow> 'r cluster \<Rightarrow> 'r cluster" where
  "requeue_expired iter now c =
     fold requeue_one (map fst (filter (\<lambda>(i, item, dl). dl \<le> now) (iter (cl_leased c)))) c"

fun lease_items :: "nat \<Rightarrow> nat \<Rightarrow> 'r cluster \<Rightarrow> 'r work_item list \<times> 'r cluster" where
  "lease_items now 0 c = ([], c)"
| "lease_items now (Suc n) c =
     (case cl_items c of
        [] \<Rightarrow> ([], c)
      | i # rest \<Rightarrow>
          (let (items, c') = lease_items now n (c\<lparr>cl_items := rest, cl_inflight := as_u32 (cl_inflight c + 1),
                 cl_leased := fmupd (wi_work_id i) (i, now + lease_ttl) (cl_leased c)\<rparr>)
           in (i # items, c')))"

text \<open>
  One turn of the loop: the items, possibly none at the deadline, or \<^const>\<open>None\<close> to wait for
  the next notification. \<open>now\<close> is the instant read under the lock, \<open>later\<close> the one after it.
\<close>

definition dequeue_turn ::
    "((string, 'r work_item \<times> nat) fmap \<Rightarrow> (string \<times> 'r work_item \<times> nat) list) \<Rightarrow> 'r cluster \<Rightarrow> nat \<Rightarrow> nat \<Rightarrow> nat \<Rightarrow> nat \<Rightarrow>
     'r work_item list option \<times> 'r cluster" where
  "dequeue_turn iter c max_items deadline now later =
     (let c1 = requeue_expired iter now c
      in if cl_items c1 \<noteq> [] then (let (items, c2) = lease_items now (max max_items 1) c1 in (Some items, c2))
         else if deadline \<le> later then (Some [], c1) else (None, c1))"

definition drain :: "'r cluster \<Rightarrow> (bool \<times> nat) \<times> 'r cluster" where
  "drain c = ((True, cl_inflight c), c\<lparr>cl_accepting := False\<rparr>)"

section \<open>The pool of unfinished work\<close>

text \<open>An item apart from its redelivery count, and the items that wait or are leased.\<close>

definition core :: "'r work_item \<Rightarrow> 'r work_item" where
  "core i = i\<lparr>wi_attempts := 0\<rparr>"

definition lease_pool :: "(string, 'r work_item \<times> nat) fmap \<Rightarrow> 'r work_item multiset" where
  "lease_pool m = image_mset (\<lambda>k. core (fst (the (fmlookup m k)))) (mset_set (fset (fmdom m)))"

definition pool :: "'r cluster \<Rightarrow> 'r work_item multiset" where
  "pool c = mset (map core (cl_items c)) + lease_pool (cl_leased c)"

definition live_ids :: "'r cluster \<Rightarrow> string set" where
  "live_ids c = set (map wi_work_id (cl_items c)) \<union> fset (fmdom (cl_leased c))"

definition pool_ok :: "'r cluster \<Rightarrow> bool" where
  "pool_ok c \<longleftrightarrow> distinct (map wi_work_id (cl_items c)) \<and>
     set (map wi_work_id (cl_items c)) \<inter> fset (fmdom (cl_leased c)) = {} \<and>
     (\<forall>k v. fmlookup (cl_leased c) k = Some v \<longrightarrow> wi_work_id (fst v) = k)"

text \<open>What the queue relies on of a map traversal: it visits exactly the entries.\<close>

definition iterates :: "((string, 'v) fmap \<Rightarrow> (string \<times> 'v) list) \<Rightarrow> bool" where
  "iterates iter \<longleftrightarrow> (\<forall>m. set (iter m) = {(k, v). fmlookup m k = Some v})"

lemma iterates_sorted: "iterates sorted_list_of_fmap"
  by (simp add: iterates_def set_sorted_list_of_fmap)

lemma core_simps [simp]:
  "wi_work_id (core i) = wi_work_id i" "core (i\<lparr>wi_attempts := n\<rparr>) = core i" "core (core i) = core i"
  by (simp_all add: core_def)

lemma lease_pool_empty [simp]: "lease_pool fmempty = {#}"
  by (simp add: lease_pool_def)

lemma lease_pool_upd: "k |\<notin>| fmdom m \<Longrightarrow> lease_pool (fmupd k v m) = add_mset (core (fst v)) (lease_pool m)"
  by (auto simp: lease_pool_def fmdom'_alt_def [symmetric] intro!: image_mset_cong)

lemma lease_pool_drop: "fmlookup m k = Some v \<Longrightarrow> lease_pool m = add_mset (core (fst v)) (lease_pool (fmdrop k m))"
proof -
  assume k: "fmlookup m k = Some v"
  then have "m = fmupd k v (fmdrop k m)" by (intro fmap_ext) auto
  then show ?thesis using lease_pool_upd [of k "fmdrop k m" v] by simp
qed

lemma requeue_one_pool:
  assumes "pool_ok c"
  shows "pool_ok (requeue_one i c) \<and> pool (requeue_one i c) = pool c"
proof (cases "fmlookup (cl_leased c) i")
  case (Some v)
  moreover from Some have "i |\<in>| fmdom (cl_leased c)" "wi_work_id (fst v) = i"
    using assms by (cases v; auto simp: pool_ok_def intro: fmdomI)+
  ultimately show ?thesis
    using assms lease_pool_drop [OF Some] by (cases v) (auto simp: requeue_one_def pool_ok_def pool_def)
qed (simp add: requeue_one_def assms)

lemma requeue_expired_pool:
  assumes "pool_ok c"
  shows "pool_ok (requeue_expired iter now c) \<and> pool (requeue_expired iter now c) = pool c"
proof -
  have "pool_ok (fold requeue_one is d) \<and> pool (fold requeue_one is d) = pool d" if "pool_ok d" for "is" d
    using that by (induction "is" arbitrary: d) (auto simp: requeue_one_pool)
  then show ?thesis using assms by (simp add: requeue_expired_def)
qed

lemma lease_items_pool:
  assumes "pool_ok c"
  shows "pool_ok (snd (lease_items now n c)) \<and> pool (snd (lease_items now n c)) = pool c"
  using assms
proof (induction now n c rule: lease_items.induct)
  case (2 now n c)
  show ?case
  proof (cases "cl_items c")
    case (Cons i rest)
    let ?c = "c\<lparr>cl_items := rest, cl_inflight := as_u32 (cl_inflight c + 1),
                 cl_leased := fmupd (wi_work_id i) (i, now + lease_ttl) (cl_leased c)\<rparr>"
    have fresh: "wi_work_id i |\<notin>| fmdom (cl_leased c)" using 2(2) Cons by (auto simp: pool_ok_def)
    have ok: "pool_ok ?c" using 2(2) Cons by (auto simp: pool_ok_def)
    moreover have "pool ?c = pool c" using Cons by (simp add: pool_def lease_pool_upd [OF fresh])
    moreover note "2.IH" [OF Cons ok]
    ultimately show ?thesis using Cons by (simp add: split_beta)
  qed (use 2 in simp)
qed simp

lemma dequeue_turn_pool:
  assumes "pool_ok c"
  shows "pool_ok (snd (dequeue_turn iter c mx dl now later)) \<and> pool (snd (dequeue_turn iter c mx dl now later)) = pool c"
  using requeue_expired_pool [OF assms, of iter now] lease_items_pool [of "requeue_expired iter now c" now "max mx 1"]
  by (simp add: dequeue_turn_def Let_def split_beta)

lemma enqueue_refused:
  assumes "\<not> er_accepted (fst (enqueue c req))"
  shows "snd (enqueue c req) = c"
  using assms by (auto simp: enqueue_def Let_def split_beta split: if_splits)

lemma enqueue_accepted:
  assumes "er_accepted (fst (enqueue c req))"
  obtains item where "cl_items (snd (enqueue c req)) = cl_items c @ [item]"
    "wi_work_id item = er_work_id (fst (enqueue c req))" "cl_leased (snd (enqueue c req)) = cl_leased c"
  using assms that by (auto simp: enqueue_def next_seq_def Let_def split_beta split: if_splits)

lemma enqueue_pool:
  assumes "pool_ok c" "er_accepted (fst (enqueue c req))" "er_work_id (fst (enqueue c req)) \<notin> live_ids c"
  shows "pool_ok (snd (enqueue c req)) \<and>
    pool (snd (enqueue c req)) = add_mset (core (last (cl_items (snd (enqueue c req))))) (pool c)"
proof -
  obtain item where "cl_items (snd (enqueue c req)) = cl_items c @ [item]"
    "wi_work_id item = er_work_id (fst (enqueue c req))" "cl_leased (snd (enqueue c req)) = cl_leased c"
    using assms(2) by (rule enqueue_accepted)
  then show ?thesis using assms(1,3) by (auto simp: pool_ok_def pool_def live_ids_def)
qed

lemma complete_pool:
  assumes "pool_ok c"
  shows "pool_ok (complete c k)"
    "fmlookup (cl_leased c) k = Some v \<Longrightarrow> pool c = add_mset (core (fst v)) (pool (complete c k))"
    "fmlookup (cl_leased c) k = None \<Longrightarrow> pool (complete c k) = pool c"
proof -
  show "pool_ok (complete c k)" using assms
    by (auto simp: complete_def complete_inflight_def pool_ok_def split: if_splits)
  show "pool c = add_mset (core (fst v)) (pool (complete c k))" if "fmlookup (cl_leased c) k = Some v"
    using lease_pool_drop [OF that] by (simp add: complete_def complete_inflight_def pool_def)
  show "pool (complete c k) = pool c" if "fmlookup (cl_leased c) k = None"
  proof -
    have "fmdrop k (cl_leased c) = cl_leased c" using that by (intro fmap_ext) auto
    then show ?thesis by (simp add: complete_def complete_inflight_def pool_def)
  qed
qed

section \<open>Runs of a node\<close>

text \<open>
  A run records the items accepted and those acknowledged while leased. A caller that names
  its own items names each differently from the unfinished ones.
\<close>

inductive cluster_run ::
    "((string, 'r work_item \<times> nat) fmap \<Rightarrow> (string \<times> 'r work_item \<times> nat) list) \<Rightarrow>
     'r cluster \<Rightarrow> 'r work_item list \<Rightarrow> 'r work_item list \<Rightarrow> bool" for iter where
  new: "cluster_run iter (cluster_new cfg) [] []"
| refuse: "cluster_run iter c acc ack \<Longrightarrow> \<not> er_accepted (fst (enqueue c req)) \<Longrightarrow>
    cluster_run iter (snd (enqueue c req)) acc ack"
| accept: "cluster_run iter c acc ack \<Longrightarrow> er_accepted (fst (enqueue c req)) \<Longrightarrow>
    er_work_id (fst (enqueue c req)) \<notin> live_ids c \<Longrightarrow>
    cluster_run iter (snd (enqueue c req)) (core (last (cl_items (snd (enqueue c req)))) # acc) ack"
| dequeue: "cluster_run iter c acc ack \<Longrightarrow> cluster_run iter (snd (dequeue_turn iter c mx dl now later)) acc ack"
| done_leased: "cluster_run iter c acc ack \<Longrightarrow> fmlookup (cl_leased c) k = Some v \<Longrightarrow>
    cluster_run iter (complete c k) acc (core (fst v) # ack)"
| done_late: "cluster_run iter c acc ack \<Longrightarrow> fmlookup (cl_leased c) k = None \<Longrightarrow> cluster_run iter (complete c k) acc ack"
| join: "cluster_run iter c acc ack \<Longrightarrow> cluster_run iter (snd (join it c node)) acc ack"
| leave: "cluster_run iter c acc ack \<Longrightarrow> cluster_run iter (snd (leave c node_id graceful)) acc ack"
| drain: "cluster_run iter c acc ack \<Longrightarrow> cluster_run iter (snd (drain c)) acc ack"

lemma members_frames [frame_simps, simp]:
  "cl_items (snd (join it c node)) = cl_items c" "cl_leased (snd (join it c node)) = cl_leased c"
  "cl_items (snd (leave c node_id graceful)) = cl_items c" "cl_leased (snd (leave c node_id graceful)) = cl_leased c"
  "cl_items (snd (drain c)) = cl_items c" "cl_leased (snd (drain c)) = cl_leased c"
  by (simp_all add: join_def leave_def drain_def Let_def)

lemma members_pool:
  "pool_ok (snd (join it c node)) = pool_ok c" "pool (snd (join it c node)) = pool c"
  "pool_ok (snd (leave c node_id graceful)) = pool_ok c" "pool (snd (leave c node_id graceful)) = pool c"
  "pool_ok (snd (drain c)) = pool_ok c" "pool (snd (drain c)) = pool c"
  unfolding pool_ok_def pool_def by simp_all

lemma cluster_run_pool: "cluster_run iter c acc ack \<Longrightarrow> pool_ok c \<and> mset acc = mset ack + pool c"
proof (induction rule: cluster_run.induct)
  case (new cfg)
  show ?case by (simp add: cluster_new_def pool_ok_def pool_def)
next
  case (done_leased c acc ack k v)
  then show ?case using complete_pool(1) [of c k] complete_pool(2) [of c k v] by simp
qed (simp_all add: enqueue_refused enqueue_pool dequeue_turn_pool complete_pool members_pool)

section \<open>Redelivery\<close>

definition redelivery :: "'r work_item \<Rightarrow> 'r work_item" where
  "redelivery i = i\<lparr>wi_attempts := as_u32 (wi_attempts i + 1)\<rparr>"

lemma requeue_one_leased:
  "fmlookup (cl_leased (requeue_one i c)) k = (if k = i then None else fmlookup (cl_leased c) k)"
  by (auto simp: requeue_one_def split: option.split)

lemma requeue_fold_leased:
  "fmlookup (cl_leased (fold requeue_one is c)) k = (if k \<in> set is then None else fmlookup (cl_leased c) k)"
  by (induction "is" arbitrary: c) (simp_all add: requeue_one_leased)

lemma requeue_one_items: "set (cl_items c) \<subseteq> set (cl_items (requeue_one i c))"
  by (auto simp: requeue_one_def split: option.split)

lemma requeue_fold_items: "set (cl_items c) \<subseteq> set (cl_items (fold requeue_one is c))"
proof (induction "is" arbitrary: c)
  case (Cons i "is")
  show ?case using Cons [of "requeue_one i c"] requeue_one_items [of c i] by auto
qed simp

lemma requeue_fold_redelivers:
  assumes "fmlookup (cl_leased c) k = Some (i, d)" "k \<in> set is"
  shows "redelivery i \<in> set (cl_items (fold requeue_one is c))"
  using assms
proof (induction "is" arbitrary: c)
  case (Cons j "is")
  show ?case
  proof (cases "j = k")
    case True
    then have "redelivery i \<in> set (cl_items (requeue_one j c))"
      using Cons.prems(1) by (simp add: requeue_one_def redelivery_def)
    then show ?thesis using requeue_fold_items [of "requeue_one j c" "is"] by auto
  next
    case False
    then show ?thesis using Cons by (simp add: requeue_one_leased)
  qed
qed simp

lemma expired_ids:
  assumes "iterates iter"
  shows "k \<in> set (map fst (filter (\<lambda>(i, item, dl). dl \<le> now) (iter m))) \<longleftrightarrow> (\<exists>i d. fmlookup m k = Some (i, d) \<and> d \<le> now)"
proof -
  have "set (iter m) = {(k, v). fmlookup m k = Some v}" using assms by (simp add: iterates_def)
  then show ?thesis by (force simp: image_iff)
qed

lemma requeue_expired_leased:
  assumes "iterates iter"
  shows "fmlookup (cl_leased (requeue_expired iter now c)) k =
    (case fmlookup (cl_leased c) k of None \<Rightarrow> None | Some (i, d) \<Rightarrow> if d \<le> now then None else Some (i, d))"
  unfolding requeue_expired_def requeue_fold_leased expired_ids [OF assms] by (auto split: option.split)

lemma requeue_expired_items:
  assumes "iterates iter" "fmlookup (cl_leased c) k = Some (i, d)" "d \<le> now"
  shows "redelivery i \<in> set (cl_items (requeue_expired iter now c))"
  unfolding requeue_expired_def
  by (rule requeue_fold_redelivers [OF assms(2)]) (use assms expired_ids [OF assms(1)] in blast)

lemma lease_items_split:
  "fst (lease_items now n c) = take n (cl_items c)" "cl_items (snd (lease_items now n c)) = drop n (cl_items c)"
  by (induction now n c rule: lease_items.induct) (simp_all add: split_beta Let_def split: list.split)

lemma lease_items_leased:
  "fmlookup (cl_leased (snd (lease_items now n c))) k = Some (i, d) \<Longrightarrow>
     d = now + lease_ttl \<or> fmlookup (cl_leased c) k = Some (i, d)"
proof (induction now n c rule: lease_items.induct)
  case (2 now n c)
  then show ?case by (cases "cl_items c") (auto simp: split_beta Let_def split: if_splits)
qed simp

lemma lease_items_new:
  assumes "pool_ok c" "i \<in> set (take n (cl_items c))"
  shows "fmlookup (cl_leased (snd (lease_items now n c))) (wi_work_id i) = Some (i, now + lease_ttl)"
  using assms
proof (induction now n c rule: lease_items.induct)
  case (2 now n c)
  show ?case
  proof (cases "cl_items c")
    case (Cons j rest)
    let ?c = "c\<lparr>cl_items := rest, cl_inflight := as_u32 (cl_inflight c + 1),
                 cl_leased := fmupd (wi_work_id j) (j, now + lease_ttl) (cl_leased c)\<rparr>"
    have ok: "pool_ok ?c" using 2(2) Cons by (auto simp: pool_ok_def)
    have keep: "fmlookup (cl_leased (snd (lease_items now n d))) k = fmlookup (cl_leased d) k"
      if "k \<notin> wi_work_id ` set (cl_items d)" for d :: "'a cluster" and k
      using that by (induction now n d rule: lease_items.induct) (auto simp: split_beta Let_def split: list.split)
    have "wi_work_id j \<notin> wi_work_id ` set rest" using 2(2) Cons by (simp add: pool_ok_def)
    then show ?thesis using "2.IH" [OF Cons ok] 2(3) Cons keep [of "wi_work_id j" ?c] by (auto simp: split_beta Let_def)
  qed (use 2 in simp)
qed simp

section \<open>What the queue guarantees\<close>


definition sample_item :: "unit work_item" where
  "sample_item = work_item_default\<lparr>wi_work_id := ''a''\<rparr>"

definition sample_node :: "unit cluster" where
  "sample_node = (cluster_new cluster_config_default)\<lparr>cl_items := [sample_item]\<rparr>"

lemma sample_enqueue: "enqueue (cluster_new cluster_config_default) (Some sample_item) =
    (\<lparr>er_work_id = ''a'', er_queue_position = 1, er_accepted = True\<rparr>, sample_node)"
  by (simp add: enqueue_def sample_node_def sample_item_def work_item_default_def cluster_new_def
      cluster_config_default_def queue_depth_def as_u32_def)

lemma sample_node_run: "cluster_run sorted_list_of_fmap sample_node [sample_item] []"
proof -
  have "cluster_run sorted_list_of_fmap (snd (enqueue (cluster_new cluster_config_default) (Some sample_item)))
      [core (last (cl_items (snd (enqueue (cluster_new cluster_config_default) (Some sample_item)))))] []"
    by (rule cluster_run.accept [OF cluster_run.new]; simp add: sample_enqueue live_ids_def)
       (simp add: cluster_new_def)
  moreover have "core (last (cl_items sample_node)) = sample_item"
    by (simp add: sample_node_def core_def sample_item_def work_item_default_def)
  ultimately show ?thesis by (simp add: sample_enqueue)
qed


text \<open>
  A crashed worker's items come back: after a turn of the dequeue loop no lease past
  its deadline is left, and each item whose lease had run out is handed out or waits in the
  queue with its redelivery count raised. If there was anything to hand out, the turn hands
  out at most the requested number of items and at least one, each leased for thirty seconds
  from the turn; if not, it answers at the caller's deadline at the latest.
\<close>

theorem expired_work_redelivered:
  assumes "cluster_run iter c acc ack" "iterates iter" "dequeue_turn iter c mx deadline now later = (r, c')"
  shows "(\<forall>k i d. fmlookup (cl_leased c') k = Some (i, d) \<longrightarrow> now < d) \<and>
    (\<forall>k i d. fmlookup (cl_leased c) k = Some (i, d) \<and> d \<le> now \<longrightarrow>
       (\<exists>items. r = Some items \<and> redelivery i \<in> set (items @ cl_items c'))) \<and>
    (cl_items c \<noteq> [] \<longrightarrow> (\<exists>items. r = Some items \<and> items \<noteq> [])) \<and>
    (\<forall>items. r = Some items \<longrightarrow> length items \<le> max mx 1 \<and>
       (\<forall>i\<in>set items. fmlookup (cl_leased c') (wi_work_id i) = Some (i, now + lease_ttl))) \<and>
    (deadline \<le> later \<longrightarrow> r \<noteq> None)"
proof -
  define c1 where "c1 = requeue_expired iter now c"
  have ok: "pool_ok c1" using requeue_expired_pool [of c iter now] cluster_run_pool [OF assms(1)] by (simp add: c1_def)
  have mono: "set (cl_items c) \<subseteq> set (cl_items c1)"
    unfolding c1_def requeue_expired_def by (rule requeue_fold_items)
  have old: "now < d" if "fmlookup (cl_leased c1) k = Some (i, d)" for k i d
    using that by (auto simp: c1_def requeue_expired_leased [OF assms(2)] split: option.splits if_splits)
  note redo = requeue_expired_items [OF assms(2), of c _ _ _ now, folded c1_def]
  show ?thesis
  proof (cases "cl_items c1 = []")
    case True
    then have "r = (if deadline \<le> later then Some [] else None)" "c' = c1"
      using assms(3) by (auto simp: dequeue_turn_def c1_def [symmetric] split: if_splits)
    then show ?thesis using old redo mono True by (auto split: if_splits)
  next
    case False
    let ?n = "max mx 1"
    have r: "r = Some (take ?n (cl_items c1))" "c' = snd (lease_items now ?n c1)"
      using assms(3) False by (auto simp: dequeue_turn_def c1_def [symmetric] split_beta lease_items_split)
    have "now < d" if "fmlookup (cl_leased c') k = Some (i, d)" for k i d
      using lease_items_leased [OF that [unfolded r]] old by (auto simp: lease_ttl_def)
    moreover have "set (take ?n (cl_items c1) @ cl_items c') = set (cl_items c1)"
      by (simp only: r lease_items_split append_take_drop_id)
    ultimately show ?thesis using redo False lease_items_new [OF ok] by (auto simp: r)
  qed
qed

theorem expired_work_redelivered_witness:
  "\<exists>items. fst (dequeue_turn sorted_list_of_fmap sample_node 3 9 5 6) = Some items \<and> items \<noteq> []"
  using expired_work_redelivered [OF sample_node_run iterates_sorted, of 3 9 5 6] by (simp add: sample_node_def prod_eq_iff)

section \<open>Limits of the queue\<close>

text \<open>
  Leases are keyed by the work id, which a caller may choose: of two waiting items with one id
  that are handed out together only the second is leased, so the first is gone if its worker
  dies.
\<close>

lemma duplicate_id_loses_lease:
  assumes "cl_items c = [a, b]" "wi_work_id a = wi_work_id b" "cl_leased c = fmempty" "2 \<le> mx" "iterates iter"
  shows "fst (dequeue_turn iter c mx dl now later) = Some [a, b] \<and> cl_items (snd (dequeue_turn iter c mx dl now later)) = [] \<and>
    cl_leased (snd (dequeue_turn iter c mx dl now later)) = fmupd (wi_work_id b) (b, now + lease_ttl) fmempty"
proof -
  have "iter fmempty = []" using assms(5) by (simp add: iterates_def flip: set_empty)
  then have c1: "requeue_expired iter now c = c" using assms(3) by (simp add: requeue_expired_def)
  have "max mx 1 = Suc (Suc (mx - 2))" using assms(4) by simp
  moreover have "fmupd k x (fmupd k y m) = fmupd k x m" for k x y and m :: "(string, 'a work_item \<times> nat) fmap"
    by (rule fmap_ext) simp
  moreover have "lease_items now n d = ([], d)" if "cl_items d = []" for n and d :: "'a cluster" using that by (cases n) simp_all
  ultimately show ?thesis using assms(1-3) by (simp add: dequeue_turn_def c1 Let_def)
qed

text \<open>
  The in-flight counter counts deliveries, not leases: an item that is delivered, runs out and is
  delivered again counts twice, and its acknowledgement takes back one.
\<close>

definition drifted_node :: "unit cluster" where
  "drifted_node =
     (let c1 = snd (dequeue_turn sorted_list_of_fmap sample_node 1 0 0 0);
          c2 = snd (dequeue_turn sorted_list_of_fmap c1 1 0 lease_ttl lease_ttl)
      in complete c2 ''a'')"

lemma inflight_drifts: "cl_inflight drifted_node = 1 \<and> cl_leased drifted_node = fmempty \<and> cl_items drifted_node = []"
proof -
  have "sorted_list_of_fmap (fmupd ''a'' v (fmempty :: (string, unit work_item \<times> nat) fmap)) = [(''a'', v)]" for v
    by (simp add: sorted_list_of_fmap_def sorted_list_of_fset.rep_eq)
  moreover have "sorted_list_of_fmap (fmempty :: (string, unit work_item \<times> nat) fmap) = []"
    by (simp add: sorted_list_of_fmap_def sorted_list_of_fset.rep_eq)
  ultimately show ?thesis
    by (simp add: drifted_node_def sample_node_def sample_item_def work_item_default_def cluster_new_def dequeue_turn_def
        requeue_expired_def requeue_one_def lease_ttl_def complete_def complete_inflight_def as_u32_def
        numeral_2_eq_2 [symmetric] Let_def) (rule fmap_ext, simp)
qed

end
