(* ===== verification/StaffAdmin.thy ===== *)
theory StaffAdmin
  imports Staff SafetyCases Cluster
begin

text \<open>
  The staff console, \<open>StaffAdminService\<close> of \<open>bulwark-server/src/staff.rs\<close>: every RPC handler with
  its authorisation, its effect on the guardian accounts, the safety cases and the staff store,
  and the audit entry it leaves. The clock readings, random draws, the outcome of a mail and
  the package version are parameters.
\<close>

section \<open>The service\<close>

record static_region =
  rg_region :: string
  rg_endpoint :: string

definition parse_regions :: "string \<Rightarrow> static_region list" where
  "parse_regions s =
     concat (map (\<lambda>p. (case split_once ''='' p of
         None \<Rightarrow> []
       | Some (name, ep) \<Rightarrow> if trim name \<noteq> [] \<and> trim ep \<noteq> [] then [\<lparr>rg_region = trim name, rg_endpoint = trim ep\<rparr>] else []))
       (split_char (CHR '','') s))"

record 'r staff_service =
  sv_store :: staff_store
  sv_regions :: "static_region list"
  sv_accounts :: "account_store option"
  sv_has_mailer :: bool
  sv_cases :: case_store
  sv_cluster :: "'r cluster option"
  sv_wg_peer_count :: "nat option"
  sv_local_region :: string
  sv_tls_cert_expiry_ts :: int

text \<open>What the handlers draw on: environment, clock, randomness, disk and mail.\<close>

record admin_env =
  ae_staff :: staff_env
  ae_lower :: "string \<Rightarrow> string"
  ae_version :: string
  ae_now :: int
  ae_audit_ts :: int
  ae_staff_writes :: "staff_snapshot \<Rightarrow> bool"
  ae_audit_writes :: "audit_rec list \<Rightarrow> bool"
  ae_case_writes :: "case_rec list \<Rightarrow> bool"
  ae_mail_ok :: "string \<Rightarrow> string \<Rightarrow> int \<Rightarrow> bool"
  ae_draw1 :: "bytes option"
  ae_draw2 :: "bytes option"
  ae_id_draw :: bytes

definition staff_service_new :: "staff_store \<Rightarrow> static_region list \<Rightarrow> 'r staff_service" where
  "staff_service_new st regions = \<lparr>sv_store = st, sv_regions = regions, sv_accounts = None, sv_has_mailer = False,
     sv_cases = case_store_new, sv_cluster = None, sv_wg_peer_count = None, sv_local_region = [], sv_tls_cert_expiry_ts = 0\<rparr>"

definition staff_service_from_env :: "(string \<Rightarrow> string option) \<Rightarrow> staff_store \<Rightarrow> 'r staff_service" where
  "staff_service_from_env var st =
     (let local = (case var ''BULWARK_REGION'' of None \<Rightarrow> ''self'' | Some r \<Rightarrow> r);
          fallback = [\<lparr>rg_region = local, rg_endpoint = (case var ''BULWARK_BIND'' of None \<Rightarrow> [] | Some b \<Rightarrow> b)\<rparr>];
          regions = (case var ''BULWARK_STAFF_REGIONS'' of
                       None \<Rightarrow> fallback
                     | Some s \<Rightarrow> if parse_regions s = [] then fallback else parse_regions s)
      in (staff_service_new st regions)\<lparr>sv_local_region := local,
           sv_tls_cert_expiry_ts := tls_cert_expiry_ts_from_env (var ''BULWARK_TLS_CERT_EXPIRY_TS'')\<rparr>)"

fun staff_status :: "staff_error \<Rightarrow> status_code \<times> string" where
  "staff_status StaffEmailExists = (AlreadyExists, ''a staff account with that email exists'')"
| "staff_status StaffBadCredentials = (Unauthenticated, ''invalid email, password, or code'')"
| "staff_status StaffUnauthorized = (Unauthenticated, ''invalid or missing staff session token'')"
| "staff_status Forbidden = (PermissionDenied, ''staff role does not allow this action'')"
| "staff_status StaffTooManyAttempts = (ResourceExhausted, ''too many attempts; try again later'')"
| "staff_status BootstrapLocked = (FailedPrecondition, ''staff bootstrap is not enabled on this node'')"
| "staff_status (StaffValidation m) = (InvalidArgument, m)"
| "staff_status StaffInternal = (Internal, ''internal error'')"

fun case_status :: "safety_error \<Rightarrow> status_code \<times> string" where
  "case_status (CaseValidation m) = (InvalidArgument, m)"
| "case_status CaseNotFound = (StNotFound, ''no such safety case'')"
| "case_status InvalidTransition = (FailedPrecondition, ''invalid safety-case workflow transition'')"
| "case_status CaseInternal = (Internal, ''internal error'')"

record region_info =
  ri_region :: string
  ri_endpoint :: string
  ri_probed :: bool
  ri_healthy :: bool
  ri_deploy_version :: string
  ri_tls_cert_expiry_ts :: int
  ri_wg_peer_count :: nat
  ri_enrolled_device_count :: nat
  ri_ts :: int

definition static_region_info :: "admin_env \<Rightarrow> static_region \<Rightarrow> region_info" where
  "static_region_info env r = \<lparr>ri_region = rg_region r, ri_endpoint = rg_endpoint r, ri_probed = False, ri_healthy = False,
     ri_deploy_version = ae_version env, ri_tls_cert_expiry_ts = 0, ri_wg_peer_count = 0, ri_enrolled_device_count = 0, ri_ts = ae_now env\<rparr>"

definition local_node_health :: "admin_env \<Rightarrow> 'r staff_service \<Rightarrow> health_status option" where
  "local_node_health env svc = map_option (\<lambda>c. health c (ae_now env)) (sv_cluster svc)"

definition is_local_region :: "'r staff_service \<Rightarrow> static_region \<Rightarrow> bool" where
  "is_local_region svc r \<longleftrightarrow> sv_local_region svc \<noteq> [] \<and> rg_region r = sv_local_region svc"

definition region_info_with_health :: "admin_env \<Rightarrow> 'r staff_service \<Rightarrow> static_region \<Rightarrow> health_status option \<Rightarrow> region_info" where
  "region_info_with_health env svc r hs =
     (if \<not> is_local_region svc r then static_region_info env r
      else \<lparr>ri_region = rg_region r, ri_endpoint = rg_endpoint r, ri_probed = (hs \<noteq> None),
            ri_healthy = (case hs of None \<Rightarrow> False | Some h \<Rightarrow> hs_accepting_work h), ri_deploy_version = ae_version env,
            ri_tls_cert_expiry_ts = sv_tls_cert_expiry_ts svc,
            ri_wg_peer_count = (case sv_wg_peer_count svc of None \<Rightarrow> 0 | Some n \<Rightarrow> n),
            ri_enrolled_device_count = (case sv_accounts svc of None \<Rightarrow> 0 | Some a \<Rightarrow> staff_enrolled_device_count a), ri_ts = ae_now env\<rparr>)"

definition live_region_info :: "admin_env \<Rightarrow> 'r staff_service \<Rightarrow> static_region \<Rightarrow> region_info" where
  "live_region_info env svc r =
     region_info_with_health env svc r (if is_local_region svc r then local_node_health env svc else None)"

section \<open>Handlers\<close>

type_synonym ('a, 'r) reply = "(status_code \<times> string, 'a) result \<times> 'r staff_service"

definition svc_authorize :: "admin_env \<Rightarrow> 'r staff_service \<Rightarrow> string \<Rightarrow> staff_role list \<Rightarrow> (staff_error, staff_identity) result" where
  "svc_authorize env svc token roles = authorize (ae_staff env) (sv_store svc) (ae_now env) token roles"

definition svc_audit :: "admin_env \<Rightarrow> 'r staff_service \<Rightarrow> staff_identity \<Rightarrow> string \<Rightarrow> string \<Rightarrow> string \<Rightarrow> 'r staff_service" where
  "svc_audit env svc ident act target detail =
     svc\<lparr>sv_store := staff_audit_append (ae_staff env) (ae_audit_writes env) (sv_store svc) (ae_audit_ts env)
       (id_staff_id ident) (id_role ident) act target detail\<rparr>"

definition rpc_create_staff ::
    "admin_env \<Rightarrow> 'r staff_service \<Rightarrow> string \<Rightarrow> string \<Rightarrow> string \<Rightarrow> string \<Rightarrow> int \<Rightarrow> string \<Rightarrow> (string \<times> string \<times> string, 'r) reply" where
  "rpc_create_staff env svc token boot email password role display_name =
     (let (r, st) = create_staff (ae_staff env) (ae_staff_writes env) (ae_audit_writes env) (sv_store svc) (ae_now env) token boot
          email password role display_name (ae_draw1 env) (ae_draw2 env) (ae_id_draw env) (ae_audit_ts env)
      in (case r of Inl e \<Rightarrow> Err (staff_status e) | Inr x \<Rightarrow> Ok x, svc\<lparr>sv_store := st\<rparr>))"

definition rpc_staff_login ::
    "admin_env \<Rightarrow> 'r staff_service \<Rightarrow> string \<Rightarrow> string \<Rightarrow> string \<Rightarrow> (string \<times> string \<times> int \<times> int, 'r) reply" where
  "rpc_staff_login env svc email password totp_code =
     (let (r, st) = staff_login (ae_staff env) (ae_staff_writes env) (ae_audit_writes env) (sv_store svc) (ae_now env)
          email password totp_code (ae_id_draw env) (ae_audit_ts env)
      in (case r of Inl e \<Rightarrow> Err (staff_status e) | Inr x \<Rightarrow> Ok x, svc\<lparr>sv_store := st\<rparr>))"

definition rpc_list_regions :: "admin_env \<Rightarrow> 'r staff_service \<Rightarrow> string \<Rightarrow> (region_info list, 'r) reply" where
  "rpc_list_regions env svc token =
     (case svc_authorize env svc token all_staff_roles of
        Inl e \<Rightarrow> (Err (staff_status e), svc)
      | Inr ident \<Rightarrow>
          (let svc1 = svc_audit env svc ident ''fleet.list_regions'' [] []
           in (Ok (map (live_region_info env svc1) (sv_regions svc1)), svc1)))"

definition rpc_get_fleet_health ::
    "admin_env \<Rightarrow> 'r staff_service \<Rightarrow> string \<Rightarrow> string \<Rightarrow> (string \<times> region_info \<times> health_status list, 'r) reply" where
  "rpc_get_fleet_health env svc token region =
     (case svc_authorize env svc token all_staff_roles of
        Inl e \<Rightarrow> (Err (staff_status e), svc)
      | Inr ident \<Rightarrow>
          if trim region = [] then (Err (InvalidArgument, ''region is required''), svc)
          else (let svc1 = svc_audit env svc ident ''fleet.get_health'' (trim region) []
                in (case find (\<lambda>x. rg_region x = trim region) (sv_regions svc1) of
                      None \<Rightarrow> (Err (StNotFound, ''no such region''), svc1)
                    | Some cfg \<Rightarrow>
                        (let hs = (if is_local_region svc1 cfg then local_node_health env svc1 else None)
                         in (Ok (rg_region cfg, region_info_with_health env svc1 cfg hs, case hs of None \<Rightarrow> [] | Some h \<Rightarrow> [h]), svc1)))))"

definition rpc_query_staff_audit ::
    "admin_env \<Rightarrow> 'r staff_service \<Rightarrow> string \<Rightarrow> nat \<Rightarrow> nat \<Rightarrow> (audit_rec list \<times> nat \<times> bool, 'r) reply" where
  "rpc_query_staff_audit env svc token after_seq limit =
     (case svc_authorize env svc token [Admin] of
        Inl e \<Rightarrow> (Err (staff_status e), svc)
      | Inr ident \<Rightarrow>
          (let svc1 = svc_audit env svc ident ''audit.query'' [] (''after_seq='' @ show_nat after_seq)
           in (Ok (query_audit (ae_staff env) (sv_store svc1) after_seq limit), svc1)))"

definition rpc_trigger_guardian_reset ::
    "admin_env \<Rightarrow> 'r staff_service \<Rightarrow> string \<Rightarrow> string \<Rightarrow> (bool \<times> string, 'r) reply" where
  "rpc_trigger_guardian_reset env svc token guardian_email =
     (case svc_authorize env svc token support_roles of
        Inl e \<Rightarrow> (Err (staff_status e), svc)
      | Inr ident \<Rightarrow>
          (case sv_accounts svc of
             None \<Rightarrow> (Err (FailedPrecondition, ''guardian support unavailable (accounts not configured)''), svc)
           | Some accounts \<Rightarrow>
               (let aenv = se_accounts (ae_staff env);
                    (r, accounts') = request_password_reset aenv accounts (ae_now env) guardian_email (ae_draw1 env) (ae_draw2 env);
                    dispatched = (case r of
                        Inr (Some (recipient, reset_code)) \<Rightarrow>
                          sv_has_mailer svc \<and> ae_mail_ok env recipient reset_code (max (env_reset_ttl_ms aenv div 60000) 1)
                      | _ \<Rightarrow> False);
                    svc1 = svc_audit env (svc\<lparr>sv_accounts := Some accounts'\<rparr>) ident ''guardian.reset'' []
                             (if dispatched then ''dispatched'' else ''no-op'')
                in (Ok (dispatched, ''if the account exists, a reset code was emailed to the guardian''), svc1))))"

definition rpc_unlock_guardian_account ::
    "admin_env \<Rightarrow> 'r staff_service \<Rightarrow> string \<Rightarrow> string \<Rightarrow> (bool \<times> string, 'r) reply" where
  "rpc_unlock_guardian_account env svc token guardian_email =
     (case svc_authorize env svc token support_roles of
        Inl e \<Rightarrow> (Err (staff_status e), svc)
      | Inr ident \<Rightarrow>
          (case sv_accounts svc of
             None \<Rightarrow> (Err (FailedPrecondition, ''guardian support unavailable (accounts not configured)''), svc)
           | Some accounts \<Rightarrow>
               (let (existed, accounts') = staff_clear_lockout (se_accounts (ae_staff env)) accounts guardian_email
                in (Ok (existed, if existed then ''sign-in lockout cleared'' else ''no account with that email''),
                    svc_audit env (svc\<lparr>sv_accounts := Some accounts'\<rparr>) ident ''guardian.unlock'' []
                      (if existed then ''cleared'' else ''no-account'')))))"

definition rpc_get_guardian_meta :: "admin_env \<Rightarrow> 'r staff_service \<Rightarrow> string \<Rightarrow> string \<Rightarrow> (guardian_meta, 'r) reply" where
  "rpc_get_guardian_meta env svc token guardian_email =
     (case svc_authorize env svc token support_roles of
        Inl e \<Rightarrow> (Err (staff_status e), svc)
      | Inr ident \<Rightarrow>
          (case sv_accounts svc of
             None \<Rightarrow> (Err (FailedPrecondition, ''guardian support unavailable (accounts not configured)''), svc)
           | Some accounts \<Rightarrow>
               (let m = staff_guardian_meta (se_accounts (ae_staff env)) accounts (ae_now env) guardian_email
                in (Ok m, svc_audit env svc ident ''guardian.meta'' [] (if gm_exists m then ''hit'' else ''miss'')))))"

fun state_name :: "safety_state \<Rightarrow> string" where
  "state_name ScUnspecified = ''SAFETY_CASE_STATE_UNSPECIFIED''"
| "state_name Opened = ''SAFETY_CASE_STATE_OPENED''"
| "state_name UnderReview = ''SAFETY_CASE_STATE_UNDER_REVIEW''"
| "state_name ReportedNcmec = ''SAFETY_CASE_STATE_REPORTED_NCMEC''"
| "state_name LawEnforcement = ''SAFETY_CASE_STATE_LAW_ENFORCEMENT''"
| "state_name Closed = ''SAFETY_CASE_STATE_CLOSED''"
| "state_name Rejected = ''SAFETY_CASE_STATE_REJECTED''"

definition state_detail :: "int \<Rightarrow> string" where
  "state_detail n = ''state='' @ (case state_of n of None \<Rightarrow> ''UNKNOWN'' | Some s \<Rightarrow> state_name s)"

definition rpc_open_safety_case ::
    "admin_env \<Rightarrow> 'r staff_service \<Rightarrow> string \<Rightarrow> bytes \<Rightarrow> bytes \<Rightarrow> int \<Rightarrow> string \<Rightarrow> (safety_case, 'r) reply" where
  "rpc_open_safety_case env svc token sha256 perceptual_hash category jurisdiction =
     (case svc_authorize env svc token safety_roles of
        Inl e \<Rightarrow> (Err (staff_status e), svc)
      | Inr ident \<Rightarrow>
          (let (r, cases) = open_case (ae_lower env) (ae_case_writes env) (sv_cases svc) (ae_now env) (ae_draw1 env)
                 sha256 perceptual_hash category jurisdiction
           in (case r of
                 Inl e \<Rightarrow> (Err (case_status e), svc\<lparr>sv_cases := cases\<rparr>)
               | Inr c \<Rightarrow> (Ok c, svc_audit env (svc\<lparr>sv_cases := cases\<rparr>) ident ''safety_case.open'' (sc_case_id c) (state_detail (sc_state c))))))"

definition rpc_list_safety_cases :: "admin_env \<Rightarrow> 'r staff_service \<Rightarrow> string \<Rightarrow> int \<Rightarrow> (safety_case list, 'r) reply" where
  "rpc_list_safety_cases env svc token state_filter =
     (case svc_authorize env svc token safety_roles of
        Inl e \<Rightarrow> (Err (staff_status e), svc)
      | Inr ident \<Rightarrow>
          (let cases = list_cases (sv_cases svc) state_filter
           in (Ok cases, svc_audit env svc ident ''safety_case.list'' [] (''count='' @ show_nat (length cases)))))"

definition rpc_transition_safety_case ::
    "admin_env \<Rightarrow> 'r staff_service \<Rightarrow> string \<Rightarrow> string \<Rightarrow> int \<Rightarrow> string \<Rightarrow> (safety_case, 'r) reply" where
  "rpc_transition_safety_case env svc token case_id new_state ncmec_reference =
     (case svc_authorize env svc token safety_roles of
        Inl e \<Rightarrow> (Err (staff_status e), svc)
      | Inr ident \<Rightarrow>
          (let (r, cases) = transition (ae_case_writes env) (sv_cases svc) (ae_now env) case_id new_state ncmec_reference
           in (case r of
                 Inl e \<Rightarrow> (Err (case_status e), svc\<lparr>sv_cases := cases\<rparr>)
               | Inr c \<Rightarrow> (Ok c, svc_audit env (svc\<lparr>sv_cases := cases\<rparr>) ident ''safety_case.transition'' (sc_case_id c)
                            (state_detail (sc_state c))))))"

definition rpc_get_safety_case :: "admin_env \<Rightarrow> 'r staff_service \<Rightarrow> string \<Rightarrow> string \<Rightarrow> (safety_case, 'r) reply" where
  "rpc_get_safety_case env svc token case_id =
     (case svc_authorize env svc token safety_roles of
        Inl e \<Rightarrow> (Err (staff_status e), svc)
      | Inr ident \<Rightarrow>
          (case get_case (sv_cases svc) case_id of
             Inl e \<Rightarrow> (Err (case_status e), svc)
           | Inr c \<Rightarrow> (Ok c, svc_audit env svc ident ''safety_case.get'' (sc_case_id c) [])))"

section \<open>Authorisation and accountability\<close>

text \<open>
  The ten calls that need a session, the roles each is open to, and the name under which it
  is recorded. Tokens are taken as the handlers get them, from the request or its metadata.
\<close>

datatype staff_call = ListRegions | GetFleetHealth string | QueryStaffAudit nat nat | TriggerGuardianReset string
  | UnlockGuardian string | GetGuardianMeta string | OpenSafetyCase bytes bytes int string | ListSafetyCases int
  | TransitionSafetyCase string int string | GetSafetyCase string

fun call_roles :: "staff_call \<Rightarrow> staff_role list" where
  "call_roles ListRegions = [Support, SafetyOfficer, Operator, Admin]"
| "call_roles (GetFleetHealth _) = [Support, SafetyOfficer, Operator, Admin]"
| "call_roles (QueryStaffAudit _ _) = [Admin]"
| "call_roles (TriggerGuardianReset _) = [Support, Admin]"
| "call_roles (UnlockGuardian _) = [Support, Admin]"
| "call_roles (GetGuardianMeta _) = [Support, Admin]"
| "call_roles (OpenSafetyCase _ _ _ _) = [SafetyOfficer, Admin]"
| "call_roles (ListSafetyCases _) = [SafetyOfficer, Admin]"
| "call_roles (TransitionSafetyCase _ _ _) = [SafetyOfficer, Admin]"
| "call_roles (GetSafetyCase _) = [SafetyOfficer, Admin]"

fun call_action :: "staff_call \<Rightarrow> string" where
  "call_action ListRegions = ''fleet.list_regions''"
| "call_action (GetFleetHealth _) = ''fleet.get_health''"
| "call_action (QueryStaffAudit _ _) = ''audit.query''"
| "call_action (TriggerGuardianReset _) = ''guardian.reset''"
| "call_action (UnlockGuardian _) = ''guardian.unlock''"
| "call_action (GetGuardianMeta _) = ''guardian.meta''"
| "call_action (OpenSafetyCase _ _ _ _) = ''safety_case.open''"
| "call_action (ListSafetyCases _) = ''safety_case.list''"
| "call_action (TransitionSafetyCase _ _ _) = ''safety_case.transition''"
| "call_action (GetSafetyCase _) = ''safety_case.get''"

definition answered :: "('a, 'r) reply \<Rightarrow> bool \<times> 'r staff_service" where
  "answered r = (\<not> isl (fst r), snd r)"

fun staff_serve :: "admin_env \<Rightarrow> 'r staff_service \<Rightarrow> string \<Rightarrow> staff_call \<Rightarrow> bool \<times> 'r staff_service" where
  "staff_serve env svc token ListRegions = answered (rpc_list_regions env svc token)"
| "staff_serve env svc token (GetFleetHealth region) = answered (rpc_get_fleet_health env svc token region)"
| "staff_serve env svc token (QueryStaffAudit after_seq limit) = answered (rpc_query_staff_audit env svc token after_seq limit)"
| "staff_serve env svc token (TriggerGuardianReset email) = answered (rpc_trigger_guardian_reset env svc token email)"
| "staff_serve env svc token (UnlockGuardian email) = answered (rpc_unlock_guardian_account env svc token email)"
| "staff_serve env svc token (GetGuardianMeta email) = answered (rpc_get_guardian_meta env svc token email)"
| "staff_serve env svc token (OpenSafetyCase sha ph cat jur) = answered (rpc_open_safety_case env svc token sha ph cat jur)"
| "staff_serve env svc token (ListSafetyCases f) = answered (rpc_list_safety_cases env svc token f)"
| "staff_serve env svc token (TransitionSafetyCase i n ref) = answered (rpc_transition_safety_case env svc token i n ref)"
| "staff_serve env svc token (GetSafetyCase i) = answered (rpc_get_safety_case env svc token i)"

lemmas rpc_defs = rpc_list_regions_def rpc_get_fleet_health_def rpc_query_staff_audit_def rpc_trigger_guardian_reset_def
  rpc_unlock_guardian_account_def rpc_get_guardian_meta_def rpc_open_safety_case_def rpc_list_safety_cases_def
  rpc_transition_safety_case_def rpc_get_safety_case_def

lemmas role_defs = all_staff_roles_def support_roles_def safety_roles_def

lemma svc_audit_frames [simp]:
  "sv_accounts (svc_audit env svc ident act target detail) = sv_accounts svc"
  "sv_cases (svc_audit env svc ident act target detail) = sv_cases svc"
  "sv_regions (svc_audit env svc ident act target detail) = sv_regions svc"
  "ts_inner (sv_store (svc_audit env svc ident act target detail)) = ts_inner (sv_store svc)"
  by (simp_all add: svc_audit_def)

lemma serve_denied:
  "svc_authorize env svc token (call_roles call) = Inl e \<Longrightarrow> staff_serve env svc token call = (False, svc)"
  by (cases call) (simp_all add: rpc_defs role_defs answered_def)

text \<open>A call that is answered went through its authorisation and ended in one audit entry.\<close>

definition recorded :: "admin_env \<Rightarrow> 'r staff_service \<Rightarrow> staff_identity \<Rightarrow> staff_call \<Rightarrow> 'r staff_service \<Rightarrow> bool" where
  "recorded env svc ident call svc' \<longleftrightarrow>
     (\<exists>svc0 target detail. svc' = svc_audit env svc0 ident (call_action call) target detail \<and> sv_store svc0 = sv_store svc \<and>
        (sv_accounts svc0 = sv_accounts svc \<or> call_roles call = [Support, Admin]) \<and>
        (sv_cases svc0 = sv_cases svc \<or> call_roles call = [SafetyOfficer, Admin]))"

lemma recorded_audit:
  assumes "act = call_action call" "sv_store svc0 = sv_store svc"
    "sv_accounts svc0 = sv_accounts svc \<or> call_roles call = [Support, Admin]"
    "sv_cases svc0 = sv_cases svc \<or> call_roles call = [SafetyOfficer, Admin]"
  shows "recorded env svc ident call (svc_audit env svc0 ident act target detail)"
  using assms unfolding recorded_def by metis

lemma serve_recorded:
  assumes "svc_authorize env svc token (call_roles call) = Inr ident" "staff_serve env svc token call = (True, svc')"
  shows "recorded env svc ident call svc'"
proof (cases call)
  case (TriggerGuardianReset email)
  then show ?thesis using assms
    by (auto simp: rpc_defs role_defs answered_def Let_def split_beta split: option.splits intro!: recorded_audit)
next
  case (UnlockGuardian email)
  then show ?thesis using assms
    by (auto simp: rpc_defs role_defs answered_def Let_def split_beta split: option.splits intro!: recorded_audit)
next
  case (OpenSafetyCase sha ph cat jur)
  then show ?thesis using assms
    by (auto simp: rpc_defs role_defs answered_def Let_def split_beta split: sum.splits intro!: recorded_audit)
next
  case (TransitionSafetyCase i n ref)
  then show ?thesis using assms
    by (auto simp: rpc_defs role_defs answered_def Let_def split_beta split: sum.splits intro!: recorded_audit)
qed (use assms in \<open>auto simp: rpc_defs role_defs answered_def Let_def split: option.splits sum.splits if_splits intro!: recorded_audit\<close>)

lemma case_errors_keep:
  "fst (open_case lower w cs now draw sha ph cat jur) = Inl e \<Longrightarrow> snd (open_case lower w cs now draw sha ph cat jur) = cs"
  "fst (transition w cs now i n ref) = Inl e \<Longrightarrow> snd (transition w cs now i n ref) = cs"
  by (auto simp: open_case_def transition_def Let_def split: option.splits if_splits)

lemma serve_failed:
  assumes "svc_authorize env svc token (call_roles call) = Inr ident" "staff_serve env svc token call = (False, svc')"
  shows "sv_accounts svc' = sv_accounts svc \<and> sv_cases svc' = sv_cases svc \<and> ts_inner (sv_store svc') = ts_inner (sv_store svc) \<and>
    (ts_audit (sv_store svc') = ts_audit (sv_store svc) \<or> recorded env svc ident call svc')"
proof (cases call)
  case (GetFleetHealth region)
  then show ?thesis using assms
    by (auto simp: rpc_defs role_defs answered_def Let_def split: option.splits if_splits intro!: recorded_audit)
qed (use assms in \<open>auto simp: rpc_defs role_defs answered_def Let_def split_beta case_errors_keep split: option.splits sum.splits\<close>)


definition sample_admin_env :: admin_env where
  "sample_admin_env = \<lparr>ae_staff = sample_staff_env, ae_lower = id, ae_version = ''1'', ae_now = 5, ae_audit_ts = 6,
     ae_staff_writes = (\<lambda>_. True), ae_audit_writes = (\<lambda>_. True), ae_case_writes = (\<lambda>_. True), ae_mail_ok = (\<lambda>_ _ _. True),
     ae_draw1 = None, ae_draw2 = None, ae_id_draw = []\<rparr>"

definition sample_console :: "unit staff_service" where
  "sample_console = staff_service_new sample_staff []"


end
