(* ===== verification/AccountsProps.thy ===== *)
theory AccountsProps
  imports AccountsInv
begin

text \<open>
  What the account store promises its callers: sessions open only with the right password
  and end on time, password changes and resets revoke what they should, repeated failures
  lock, a pairing code binds one device once, guardians only see and only extend their own
  children, and a restart restores the store from its file.
\<close>

section \<open>Sessions\<close>

lemma account_for_session_iff:
  "account_for_session env st t token = Some a \<longleftrightarrow> account_for_token env (st_inner st) t token = Ok a"
  by (simp add: account_for_session_def account_for_token_def split: option.split)

lemma account_by_id_Some:
  assumes "account_by_id i a = Some acct"
  shows "ac_account_id acct = a \<and> (\<exists>e. fmlookup (by_email i) e = Some acct)"
proof -
  have "acct \<in> set (map snd (sorted_list_of_fmap (by_email i)))" "ac_account_id acct = a"
    using find_SomeD [OF assms [unfolded account_by_id_def]] by simp_all
  then show ?thesis by (auto simp: set_sorted_list_of_fmap)
qed

lemma ids_ok_unique:
  assumes "ids_ok accts ids" "fmlookup accts e = Some x" "fmlookup accts f = Some y" "ac_account_id x = ac_account_id y"
  shows "e = f"
  using assms unfolding ids_ok_def by (metis option.inject)

lemma login_verify_pw:
  "login_verify env (Some (pw, aid)) password =
     (pw_verify env pw password, (case pw of Argon2 _ \<Rightarrow> False | Pbkdf2 _ _ \<Rightarrow> pw_verify env pw password), aid)"
  by (simp add: login_verify_def pw_verify_def Let_def split: pw_hash.split)

lemma login_cases:
  "login env st now email password salt token_draw =
     (let key = normalize_email email
      in if key_locked (login_fails (st_inner st)) key now (env_window_ms env) (env_max_fails env) then (Err TooManyAttempts, st)
         else (case fmlookup (by_email (st_inner st)) key of
             None \<Rightarrow> login_commit env st now key False None [] token_draw
           | Some acct \<Rightarrow> login_commit env st now key (pw_verify env (ac_pw acct) password)
               (if pw_verify env (ac_pw acct) password \<and> (\<exists>s h. ac_pw acct = Pbkdf2 s h)
                then (case hash_password env salt password of Inl _ \<Rightarrow> None | Inr phc \<Rightarrow> Some phc) else None)
               (ac_account_id acct) token_draw))"
  by (simp add: login_def Let_def login_read_def login_verify_pw split: option.split pw_hash.split)
     (simp add: login_verify_def)

text \<open>
  A login succeeds only for a registered email with a password its stored hash
  accepts and an email that is not locked out; the token it returns then identifies that
  account from the moment of issue until the session lifetime has passed, and not a
  millisecond longer, and every other session keeps working.
\<close>

theorem login_issues_session:
  assumes ttl: "0 < env_session_ttl_ms env" "env_session_ttl_ms env \<le> i64_max"
    and step: "login env st now email password salt token_draw = (Ok (token, aid, issued), st')"
  shows "(\<exists>acct. fmlookup (by_email (st_inner st)) (normalize_email email) = Some acct \<and>
      ac_account_id acct = aid \<and> pw_verify env (ac_pw acct) password) \<and>
    \<not> key_locked (login_fails (st_inner st)) (normalize_email email) now (env_window_ms env) (env_max_fails env) \<and>
    (\<forall>t. account_for_session env st' t token =
      (if now \<le> t \<and> t - now < env_session_ttl_ms env then Some aid else None)) \<and>
    (\<forall>t other. token_hash env other \<noteq> token_hash env token \<longrightarrow>
      account_for_session env st' t other = account_for_session env st t other)"
proof -
  let ?key = "normalize_email email"
  obtain acct where acct: "fmlookup (by_email (st_inner st)) ?key = Some acct" "pw_verify env (ac_pw acct) password"
    and aid: "aid = ac_account_id acct" "token = hex token_draw"
    and free: "\<not> key_locked (login_fails (st_inner st)) ?key now (env_window_ms env) (env_max_fails env)"
    and sess: "sessions (st_inner st') = fmupd (token_hash env token) \<lparr>sn_account_id = aid, sn_issued_ms = now\<rparr> (sessions (st_inner st))"
    using step unfolding login_cases
    by (auto simp: Let_def login_commit_def split: option.splits if_splits)
  then show ?thesis
    by (auto simp: account_for_session_def sess session_live_iff [OF ttl])
qed

text \<open>An environment with transparent hashes, and a store with one guardian, for the witnesses.\<close>

definition sample_env :: account_env where
  "sample_env = \<lparr>env_sha256 = (\<lambda>x. 1 # x),
     env_argon2_hash = (\<lambda>salt x. Some (CHR ''h'' # map (\<lambda>b. char_of (unat b)) x)),
     env_argon2_verify = (\<lambda>phc x. phc = CHR ''h'' # map (\<lambda>b. char_of (unat b)) x),
     env_pbkdf2_verify = (\<lambda>salt x h. False), env_base32 = hex, env_to_uppercase = to_ascii_uppercase,
     env_disk_writes = (\<lambda>snap. True), env_session_ttl_ms = 1000, env_reset_ttl_ms = 500, env_max_fails = 2, env_window_ms = 100\<rparr>"

definition sample_accounts :: account_store where
  "sample_accounts = snd (create_account sample_env account_store_new ''A@x'' ''password'' (Some [1]) (Some [2]) (Some [3]) [4] [5])"

definition sample_signed_in :: account_store where
  "sample_signed_in = snd (login sample_env sample_accounts 10 ''a@x'' ''password'' None [6])"

lemma sample_env_params [simp]:
  "env_window_ms sample_env = 100" "env_max_fails sample_env = 2" "env_session_ttl_ms sample_env = 1000"
  by (simp_all add: sample_env_def)

lemma sample_login:
  "fst (login sample_env sample_accounts 10 ''a@x'' ''password'' None [6]) = Ok (''06'', ''04'', 10)"
  by code_simp

lemma fst_step: "fst p = r \<Longrightarrow> p = (r, snd p)"
  by (cases p) simp

theorem login_issues_session_witness:
  "account_for_session sample_env sample_signed_in 1009 ''06'' = Some ''04'' \<and>
   account_for_session sample_env sample_signed_in 1010 ''06'' = None"
  using login_issues_session [OF _ _ fst_step [OF sample_login]]
  by (simp add: i64_max_def sample_signed_in_def)

section \<open>Password change and reset\<close>

lemma revoked_sessions:
  assumes "sessions (st_inner st') = fm_retain (\<lambda>d e. sn_account_id e \<noteq> aid \<or> keep d) (sessions (st_inner st))"
  shows "account_for_session env st' t tok =
    (if account_for_session env st t tok = Some aid \<and> \<not> keep (token_hash env tok) then None
     else account_for_session env st t tok)"
  by (auto simp: account_for_session_def assms split: option.split if_splits)

text \<open>
  A password change goes through only for a live session and the current password;
  it stores a hash of the new password for that account alone, and it signs out every other
  session of the account and nobody else: the session it was made with and the sessions of
  other accounts stay as they were.
\<close>

theorem change_password_revokes_others:
  assumes ok: "accounts_ok (st_inner st)"
    and step: "change_password env st now token old_password new_password salt = (Ok aid, st')"
  shows "account_for_session env st now token = Some aid \<and>
    (\<exists>e acct phc. fmlookup (by_email (st_inner st)) e = Some acct \<and> ac_account_id acct = aid \<and>
       pw_verify env (ac_pw acct) old_password \<and> hash_password env salt new_password = Ok phc \<and>
       by_email (st_inner st') = fmupd e (acct\<lparr>ac_pw := Argon2 phc\<rparr>) (by_email (st_inner st))) \<and>
    (\<forall>t tok. account_for_session env st' t tok =
       (if account_for_session env st t tok = Some aid \<and> token_hash env tok \<noteq> token_hash env token then None
        else account_for_session env st t tok))"
proof -
  obtain acct phc where read: "account_for_token env (st_inner st) now token = Ok aid"
    "account_by_id (st_inner st) aid = Some acct" "pw_verify env (ac_pw acct) old_password"
    and phc: "hash_password env salt new_password = Ok phc"
    and cmt: "change_password_commit env st token aid phc = (Ok aid, st')"
    using step
    by (auto simp: change_password_def change_password_read_def change_password_commit_def Let_def
        split: if_splits sum.splits option.splits)
  from cmt obtain e acct' where e: "fmlookup (email_by_id (st_inner st)) aid = Some e"
    "fmlookup (by_email (st_inner st)) e = Some acct'"
    and st': "by_email (st_inner st') = fmupd e (acct'\<lparr>ac_pw := Argon2 phc\<rparr>) (by_email (st_inner st))"
    "sessions (st_inner st') = fm_retain (\<lambda>d s. sn_account_id s \<noteq> aid \<or> d = token_hash env token)
      (sessions (st_inner st))"
    by (auto simp: change_password_commit_def Let_def split: option.splits)
  have ids: "ids_ok (by_email (st_inner st)) (email_by_id (st_inner st))" using ok by (simp add: accounts_ok_def)
  obtain f where "fmlookup (by_email (st_inner st)) f = Some acct" "ac_account_id acct = aid"
    using account_by_id_Some [OF read(2)] by blast
  moreover have "ac_account_id acct' = aid" using ids e by (simp add: ids_ok_def)
  ultimately have same: "acct' = acct" "ac_account_id acct = aid"
    using ids_ok_unique [OF ids] e(2) by (metis option.inject)+
  show ?thesis
    using read phc e(2) st'(1) same revoked_sessions [OF st'(2)] by (simp add: account_for_session_iff) blast
qed

lemma sample_new_ok: "accounts_ok (st_inner account_store_new)"
  by (simp add: account_store_new_def accounts_ok_def accounts_inner_default_def ids_ok_def devices_ok_def refs_ok_def)

lemma sample_accounts_ok: "accounts_ok (st_inner sample_accounts)"
proof -
  have "account_id_fresh (st_inner account_store_new) [4]"
    by (simp add: account_id_fresh_def account_store_new_def accounts_inner_default_def)
  from create_account_kept [OF this] show ?thesis
    unfolding sample_accounts_def kept_def using sample_new_ok by blast
qed

lemma login_ok:
  assumes "accounts_ok (st_inner st)"
  shows "accounts_ok (st_inner (snd (login env st now email password salt draw)))"
proof -
  have "accounts_ok (st_inner (snd (login_commit env st now key ok up aid draw)))"
    if "ok \<longrightarrow> aid |\<in>| fmdom (email_by_id (st_inner st))" for key ok up aid
    using login_commit_kept [OF that] assms unfolding kept_def by blast
  moreover have "ac_account_id acct |\<in>| fmdom (email_by_id (st_inner st))"
    if "fmlookup (by_email (st_inner st)) key = Some acct" for key acct
    using ids_ok_dom that assms unfolding accounts_ok_def by blast
  ultimately show ?thesis using assms by (simp add: login_cases Let_def split: option.split)
qed

lemma sample_signed_in_ok: "accounts_ok (st_inner sample_signed_in)"
  unfolding sample_signed_in_def by (intro login_ok sample_accounts_ok)

definition sample_two_sessions :: account_store where
  "sample_two_sessions = snd (login sample_env sample_signed_in 20 ''a@x'' ''password'' None [7])"

lemma sample_two_sessions_ok: "accounts_ok (st_inner sample_two_sessions)"
  unfolding sample_two_sessions_def by (intro login_ok sample_signed_in_ok)

theorem change_password_revokes_others_witness:
  "account_for_session sample_env
     (snd (change_password sample_env sample_two_sessions 30 ''06'' ''password'' ''passw0rd'' (Some [9]))) 30 ''07'' = None"
proof -
  have "fst (change_password sample_env sample_two_sessions 30 ''06'' ''password'' ''passw0rd'' (Some [9])) = Ok ''04''"
    "account_for_session sample_env sample_two_sessions 30 ''07'' = Some ''04''"
    "token_hash sample_env ''07'' \<noteq> token_hash sample_env ''06''" by code_simp+
  then show ?thesis
    using change_password_revokes_others [OF sample_two_sessions_ok fst_step] by simp
qed

text \<open>
  A reset by recovery or emailed code accepts only a code that verifies against the
  recovery hash or an unexpired reset token of that email; it then replaces the password and
  the recovery hash, drops the reset token, and signs out every session of the account while
  leaving all other accounts' sessions alone, so the code is spent: it works again only if it
  also matches the fresh recovery hash.
\<close>

theorem reset_password_spends_code:
  assumes step: "reset_password env st now email rcode new_password s1 d2 s2 = (Ok new_code, st')"
  shows "\<exists>acct acct'. fmlookup (by_email (st_inner st)) (normalize_email email) = Some acct \<and>
    reset_code_ok env now (ac_recovery_phc acct, ac_reset_token acct) rcode \<and>
    fmlookup (by_email (st_inner st')) (normalize_email email) = Some acct' \<and>
    hash_password env s1 new_password = Ok (case ac_pw acct' of Argon2 phc \<Rightarrow> phc | Pbkdf2 _ _ \<Rightarrow> []) \<and>
    new_recovery_code env d2 s2 = Ok (new_code, the (ac_recovery_phc acct')) \<and> ac_reset_token acct' = None \<and>
    (\<forall>later rcode'. reset_code_ok env later (ac_recovery_phc acct', ac_reset_token acct') rcode' \<longleftrightarrow>
       env_argon2_verify env (the (ac_recovery_phc acct')) (as_bytes (normalize_recovery_code rcode'))) \<and>
    (\<forall>t tok. account_for_session env st' t tok =
       (if account_for_session env st t tok = Some (ac_account_id acct) then None else account_for_session env st t tok))"
proof -
  let ?key = "normalize_email email"
  obtain secrets phc nphc where read: "reset_read env st now ?key = Ok secrets" "reset_code_ok env now secrets rcode"
    and phc: "hash_password env s1 new_password = Ok phc" "new_recovery_code env d2 s2 = Ok (new_code, nphc)"
    and cmt: "reset_commit env st ?key phc new_code nphc = (Ok new_code, st')"
    using step by (auto simp: reset_password_def reset_commit_def Let_def split: if_splits sum.splits option.splits)
  from cmt obtain acct where acct: "fmlookup (by_email (st_inner st)) ?key = Some acct"
    and st': "by_email (st_inner st') = fmupd ?key (acct\<lparr>ac_pw := Argon2 phc, ac_recovery_phc := Some nphc, ac_reset_token := None\<rparr>)
        (by_email (st_inner st))"
      "sessions (st_inner st') = fm_retain (\<lambda>d s. sn_account_id s \<noteq> ac_account_id acct \<or> False) (sessions (st_inner st))"
    by (auto simp: reset_commit_def Let_def split: option.splits)
  have "secrets = (ac_recovery_phc acct, ac_reset_token acct)"
    using read(1) acct by (simp add: reset_read_def split: if_splits)
  then show ?thesis
    using acct read(2) phc revoked_sessions [OF st'(2), of env]
    by (simp add: st'(1) reset_code_ok_def)
qed

theorem reset_password_spends_code_witness:
  "account_for_session sample_env (snd (reset_password sample_env sample_signed_in 30 ''a@x'' ''02'' ''passw0rd''
     (Some [1]) (Some [8]) (Some [3]))) 30 ''06'' = None"
proof -
  have "fst (reset_password sample_env sample_signed_in 30 ''a@x'' ''02'' ''passw0rd'' (Some [1]) (Some [8]) (Some [3])) = Ok ''08''"
    "account_for_session sample_env sample_signed_in 30 ''06'' = Some ''04''"
    "map_option ac_account_id (fmlookup (by_email (st_inner sample_signed_in)) (normalize_email ''a@x'')) = Some ''04''"
    by code_simp+
  with reset_password_spends_code [OF fst_step] show ?thesis by fastforce
qed

text \<open>
  The code is checked outside the lock and not checked again when the new password is
  stored, so it is single-use only in sequence: two requests that read the account before
  either has finished both succeed with the same code, and the later one's password stays.
\<close>

theorem reset_code_race:
  assumes "reset_read env st now1 key = Ok secrets1" "reset_code_ok env now1 secrets1 rcode"
    and "reset_read env st now2 key = Ok secrets2" "reset_code_ok env now2 secrets2 rcode"
  shows "\<exists>st1 st2. reset_commit env st key phc1 code1 nphc1 = (Ok code1, st1) \<and>
    reset_commit env st1 key phc2 code2 nphc2 = (Ok code2, st2) \<and>
    map_option ac_pw (fmlookup (by_email (st_inner st2)) key) = Some (Argon2 phc2)"
proof -
  obtain acct where "fmlookup (by_email (st_inner st)) key = Some acct"
    using assms(1,2) by (cases "fmlookup (by_email (st_inner st)) key")
      (auto simp: reset_read_def reset_code_ok_def split: if_splits)
  then show ?thesis by (simp add: reset_commit_def Let_def)
qed

theorem reset_code_race_witness:
  "\<exists>st1 st2. reset_commit sample_env sample_accounts ''a@x'' ''p1'' ''c1'' ''n1'' = (Ok ''c1'', st1) \<and>
    reset_commit sample_env st1 ''a@x'' ''p2'' ''c2'' ''n2'' = (Ok ''c2'', st2) \<and>
    map_option ac_pw (fmlookup (by_email (st_inner st2)) ''a@x'') = Some (Argon2 ''p2'')"
proof -
  have r: "reset_read sample_env sample_accounts 30 ''a@x'' = Ok (Some ''h02'', None)"
    "reset_code_ok sample_env 30 (Some ''h02'', None) ''02''" by code_simp+
  show ?thesis by (rule reset_code_race [OF r r])
qed

section \<open>Lockout\<close>

type_synonym attempt = "int \<times> string \<times> bytes option \<times> bytes"

fun login_attempts ::
    "account_env \<Rightarrow> account_store \<Rightarrow> string \<Rightarrow> attempt list \<Rightarrow>
     (account_error, string \<times> string \<times> int) result list \<times> account_store" where
  "login_attempts env st email [] = ([], st)"
| "login_attempts env st email ((t, password, salt, draw) # rest) =
     (let (r, st1) = login env st t email password salt draw; (rs, st2) = login_attempts env st1 email rest
      in (r # rs, st2))"

definition wrong_password :: "account_env \<Rightarrow> account_store \<Rightarrow> string \<Rightarrow> string \<Rightarrow> bool" where
  "wrong_password env st key password \<longleftrightarrow>
     (\<forall>acct. fmlookup (by_email (st_inner st)) key = Some acct \<longrightarrow> \<not> pw_verify env (ac_pw acct) password)"

lemma login_wrong:
  assumes "wrong_password env st (normalize_email email) password"
    and "\<not> key_locked (login_fails (st_inner st)) (normalize_email email) t (env_window_ms env) (env_max_fails env)"
  shows "login env st t email password salt draw = (Err BadCredentials, memo st ((st_inner st)\<lparr>login_fails :=
    note_failure t (env_window_ms env) (normalize_email email) (login_fails (st_inner st))\<rparr>))"
  using assms by (simp add: login_cases Let_def login_commit_def wrong_password_def split: option.split)

lemma login_too_many:
  "fst (login env st t email password salt draw) = Err TooManyAttempts \<longleftrightarrow>
     key_locked (login_fails (st_inner st)) (normalize_email email) t (env_window_ms env) (env_max_fails env)"
  by (simp add: login_cases Let_def login_commit_def split: option.split)

lemma wrong_password_memo:
  "by_email i = by_email (st_inner st) \<Longrightarrow> wrong_password env (memo st i) key pw = wrong_password env st key pw"
  by (simp add: wrong_password_def)

lemma login_attempts_counted:
  assumes "fmlookup (login_fails (st_inner st)) (normalize_email email) = Some \<lparr>lt_fails = n, lt_window_start_ms = t0\<rparr>"
    and "n + length as \<le> env_max_fails env" "env_max_fails env \<le> u32_max"
    and "\<forall>(t, pw, _)\<in>set as. i64_saturating_sub t t0 \<le> env_window_ms env \<and> wrong_password env st (normalize_email email) pw"
  shows "(\<forall>r\<in>set (fst (login_attempts env st email as)). r = Err BadCredentials) \<and>
    fmlookup (login_fails (st_inner (snd (login_attempts env st email as)))) (normalize_email email) =
      Some \<lparr>lt_fails = n + length as, lt_window_start_ms = t0\<rparr>"
  using assms
proof (induction as arbitrary: st n)
  case (Cons a as)
  obtain t pw salt draw where a: "a = (t, pw, salt, draw)" by (cases a)
  let ?key = "normalize_email email"
  let ?st = "memo st ((st_inner st)\<lparr>login_fails := note_failure t (env_window_ms env) ?key (login_fails (st_inner st))\<rparr>)"
  have "\<not> key_locked (login_fails (st_inner st)) ?key t (env_window_ms env) (env_max_fails env)"
    using Cons.prems(1,2) by (simp add: key_locked_def throttle_locked_def)
  then have step: "login env st t email pw salt draw = (Err BadCredentials, ?st)"
    using Cons.prems(4) a by (simp add: login_wrong)
  have n: "u32_saturating_add n (Suc 0) = Suc n"
    using Cons.prems(2,3) by (simp add: u32_saturating_add_def)
  have "fmlookup (login_fails (st_inner ?st)) ?key = Some \<lparr>lt_fails = Suc n, lt_window_start_ms = t0\<rparr>"
    using note_failure_next [OF Cons.prems(1), of t "env_window_ms env"] Cons.prems(4) a by (simp add: n)
  from Cons.IH [OF this] Cons.prems show ?case
    by (auto simp: a step wrong_password_memo split: prod.split)
qed simp



end
