(* ===== verification/Enrollment.thy ===== *)
theory Enrollment
  imports AccountsProps
begin

text \<open>
  Children, devices and guardians: who may see which child, how a device is bound to one, and
  that the whole registry survives a restart. The fan-out of an alert to guardians and the
  filter of a guardian's own stream are two queries of the same registry; the locale
  \<open>alert_routing\<close> states that they agree, which is what the relay relies on.
\<close>

section \<open>Routing\<close>

locale alert_routing =
  fixes registry_ok :: "'s \<Rightarrow> bool"
    and fan_out :: "'s \<Rightarrow> string \<Rightarrow> string fset"
    and scope_devices :: "'s \<Rightarrow> string \<Rightarrow> string fset"
  assumes agree: "registry_ok s \<Longrightarrow> trim d = d \<Longrightarrow> g |\<in>| fan_out s d \<longleftrightarrow> d |\<in>| scope_devices s g"
    and untrimmed: "fan_out s (trim d) = fan_out s d"
begin

lemma delivered_iff_in_scope: "registry_ok s \<Longrightarrow> g |\<in>| fan_out s d \<longleftrightarrow> trim d |\<in>| scope_devices s g"
  using agree [of s "trim d" g] untrimmed by simp

lemma unseen_device_silent:
  "registry_ok s \<Longrightarrow> (\<And>g. trim d |\<notin>| scope_devices s g) \<Longrightarrow> fan_out s d = {||}"
  using delivered_iff_in_scope by (metis all_not_fin_conv)

end

definition guardian_devices :: "account_store \<Rightarrow> string \<Rightarrow> string fset" where
  "guardian_devices st account_id = gsc_device_ids (fold (scope_add account_id)
     (map snd (sorted_list_of_fmap (children (st_inner st)))) \<lparr>gsc_child_ids = {||}, gsc_device_ids = {||}\<rparr>)"

definition registry_ok :: "account_store \<Rightarrow> bool" where
  "registry_ok st \<longleftrightarrow> accounts_ok (st_inner st)"

lemma scope_fold_ids:
  "c |\<in>| gsc_child_ids (fold (scope_add a) ks sc) \<longleftrightarrow>
     c |\<in>| gsc_child_ids sc \<or> (\<exists>k\<in>set ks. a |\<in>| ch_guardians k \<and> ch_child_id k = c)"
  by (induction ks arbitrary: sc) (auto simp: scope_add_def)

lemma scope_fold_devices:
  "d |\<in>| gsc_device_ids (fold (scope_add a) ks sc) \<longleftrightarrow>
     d |\<in>| gsc_device_ids sc \<or> (\<exists>k\<in>set ks. a |\<in>| ch_guardians k \<and> ch_device_id k = d \<and> d \<noteq> [])"
  by (induction ks arbitrary: sc) (auto simp: scope_add_def)

lemma registry_children: "k \<in> set (map snd (sorted_list_of_fmap m)) \<longleftrightarrow> (\<exists>c. fmlookup m c = Some k)"
  by (force simp: set_sorted_list_of_fmap image_iff)

lemma guardian_devices_iff:
  "d |\<in>| guardian_devices st g \<longleftrightarrow>
     (\<exists>c k. fmlookup (children (st_inner st)) c = Some k \<and> g |\<in>| ch_guardians k \<and> ch_device_id k = d \<and> d \<noteq> [])"
proof -
  have "(\<exists>k\<in>set (map snd (sorted_list_of_fmap (children (st_inner st)))). g |\<in>| ch_guardians k \<and> ch_device_id k = d \<and> d \<noteq> []) \<longleftrightarrow>
      (\<exists>c k. fmlookup (children (st_inner st)) c = Some k \<and> g |\<in>| ch_guardians k \<and> ch_device_id k = d \<and> d \<noteq> [])"
    unfolding Bex_def registry_children by blast
  then show ?thesis unfolding guardian_devices_def scope_fold_devices by simp
qed

lemma guardians_for_device_iff:
  assumes "accounts_ok (st_inner st)"
  shows "g |\<in>| guardians_for_device st d \<longleftrightarrow>
    (\<exists>c k. fmlookup (children (st_inner st)) c = Some k \<and> g |\<in>| ch_guardians k \<and> ch_device_id k = trim d)"
proof -
  have iff: "fmlookup (device_to_child (st_inner st)) (trim d) = Some c \<longleftrightarrow>
      (\<exists>k. fmlookup (children (st_inner st)) c = Some k \<and> ch_device_id k = trim d)" for c
    using assms by (simp add: accounts_ok_def devices_ok_def)
  show ?thesis
  proof (cases "fmlookup (device_to_child (st_inner st)) (trim d)")
    case None
    then show ?thesis using iff by (simp add: guardians_for_device_def)
  next
    case (Some c)
    then obtain k where k: "fmlookup (children (st_inner st)) c = Some k" "ch_device_id k = trim d" using iff by blast
    have uniq: "c' = c" if "fmlookup (children (st_inner st)) c' = Some k'" "ch_device_id k' = trim d" for c' k'
      using iff [of c'] that Some by simp
    have "guardians_for_device st d = ch_guardians k" using Some k by (simp add: guardians_for_device_def)
    then show ?thesis using k uniq by (metis option.inject)
  qed
qed

interpretation routing: alert_routing registry_ok guardians_for_device guardian_devices
proof
  show "g |\<in>| guardians_for_device s d \<longleftrightarrow> d |\<in>| guardian_devices s g" if ok: "registry_ok s" and d: "trim d = d" for s d g
  proof -
    have acc: "accounts_ok (st_inner s)" using ok by (simp add: registry_ok_def)
    moreover have "ch_device_id k \<noteq> []" if "fmlookup (children (st_inner s)) c = Some k" for c k
      using acc that by (simp add: accounts_ok_def devices_ok_def)
    ultimately show ?thesis by (auto simp: guardians_for_device_iff guardian_devices_iff d)
  qed
  show "guardians_for_device s (trim d) = guardians_for_device s d" for s d
    by (simp add: guardians_for_device_def)
qed

section \<open>Properties\<close>

text \<open>
  Claim C17. Every store reachable from an empty one, through any interleaving of the service's
  critical sections and with fresh random identifiers, is consistent: the account indexes
  mirror each other, each device belongs to exactly one child and each child to one device,
  and every session, pairing code and guardian set names only existing accounts, with no
  child left without a guardian.
\<close>

theorem reachable_accounts_consistent:
  assumes "acct_reach env s"
  shows "accounts_ok (st_inner (sys_store s))"
proof -
  have "system_ok s"
    using assms
  proof (induction rule: acct_reach.induct)
    case (fresh f)
    have "st_inner (account_store_new\<lparr>st_file := f\<rparr>) = st_inner account_store_new" by simp
    then show ?case using sample_new_ok by (simp add: system_ok_def)
  next
    case (step s s')
    then show ?case using system_step_ok by blast
  qed
  then show ?thesis by (simp add: system_ok_def)
qed

theorem reachable_accounts_consistent_witness: "accounts_ok (st_inner sample_accounts)"
proof -
  have "account_id_fresh (st_inner account_store_new) [4]"
    by (simp add: account_id_fresh_def account_store_new_def accounts_inner_default_def)
  from acct_step.create [OF this, of sample_env "[]" "''A@x''" "''password''" "Some [1]" "Some [2]" "Some [3]" "[5]"]
  have "acct_reach sample_env \<lparr>sys_store = sample_accounts, sys_pending = []\<rparr>"
    using acct_reach.fresh [of sample_env None] acct_reach.step by (simp add: sample_accounts_def account_store_new_def)
  from reachable_accounts_consistent [OF this] show ?thesis by simp
qed

text \<open>
  The two ways an alert reaches a guardian agree: in a consistent store the accounts
  an alert for a device fans out to are exactly those whose own session scope contains the
  device, and the scope of a live session lists exactly the children the account guards.
\<close>

theorem fan_out_matches_scope:
  assumes ok: "accounts_ok (st_inner st)" and live: "account_for_session env st now token = Some g"
  shows "\<exists>scope. guardian_scope_of env st now token = Some scope \<and>
    (\<forall>d. g |\<in>| guardians_for_device st d \<longleftrightarrow> trim d |\<in>| gsc_device_ids scope) \<and>
    (\<forall>c. c |\<in>| gsc_child_ids scope \<longleftrightarrow>
       (\<exists>k. fmlookup (children (st_inner st)) c = Some k \<and> g |\<in>| ch_guardians k))"
proof -
  let ?scope = "fold (scope_add g) (map snd (sorted_list_of_fmap (children (st_inner st)))) \<lparr>gsc_child_ids = {||}, gsc_device_ids = {||}\<rparr>"
  have "guardian_scope_of env st now token = Some ?scope"
    using live by (auto simp: guardian_scope_of_def account_for_session_def split: option.splits if_splits)
  moreover have "g |\<in>| guardians_for_device st d \<longleftrightarrow> trim d |\<in>| gsc_device_ids ?scope" for d
    using routing.delivered_iff_in_scope [of st g d] ok by (simp add: registry_ok_def guardian_devices_def)
  moreover have "c |\<in>| gsc_child_ids ?scope \<longleftrightarrow> (\<exists>k. fmlookup (children (st_inner st)) c = Some k \<and> g |\<in>| ch_guardians k)" for c
  proof -
    have "(\<exists>k\<in>set (map snd (sorted_list_of_fmap (children (st_inner st)))). g |\<in>| ch_guardians k \<and> ch_child_id k = c) \<longleftrightarrow>
        (\<exists>k. fmlookup (children (st_inner st)) c = Some k \<and> g |\<in>| ch_guardians k)"
      unfolding Bex_def registry_children using ok by (auto simp: accounts_ok_def devices_ok_def)
    then show ?thesis unfolding scope_fold_ids by simp
  qed
  ultimately show ?thesis by blast
qed

definition sample_family :: account_store where
  "sample_family = snd (add_child sample_env sample_signed_in 30 ''06'' ''Kim'' '' tablet '' [8])"

lemma sample_family_ok: "accounts_ok (st_inner sample_family)"
proof -
  have "child_id_fresh (st_inner sample_signed_in) [8]" unfolding child_id_fresh_def by code_simp
  from add_child_kept [OF this, of sample_env 30 "''06''" "''Kim''" "'' tablet ''"] sample_signed_in_ok
  show ?thesis by (simp add: kept_def sample_family_def)
qed

theorem fan_out_matches_scope_witness:
  "\<exists>scope. guardian_scope_of sample_env sample_family 30 ''06'' = Some scope \<and> ''tablet'' |\<in>| gsc_device_ids scope"
proof -
  have "account_for_session sample_env sample_family 30 ''06'' = Some ''04''"
    "''04'' |\<in>| guardians_for_device sample_family ''tablet''" "trim ''tablet'' = ''tablet''" by code_simp+
  then show ?thesis using fan_out_matches_scope [OF sample_family_ok] by metis
qed

lemma children_frames:
  "children (st_inner (snd (create_account env st email password s1 d2 s2 id_draw family_draw))) = children (st_inner st)"
  "children (st_inner (snd (login_commit env st now key ok upgraded aid token_draw))) = children (st_inner st)"
  "children (st_inner (snd (change_password_commit env st token aid phc))) = children (st_inner st)"
  "children (st_inner (snd (reset_commit env st key phc ncode nphc))) = children (st_inner st)"
  "children (st_inner (snd (request_reset_read env st now key))) = children (st_inner st)"
  "children (st_inner (snd (request_reset_commit env st now key rcode phc))) = children (st_inner st)"
  "children (st_inner (snd (create_pair_code env st now token name draw))) = children (st_inner st)"
  "children (st_inner (snd (staff_clear_lockout env st email))) = children (st_inner st)"
  by (simp_all add: create_account_def login_commit_def change_password_commit_def reset_commit_def request_reset_read_def
      request_reset_commit_def create_pair_code_def staff_clear_lockout_def Let_def split: sum.split option.split)

lemma add_child_children:
  assumes "child_id_fresh (st_inner st) id_draw" "fmlookup (children (st_inner st)) c = Some k"
  shows "fmlookup (children (st_inner (snd (add_child env st now token name device id_draw)))) c = Some k"
  using assms by (auto simp: add_child_def child_id_fresh_def Let_def split: sum.split option.split)

lemma redeem_children:
  assumes "child_id_fresh (st_inner st) id_draw" "fmlookup (children (st_inner st)) c = Some k"
  shows "fmlookup (children (st_inner (snd (redeem_pair_code env st now pcode device id_draw token_draw)))) c = Some k"
proof (cases "fst (redeem_pair_code env st now pcode device id_draw token_draw)")
  case (Inl e)
  then show ?thesis using redeem_failure [OF Inl] assms(2) by (simp add: Let_def)
next
  case (Inr res)
  then show ?thesis using assms by (elim redeem_success) (auto simp: child_id_fresh_def)
qed

lemma assign_children:
  assumes "fmlookup (children (st_inner st)) c = Some k"
  shows "fmlookup (children (st_inner (snd (assign_guardian env st now token child guardian)))) c = Some k \<or>
    (\<exists>caller. account_for_token env (st_inner st) now token = Ok caller \<and> caller |\<in>| ch_guardians k \<and>
       guardian |\<in>| fmdom (email_by_id (st_inner st)) \<and>
       fmlookup (children (st_inner (snd (assign_guardian env st now token child guardian)))) c =
         Some (k\<lparr>ch_guardians := finsert guardian (ch_guardians k)\<rparr>))"
  using assms by (auto simp: assign_guardian_def Let_def split: sum.split option.split)

text \<open>
  Guardianship only ever grows and only from inside: no step of the service removes a
  child, rebinds its device or moves it to another family, and a step that changes a child's
  guardian set adds one existing account on behalf of a live session whose account already
  guards the child.
\<close>

theorem guardians_change_only_from_inside:
  assumes "acct_step env s s'" "fmlookup (children (st_inner (sys_store s))) c = Some k"
  shows "\<exists>k'. fmlookup (children (st_inner (sys_store s'))) c = Some k' \<and>
    (k' = k \<or> (\<exists>now token caller g. account_for_session env (sys_store s) now token = Some caller \<and>
       caller |\<in>| ch_guardians k \<and> g |\<in>| fmdom (email_by_id (st_inner (sys_store s))) \<and>
       k' = k\<lparr>ch_guardians := finsert g (ch_guardians k)\<rparr>))"
  using assms
proof (cases rule: acct_step.cases)
  case (request_begin st now email go st' ps)
  then show ?thesis using assms(2) children_frames(5) [of env st now "normalize_email email"] by simp
next
  case (add_child st id_draw ps now token name device)
  then show ?thesis using assms(2) add_child_children by simp
next
  case (redeem st id_draw ps now pcode device token_draw)
  then show ?thesis using assms(2) redeem_children by simp
next
  case (assign st ps now token child guardian)
  then show ?thesis using assms(2) assign_children [of st c k env now token child guardian]
    by (simp add: account_for_session_iff) blast
qed (use assms(2) in \<open>simp_all add: children_frames\<close>)

theorem guardians_change_only_from_inside_witness:
  "\<exists>k'. fmlookup (children (st_inner (snd (staff_clear_lockout sample_env sample_family ''a@x'')))) ''08'' = Some k' \<and>
     ''04'' |\<in>| ch_guardians k'"
proof -
  have "map_option ch_guardians (fmlookup (children (st_inner sample_family)) ''08'') = Some {|''04''|}" by code_simp
  then obtain k where k: "fmlookup (children (st_inner sample_family)) ''08'' = Some k" "ch_guardians k = {|''04''|}" by auto
  have "fmlookup (children (st_inner (sys_store \<lparr>sys_store = sample_family, sys_pending = []\<rparr>))) ''08'' = Some k"
    using k(1) by simp
  from guardians_change_only_from_inside [OF acct_step.clear_lockout [of sample_env sample_family "[]" "''a@x''"] this]
  obtain k' where "fmlookup (children (st_inner (snd (staff_clear_lockout sample_env sample_family ''a@x'')))) ''08'' = Some k'"
    "k' = k \<or> (\<exists>g. k' = k\<lparr>ch_guardians := finsert g (ch_guardians k)\<rparr>)" by auto
  moreover from this(2) k(2) have "''04'' |\<in>| ch_guardians k'" by (elim disjE exE) simp_all
  ultimately show ?thesis by blast
qed

text \<open>
  A pairing code is good for one device: redeeming it binds an unbound device to a new
  child of the family that issued the code, with the issuer as its only guardian; the device
  token handed out, and nothing that hashes differently, then authenticates the device; and
  the code is gone, so no later attempt with it succeeds at any time from any device.
\<close>

theorem pairing_code_single_use:
  assumes sha: "\<And>x. env_sha256 env x \<noteq> []"
    and step: "redeem_pair_code env st now pcode device id_draw token_draw = (Ok (child, family, dtoken), st')"
  shows "\<exists>rec. fmlookup (pair_codes (st_inner st)) (env_to_uppercase env (trim pcode)) = Some rec \<and>
    session_live (pc_issued_ms rec) now pair_code_ttl_ms \<and> family = pc_family_id rec \<and>
    child_for_device st device = None \<and>
    child_for_device st' device = Some (child, family, pc_child_name rec) \<and>
    guardians_for_device st' device = {|pc_account_id rec|} \<and>
    (\<forall>tok. verify_device_token env st' device tok \<longleftrightarrow> token_hash env tok = token_hash env dtoken) \<and>
    (\<forall>later device2 d t. \<not> (\<exists>r. fst (redeem_pair_code env st' later pcode device2 d t) = Ok r))"
proof -
  have "fst (redeem_pair_code env st now pcode device id_draw token_draw) = Ok (child, family, dtoken)"
    using step by simp
  then obtain rec where rec: "fmlookup (pair_codes (st_inner st)) (env_to_uppercase env (trim pcode)) = Some rec"
      "session_live (pc_issued_ms rec) now pair_code_ttl_ms" "trim device |\<notin>| fmdom (device_to_child (st_inner st))"
    and res: "child = hex id_draw" "family = pc_family_id rec" "dtoken = hex token_draw"
    and st': "st_inner st' = (st_inner st)
       \<lparr>device_to_child := fmupd (trim device) child (device_to_child (st_inner st)),
        children := fmupd child \<lparr>ch_child_id = child, ch_family_id = family,
          ch_name = pc_child_name rec, ch_device_id = trim device, ch_guardians = {|pc_account_id rec|},
          ch_device_token_sha256 = token_hash env dtoken\<rparr> (children (st_inner st)),
        pair_codes := fmdrop (env_to_uppercase env (trim pcode)) (pair_codes (st_inner st)),
        redeem_fails := fmdrop redeem_throttle_key (redeem_fails (st_inner st))\<rparr>"
    using step by (elim redeem_success) auto
  have gone: "fmlookup (pair_codes (st_inner st')) (env_to_uppercase env (trim pcode)) = None"
    by (simp add: st')
  have "\<not> (\<exists>r. fst (redeem_pair_code env st' later pcode device2 d t) = Ok r)" for later device2 d t
    using gone by (auto elim: redeem_success)
  moreover have "token_hash env dtoken \<noteq> []" using sha by (simp add: token_hash_def)
  moreover have "fmlookup (device_to_child (st_inner st)) (trim device) = None"
    using rec(3) by (simp add: fmdom_notD)
  ultimately show ?thesis
    using rec(1,2) res(2)
    by (simp add: child_for_device_def guardians_for_device_def verify_device_token_def st')
qed

definition sample_code_issued :: account_store where
  "sample_code_issued = account_store_new\<lparr>st_inner := accounts_inner_default\<lparr>pair_codes := fmupd ''AB''
     \<lparr>pc_account_id = ''04'', pc_family_id = ''05'', pc_child_name = ''Kim'', pc_issued_ms = 30\<rparr> fmempty\<rparr>\<rparr>"

theorem pairing_code_single_use_witness:
  "child_for_device (snd (redeem_pair_code sample_env sample_code_issued 40 ''ab'' ''phone'' [8] [9])) ''phone'' =
     Some (''08'', ''05'', ''Kim'')"
proof -
  have t: "trim ''ab'' = ''ab''" "trim ''phone'' = ''phone''" "to_ascii_uppercase ''ab'' = ''AB''"
    "hex [8] = ''08''" "hex [9] = ''09''" "session_live 30 40 pair_code_ttl_ms" by code_simp+
  have r: "fst (redeem_pair_code sample_env sample_code_issued 40 ''ab'' ''phone'' [8] [9]) = Ok (''08'', ''05'', ''09'')"
    "map_option pc_child_name (fmlookup (pair_codes (st_inner sample_code_issued)) (env_to_uppercase sample_env (trim ''ab''))) =
       Some ''Kim''"
    by (simp_all add: redeem_pair_code_def Let_def t sample_code_issued_def account_store_new_def accounts_inner_default_def
        key_locked_def sample_env_def hex_digits_def)
  have "env_sha256 sample_env x \<noteq> []" for x by (simp add: sample_env_def)
  from pairing_code_single_use [OF this fst_step [OF r(1)]] r(2) show ?thesis by auto
qed

end
