(* ===== verification/DeviceAuth.thy ===== *)
theory DeviceAuth
  imports Enrollment
begin

text \<open>
  Device credentials on the data plane: \<open>bulwark-server/src/auth.rs\<close>. A request carries two
  metadata headers, of which a value may be missing or not printable; the account store is the
  shared one of \<open>Accounts\<close>.
\<close>

section \<open>Definitions\<close>

type_synonym status = "status_code \<times> string"

datatype header_value = HeaderText string | HeaderOpaque

type_synonym metadata_map = "(string, header_value) fmap"

record device_principal =
  dp_device_id :: string
  dp_child_id :: string
  dp_family_id :: string

definition device_id_header :: string where
  "device_id_header = ''x-bulwark-device-id''"

definition device_token_header :: string where
  "device_token_header = ''x-bulwark-device-token''"

definition metadata_str :: "metadata_map \<Rightarrow> string \<Rightarrow> (status, string) result" where
  "metadata_str md key =
     (case fmlookup md key of
        None \<Rightarrow> Err (Unauthenticated, ''missing '' @ key)
      | Some HeaderOpaque \<Rightarrow> Err (Unauthenticated, ''invalid '' @ key)
      | Some (HeaderText s) \<Rightarrow> Ok s)"

definition legacy_grace_probe :: string where
  "legacy_grace_probe = ''!bulwark-production-requires-pairing!''"

definition verify_device_token_strict :: "account_env \<Rightarrow> account_store \<Rightarrow> string \<Rightarrow> string \<Rightarrow> bool" where
  "verify_device_token_strict env st device_id token \<longleftrightarrow>
     \<not> verify_device_token env st device_id legacy_grace_probe \<and> verify_device_token env st device_id token"

definition authenticate_device ::
    "account_env \<Rightarrow> account_store \<Rightarrow> metadata_map \<Rightarrow> string option \<Rightarrow> (status, device_principal) result" where
  "authenticate_device env st md claimed_device_id =
     (case metadata_str md device_id_header of
        Inl e \<Rightarrow> Err e
      | Inr raw_id \<Rightarrow>
     (case metadata_str md device_token_header of
        Inl e \<Rightarrow> Err e
      | Inr raw_token \<Rightarrow>
          (let device_id = trim raw_id; token = trim raw_token
           in if device_id = [] \<or> token = [] then Err (Unauthenticated, ''device credentials are required'')
              else if (case claimed_device_id of None \<Rightarrow> False | Some c \<Rightarrow> trim c \<noteq> [] \<and> trim c \<noteq> device_id)
              then Err (PermissionDenied, ''payload device_id does not match authenticated device'')
              else if \<not> verify_device_token_strict env st device_id token
              then Err (Unauthenticated, ''unknown, legacy-unpaired, or invalid device credential'')
              else (case child_for_device st device_id of
                      None \<Rightarrow> Err (Unauthenticated, ''device is not enrolled'')
                    | Some (child_id, family_id, _) \<Rightarrow>
                        Ok \<lparr>dp_device_id = device_id, dp_child_id = child_id, dp_family_id = family_id\<rparr>))))"

definition authenticate_device_metadata ::
    "account_env \<Rightarrow> account_store \<Rightarrow> metadata_map \<Rightarrow> (status, device_principal) result" where
  "authenticate_device_metadata env st md = authenticate_device env st md None"

section \<open>What a credential proves\<close>

text \<open>
  The strict check accepts a device exactly if it is enrolled with a credential of its own and the
  token has that credential's digest; enrolments from before credentials are refused.
\<close>

definition holds_credential :: "account_env \<Rightarrow> account_store \<Rightarrow> string \<Rightarrow> string \<Rightarrow> child_rec \<Rightarrow> bool" where
  "holds_credential env st device token c \<longleftrightarrow>
     (\<exists>child_id. fmlookup (device_to_child (st_inner st)) (trim device) = Some child_id \<and>
        fmlookup (children (st_inner st)) child_id = Some c) \<and>
     ch_device_token_sha256 c \<noteq> [] \<and> token_hash env token = ch_device_token_sha256 c \<and>
     token_hash env legacy_grace_probe \<noteq> ch_device_token_sha256 c"

lemma strict_iff: "verify_device_token_strict env st device token \<longleftrightarrow> (\<exists>c. holds_credential env st device token c)"
  by (auto simp: verify_device_token_strict_def verify_device_token_def holds_credential_def split: option.splits if_splits)

lemma holds_credential_child:
  "holds_credential env st device token c \<Longrightarrow>
     child_for_device st device = Some (ch_child_id c, ch_family_id c, ch_name c)"
  by (auto simp: holds_credential_def child_for_device_def)

lemma authenticate_device_Ok:
  assumes "authenticate_device env st md claimed = Ok p"
  obtains c raw_id raw_token where "fmlookup md device_id_header = Some (HeaderText raw_id)"
    "fmlookup md device_token_header = Some (HeaderText raw_token)"
    "holds_credential env st (trim raw_id) (trim raw_token) c"
    "p = \<lparr>dp_device_id = trim raw_id, dp_child_id = ch_child_id c, dp_family_id = ch_family_id c\<rparr>"
proof -
  obtain raw_id raw_token where h: "metadata_str md device_id_header = Ok raw_id" "metadata_str md device_token_header = Ok raw_token"
    using assms by (auto simp: authenticate_device_def)
  with assms have v: "verify_device_token_strict env st (trim raw_id) (trim raw_token)"
    and p: "\<exists>a b n. child_for_device st (trim raw_id) = Some (a, b, n) \<and> p = \<lparr>dp_device_id = trim raw_id, dp_child_id = a, dp_family_id = b\<rparr>"
    by (auto simp: authenticate_device_def Let_def split: if_splits option.splits)
  from v obtain c where c: "holds_credential env st (trim raw_id) (trim raw_token) c" unfolding strict_iff by blast
  from p holds_credential_child [OF c] have "p = \<lparr>dp_device_id = trim raw_id, dp_child_id = ch_child_id c, dp_family_id = ch_family_id c\<rparr>"
    by auto
  moreover have "fmlookup md device_id_header = Some (HeaderText raw_id)" "fmlookup md device_token_header = Some (HeaderText raw_token)"
    using h by (auto simp: metadata_str_def split: option.splits header_value.splits)
  ultimately show ?thesis using that c by blast
qed

lemma holds_credential_trim [simp]:
  "holds_credential env st (trim device) token c \<longleftrightarrow> holds_credential env st device token c"
  "holds_credential env st device (trim token) c \<longleftrightarrow> holds_credential env st device token c"
  by (simp_all add: holds_credential_def token_hash_def)

lemma authenticate_forged:
  assumes "fmlookup md device_id_header = Some (HeaderText device)" "fmlookup md device_token_header = Some (HeaderText token)"
    "\<And>c. \<not> holds_credential env st device token c"
  shows "\<exists>e. authenticate_device env st md claimed = Err e"
proof (cases "authenticate_device env st md claimed")
  case (Inr p)
  then show ?thesis using assms by (elim authenticate_device_Ok) auto
qed blast

section \<open>Calls that need a credential\<close>

text \<open>
  What every service a device calls promises about the credential. \<open>presents\<close> is the device and the
  token a request carries: without a credential behind them the call is refused and changes nothing.
\<close>

locale device_rpc =
  fixes env :: account_env
    and presents :: "'r \<Rightarrow> (string \<times> string) option"
    and run :: "account_store \<Rightarrow> 'r \<Rightarrow> 's \<Rightarrow> (status, 'a) result \<times> 's"
  assumes gate: "presents req = Some (device, token) \<Longrightarrow> (\<And>c. \<not> holds_credential env acc device token c) \<Longrightarrow> \<exists>e. run acc req s = (Err e, s)"
begin

lemma accepted_credential:
  "presents req = Some (device, token) \<Longrightarrow> run acc req s = (Ok a, s') \<Longrightarrow> \<exists>c. holds_credential env acc device token c"
  using gate [of req device token acc s] by auto

lemma removed_device_refused:
  "presents req = Some (device, token) \<Longrightarrow> fmlookup (device_to_child (st_inner acc)) (trim device) = None \<Longrightarrow> \<exists>e. run acc req s = (Err e, s)"
  by (rule gate) (auto simp: holds_credential_def)

lemma forged_calls_no_effect:
  "(\<And>req. req \<in> set reqs \<Longrightarrow> \<exists>device token. presents req = Some (device, token) \<and> (\<forall>c. \<not> holds_credential env acc device token c)) \<Longrightarrow>
   fold (\<lambda>req s. snd (run acc req s)) reqs s = s"
proof (induction reqs)
  case (Cons req reqs)
  from Cons.prems [of req] gate [of req _ _ acc s] have "snd (run acc req s) = s" by fastforce
  then show ?case using Cons by simp
qed simp

end

section \<open>A paired device\<close>

text \<open>A family with one guardian and one tablet, for the samples.\<close>

definition sample_paired :: account_store where
  "sample_paired = account_store_new\<lparr>st_inner := accounts_inner_default
     \<lparr>by_email := fmupd ''a@x'' \<lparr>ac_account_id = ''04'', ac_family_id = ''05'', ac_pw = Argon2 [], ac_recovery_phc = None,
        ac_reset_token = None\<rparr> fmempty,
      email_by_id := fmupd ''04'' ''a@x'' fmempty,
      sessions := fmupd ''013036'' \<lparr>sn_account_id = ''04'', sn_issued_ms = 10\<rparr> fmempty,
      children := fmupd ''08'' \<lparr>ch_child_id = ''08'', ch_family_id = ''05'', ch_name = ''Kim'', ch_device_id = ''tablet'',
        ch_guardians = {|''04''|}, ch_device_token_sha256 = ''013039''\<rparr> fmempty,
      device_to_child := fmupd ''tablet'' ''08'' fmempty\<rparr>\<rparr>"

definition sample_credentials :: metadata_map where
  "sample_credentials = fmupd device_id_header (HeaderText ''tablet'') (fmupd device_token_header (HeaderText ''09'') fmempty)"

lemma sample_paired_ok: "registry_ok sample_paired"
proof -
  have "trim ''tablet'' = ''tablet''" by code_simp
  then show ?thesis
    by (auto simp: registry_ok_def sample_paired_def accounts_inner_default_def accounts_ok_def ids_ok_def devices_ok_def refs_ok_def
        split: if_splits)
qed

lemma sample_paired_principal:
  "authenticate_device_metadata sample_env sample_paired sample_credentials =
     Ok \<lparr>dp_device_id = ''tablet'', dp_child_id = ''08'', dp_family_id = ''05''\<rparr>"
  by code_simp

end
