(* ===== verification/Segments.thy ===== *)
theory Segments
  imports Proto Throttle StrOps
begin

text \<open>
  Retained review clips: \<open>bulwark-video/src/store.rs\<close>. The directory is a finite map from file
  names to bytes; every clip is a pair of files, the bytes and six lines of ownership metadata.
  SHA-256, the clock, the outcome of a write, a stat, a read or a removal, and the listing of
  the directory are parameters.
\<close>

unbundle bit_operations_syntax

section \<open>Definitions\<close>

definition block_ttl_secs :: nat where
  "block_ttl_secs = 24 * 60 * 60"

definition review_ttl_secs :: nat where
  "review_ttl_secs = 6 * 60 * 60"

definition legacy_owner :: string where
  "legacy_owner = ''__legacy_dev_only__''"

datatype retention_mode = RetentionDisabled | RetentionScoped

datatype io_error = InvalidInput string | PermissionRefused string | OsError

record segment_owner =
  so_device_id :: string
  so_child_id :: string
  so_family_id :: string
  so_alert_id :: string

record stored_segment =
  stg_uri :: string
  stg_sha256_hex :: string
  stg_device_id :: string
  stg_expires_at :: nat

record segment_meta =
  sm_created_at :: nat
  sm_ttl_secs :: nat
  sm_device_id :: string
  sm_child_id :: string
  sm_family_id :: string
  sm_alert_id :: string

datatype write_outcome = WriteDone | WriteStops nat | OpenFails

datatype stat_outcome = RegularFile | NotRegular | StatFails

record segment_env =
  sv_sha256 :: "bytes \<Rightarrow> bytes"
  sv_write :: "string \<Rightarrow> bytes \<Rightarrow> write_outcome"
  sv_stat :: "string \<Rightarrow> stat_outcome"
  sv_reads :: "string \<Rightarrow> bool"
  sv_removes :: "string \<Rightarrow> bool"

type_synonym seg_dir = "(string, bytes) fmap"

definition for_device :: "string \<Rightarrow> segment_owner" where
  "for_device device_id = \<lparr>so_device_id = device_id, so_child_id = [], so_family_id = [], so_alert_id = []\<rparr>"

definition owner_validate :: "segment_owner \<Rightarrow> (io_error, unit) result" where
  "owner_validate o' =
     (if trim (so_device_id o') = [] then Err (InvalidInput ''retained segment requires device ownership'')
      else if list_ex (\<lambda>value. CHR 0x0D \<in> set value \<or> CHR 0x0A \<in> set value)
                [so_device_id o', so_child_id o', so_family_id o', so_alert_id o']
      then Err (InvalidInput ''segment ownership metadata contains a newline'')
      else Ok ())"

definition u64_saturating_add :: "nat \<Rightarrow> nat \<Rightarrow> nat" where
  "u64_saturating_add a b = min (a + b) u64_max"

definition meta_expires_at :: "segment_meta \<Rightarrow> nat" where
  "meta_expires_at m = u64_saturating_add (sm_created_at m) (sm_ttl_secs m)"

definition meta_expired :: "segment_meta \<Rightarrow> nat \<Rightarrow> bool" where
  "meta_expired m now \<longleftrightarrow> meta_expires_at m \<le> now"

text \<open>The variable \<open>BULWARK_RETAIN_REVIEW_CLIPS\<close> decides about retention.\<close>

definition default_retention :: "string option \<Rightarrow> retention_mode" where
  "default_retention var =
     (if var \<in> {Some ''1'', Some ''true'', Some ''yes''} then RetentionScoped else RetentionDisabled)"

definition seg_sha256_hex :: "segment_env \<Rightarrow> bytes \<Rightarrow> string" where
  "seg_sha256_hex env bs = hex (sv_sha256 env bs)"

fun le_bytes :: "nat \<Rightarrow> nat \<Rightarrow> bytes" where
  "le_bytes 0 v = []"
| "le_bytes (Suc n) v = word_of_nat v # le_bytes n (v div 256)"

definition opaque_id :: "segment_env \<Rightarrow> string \<Rightarrow> segment_meta \<Rightarrow> string" where
  "opaque_id env sha m =
     seg_sha256_hex env (as_bytes sha @ as_bytes (sm_device_id m) @ as_bytes (sm_child_id m) @
       as_bytes (sm_family_id m) @ as_bytes (sm_alert_id m) @ le_bytes 8 (sm_created_at m))"

definition newline :: string where
  "newline = [CHR 0x0A]"

definition render_meta :: "segment_meta \<Rightarrow> string" where
  "render_meta m =
     show_nat (sm_created_at m) @ newline @ show_nat (sm_ttl_secs m) @ newline @ sm_device_id m @ newline @
     sm_child_id m @ newline @ sm_family_id m @ newline @ sm_alert_id m @ newline"

definition is_hexdigit :: "char \<Rightarrow> bool" where
  "is_hexdigit c \<longleftrightarrow> 48 \<le> code c \<and> code c \<le> 57 \<or> 65 \<le> code c \<and> code c \<le> 70 \<or> 97 \<le> code c \<and> code c \<le> 102"

definition parse_blob_uri :: "string \<Rightarrow> string option" where
  "parse_blob_uri uri =
     (case strip_prefix ''blob://'' uri of
        None \<Rightarrow> None
      | Some ident \<Rightarrow> if length ident = 64 \<and> list_all is_hexdigit ident then Some (to_ascii_lowercase ident) else None)"

text \<open>\<open>str::from_utf8\<close>: which byte strings are UTF-8.\<close>

definition cont_byte :: "char \<Rightarrow> bool" where
  "cont_byte c \<longleftrightarrow> 128 \<le> code c \<and> code c < 192"

fun utf8_ok :: "string \<Rightarrow> bool" where
  "utf8_ok [] = True"
| "utf8_ok (a # s) =
     (if code a < 128 then utf8_ok s
      else if 194 \<le> code a \<and> code a < 224
      then (case s of b # t \<Rightarrow> cont_byte b \<and> utf8_ok t | _ \<Rightarrow> False)
      else if 224 \<le> code a \<and> code a < 240
      then (case s of b # c # t \<Rightarrow> cont_byte b \<and> cont_byte c \<and> (code a = 224 \<longrightarrow> 160 \<le> code b) \<and>
                        (code a = 237 \<longrightarrow> code b < 160) \<and> utf8_ok t | _ \<Rightarrow> False)
      else if 240 \<le> code a \<and> code a < 245
      then (case s of b # c # d # t \<Rightarrow> cont_byte b \<and> cont_byte c \<and> cont_byte d \<and>
                        (code a = 240 \<longrightarrow> 144 \<le> code b) \<and> (code a = 244 \<longrightarrow> code b < 144) \<and> utf8_ok t | _ \<Rightarrow> False)
      else False)"

definition text_of :: "bytes \<Rightarrow> string" where
  "text_of bs = map (\<lambda>b. char_of (unat b)) bs"

definition parse_u64 :: "string \<Rightarrow> nat option" where
  "parse_u64 s =
     (let ds = (case s of [] \<Rightarrow> [] | c # cs \<Rightarrow> if c = CHR ''+'' then cs else s)
      in if ds = [] then None
         else (case digits_val 0 ds of None \<Rightarrow> None | Some n \<Rightarrow> if n \<le> u64_max then Some n else None))"

definition nth_line :: "string list \<Rightarrow> nat \<Rightarrow> string option" where
  "nth_line ls i = (if i < length ls then Some (ls ! i) else None)"

definition line_or_default :: "string list \<Rightarrow> nat \<Rightarrow> string" where
  "line_or_default ls i = (case nth_line ls i of None \<Rightarrow> [] | Some l \<Rightarrow> l)"

definition parse_meta :: "string \<Rightarrow> segment_meta option" where
  "parse_meta s =
     (let ls = lines s
      in case Option.bind (nth_line ls 0) (\<lambda>l. parse_u64 (trim l)) of None \<Rightarrow> None
         | Some created \<Rightarrow>
      (case Option.bind (nth_line ls 1) (\<lambda>l. parse_u64 (trim l)) of None \<Rightarrow> None
         | Some ttl \<Rightarrow>
      (case nth_line ls 2 of None \<Rightarrow> None
         | Some device \<Rightarrow>
             Some \<lparr>sm_created_at = created, sm_ttl_secs = ttl, sm_device_id = device,
                   sm_child_id = line_or_default ls 3, sm_family_id = line_or_default ls 4,
                   sm_alert_id = line_or_default ls 5\<rparr>)))"

definition read_meta :: "segment_env \<Rightarrow> seg_dir \<Rightarrow> string \<Rightarrow> segment_meta option" where
  "read_meta env dir path =
     (case fmlookup dir path of
        None \<Rightarrow> None
      | Some bs \<Rightarrow> if sv_reads env path \<and> utf8_ok (text_of bs) then parse_meta (text_of bs) else None)"

definition read_optional :: "segment_env \<Rightarrow> seg_dir \<Rightarrow> string \<Rightarrow> (io_error, bytes option) result" where
  "read_optional env dir path =
     (if \<not> sv_reads env path then Err OsError else Ok (fmlookup dir path))"

definition write_new_private :: "segment_env \<Rightarrow> seg_dir \<Rightarrow> string \<Rightarrow> bytes \<Rightarrow> (io_error, unit) result \<times> seg_dir" where
  "write_new_private env dir path bs =
     (if path |\<in>| fmdom dir
      then (case sv_stat env path of
              RegularFile \<Rightarrow> (Ok (), dir)
            | NotRegular \<Rightarrow> (Err (PermissionRefused ''refusing non-regular retained-media path''), dir)
            | StatFails \<Rightarrow> (Err OsError, dir))
      else (case sv_write env path bs of
              WriteDone \<Rightarrow> (Ok (), fmupd path bs dir)
            | WriteStops n \<Rightarrow> (Err OsError, fmupd path (take n bs) dir)
            | OpenFails \<Rightarrow> (Err OsError, dir)))"

definition blob_name :: "string \<Rightarrow> string" where
  "blob_name ident = ident @ ''.blob''"

definition meta_name :: "string \<Rightarrow> string" where
  "meta_name ident = ident @ ''.meta''"

definition remove_file :: "segment_env \<Rightarrow> string \<Rightarrow> seg_dir \<Rightarrow> seg_dir" where
  "remove_file env path dir = (if sv_removes env path then fmdrop path dir else dir)"

definition ttl_for_action :: "action \<Rightarrow> nat option" where
  "ttl_for_action act =
     (case act of Block \<Rightarrow> Some block_ttl_secs | Blur \<Rightarrow> Some block_ttl_secs | Mute \<Rightarrow> Some block_ttl_secs
      | Warn \<Rightarrow> Some review_ttl_secs | Log \<Rightarrow> Some review_ttl_secs | _ \<Rightarrow> None)"

definition owner_meta :: "segment_owner \<Rightarrow> nat \<Rightarrow> nat \<Rightarrow> segment_meta" where
  "owner_meta o' now ttl =
     \<lparr>sm_created_at = now, sm_ttl_secs = ttl, sm_device_id = trim (so_device_id o'), sm_child_id = trim (so_child_id o'),
      sm_family_id = trim (so_family_id o'), sm_alert_id = trim (so_alert_id o')\<rparr>"

definition store_scoped_if_allowed ::
    "segment_env \<Rightarrow> retention_mode \<Rightarrow> nat \<Rightarrow> segment_owner \<Rightarrow> category \<Rightarrow> action \<Rightarrow> bytes \<Rightarrow> seg_dir \<Rightarrow>
     (io_error, stored_segment option) result \<times> seg_dir" where
  "store_scoped_if_allowed env mode now o' category act segment dir =
     (if mode = RetentionDisabled \<or> category = CsamSuspected then (Ok None, dir)
      else (case ttl_for_action act of
              None \<Rightarrow> (Ok None, dir)
            | Some ttl \<Rightarrow>
                if segment = [] then (Ok None, dir)
                else (case owner_validate o' of
                        Inl e \<Rightarrow> (Err e, dir)
                      | Inr _ \<Rightarrow>
                          (let sha = seg_sha256_hex env segment;
                               m = owner_meta o' now ttl;
                               opaque = opaque_id env sha m
                           in case write_new_private env dir (blob_name opaque) segment of
                                (Inl e, dir1) \<Rightarrow> (Err e, dir1)
                              | (Inr _, dir1) \<Rightarrow>
                                  (case write_new_private env dir1 (meta_name opaque) (as_bytes (render_meta m)) of
                                     (Inl e, dir2) \<Rightarrow> (Err e, dir2)
                                   | (Inr _, dir2) \<Rightarrow>
                                       (Ok (Some \<lparr>stg_uri = ''blob://'' @ opaque, stg_sha256_hex = sha,
                                                  stg_device_id = sm_device_id m,
                                                  stg_expires_at = meta_expires_at m\<rparr>), dir2))))))"

definition store_if_safe ::
    "segment_env \<Rightarrow> retention_mode \<Rightarrow> nat \<Rightarrow> category \<Rightarrow> action \<Rightarrow> bytes \<Rightarrow> seg_dir \<Rightarrow>
     (io_error, stored_segment option) result \<times> seg_dir" where
  "store_if_safe env mode now category act segment dir =
     store_scoped_if_allowed env mode now (for_device legacy_owner) category act segment dir"

definition read_live_meta :: "segment_env \<Rightarrow> nat \<Rightarrow> string \<Rightarrow> seg_dir \<Rightarrow> segment_meta option \<times> seg_dir" where
  "read_live_meta env now ident dir =
     (case read_meta env dir (meta_name ident) of
        None \<Rightarrow> (None, dir)
      | Some m \<Rightarrow>
          if meta_expired m now
          then (None, remove_file env (meta_name ident) (remove_file env (blob_name ident) dir))
          else (Some m, dir))"

definition seg_load :: "segment_env \<Rightarrow> nat \<Rightarrow> string \<Rightarrow> seg_dir \<Rightarrow> (io_error, bytes option) result \<times> seg_dir" where
  "seg_load env now uri dir =
     (case parse_blob_uri uri of
        None \<Rightarrow> (Ok None, dir)
      | Some ident \<Rightarrow>
          (case read_live_meta env now ident dir of
             (None, dir') \<Rightarrow> (Ok None, dir')
           | (Some m, dir') \<Rightarrow>
               if sm_device_id m \<noteq> legacy_owner then (Ok None, dir')
               else (read_optional env dir' (blob_name ident), dir')))"

definition open_authorized ::
    "segment_env \<Rightarrow> retention_mode \<Rightarrow> nat \<Rightarrow> string \<Rightarrow> string fset \<Rightarrow> seg_dir \<Rightarrow>
     (io_error, bytes option) result \<times> seg_dir" where
  "open_authorized env mode now uri allowed_device_ids dir =
     (if mode = RetentionDisabled then (Ok None, dir)
      else (case parse_blob_uri uri of
              None \<Rightarrow> (Ok None, dir)
            | Some ident \<Rightarrow>
                (case read_live_meta env now ident dir of
                   (None, dir') \<Rightarrow> (Ok None, dir')
                 | (Some m, dir') \<Rightarrow>
                     if sm_device_id m = legacy_owner \<or> sm_device_id m |\<notin>| allowed_device_ids then (Ok None, dir')
                     else (read_optional env dir' (blob_name ident), dir'))))"

text \<open>\<open>Path::extension\<close> and \<open>Path::with_extension\<close> on a plain file name.\<close>

definition path_stem :: "string \<Rightarrow> string" where
  "path_stem name = (let p = rev (dropWhile (\<lambda>c. c \<noteq> CHR ''.'') (rev name)) in butlast p)"

definition path_extension :: "string \<Rightarrow> string option" where
  "path_extension name =
     (if CHR ''.'' \<notin> set name \<or> path_stem name = [] then None
      else Some (rev (takeWhile (\<lambda>c. c \<noteq> CHR ''.'') (rev name))))"

text \<open>One listed entry, \<^const>\<open>None\<close> when the directory stream fails at it.\<close>

fun purge_entries ::
    "segment_env \<Rightarrow> nat \<Rightarrow> string option list \<Rightarrow> nat \<Rightarrow> seg_dir \<Rightarrow> (io_error, nat) result \<times> seg_dir" where
  "purge_entries env now [] purged dir = (Ok purged, dir)"
| "purge_entries env now (None # rest) purged dir = (Err OsError, dir)"
| "purge_entries env now (Some path # rest) purged dir =
     (if path_extension path \<noteq> Some ''meta'' then purge_entries env now rest purged dir
      else if (case read_meta env dir path of None \<Rightarrow> True | Some m \<Rightarrow> meta_expired m now)
      then purge_entries env now rest (Suc purged)
             (remove_file env path (remove_file env (blob_name (path_stem path)) dir))
      else purge_entries env now rest purged dir)"

definition purge_expired ::
    "segment_env \<Rightarrow> nat \<Rightarrow> string option list option \<Rightarrow> seg_dir \<Rightarrow> (io_error, nat) result \<times> seg_dir" where
  "purge_expired env now listing dir =
     (case listing of None \<Rightarrow> (Err OsError, dir) | Some entries \<Rightarrow> purge_entries env now entries 0 dir)"

section \<open>Metadata survives the file\<close>

lemma digits_val_parse: "list_all is_digit s \<Longrightarrow> digits_val acc s = Some (parse_nat_acc acc s)"
  by (induction s arbitrary: acc) (auto simp: is_digit_def mult.commute)

lemma show_nat_all_digits: "list_all is_digit (show_nat n)"
  using show_nat_digits by (auto simp: list_all_iff)

lemma parse_u64_show: "n \<le> u64_max \<Longrightarrow> parse_u64 (show_nat n) = Some n"
proof -
  assume n: "n \<le> u64_max"
  obtain c cs where c: "show_nat n = c # cs" by (cases "show_nat n") auto
  then have "is_digit c" using show_nat_digits [of c n] by simp
  then have "c \<noteq> CHR ''+''" by (auto simp: is_digit_def code_def)
  then show ?thesis
    using n digits_val_parse [OF show_nat_all_digits, of 0 n] parse_show_nat [of n]
    unfolding parse_u64_def c by simp
qed

lemma trim_show_nat [simp]: "trim (show_nat n) = show_nat n"
proof (rule trim_graphic)
  have "graphic c" if "c \<in> set (show_nat n)" for c
    using show_nat_digits [OF that] by (simp add: graphic_def is_digit_def)
  then show "graphic (hd (show_nat n))" "graphic (last (show_nat n))" by simp_all
qed simp

definition line_text :: "string \<Rightarrow> bool" where
  "line_text l \<longleftrightarrow> CHR 0x0A \<notin> set l \<and> CHR 0x0D \<notin> set l"

lemma lines_acc_line:
  "line_text (rev acc) \<Longrightarrow> line_text l \<Longrightarrow> lines_acc acc (l @ newline @ rest) = (rev acc @ l) # lines_acc [] rest"
proof (induction l arbitrary: acc)
  case Nil
  then have "strip_cr (rev acc) = rev acc"
    by (metis last_in_set line_text_def strip_cr_def)
  then show ?case by (simp add: newline_def)
next
  case (Cons c l)
  from Cons.prems have "lines_acc (c # acc) (l @ newline @ rest) = (rev (c # acc) @ l) # lines_acc [] rest"
    by (intro Cons.IH) (auto simp: line_text_def)
  then show ?case using Cons.prems by (auto simp: line_text_def)
qed

lemma lines_Nil [simp]: "lines [] = []"
  by (simp add: lines_def)

lemma lines_line [simp]: "line_text l \<Longrightarrow> lines (l @ newline @ rest) = l # lines rest"
  using lines_acc_line [of "[]" l rest] by (simp add: lines_def line_text_def)

lemma line_text_show [simp]: "line_text (show_nat n)"
  using show_nat_digits [of _ n] by (force simp: line_text_def is_digit_def code_def)

definition meta_ok :: "segment_meta \<Rightarrow> bool" where
  "meta_ok m \<longleftrightarrow> sm_created_at m \<le> u64_max \<and> sm_ttl_secs m \<le> u64_max \<and>
     list_all (\<lambda>l. line_text l \<and> utf8_ok l) [sm_device_id m, sm_child_id m, sm_family_id m, sm_alert_id m]"

lemma meta_roundtrip:
  assumes "meta_ok m"
  shows "parse_meta (render_meta m) = Some m"
proof -
  have t: "line_text (sm_device_id m)" "line_text (sm_child_id m)" "line_text (sm_family_id m)" "line_text (sm_alert_id m)"
    using assms by (simp_all add: meta_ok_def)
  have "lines (render_meta m) = [show_nat (sm_created_at m), show_nat (sm_ttl_secs m), sm_device_id m, sm_child_id m,
      sm_family_id m, sm_alert_id m]"
    using lines_line [OF t(4), of "[]"] by (simp add: render_meta_def t)
  then show ?thesis
    using assms by (simp add: parse_meta_def nth_line_def line_or_default_def parse_u64_show meta_ok_def numeral_2_eq_2
        numeral_3_eq_3 eval_nat_numeral)
qed

lemma text_of_as_bytes [simp]: "text_of (as_bytes s) = s"
  by (induction s) (auto simp: text_of_def as_bytes_def unat_of_nat code_def)

lemma utf8_append: "utf8_ok xs \<Longrightarrow> utf8_ok (xs @ ys) = utf8_ok ys"
proof (induction xs rule: utf8_ok.induct)
  case (2 a s)
  show ?case
  proof (cases "code a < 128")
    case False
    then show ?thesis
      using 2 by (cases s; cases "tl s"; cases "tl (tl s)") (simp_all add: utf8_ok.simps(2) [of a] del: utf8_ok.simps(2) split: if_splits)
  qed (use 2 in simp)
qed simp

lemma utf8_ascii: "is_ascii s \<Longrightarrow> utf8_ok s"
  by (induction s) (auto simp: is_ascii_def)

lemma utf8_show_nat [simp]: "utf8_ok (show_nat n)"
proof (rule utf8_ascii)
  have "code c < 128" if "c \<in> set (show_nat n)" for c
    using show_nat_digits [OF that] by (simp add: is_digit_def)
  then show "is_ascii (show_nat n)" by (simp add: is_ascii_def)
qed

lemma utf8_newline [simp]: "utf8_ok newline"
  by (simp add: newline_def code_def)

lemma render_utf8: "meta_ok m \<Longrightarrow> utf8_ok (render_meta m)"
  by (simp add: render_meta_def meta_ok_def utf8_append)

lemma read_rendered:
  assumes "meta_ok m" "fmlookup dir path = Some (as_bytes (render_meta m))" "sv_reads env path"
  shows "read_meta env dir path = Some m"
  using assms by (simp add: read_meta_def render_utf8 meta_roundtrip)

section \<open>The life of a clip\<close>

lemma trim_start_suffix: "suffix (trim_start s) s"
proof (induction s rule: trim_start.induct)
  case (1 s)
  then show ?case by (cases "ws_head s = 0") (auto simp: trim_start.simps [of s] intro: suffix_order.trans suffix_drop)
qed

lemma set_trim: "set (trim s) \<subseteq> set s"
  using trim_end_prefix [of "trim_start s"] trim_start_suffix [of s]
  by (auto simp: trim_def dest!: set_mono_prefix set_mono_suffix)

lemma line_text_trim: "line_text s \<Longrightarrow> line_text (trim s)"
  using set_trim by (auto simp: line_text_def)

lemma is_hexdigit_hex: "list_all is_hexdigit (hex bs)"
proof (induction bs)
  case (Cons b bs)
  have "is_hexdigit (hex_digits ! i)" if "i < 16" for i
    using that unfolding hex_digits_def
    by (auto simp: is_hexdigit_def code_def less_Suc_eq numeral_eq_Suc)
  then show ?case using Cons hex_nibbles [of b] by simp
qed simp

lemma to_ascii_lowercase_hex [simp]: "to_ascii_lowercase (hex bs) = hex bs"
proof (induction bs)
  case (Cons b bs)
  have "ascii_lower_char (hex_digits ! i) = hex_digits ! i" if "i < 16" for i
    using that unfolding hex_digits_def
    by (auto simp: ascii_lower_char_def code_def less_Suc_eq numeral_eq_Suc)
  then show ?case using Cons hex_nibbles [of b] by (simp add: to_ascii_lowercase_def)
qed simp

lemma parse_blob_uri_hex: "length bs = 32 \<Longrightarrow> parse_blob_uri (''blob://'' @ hex bs) = Some (hex bs)"
  unfolding parse_blob_uri_def strip_prefix_append by (simp add: is_hexdigit_hex)

lemma names_differ [simp]: "blob_name a \<noteq> meta_name b"
proof
  assume "blob_name a = meta_name b"
  then have "last (blob_name a) = last (meta_name b)" by simp
  then show False by (simp add: blob_name_def meta_name_def)
qed

lemma names_differ' [simp]: "meta_name b \<noteq> blob_name a"
  by (rule names_differ [THEN not_sym])

lemma write_new_file:
  assumes "fst (write_new_private env dir path bs) = Ok ()" "path |\<notin>| fmdom dir"
  shows "snd (write_new_private env dir path bs) = fmupd path bs dir"
  using assms by (auto simp: write_new_private_def split: write_outcome.splits)

text \<open>
  A retained clip lives as promised. When storing returns a handle, the item is not
  suspected CSAM, the handle names the owner's device, and it expires at most a day after it was
  stored. Until then, and only until then, opening the handle gives exactly the stored bytes to a
  caller whose devices include the owner's, and nothing to anyone else.
\<close>

theorem retained_clip_lifecycle:
  assumes stored: "store_scoped_if_allowed env RetentionScoped now o' category act segment dir = (Ok (Some seg), dir')"
    and handle: "stg_uri seg = ''blob://'' @ ident"
    and new: "blob_name ident |\<notin>| fmdom dir" "meta_name ident |\<notin>| fmdom dir"
    and readable: "sv_reads env (blob_name ident)" "sv_reads env (meta_name ident)"
    and digest: "\<And>bs. length (sv_sha256 env bs) = 32"
    and utf: "list_all (\<lambda>s. utf8_ok (trim s)) [so_device_id o', so_child_id o', so_family_id o', so_alert_id o']"
    and clock: "now + block_ttl_secs \<le> u64_max"
  shows "category \<noteq> CsamSuspected \<and> stg_device_id seg = trim (so_device_id o') \<and>
    stg_expires_at seg \<le> now + block_ttl_secs \<and>
    fst (open_authorized env RetentionScoped t (stg_uri seg) devices dir') =
      Ok (if t < stg_expires_at seg \<and> stg_device_id seg |\<in>| devices \<and> stg_device_id seg \<noteq> legacy_owner
          then Some segment else None)"
proof -
  obtain ttl where ttl: "ttl_for_action act = Some ttl" and v: "owner_validate o' = Ok ()" "category \<noteq> CsamSuspected"
    using stored by (auto simp: store_scoped_if_allowed_def split: option.splits if_splits sum.splits)
  define m where "m = owner_meta o' now ttl"
  define key where "key = opaque_id env (seg_sha256_hex env segment) m"
  have ttl_le: "ttl \<le> block_ttl_secs"
    using ttl by (auto simp: ttl_for_action_def block_ttl_secs_def review_ttl_secs_def split: action.splits)
  have seg: "seg = \<lparr>stg_uri = ''blob://'' @ key, stg_sha256_hex = seg_sha256_hex env segment,
      stg_device_id = sm_device_id m, stg_expires_at = meta_expires_at m\<rparr>"
    and w: "dir' = snd (write_new_private env (snd (write_new_private env dir (blob_name key) segment)) (meta_name key) (as_bytes (render_meta m)))"
    and ok: "fst (write_new_private env dir (blob_name key) segment) = Ok ()"
      "fst (write_new_private env (snd (write_new_private env dir (blob_name key) segment)) (meta_name key) (as_bytes (render_meta m))) = Ok ()"
    using stored ttl v unfolding m_def key_def
    by (auto simp: store_scoped_if_allowed_def Let_def split: if_splits prod.splits sum.splits)
  have key: "key = ident" using handle by (simp add: seg)
  have d: "dir' = fmupd (meta_name ident) (as_bytes (render_meta m)) (fmupd (blob_name ident) segment dir)"
    using ok new names_differ [of ident ident]
    by (simp add: w key write_new_file [OF ok(1) [unfolded key]] write_new_file)
  have lt: "line_text s" if "s \<in> set [so_device_id o', so_child_id o', so_family_id o', so_alert_id o']" for s
    using v(1) that by (auto simp: owner_validate_def line_text_def split: if_splits)
  have "meta_ok m"
    using lt utf clock ttl_le by (simp add: meta_ok_def m_def owner_meta_def line_text_trim)
  then have rd: "read_meta env dir' (meta_name ident) = Some m" using readable by (intro read_rendered) (simp_all add: d)
  have sel: "stg_device_id seg = sm_device_id m" "stg_expires_at seg = meta_expires_at m" by (simp_all add: seg)
  have u: "parse_blob_uri (stg_uri seg) = Some ident"
    using parse_blob_uri_hex [OF digest] by (simp add: seg key [symmetric] key_def opaque_id_def seg_sha256_hex_def)
  have b: "fmlookup dir' (blob_name ident) = Some segment" by (simp add: d)
  have "fst (open_authorized env RetentionScoped t (stg_uri seg) devices dir') =
      Ok (if t < stg_expires_at seg \<and> stg_device_id seg |\<in>| devices \<and> stg_device_id seg \<noteq> legacy_owner
          then Some segment else None)"
    using readable(1) by (simp add: open_authorized_def u read_live_meta_def rd b meta_expired_def sel read_optional_def not_le)
  then show ?thesis
    using v(2) ttl_le by (simp add: seg m_def owner_meta_def meta_expires_at_def u64_saturating_add_def)
qed

definition sample_seg_env :: segment_env where
  "sample_seg_env = \<lparr>sv_sha256 = (\<lambda>bs. replicate 32 (word_of_nat (length bs))), sv_write = (\<lambda>_ _. WriteDone),
     sv_stat = (\<lambda>_. RegularFile), sv_reads = (\<lambda>_. True), sv_removes = (\<lambda>_. True)\<rparr>"

definition sample_seg_key :: string where
  "sample_seg_key = opaque_id sample_seg_env (seg_sha256_hex sample_seg_env [1, 2]) (owner_meta (for_device ''tablet'') 1000 review_ttl_secs)"

theorem retained_clip_lifecycle_witness:
  "\<exists>seg dir'. store_scoped_if_allowed sample_seg_env RetentionScoped 1000 (for_device ''tablet'') AdultImage Warn [1, 2] fmempty
       = (Ok (Some seg), dir') \<and> stg_device_id seg = ''tablet'' \<and>
     fst (open_authorized sample_seg_env RetentionScoped 2000 (stg_uri seg) {|''tablet''|} dir') = Ok (Some [1, 2]) \<and>
     fst (open_authorized sample_seg_env RetentionScoped 2000 (stg_uri seg) {|''other''|} dir') = Ok None"
proof -
  have t: "trim ''tablet'' = ''tablet''" by (rule trim_graphic) (simp_all add: graphic_def code_def)
  have w: "write_new_private sample_seg_env dir path bs = (Ok (), fmupd path bs dir)" if "path |\<notin>| fmdom dir" for dir path bs
    using that by (simp add: write_new_private_def sample_seg_env_def)
  obtain seg dir' where st: "store_scoped_if_allowed sample_seg_env RetentionScoped 1000 (for_device ''tablet'') AdultImage Warn [1, 2] fmempty
       = (Ok (Some seg), dir')" and u: "stg_uri seg = ''blob://'' @ sample_seg_key"
      and e: "stg_expires_at seg = 1000 + review_ttl_secs"
    by (simp add: store_scoped_if_allowed_def ttl_for_action_def owner_validate_def for_device_def t Let_def w
        sample_seg_key_def meta_expires_at_def owner_meta_def u64_saturating_add_def review_ttl_secs_def u64_max_def)
  have utf: "list_all (\<lambda>s. utf8_ok (trim s)) [so_device_id (for_device ''tablet''), so_child_id (for_device ''tablet''),
      so_family_id (for_device ''tablet''), so_alert_id (for_device ''tablet'')]"
    by (simp add: for_device_def t code_def)
  note L = retained_clip_lifecycle [OF st u _ _ _ _ _ utf, of 2000]
  have l: "stg_device_id seg = ''tablet''"
    using L [of "{||}"] by (simp add: sample_seg_env_def block_ttl_secs_def u64_max_def for_device_def t)
  show ?thesis
    using st l L [of "{|''tablet''|}"] L [of "{|''other''|}"]
    by (simp add: sample_seg_env_def block_ttl_secs_def u64_max_def for_device_def t legacy_owner_def e review_ttl_secs_def)
qed

section \<open>Purging\<close>

definition dead_meta :: "segment_env \<Rightarrow> nat \<Rightarrow> seg_dir \<Rightarrow> string \<Rightarrow> bool" where
  "dead_meta env now dir path \<longleftrightarrow> path_extension path = Some ''meta'' \<and>
     (case read_meta env dir path of None \<Rightarrow> True | Some m \<Rightarrow> meta_expired m now)"

definition purged_by :: "segment_env \<Rightarrow> nat \<Rightarrow> seg_dir \<Rightarrow> string list \<Rightarrow> string \<Rightarrow> bool" where
  "purged_by env now dir names path \<longleftrightarrow>
     (\<exists>q\<in>set names. dead_meta env now dir q \<and> (path = q \<or> path = blob_name (path_stem q)))"

lemma extension_blob: "path_extension (blob_name x) \<noteq> Some ''meta''"
  by (simp add: path_extension_def blob_name_def)

lemma dead_meta_after:
  assumes "q \<noteq> p"
  shows "dead_meta env now (fmdrop p (fmdrop (blob_name x) dir)) q = dead_meta env now dir q"
  using assms extension_blob [of x] by (cases "q = blob_name x") (auto simp: dead_meta_def read_meta_def)

lemma purge_entries_lookup:
  assumes "distinct names" "\<And>p. sv_removes env p"
  shows "fst (purge_entries env now (map Some names) n dir) = Ok (n + length (filter (dead_meta env now dir) names)) \<and>
    fmlookup (snd (purge_entries env now (map Some names) n dir)) p =
      (if purged_by env now dir names p then None else fmlookup dir p)"
  using assms(1)
proof (induction names arbitrary: n dir)
  case (Cons q names)
  show ?case
  proof (cases "dead_meta env now dir q")
    case True
    let ?dir = "fmdrop q (fmdrop (blob_name (path_stem q)) dir)"
    have same: "dead_meta env now ?dir x = dead_meta env now dir x" if "x \<in> set names" for x
      using Cons.prems that by (intro dead_meta_after) auto
    have "purge_entries env now (map Some (q # names)) n dir = purge_entries env now (map Some names) (Suc n) ?dir"
      using True assms(2) by (simp add: dead_meta_def remove_file_def)
    moreover have "filter (dead_meta env now ?dir) names = filter (dead_meta env now dir) names"
      using same by (intro filter_cong) auto
    moreover have "purged_by env now dir (q # names) p \<longleftrightarrow> p = q \<or> p = blob_name (path_stem q) \<or> purged_by env now ?dir names p"
      using True same by (auto simp: purged_by_def)
    ultimately show ?thesis using Cons.IH [of "Suc n" ?dir] Cons.prems True by auto
  next
    case False
    then have "purge_entries env now (map Some (q # names)) n dir = purge_entries env now (map Some names) n dir"
      by (auto simp: dead_meta_def)
    moreover have "purged_by env now dir (q # names) p = purged_by env now dir names p"
      using False by (auto simp: purged_by_def)
    ultimately show ?thesis using Cons.IH [of n dir] Cons.prems False by simp
  qed
qed (simp add: purged_by_def)

text \<open>
  A purge removes exactly what has expired: over a full listing of the directory, with
  every removal succeeding, each metadata file that is unreadable or expired goes together with
  its clip and is counted, and every other file stays as it was.
\<close>

theorem purge_removes_exactly_expired:
  assumes "distinct names" "\<And>p. sv_removes env p"
  shows "\<exists>dir'. purge_expired env now (Some (map Some names)) dir =
      (Ok (length (filter (dead_meta env now dir) names)), dir') \<and>
    (\<forall>p. fmlookup dir' p = (if purged_by env now dir names p then None else fmlookup dir p))"
  using purge_entries_lookup [of names env now 0 dir, OF assms] unfolding purge_expired_def
  by (intro exI [of _ "snd (purge_entries env now (map Some names) 0 dir)"]) (simp add: prod_eq_iff)

definition sample_seg_dir :: seg_dir where
  "sample_seg_dir = fmupd ''a.meta'' [] (fmupd ''a.blob'' [7] (fmupd ''b.blob'' [8] fmempty))"

theorem purge_removes_exactly_expired_witness:
  "\<exists>dir'. purge_expired sample_seg_env 5 (Some (map Some [''b.blob'', ''a.meta'', ''a.blob''])) sample_seg_dir = (Ok 1, dir') \<and>
     fmlookup dir' ''a.blob'' = None \<and> fmlookup dir' ''b.blob'' = Some [8]"
proof -
  have d: "dead_meta sample_seg_env 5 sample_seg_dir ''a.meta''" "path_stem ''a.meta'' = ''a''"
    by (simp_all add: dead_meta_def read_meta_def sample_seg_dir_def sample_seg_env_def path_extension_def path_stem_def text_of_def
        parse_meta_def nth_line_def)
  have n: "\<not> dead_meta sample_seg_env 5 sample_seg_dir ''b.blob''" "\<not> dead_meta sample_seg_env 5 sample_seg_dir ''a.blob''"
    by (simp_all add: dead_meta_def path_extension_def path_stem_def)
  have "sv_removes sample_seg_env p" for p by (simp add: sample_seg_env_def)
  from purge_removes_exactly_expired [of "[''b.blob'', ''a.meta'', ''a.blob'']" sample_seg_env 5 sample_seg_dir, OF _ this]
  obtain dir' where dir': "purge_expired sample_seg_env 5 (Some (map Some [''b.blob'', ''a.meta'', ''a.blob''])) sample_seg_dir = (Ok 1, dir')"
    "\<And>p. fmlookup dir' p = (if purged_by sample_seg_env 5 sample_seg_dir [''b.blob'', ''a.meta'', ''a.blob''] p
      then None else fmlookup sample_seg_dir p)" by (auto simp: d n)
  have "purged_by sample_seg_env 5 sample_seg_dir [''b.blob'', ''a.meta'', ''a.blob''] p \<longleftrightarrow> p = ''a.meta'' \<or> p = ''a.blob''" for p
    by (simp add: purged_by_def d n blob_name_def)
  then show ?thesis using dir' by (simp add: sample_seg_dir_def)
qed

end
