(* ===== verification/Relay.thy ===== *)
theory Relay
  imports DeviceAuth AccountsPersist Allowlist Segments
begin

text \<open>
  The alert hub and the review service: \<open>bulwark-server/src/relay.rs\<close>. The hub keeps the guardian
  allowlist, the pending reviews and the push targets, each with the last image of its file, and
  hands events to a broadcast channel; what a receiver of that channel yields is an argument. The
  account store is shared with the other services, so its current content is an argument,
  \<^const>\<open>None\<close> when accounts are not configured. The URL parser is a parameter.
\<close>

section \<open>State\<close>

record push_target =
  pt_device_id :: string
  pt_push_endpoint :: string
  pt_platform :: string

record pending_review =
  pr_host :: string
  pr_sha256 :: bytes
  pr_category :: category

record audit_entry_row =
  ar_device_id :: string
  ar_alert_id :: string
  ar_decision :: int
  ar_scope :: int
  ar_host :: string
  ar_sha256_hex :: string
  ar_category :: int
  ar_ts :: int

record hub_persist =
  hp_push :: "(string, push_target) fmap"
  hp_pending :: "(string, pending_review) fmap"
  hp_audit :: "audit_entry_row list"

record hub_disk =
  hd_push :: "(string, push_target) fmap \<Rightarrow> bool"
  hd_pending :: "(string, pending_review) fmap \<Rightarrow> bool"
  hd_audit :: "audit_entry_row list \<Rightarrow> bool"

record alert_hub =
  hub_sent :: "alert_event list"
  hub_allowlist :: allowlist
  hub_push_targets :: "(string, push_target) fmap"
  hub_pending :: "(string, pending_review) fmap"
  hub_files :: "hub_persist option"

definition alert_hub_new :: alert_hub where
  "alert_hub_new = \<lparr>hub_sent = [], hub_allowlist = allowlist_new, hub_push_targets = fmempty,
     hub_pending = fmempty, hub_files = None\<rparr>"

fun decision_i32 :: "review_decision \<Rightarrow> int" where
  "decision_i32 RdUnspecified = 0"
| "decision_i32 Approve = 1"
| "decision_i32 Deny = 2"

definition decision_of_i32 :: "int \<Rightarrow> review_decision" where
  "decision_of_i32 n = (if n = 1 then Approve else if n = 2 then Deny else RdUnspecified)"

fun scope_i32 :: "review_scope \<Rightarrow> int" where
  "scope_i32 RsUnspecified = 0"
| "scope_i32 ThisItem = 1"
| "scope_i32 ThisHost = 2"

definition scope_of_i32 :: "int \<Rightarrow> review_scope" where
  "scope_of_i32 n = (if n = 1 then ThisItem else if n = 2 then ThisHost else RsUnspecified)"

fun alert_kind_i32 :: "alert_kind \<Rightarrow> int" where
  "alert_kind_i32 AkUnspecified = 0"
| "alert_kind_i32 Intervention = 1"
| "alert_kind_i32 GroomingSuspected = 2"
| "alert_kind_i32 ProtectionDisabled = 3"
| "alert_kind_i32 ChildSos = 4"
| "alert_kind_i32 SafetyBroadcast = 5"

section \<open>The decision journal\<close>

definition audit_row_of :: "audit_entry \<Rightarrow> audit_entry_row" where
  "audit_row_of e = \<lparr>ar_device_id = au_device e, ar_alert_id = au_alert e, ar_decision = decision_i32 (au_decision e),
     ar_scope = scope_i32 (au_scope e), ar_host = au_host e, ar_sha256_hex = au_sha256_hex e,
     ar_category = category_i32 (au_cat e), ar_ts = au_time e\<rparr>"

definition audit_rows :: "allowlist \<Rightarrow> audit_entry_row list" where
  "audit_rows al = map audit_row_of (al_audit al)"

text \<open>
  \<open>from_hex_bytes\<close> slices two bytes at a time; a slice that ends inside a character panics, which
  is the outcome \<open>HexPanic\<close>.
\<close>

datatype hex_outcome = HexBytes bytes | HexInvalid | HexPanic

fun hex_scan :: "string \<Rightarrow> hex_outcome" where
  "hex_scan [] = HexBytes []"
| "hex_scan [a] = HexInvalid"
| "hex_scan (a # b # s) =
     (if s \<noteq> [] \<and> cont_byte (hd s) then HexPanic
      else (case byte_from_radix16 a b of
              None \<Rightarrow> HexInvalid
            | Some x \<Rightarrow> (case hex_scan s of HexBytes bs \<Rightarrow> HexBytes (x # bs) | r \<Rightarrow> r)))"

definition from_hex_bytes :: "string \<Rightarrow> bytes option" where
  "from_hex_bytes s =
     (if odd (length s) then Some []
      else (case hex_scan s of HexBytes bs \<Rightarrow> Some bs | HexInvalid \<Rightarrow> Some [] | HexPanic \<Rightarrow> None))"

definition replay_row :: "(string \<Rightarrow> bytes) \<Rightarrow> audit_entry_row \<Rightarrow> allowlist \<Rightarrow> allowlist option" where
  "replay_row sha r al =
     (case from_hex_bytes (ar_sha256_hex r) of
        None \<Rightarrow> None
      | Some sha256 \<Rightarrow>
          Some (snd (allowlist_apply sha al
            \<lparr>ri_device = ar_device_id r, ri_alert_id = ar_alert_id r, ri_host = ar_host r, ri_sha256 = sha256,
             ri_category = category_of_i32 (ar_category r)\<rparr>
            (decision_of_i32 (ar_decision r)) (scope_of_i32 (ar_scope r)) (ar_ts r))))"

definition replay_audit :: "(string \<Rightarrow> bytes) \<Rightarrow> audit_entry_row list \<Rightarrow> allowlist option" where
  "replay_audit sha rows = fold (\<lambda>r acc. Option.bind acc (replay_row sha r)) rows (Some allowlist_new)"

text \<open>Start-up from the state directory; \<^const>\<open>None\<close> when the replay panics.\<close>

definition hub_with_state_dir :: "(string \<Rightarrow> bytes) \<Rightarrow> hub_persist \<Rightarrow> alert_hub option" where
  "hub_with_state_dir sha files =
     map_option (\<lambda>al. \<lparr>hub_sent = [], hub_allowlist = al, hub_push_targets = hp_push files,
       hub_pending = hp_pending files, hub_files = Some files\<rparr>) (replay_audit sha (hp_audit files))"

definition persist_audit :: "hub_disk \<Rightarrow> alert_hub \<Rightarrow> alert_hub" where
  "persist_audit disk hub =
     (case hub_files hub of
        None \<Rightarrow> hub
      | Some f \<Rightarrow> (let rows = audit_rows (hub_allowlist hub)
                  in if hd_audit disk rows then hub\<lparr>hub_files := Some (f\<lparr>hp_audit := rows\<rparr>)\<rparr> else hub))"

definition persist_push :: "hub_disk \<Rightarrow> alert_hub \<Rightarrow> alert_hub" where
  "persist_push disk hub =
     (case hub_files hub of
        None \<Rightarrow> hub
      | Some f \<Rightarrow> if hd_push disk (hub_push_targets hub)
                  then hub\<lparr>hub_files := Some (f\<lparr>hp_push := hub_push_targets hub\<rparr>)\<rparr> else hub)"

definition persist_pending :: "hub_disk \<Rightarrow> alert_hub \<Rightarrow> alert_hub" where
  "persist_pending disk hub =
     (case hub_files hub of
        None \<Rightarrow> hub
      | Some f \<Rightarrow> if hd_pending disk (hub_pending hub)
                  then hub\<lparr>hub_files := Some (f\<lparr>hp_pending := hub_pending hub\<rparr>)\<rparr> else hub)"

section \<open>Hub operations\<close>

definition pending_of_event :: "alert_event \<Rightarrow> pending_review" where
  "pending_of_event event =
     \<lparr>pr_host = ae_app event,
      pr_sha256 = (case ae_evidence event of None \<Rightarrow> [] | Some e \<Rightarrow> ev_sha256 e),
      pr_category = category_of_i32 (ae_category event)\<rparr>"

text \<open>\<open>publish\<close> answers the number of receivers the channel has at that moment.\<close>

definition publish :: "hub_disk \<Rightarrow> nat \<Rightarrow> alert_event \<Rightarrow> alert_hub \<Rightarrow> nat \<times> alert_hub" where
  "publish disk receivers event hub =
     (let hub' = (if trim (ae_alert_id event) \<noteq> []
                  then persist_pending disk
                         (hub\<lparr>hub_pending := fmupd (ae_alert_id event) (pending_of_event event) (hub_pending hub)\<rparr>)
                  else hub)
      in (receivers, hub'\<lparr>hub_sent := hub_sent hub' @ [event]\<rparr>))"

definition resolve_item :: "alert_hub \<Rightarrow> string \<Rightarrow> string \<Rightarrow> review_item" where
  "resolve_item hub device alert_id =
     (case fmlookup (hub_pending hub) alert_id of
        Some p \<Rightarrow> \<lparr>ri_device = device, ri_alert_id = alert_id, ri_host = pr_host p, ri_sha256 = pr_sha256 p,
                  ri_category = pr_category p\<rparr>
      | None \<Rightarrow> \<lparr>ri_device = device, ri_alert_id = alert_id, ri_host = [], ri_sha256 = [], ri_category = CatUnspecified\<rparr>)"

definition effective_scope :: "alert_hub \<Rightarrow> string \<Rightarrow> review_scope \<Rightarrow> review_decision \<Rightarrow> review_scope" where
  "effective_scope hub alert_id requested decision =
     (if decision \<noteq> Approve \<or> requested \<noteq> ThisHost then requested
      else (case fmlookup (hub_pending hub) alert_id of
              Some p \<Rightarrow> if trim (pr_host p) = [] \<and> pr_sha256 p \<noteq> [] then ThisItem else requested
            | None \<Rightarrow> requested))"

definition hub_apply_decision ::
    "(string \<Rightarrow> bytes) \<Rightarrow> hub_disk \<Rightarrow> review_item \<Rightarrow> review_decision \<Rightarrow> review_scope \<Rightarrow> int \<Rightarrow> alert_hub \<Rightarrow>
     apply_outcome \<times> alert_hub" where
  "hub_apply_decision sha disk item decision scope ts hub =
     (let (outcome, al) = allowlist_apply sha (hub_allowlist hub) item decision scope ts
      in (outcome, persist_audit disk (hub\<lparr>hub_allowlist := al\<rparr>)))"

definition register_push :: "hub_disk \<Rightarrow> string \<Rightarrow> push_target \<Rightarrow> alert_hub \<Rightarrow> alert_hub" where
  "register_push disk owner target hub =
     persist_push disk (hub\<lparr>hub_push_targets := fmupd owner target (hub_push_targets hub)\<rparr>)"

text \<open>Hash maps and sets are traversed in an unspecified order; the model takes the sorted one.\<close>

definition push_tokens :: "alert_hub \<Rightarrow> string list" where
  "push_tokens hub =
     filter (\<lambda>t. trim t \<noteq> []) (map (pt_push_endpoint \<circ> snd) (sorted_list_of_fmap (hub_push_targets hub)))"

definition endpoints_for :: "account_store option \<Rightarrow> alert_hub \<Rightarrow> alert_event \<Rightarrow> string list" where
  "endpoints_for accounts hub event =
     (case accounts of
        None \<Rightarrow> push_tokens hub
      | Some acc \<Rightarrow>
          (let owners = (if trim (ae_child_id event) \<noteq> [] then guardians_for_child acc (ae_child_id event)
                         else guardians_for_device acc (ae_device_id event))
           in filter (\<lambda>e. trim e \<noteq> [])
                (map pt_push_endpoint (List.map_filter (fmlookup (hub_push_targets hub)) (sorted_list_of_fset owners)))))"

section \<open>Push endpoints\<close>

type_synonym ipv4 = "u8 \<times> u8 \<times> u8 \<times> u8"

type_synonym ipv6 = "u16 \<times> u16 \<times> u16 \<times> u16 \<times> u16 \<times> u16 \<times> u16 \<times> u16"

datatype url_host = HostDomain string | HostIpv4 ipv4 | HostIpv6 ipv6

record url =
  url_scheme :: string
  url_hostname :: "url_host option"

text \<open>The address classes of \<open>std::net::Ipv4Addr\<close>.\<close>

fun is_public_v4 :: "ipv4 \<Rightarrow> bool" where
  "is_public_v4 (a, b, c, d) \<longleftrightarrow>
     \<not> (a = 127
       \<or> (a = 10 \<or> a = 172 \<and> 16 \<le> b \<and> b \<le> 31 \<or> a = 192 \<and> b = 168)
       \<or> a = 169 \<and> b = 254
       \<or> (a, b, c, d) = (0, 0, 0, 0)
       \<or> (a, b, c, d) = (255, 255, 255, 255)
       \<or> 224 \<le> a \<and> a \<le> 239
       \<or> (a = 192 \<and> b = 0 \<and> c = 2 \<or> a = 198 \<and> b = 51 \<and> c = 100 \<or> a = 203 \<and> b = 0 \<and> c = 113))"

fun to_ipv4_mapped :: "ipv6 \<Rightarrow> ipv4 option" where
  "to_ipv4_mapped (s0, s1, s2, s3, s4, s5, s6, s7) =
     (if (s0, s1, s2, s3, s4, s5) = (0, 0, 0, 0, 0, 0xffff)
      then Some (ucast (drop_bit 8 s6), ucast s6, ucast (drop_bit 8 s7), ucast s7) else None)"

fun is_public_v6 :: "ipv6 \<Rightarrow> bool" where
  "is_public_v6 (s0, s1, s2, s3, s4, s5, s6, s7) =
     (if (s0, s1, s2, s3, s4, s5, s6, s7) = (0, 0, 0, 0, 0, 0, 0, 1) \<or>
         (s0, s1, s2, s3, s4, s5, s6, s7) = (0, 0, 0, 0, 0, 0, 0, 0) \<or> s0 AND 0xff00 = 0xff00 then False
      else if s0 AND 0xffc0 = 0xfe80 \<or> s0 AND 0xfe00 = 0xfc00 then False
      else (case to_ipv4_mapped (s0, s1, s2, s3, s4, s5, s6, s7) of Some v4 \<Rightarrow> is_public_v4 v4 | None \<Rightarrow> True))"

definition ssrf_message :: string where
  "ssrf_message = ''push_endpoint must not point at a private/loopback/link-local address (SSRF guard)''"

text \<open>\<open>allow_insecure\<close> is whether \<open>BULWARK_PUSH_ALLOW_INSECURE_ENDPOINTS\<close> is set and not empty.\<close>

definition validate_push_endpoint :: "(string \<Rightarrow> url option) \<Rightarrow> bool \<Rightarrow> string \<Rightarrow> (status, unit) result" where
  "validate_push_endpoint parse_url allow_insecure endpoint =
     (case parse_url endpoint of
        None \<Rightarrow> Err (InvalidArgument, ''push_endpoint must be a valid absolute URL'')
      | Some u \<Rightarrow>
          if url_scheme u \<noteq> ''https'' \<and> \<not> (url_scheme u = ''http'' \<and> allow_insecure)
          then Err (InvalidArgument, ''push_endpoint must be an https URL (set BULWARK_PUSH_ALLOW_INSECURE_ENDPOINTS=1 to allow http for a self-hosted distributor on a trusted network)'')
          else (case url_hostname u of
                  None \<Rightarrow> Err (InvalidArgument, ''push_endpoint must include a host'')
                | Some (HostIpv4 ip) \<Rightarrow>
                    if \<not> allow_insecure \<and> \<not> is_public_v4 ip then Err (InvalidArgument, ssrf_message) else Ok ()
                | Some (HostIpv6 ip) \<Rightarrow>
                    if \<not> allow_insecure \<and> \<not> is_public_v6 ip then Err (InvalidArgument, ssrf_message) else Ok ()
                | Some (HostDomain _) \<Rightarrow> Ok ()))"

section \<open>The review service\<close>

record review_request =
  rr_alert_id :: string
  rr_decision :: int
  rr_device_id :: string
  rr_scope :: int
  rr_ts :: int

record review_ack =
  ra_alert_id :: string
  ra_applied :: bool

record device_filter =
  df_device_id :: string
  df_token :: string

definition ellipsis :: string where
  "ellipsis = [CHR 0xE2, CHR 0x80, CHR 0xA6]"

definition meta_token :: "string option \<Rightarrow> string" where
  "meta_token authorization = (case bearer_token authorization of None \<Rightarrow> [] | Some t \<Rightarrow> t)"

definition review_gate :: "account_env \<Rightarrow> account_store option \<Rightarrow> int \<Rightarrow> string option \<Rightarrow> string \<Rightarrow> status option" where
  "review_gate env accounts now authorization device_id =
     (case accounts of
        None \<Rightarrow> None
      | Some acc \<Rightarrow>
          (let token = meta_token authorization
           in if token = []
              then Some (Unauthenticated, ''a session token (authorization: Bearer '' @ ellipsis @ '') is required to submit a review decision'')
              else (case guardian_scope_of env acc now token of
                      None \<Rightarrow> Some (Unauthenticated, ''invalid session token'')
                    | Some gscope \<Rightarrow>
                        if trim device_id |\<notin>| gsc_device_ids gscope
                        then Some (PermissionDenied, ''guardian is not assigned to the child/device for this decision'')
                        else None)))"

definition submit_decision ::
    "account_env \<Rightarrow> (string \<Rightarrow> bytes) \<Rightarrow> hub_disk \<Rightarrow> account_store option \<Rightarrow> int \<Rightarrow> string option \<Rightarrow>
     review_request \<Rightarrow> alert_hub \<Rightarrow> (status, review_ack) result \<times> alert_hub" where
  "submit_decision env sha disk accounts now authorization r hub =
     (if trim (rr_alert_id r) = [] then (Err (InvalidArgument, ''alert_id is required''), hub)
      else if trim (rr_device_id r) = [] then (Err (InvalidArgument, ''device_id is required''), hub)
      else (let decision = decision_of_i32 (rr_decision r)
            in if decision = RdUnspecified then (Err (InvalidArgument, ''decision must be APPROVE or DENY''), hub)
               else (case review_gate env accounts now authorization (rr_device_id r) of
                       Some e \<Rightarrow> (Err e, hub)
                     | None \<Rightarrow>
                         (let item = resolve_item hub (rr_device_id r) (rr_alert_id r);
                              scope = effective_scope hub (rr_alert_id r) (scope_of_i32 (rr_scope r)) decision;
                              (outcome, hub') = hub_apply_decision sha disk item decision scope (rr_ts r) hub
                          in case outcome of
                               Refused reason \<Rightarrow> (Err (FailedPrecondition, reason), hub')
                             | _ \<Rightarrow> (Ok \<lparr>ra_alert_id = rr_alert_id r, ra_applied = True\<rparr>, hub')))))"

definition register_push_target ::
    "account_env \<Rightarrow> (string \<Rightarrow> url option) \<Rightarrow> bool \<Rightarrow> hub_disk \<Rightarrow> account_store option \<Rightarrow> int \<Rightarrow> string option \<Rightarrow>
     push_target \<Rightarrow> alert_hub \<Rightarrow> (status, unit) result \<times> alert_hub" where
  "register_push_target env parse_url allow_insecure disk accounts now authorization target hub =
     (if trim (pt_device_id target) = [] then (Err (InvalidArgument, ''device_id is required''), hub)
      else if trim (pt_push_endpoint target) = [] then (Err (InvalidArgument, ''push_endpoint is required''), hub)
      else (case validate_push_endpoint parse_url allow_insecure (trim (pt_push_endpoint target)) of
              Inl e \<Rightarrow> (Err e, hub)
            | Inr _ \<Rightarrow>
                (case accounts of
                   Some acc \<Rightarrow>
                     (case account_for_session env acc now (meta_token authorization) of
                        Some account_id \<Rightarrow> (Ok (), register_push disk account_id target hub)
                      | None \<Rightarrow> (Err (Unauthenticated, ''a valid session token (authorization: Bearer '' @ ellipsis @ '') is required to register a push endpoint''), hub))
                 | None \<Rightarrow> (Ok (), register_push disk (trim (pt_device_id target)) target hub))))"

text \<open>What \<open>recv\<close> of a broadcast receiver answers: an event, that the receiver lags, or the end.\<close>

datatype recv = Received alert_event | Lagged nat | RecvClosed

fun broadcast_into_stream :: "recv list \<Rightarrow> (status, alert_event) result list" where
  "broadcast_into_stream [] = []"
| "broadcast_into_stream (Received e # rs) = Ok e # broadcast_into_stream rs"
| "broadcast_into_stream (Lagged n # rs) = broadcast_into_stream rs"
| "broadcast_into_stream (RecvClosed # rs) = []"

definition event_in_scope :: "guardian_scope \<Rightarrow> string \<Rightarrow> alert_event \<Rightarrow> bool" where
  "event_in_scope scope want_device ev \<longleftrightarrow>
     (ae_child_id ev |\<in>| gsc_child_ids scope \<or> ae_device_id ev |\<in>| gsc_device_ids scope) \<and>
     (want_device = [] \<or> ae_device_id ev = want_device)"

definition keep_item :: "(alert_event \<Rightarrow> bool) \<Rightarrow> (status, alert_event) result \<Rightarrow> bool" where
  "keep_item keep item = (case item of Inr ev \<Rightarrow> keep ev | Inl _ \<Rightarrow> True)"

definition stream_pending_reviews ::
    "account_env \<Rightarrow> account_store option \<Rightarrow> int \<Rightarrow> string option \<Rightarrow> device_filter \<Rightarrow> recv list \<Rightarrow>
     (status, (status, alert_event) result list) result" where
  "stream_pending_reviews env accounts now authorization fltr rx =
     (let want_device = trim (df_device_id fltr);
          token = token_or_meta authorization (df_token fltr);
          base = broadcast_into_stream rx
      in case accounts of
           Some acc \<Rightarrow>
             if token = [] then Err (Unauthenticated, ''a session token is required (Accounts.Login) to stream pending reviews'')
             else (case guardian_scope_of env acc now token of
                     None \<Rightarrow> Err (Unauthenticated, ''invalid session token'')
                   | Some scope \<Rightarrow>
                       Ok (filter (keep_item (\<lambda>ev. ae_kind ev = alert_kind_i32 SafetyBroadcast \<or>
                                                   event_in_scope scope want_device ev)) base))
         | None \<Rightarrow>
             Ok (if want_device = [] then base else filter (keep_item (\<lambda>ev. ae_device_id ev = want_device)) base))"

definition segment_chunk_bytes :: nat where
  "segment_chunk_bytes = 64 * 1024"

fun chunks :: "nat \<Rightarrow> 'a list \<Rightarrow> 'a list list" where
  "chunks n xs = (if n = 0 \<or> xs = [] then [] else take n xs # chunks n (drop n xs))"

declare chunks.simps [simp del]

definition fetch_segment ::
    "account_env \<Rightarrow> account_store option \<Rightarrow> int \<Rightarrow> string option \<Rightarrow> string \<Rightarrow> string \<Rightarrow>
     (segment_env \<times> nat \<times> seg_dir) option \<Rightarrow> (status, bytes list) result \<times> seg_dir option" where
  "fetch_segment env accounts now authorization token_field uri segments =
     (let dir = map_option (snd \<circ> snd) segments
      in if (case accounts of None \<Rightarrow> False
             | Some acc \<Rightarrow> (let token = token_or_meta authorization token_field
                           in token = [] \<or> guardian_scope_of env acc now token = None))
         then (Err (Unauthenticated, ''a valid session token is required (Accounts.Login) to fetch a clip''), dir)
         else (case segments of
                 None \<Rightarrow> (Err (Unavailable, ''video review storage is not enabled on this node''), None)
               | Some (senv, secs, d) \<Rightarrow>
                   (case seg_load senv secs uri d of
                      (Inl e, d') \<Rightarrow> (Err (Internal, ''reading segment''), Some d')
                    | (Inr None, d') \<Rightarrow> (Err (StNotFound, ''segment not found or expired''), Some d')
                    | (Inr (Some bs), d') \<Rightarrow> (Ok (chunks segment_chunk_bytes bs), Some d'))))"

section \<open>The journal restores the allowlist\<close>

lemma hex_scan_hex: "hex_scan (hex bs) = HexBytes bs"
proof (induction bs)
  case (Cons b bs)
  have "\<not> (hex bs \<noteq> [] \<and> cont_byte (hd (hex bs)))"
    using is_hexdigit_hex [of bs] by (cases "hex bs") (auto simp: is_hexdigit_def cont_byte_def)
  moreover have "byte_from_radix16 (hex_digits ! unat (drop_bit 4 b)) (hex_digits ! unat (and b 15)) = Some b"
    using radix16_pairs_hex [of "[b]"] by (simp split: option.splits)
  ultimately show ?case using Cons by (simp del: list.sel)
qed simp

lemma from_hex_bytes_hex [simp]: "from_hex_bytes (hex bs) = Some bs"
  by (simp add: from_hex_bytes_def hex_scan_hex)

lemma from_hex_bytes_Nil [simp]: "from_hex_bytes [] = Some []"
  by (simp add: from_hex_bytes_def)

lemma decision_roundtrip [simp]: "decision_of_i32 (decision_i32 d) = d"
  by (cases d) (simp_all add: decision_of_i32_def)

lemma scope_roundtrip [simp]: "scope_of_i32 (scope_i32 s) = s"
  by (cases s) (simp_all add: scope_of_i32_def)

lemma apply_normalized:
  "allowlist_apply sha al (item\<lparr>ri_host := to_ascii_lowercase (trim (ri_host item))\<rparr>) decision scope ts =
   allowlist_apply sha al item decision scope ts"
proof -
  have "apply_decision (item\<lparr>ri_host := to_ascii_lowercase (trim (ri_host item))\<rparr>) decision scope m = apply_decision item decision scope m" for m
    by (cases item; cases decision; cases scope)
       (simp_all add: apply_decision_def apply_approve_def apply_deny_def deny_entry_def trim_lower Let_def split: option.split)
  then show ?thesis by (simp add: allowlist_apply_def trim_lower Let_def)
qed

lemma replay_append: "replay_audit sha (rows @ [r]) = Option.bind (replay_audit sha rows) (replay_row sha r)"
  by (simp add: replay_audit_def)

lemma replay_journal: "allowlist_reach sha al \<Longrightarrow> replay_audit sha (audit_rows al) = Some al"
proof (induction rule: allowlist_reach.induct)
  case new
  then show ?case by (simp add: replay_audit_def audit_rows_def allowlist_new_def)
next
  case (decide al item decision scope ts)
  define al' where "al' = snd (allowlist_apply sha al item decision scope ts)"
  obtain oc m where p: "apply_decision item decision scope (al_per_device al) = (oc, m)" by fastforce
  define e where "e = \<lparr>au_device = ri_device item, au_alert = ri_alert_id item, au_decision = decision, au_scope = scope,
    au_host = to_ascii_lowercase (trim (ri_host item)), au_sha256_hex = hex (ri_sha256 item), au_cat = ri_category item,
    au_outcome = oc, au_time = ts, au_chain_hash = []\<rparr>"
  have e: "al_audit al' = audit_append sha (al_audit al) e"
    by (cases "ri_sha256 item = []") (simp_all add: al'_def allowlist_apply_def p e_def)
  have "audit_rows al' = audit_rows al @ [audit_row_of e]"
    by (simp add: audit_rows_def e audit_append_def audit_row_of_def)
  moreover have "replay_row sha (audit_row_of e) al = Some al'"
    using apply_normalized [of sha al item decision scope ts]
    by (cases item) (simp add: replay_row_def audit_row_of_def e_def al'_def)
  ultimately show ?case using decide.IH by (simp add: replay_append al'_def)
qed

section \<open>Runs of the hub\<close>

definition empty_files :: hub_persist where
  "empty_files = \<lparr>hp_push = fmempty, hp_pending = fmempty, hp_audit = []\<rparr>"

inductive hub_reach ::
    "account_env \<Rightarrow> (string \<Rightarrow> bytes) \<Rightarrow> (string \<Rightarrow> url option) \<Rightarrow> bool \<Rightarrow> hub_disk \<Rightarrow>
     (string \<times> push_target) set \<Rightarrow> alert_hub \<Rightarrow> bool"
  for env sha parse_url insecure disk where
  boot: "hub_with_state_dir sha empty_files = Some hub \<Longrightarrow> hub_reach env sha parse_url insecure disk {} hub"
| event: "hub_reach env sha parse_url insecure disk regs hub \<Longrightarrow>
    hub_reach env sha parse_url insecure disk regs (snd (publish disk n e hub))"
| review: "hub_reach env sha parse_url insecure disk regs hub \<Longrightarrow>
    hub_reach env sha parse_url insecure disk regs (snd (submit_decision env sha disk (Some acc) now auth r hub))"
| registration: "hub_reach env sha parse_url insecure disk regs hub \<Longrightarrow>
    account_for_session env acc now (meta_token auth) = Some g \<Longrightarrow>
    register_push_target env parse_url insecure disk (Some acc) now auth target hub = (Ok (), hub') \<Longrightarrow>
    hub_reach env sha parse_url insecure disk (insert (g, target) regs) hub'"
| restart: "hub_reach env sha parse_url insecure disk regs hub \<Longrightarrow> hub_files hub = Some f \<Longrightarrow>
    hub_with_state_dir sha f = Some hub' \<Longrightarrow> hub_reach env sha parse_url insecure disk regs hub'"

text \<open>What each operation leaves of the hub.\<close>

lemma persist_frames [frame_simps]:
  "hub_allowlist (persist_audit d h) = hub_allowlist h" "hub_pending (persist_audit d h) = hub_pending h"
  "hub_push_targets (persist_audit d h) = hub_push_targets h" "hub_sent (persist_audit d h) = hub_sent h"
  "hub_allowlist (persist_push d h) = hub_allowlist h" "hub_pending (persist_push d h) = hub_pending h"
  "hub_push_targets (persist_push d h) = hub_push_targets h" "hub_sent (persist_push d h) = hub_sent h"
  "hub_allowlist (persist_pending d h) = hub_allowlist h" "hub_pending (persist_pending d h) = hub_pending h"
  "hub_push_targets (persist_pending d h) = hub_push_targets h" "hub_sent (persist_pending d h) = hub_sent h"
  by (simp_all add: persist_audit_def persist_push_def persist_pending_def Let_def split: option.split)

lemma publish_frames [frame_simps]:
  "hub_allowlist (snd (publish d n e h)) = hub_allowlist h" "hub_push_targets (snd (publish d n e h)) = hub_push_targets h"
  "hub_sent (snd (publish d n e h)) = hub_sent h @ [e]"
  by (simp_all add: publish_def Let_def frame_simps)

lemma submit_decision_cases:
  obtains (refused) e where "submit_decision env sha d accs now auth r h = (Err e, h)"
  | (applied) "review_gate env accs now auth (rr_device_id r) = None" "decision_of_i32 (rr_decision r) \<noteq> RdUnspecified"
      "snd (submit_decision env sha d accs now auth r h) =
         snd (hub_apply_decision sha d (resolve_item h (rr_device_id r) (rr_alert_id r)) (decision_of_i32 (rr_decision r))
           (effective_scope h (rr_alert_id r) (scope_of_i32 (rr_scope r)) (decision_of_i32 (rr_decision r))) (rr_ts r) h)"
proof (cases "trim (rr_alert_id r) = [] \<or> trim (rr_device_id r) = [] \<or> decision_of_i32 (rr_decision r) = RdUnspecified \<or>
    review_gate env accs now auth (rr_device_id r) \<noteq> None")
  case True
  then have "\<exists>e. submit_decision env sha d accs now auth r h = (Err e, h)" by (elim disjE) (auto simp: submit_decision_def Let_def)
  then show ?thesis using refused by blast
next
  case False
  let ?a = "hub_apply_decision sha d (resolve_item h (rr_device_id r) (rr_alert_id r)) (decision_of_i32 (rr_decision r))
    (effective_scope h (rr_alert_id r) (scope_of_i32 (rr_scope r)) (decision_of_i32 (rr_decision r))) (rr_ts r) h"
  obtain oc h' where a: "?a = (oc, h')" by fastforce
  have g: "review_gate env accs now auth (rr_device_id r) = None" using False by blast
  have "snd (submit_decision env sha d accs now auth r h) = snd ?a"
    using False by (cases oc) (simp_all add: submit_decision_def a g)
  then show ?thesis using applied False by blast
qed

lemma hub_apply_frames [frame_simps]:
  "hub_pending (snd (hub_apply_decision sha d item dec sc ts h)) = hub_pending h"
  "hub_push_targets (snd (hub_apply_decision sha d item dec sc ts h)) = hub_push_targets h"
  "hub_sent (snd (hub_apply_decision sha d item dec sc ts h)) = hub_sent h"
  "hub_allowlist (snd (hub_apply_decision sha d item dec sc ts h)) = snd (allowlist_apply sha (hub_allowlist h) item dec sc ts)"
  by (simp_all add: hub_apply_decision_def frame_simps split: prod.split)

lemma submit_frames [frame_simps]:
  "hub_pending (snd (submit_decision env sha d accs now auth r h)) = hub_pending h"
  "hub_push_targets (snd (submit_decision env sha d accs now auth r h)) = hub_push_targets h"
  "hub_sent (snd (submit_decision env sha d accs now auth r h)) = hub_sent h"
  by (rule submit_decision_cases [of env sha d accs now auth r h]; simp add: frame_simps)+

lemma submit_allowlist_reach:
  "allowlist_reach sha (hub_allowlist h) \<Longrightarrow> allowlist_reach sha (hub_allowlist (snd (submit_decision env sha d accs now auth r h)))"
  by (rule submit_decision_cases [of env sha d accs now auth r h]) (simp_all add: frame_simps allowlist_reach.decide)

lemma register_Ok:
  assumes "register_push_target env parse_url insecure d (Some acc) now auth target h = (Ok (), h')"
    "account_for_session env acc now (meta_token auth) = Some g"
  shows "h' = register_push d g target h" "validate_push_endpoint parse_url insecure (trim (pt_push_endpoint target)) = Ok ()"
  using assms by (auto simp: register_push_target_def split: if_splits sum.splits)

text \<open>The invariant: journal and files follow the memory, as far as the disk takes the writes.\<close>

definition hub_ok :: "(string \<Rightarrow> bytes) \<Rightarrow> hub_disk \<Rightarrow> alert_hub \<Rightarrow> bool" where
  "hub_ok sha disk hub \<longleftrightarrow> allowlist_reach sha (hub_allowlist hub) \<and>
     (\<exists>f. hub_files hub = Some f \<and>
        ((\<forall>x. hd_push disk x) \<longrightarrow> hp_push f = hub_push_targets hub) \<and>
        ((\<forall>x. hd_pending disk x) \<longrightarrow> hp_pending f = hub_pending hub) \<and>
        ((\<forall>x. hd_audit disk x) \<longrightarrow> hp_audit f = audit_rows (hub_allowlist hub)))"

lemma persist_files:
  "hub_files h = Some f \<Longrightarrow> hub_files (persist_audit d h) =
     Some (if hd_audit d (audit_rows (hub_allowlist h)) then f\<lparr>hp_audit := audit_rows (hub_allowlist h)\<rparr> else f)"
  "hub_files h = Some f \<Longrightarrow> hub_files (persist_push d h) =
     Some (if hd_push d (hub_push_targets h) then f\<lparr>hp_push := hub_push_targets h\<rparr> else f)"
  "hub_files h = Some f \<Longrightarrow> hub_files (persist_pending d h) =
     Some (if hd_pending d (hub_pending h) then f\<lparr>hp_pending := hub_pending h\<rparr> else f)"
  by (simp_all add: persist_audit_def persist_push_def persist_pending_def Let_def)

lemma hub_ok_step:
  assumes "hub_ok sha disk hub"
  shows "hub_ok sha disk (snd (publish disk n e hub))"
    and "hub_ok sha disk (snd (submit_decision env sha disk accs now auth r hub))"
    and "hub_ok sha disk (register_push disk g target hub)"
proof -
  obtain f where f: "hub_files hub = Some f" using assms by (auto simp: hub_ok_def)
  have fp: "hub_files (persist_pending disk (hub\<lparr>hub_pending := p\<rparr>)) = Some (if hd_pending disk p then f\<lparr>hp_pending := p\<rparr> else f)" for p
    using persist_files(3) [of "hub\<lparr>hub_pending := p\<rparr>" f disk] f by simp
  show "hub_ok sha disk (snd (publish disk n e hub))"
    using assms f by (simp add: hub_ok_def publish_def Let_def frame_simps fp)
  have "hub_ok sha disk (snd (hub_apply_decision sha disk item dec sc ts hub))" for item dec sc ts
  proof -
    obtain oc al where a: "allowlist_apply sha (hub_allowlist hub) item dec sc ts = (oc, al)" by fastforce
    have "allowlist_reach sha al" using allowlist_reach.decide [of sha "hub_allowlist hub" item dec sc ts] assms a by (simp add: hub_ok_def)
    then show ?thesis
      using assms f persist_files(1) [of "hub\<lparr>hub_allowlist := al\<rparr>" f disk]
      by (simp add: hub_ok_def hub_apply_decision_def a frame_simps)
  qed
  then show "hub_ok sha disk (snd (submit_decision env sha disk accs now auth r hub))"
    using assms by (cases rule: submit_decision_cases [of env sha disk accs now auth r hub]) simp_all
  show "hub_ok sha disk (register_push disk g target hub)"
    using assms f persist_files(2) [of "hub\<lparr>hub_push_targets := fmupd g target (hub_push_targets hub)\<rparr>" f disk]
    by (simp add: hub_ok_def register_push_def frame_simps)
qed

lemma replay_reach: "replay_audit sha rows = Some al \<Longrightarrow> allowlist_reach sha al"
proof (induction rows arbitrary: al rule: rev_induct)
  case Nil
  then show ?case by (simp add: replay_audit_def allowlist_reach.new)
next
  case (snoc r rows)
  then show ?case
    by (auto simp: replay_append replay_row_def Option.bind_eq_Some_conv split: option.splits intro: allowlist_reach.decide)
qed

definition disk_works :: "hub_disk \<Rightarrow> bool" where
  "disk_works disk \<longleftrightarrow> (\<forall>x. hd_push disk x) \<and> (\<forall>x. hd_pending disk x) \<and> (\<forall>x. hd_audit disk x)"

lemma boot_ok: "hub_with_state_dir sha f = Some hub \<Longrightarrow> replay_audit sha (hp_audit f) = Some al \<Longrightarrow>
    hp_audit f = audit_rows al \<Longrightarrow> hub_ok sha disk hub"
  using replay_reach [of sha "hp_audit f" al] by (auto simp: hub_with_state_dir_def hub_ok_def)

lemma hub_reach_ok:
  assumes "disk_works disk"
  shows "hub_reach env sha parse_url insecure disk regs hub \<Longrightarrow> hub_ok sha disk hub"
proof (induction rule: hub_reach.induct)
  case (boot hub)
  then show ?case
    by (intro boot_ok [of sha empty_files hub allowlist_new])
       (simp_all add: empty_files_def replay_audit_def audit_rows_def allowlist_new_def)
next
  case (registration regs hub acc now auth g target hub')
  then show ?case using hub_ok_step(3) register_Ok(1) by metis
next
  case (restart regs hub f hub')
  have "allowlist_reach sha (hub_allowlist hub)" "hp_audit f = audit_rows (hub_allowlist hub)"
    using restart assms by (auto simp: hub_ok_def disk_works_def)
  then show ?case using restart replay_journal by (intro boot_ok [of sha f hub' "hub_allowlist hub"]) simp_all
qed (simp_all add: hub_ok_step)


definition good_disk :: hub_disk where
  "good_disk = \<lparr>hd_push = (\<lambda>_. True), hd_pending = (\<lambda>_. True), hd_audit = (\<lambda>_. True)\<rparr>"

definition sample_event :: alert_event where
  "sample_event = \<lparr>ae_alert_id = ''a1'', ae_kind = 1, ae_category = 2, ae_severity = 4, ae_app = ''Chat.example'',
     ae_device_id = ''d1'', ae_ts = 5, ae_redacted_context = [], ae_evidence = None, ae_child_id = [], ae_family_id = [],
     ae_local_segment_uri = []\<rparr>"

definition sample_hub :: alert_hub where
  "sample_hub = \<lparr>hub_sent = [], hub_allowlist = allowlist_new, hub_push_targets = fmempty, hub_pending = fmempty,
     hub_files = Some empty_files\<rparr>"

lemma sample_hub_boot: "hub_with_state_dir sha empty_files = Some sample_hub"
  by (simp add: hub_with_state_dir_def empty_files_def replay_audit_def sample_hub_def)


section \<open>Who is notified\<close>

lemma reach_registered:
  "hub_reach env sha parse_url insecure disk regs hub \<Longrightarrow>
   (\<forall>g t. fmlookup (hub_push_targets hub) g = Some t \<longrightarrow> (g, t) \<in> regs) \<and>
   (\<exists>f. hub_files hub = Some f \<and> (\<forall>g t. fmlookup (hp_push f) g = Some t \<longrightarrow> (g, t) \<in> regs)) \<and>
   (\<forall>(g, t)\<in>regs. validate_push_endpoint parse_url insecure (trim (pt_push_endpoint t)) = Ok ())"
proof (induction rule: hub_reach.induct)
  case (boot hub)
  then show ?case by (auto simp: hub_with_state_dir_def empty_files_def)
next
  case (event regs hub n e)
  then obtain f where f: "hub_files hub = Some f" by blast
  have "hub_files (persist_pending disk (hub\<lparr>hub_pending := p\<rparr>)) = Some (if hd_pending disk p then f\<lparr>hp_pending := p\<rparr> else f)" for p
    using persist_files(3) [of "hub\<lparr>hub_pending := p\<rparr>" f disk] f by simp
  then show ?case using event f by (simp add: publish_def Let_def frame_simps)
next
  case (review regs hub acc now auth r)
  then obtain f where f: "hub_files hub = Some f" by blast
  have "\<exists>f'. hub_files (snd (hub_apply_decision sha disk item dec sc ts hub)) = Some f' \<and> hp_push f' = hp_push f" for item dec sc ts
    using persist_files(1) [of "hub\<lparr>hub_allowlist := snd (allowlist_apply sha (hub_allowlist hub) item dec sc ts)\<rparr>" f disk] f
    by (simp add: hub_apply_decision_def case_prod_unfold Let_def)
  then have "\<exists>f'. hub_files (snd (submit_decision env sha disk (Some acc) now auth r hub)) = Some f' \<and> hp_push f' = hp_push f"
    using f by (cases rule: submit_decision_cases [of env sha disk "Some acc" now auth r hub]) simp_all
  then show ?case using review f by (auto simp: frame_simps)
next
  case (registration regs hub acc now auth g target hub')
  then obtain f where f: "hub_files hub = Some f" "\<forall>g t. fmlookup (hp_push f) g = Some t \<longrightarrow> (g, t) \<in> regs" by blast
  note h = register_Ok [OF registration.hyps(3,2)]
  have "hub_files hub' = Some (if hd_push disk (fmupd g target (hub_push_targets hub)) then f\<lparr>hp_push := fmupd g target (hub_push_targets hub)\<rparr> else f)"
    using persist_files(2) [of "hub\<lparr>hub_push_targets := fmupd g target (hub_push_targets hub)\<rparr>" f disk] f(1) by (simp add: h(1) register_push_def)
  then show ?case using registration.IH f h(2) by (auto simp: h(1) register_push_def frame_simps)
next
  case (restart regs hub f hub')
  then show ?case by (auto simp: hub_with_state_dir_def)
qed

text \<open>
  Claim C21. A pushed alert reaches its own family only. Whatever the relay went through, an endpoint
  that an alert is pushed to was registered, over a live session, by a guardian of the child the
  alert is about (of the device, when the alert names no child), and it passed the check of its
  address when it was registered.
\<close>

theorem push_reaches_own_guardians:
  assumes reach: "hub_reach env sha parse_url insecure disk regs hub"
    and endpoint: "e \<in> set (endpoints_for (Some acc) hub ev)"
  shows "\<exists>g t. (g, t) \<in> regs \<and> pt_push_endpoint t = e \<and>
    g |\<in>| (if trim (ae_child_id ev) \<noteq> [] then guardians_for_child acc (ae_child_id ev) else guardians_for_device acc (ae_device_id ev)) \<and>
    validate_push_endpoint parse_url insecure (trim e) = Ok ()"
proof -
  let ?owners = "if trim (ae_child_id ev) \<noteq> [] then guardians_for_child acc (ae_child_id ev) else guardians_for_device acc (ae_device_id ev)"
  from endpoint obtain g t where "g |\<in>| ?owners" "fmlookup (hub_push_targets hub) g = Some t" "pt_push_endpoint t = e"
    by (auto simp: endpoints_for_def Let_def List.map_filter_def)
  moreover from this have "(g, t) \<in> regs" using reach_registered [OF reach] by blast
  moreover from this have "validate_push_endpoint parse_url insecure (trim (pt_push_endpoint t)) = Ok ()"
    using reach_registered [OF reach] by fastforce
  ultimately show ?thesis by blast
qed

definition sample_target :: push_target where
  "sample_target = \<lparr>pt_device_id = ''phone'', pt_push_endpoint = ''https://p.example/x'', pt_platform = ''android''\<rparr>"

definition sample_parse_url :: "string \<Rightarrow> url option" where
  "sample_parse_url s = Some \<lparr>url_scheme = ''https'', url_hostname = Some (HostDomain ''p.example'')\<rparr>"

definition sample_registered :: alert_hub where
  "sample_registered = register_push good_disk ''04'' sample_target sample_hub"

definition sample_child_event :: alert_event where
  "sample_child_event = sample_event\<lparr>ae_device_id := ''tablet''\<rparr>"

theorem push_reaches_own_guardians_witness:
  "''https://p.example/x'' \<in> set (endpoints_for (Some sample_paired) sample_registered sample_child_event) \<and>
   (\<exists>g. g |\<in>| guardians_for_device sample_paired ''tablet'')"
proof -
  have e: "''https://p.example/x'' \<in> set (endpoints_for (Some sample_paired) sample_registered sample_child_event)"
    by code_simp
  have s: "account_for_session sample_env sample_paired 30 (meta_token (Some ''Bearer 06'')) = Some ''04''" by code_simp
  have t: "trim ''phone'' = ''phone''" "trim ''https://p.example/x'' = ''https://p.example/x''"
    by (rule trim_graphic; simp add: graphic_def code_def)+
  have r: "register_push_target sample_env sample_parse_url False good_disk (Some sample_paired) 30 (Some ''Bearer 06'') sample_target sample_hub
      = (Ok (), sample_registered)"
    using s by (simp add: register_push_target_def sample_target_def t validate_push_endpoint_def sample_parse_url_def sample_registered_def)
  have "hub_reach sample_env wit_sha sample_parse_url False good_disk {(''04'', sample_target)} sample_registered"
    using hub_reach.registration [OF hub_reach.boot [OF sample_hub_boot] s r] by simp
  from push_reaches_own_guardians [OF this e] e show ?thesis
    by (auto simp: sample_child_event_def sample_event_def)
qed

end
