(* ===== verification/ReviewSecurity.thy ===== *)
theory ReviewSecurity
  imports Relay
begin

text \<open>
  The review authority in front of the relay: \<open>bulwark-server/src/review_security.rs\<close>. The ledger
  binds an alert id to the facts of the alert it was first used for, and is what the review service
  decides by; the relay of \<open>Relay\<close> then applies the decision. Ledger and hub are separate states,
  passed explicitly; the disk is a parameter, and so are the account store and the clock at each
  moment a live event is delivered.
\<close>

section \<open>The ledger\<close>

definition max_replay_alerts :: nat where
  "max_replay_alerts = 10000"

record stored_evidence =
  se_sha256 :: bytes
  se_perceptual_hash :: bytes
  se_safe_thumbnail :: bytes
  se_text_snippet :: string
  se_model_id :: string
  se_model_version :: string

record stored_alert =
  sa_alert_id :: string
  sa_kind :: int
  sa_category :: int
  sa_severity :: int
  sa_app :: string
  sa_device_id :: string
  sa_ts :: int
  sa_redacted_context :: string
  sa_evidence :: "stored_evidence option"
  sa_child_id :: string
  sa_family_id :: string
  sa_local_segment_uri :: string

definition evidence_from_proto :: "evidence \<Rightarrow> stored_evidence" where
  "evidence_from_proto v = \<lparr>se_sha256 = ev_sha256 v, se_perceptual_hash = ev_perceptual_hash v,
     se_safe_thumbnail = ev_safe_thumbnail v, se_text_snippet = ev_text_snippet v, se_model_id = ev_model_id v,
     se_model_version = ev_model_version v\<rparr>"

definition evidence_to_proto :: "stored_evidence \<Rightarrow> evidence" where
  "evidence_to_proto v = \<lparr>ev_sha256 = se_sha256 v, ev_perceptual_hash = se_perceptual_hash v,
     ev_safe_thumbnail = se_safe_thumbnail v, ev_text_snippet = se_text_snippet v, ev_model_id = se_model_id v,
     ev_model_version = se_model_version v\<rparr>"

definition alert_from_proto :: "alert_event \<Rightarrow> stored_alert" where
  "alert_from_proto e = \<lparr>sa_alert_id = ae_alert_id e, sa_kind = ae_kind e, sa_category = ae_category e,
     sa_severity = ae_severity e, sa_app = ae_app e, sa_device_id = ae_device_id e, sa_ts = ae_ts e,
     sa_redacted_context = ae_redacted_context e, sa_evidence = map_option evidence_from_proto (ae_evidence e),
     sa_child_id = ae_child_id e, sa_family_id = ae_family_id e, sa_local_segment_uri = ae_local_segment_uri e\<rparr>"

definition alert_to_proto :: "stored_alert \<Rightarrow> alert_event" where
  "alert_to_proto a = \<lparr>ae_alert_id = sa_alert_id a, ae_kind = sa_kind a, ae_category = sa_category a,
     ae_severity = sa_severity a, ae_app = sa_app a, ae_device_id = sa_device_id a, ae_ts = sa_ts a,
     ae_redacted_context = sa_redacted_context a, ae_evidence = map_option evidence_to_proto (sa_evidence a),
     ae_child_id = sa_child_id a, ae_family_id = sa_family_id a, ae_local_segment_uri = sa_local_segment_uri a\<rparr>"

definition immutable_identity_eq :: "stored_alert \<Rightarrow> stored_alert \<Rightarrow> bool" where
  "immutable_identity_eq a b \<longleftrightarrow>
     sa_alert_id a = sa_alert_id b \<and> sa_device_id a = sa_device_id b \<and> sa_child_id a = sa_child_id b \<and>
     sa_family_id a = sa_family_id b \<and> sa_kind a = sa_kind b \<and> sa_category a = sa_category b \<and>
     map_option se_sha256 (sa_evidence a) = map_option se_sha256 (sa_evidence b)"

record ledger_state =
  lg_order :: "string list"
  lg_alerts :: "(string, stored_alert) fmap"

record review_ledger =
  lg_inner :: ledger_state
  lg_file :: "ledger_state option"

datatype ledger_error = LedgerInvalid string | LedgerConflict string | LedgerDisk

definition ledger_default :: ledger_state where
  "ledger_default = \<lparr>lg_order = [], lg_alerts = fmempty\<rparr>"

definition ledger_new :: review_ledger where
  "ledger_new = \<lparr>lg_inner = ledger_default, lg_file = None\<rparr>"

text \<open>\<open>load_strict\<close> answers nothing for a missing file and refuses one that does not parse.\<close>

definition ledger_with_state_dir :: "(unit, ledger_state option) result \<Rightarrow> (ledger_error, review_ledger) result" where
  "ledger_with_state_dir loaded =
     (case loaded of
        Inl _ \<Rightarrow> Err LedgerDisk
      | Inr None \<Rightarrow> Ok \<lparr>lg_inner = ledger_default, lg_file = Some ledger_default\<rparr>
      | Inr (Some s) \<Rightarrow> Ok \<lparr>lg_inner = s, lg_file = Some s\<rparr>)"

function evict :: "ledger_state \<Rightarrow> ledger_state" where
  "evict s =
     (if max_replay_alerts < length (lg_order s)
      then evict \<lparr>lg_order = tl (lg_order s), lg_alerts = fmdrop (hd (lg_order s)) (lg_alerts s)\<rparr> else s)"
  by pat_completeness auto
termination by (relation "measure (\<lambda>s. length (lg_order s))") auto

declare evict.simps [simp del]

definition ledger_commit ::
    "(ledger_state \<Rightarrow> bool) \<Rightarrow> ledger_state \<Rightarrow> review_ledger \<Rightarrow> (ledger_error, bool) result \<times> review_ledger" where
  "ledger_commit writes next' l =
     (case lg_file l of
        None \<Rightarrow> (Ok True, l\<lparr>lg_inner := next'\<rparr>)
      | Some _ \<Rightarrow> if writes next' then (Ok True, \<lparr>lg_inner = next', lg_file = Some next'\<rparr>) else (Err LedgerDisk, l))"

definition ledger_record ::
    "(ledger_state \<Rightarrow> bool) \<Rightarrow> alert_event \<Rightarrow> review_ledger \<Rightarrow> (ledger_error, bool) result \<times> review_ledger" where
  "ledger_record writes event l =
     (if trim (ae_alert_id event) = [] then (Err (LedgerInvalid ''alert_id is required''), l)
      else (let incoming = alert_from_proto event; s = lg_inner l
            in case fmlookup (lg_alerts s) (sa_alert_id incoming) of
                 Some existing \<Rightarrow>
                   if immutable_identity_eq existing incoming then (Ok False, l)
                   else (Err (LedgerConflict ''alert_id was already bound to different immutable facts''), l)
               | None \<Rightarrow>
                   ledger_commit writes
                     (evict \<lparr>lg_order = lg_order s @ [sa_alert_id incoming],
                             lg_alerts = fmupd (sa_alert_id incoming) incoming (lg_alerts s)\<rparr>) l))"

definition ledger_retire ::
    "(ledger_state \<Rightarrow> bool) \<Rightarrow> string \<Rightarrow> review_ledger \<Rightarrow> (ledger_error, bool) result \<times> review_ledger" where
  "ledger_retire writes raw_id l =
     (let alert_id = trim raw_id; s = lg_inner l
      in if alert_id = [] then (Ok False, l)
         else if alert_id |\<notin>| fmdom (lg_alerts s) then (Ok False, l)
         else ledger_commit writes
                \<lparr>lg_order = filter (\<lambda>i. i \<noteq> alert_id) (lg_order s), lg_alerts = fmdrop alert_id (lg_alerts s)\<rparr> l)"

definition ledger_alert :: "review_ledger \<Rightarrow> string \<Rightarrow> stored_alert option" where
  "ledger_alert l alert_id = fmlookup (lg_alerts (lg_inner l)) (trim alert_id)"

definition ledger_replay :: "review_ledger \<Rightarrow> guardian_scope \<Rightarrow> string \<Rightarrow> alert_event list" where
  "ledger_replay l scope want_device =
     map alert_to_proto
       (filter (\<lambda>a. (sa_child_id a |\<in>| gsc_child_ids scope \<or> sa_device_id a |\<in>| gsc_device_ids scope) \<and>
                   (want_device = [] \<or> sa_device_id a = want_device))
         (List.map_filter (fmlookup (lg_alerts (lg_inner l))) (lg_order (lg_inner l))))"

section \<open>The service\<close>

definition authenticated_scope :: "account_env \<Rightarrow> account_store \<Rightarrow> int \<Rightarrow> string \<Rightarrow> (status, guardian_scope) result" where
  "authenticated_scope env acc now token =
     (if trim token = [] then Err (Unauthenticated, ''guardian session token is required'')
      else (case guardian_scope_of env acc now token of
              None \<Rightarrow> Err (Unauthenticated, ''guardian session is invalid or expired'')
            | Some scope \<Rightarrow> Ok scope))"

definition review_check :: "guardian_scope \<Rightarrow> review_request \<Rightarrow> stored_alert \<Rightarrow> status option" where
  "review_check scope review authoritative =
     (if trim (sa_device_id authoritative) = [] \<or> sa_device_id authoritative |\<notin>| gsc_device_ids scope
      then Some (PermissionDenied, ''guardian is not assigned to the alert's original device'')
      else if trim (rr_device_id review) \<noteq> sa_device_id authoritative
      then Some (PermissionDenied, ''review device_id does not match the alert's original device'')
      else if sa_child_id authoritative \<noteq> [] \<and> sa_child_id authoritative |\<notin>| gsc_child_ids scope
      then Some (PermissionDenied, ''guardian is not assigned to the alert's original child'')
      else if decision_of_i32 (rr_decision review) = Approve \<and>
              category_of_i32 (sa_category authoritative) \<in> {CatUnspecified, CsamSuspected}
      then Some (FailedPrecondition, ''incomplete coverage and CSAM alerts cannot be approved'')
      else None)"

definition secure_submit_decision ::
    "account_env \<Rightarrow> (string \<Rightarrow> bytes) \<Rightarrow> hub_disk \<Rightarrow> (ledger_state \<Rightarrow> bool) \<Rightarrow> account_store \<Rightarrow> int \<Rightarrow> string option \<Rightarrow>
     review_request \<Rightarrow> alert_hub \<Rightarrow> review_ledger \<Rightarrow> (status, review_ack) result \<times> alert_hub \<times> review_ledger" where
  "secure_submit_decision env sha disk writes acc now authorization review hub l =
     (let token = token_or_meta authorization []
      in case authenticated_scope env acc now token of
           Inl e \<Rightarrow> (Err e, hub, l)
         | Inr scope \<Rightarrow>
             (let alert_id = trim (rr_alert_id review)
              in case ledger_alert l alert_id of
                   None \<Rightarrow> (Err (StNotFound, ''unknown or expired alert_id''), hub, l)
                 | Some authoritative \<Rightarrow>
                     (case review_check scope review authoritative of
                        Some e \<Rightarrow> (Err e, hub, l)
                      | None \<Rightarrow>
                          (case submit_decision env sha disk (Some acc) now authorization review hub of
                             (Inl e, hub') \<Rightarrow> (Err e, hub', l)
                           | (Inr response, hub') \<Rightarrow>
                               (case ledger_retire writes alert_id l of
                                  (Inl _, l') \<Rightarrow> (Err (Unavailable, ''review decision could not be durably retired from the pending queue''), hub', l')
                                | (Inr _, l') \<Rightarrow> (Ok response, hub', l'))))))"

definition secure_register_push_target where
  "secure_register_push_target env parse_url allow_insecure disk acc now authorization target hub =
     register_push_target env parse_url allow_insecure disk (Some acc) now authorization target hub"

text \<open>
  The filter on live items: \<open>store_at n\<close> is the content of the account store and the time when
  the n-th item of the inner stream arrives.
\<close>

fun live_items ::
    "account_env \<Rightarrow> (nat \<Rightarrow> account_store \<times> int) \<Rightarrow> string \<Rightarrow> string \<Rightarrow> nat \<Rightarrow>
     (status, alert_event) result list \<Rightarrow> (status, alert_event) result list" where
  "live_items env store_at token want n [] = []"
| "live_items env store_at token want n (Inl e # items) = Inl e # live_items env store_at token want (Suc n) items"
| "live_items env store_at token want n (Inr ev # items) =
     (let (acc, now) = store_at n; rest = live_items env store_at token want (Suc n) items
      in case guardian_scope_of env acc now token of
           None \<Rightarrow> Inl (Unauthenticated, ''guardian session was revoked or expired'') # rest
         | Some scope \<Rightarrow> if event_in_scope scope want ev then Inr ev # rest else rest)"

definition secure_stream_pending_reviews ::
    "account_env \<Rightarrow> account_store \<Rightarrow> int \<Rightarrow> (nat \<Rightarrow> account_store \<times> int) \<Rightarrow> string option \<Rightarrow> device_filter \<Rightarrow>
     recv list \<Rightarrow> review_ledger \<Rightarrow> (status, (status, alert_event) result list) result" where
  "secure_stream_pending_reviews env acc now store_at authorization fltr rx l =
     (let token = token_or_meta authorization (df_token fltr)
      in case authenticated_scope env acc now token of
           Inl e \<Rightarrow> Err e
         | Inr scope \<Rightarrow>
             (let want_device = trim (df_device_id fltr); replay = ledger_replay l scope want_device
              in case stream_pending_reviews env (Some acc) now authorization fltr rx of
                   Inl e \<Rightarrow> Err e
                 | Inr live \<Rightarrow> Ok (map Inr replay @ live_items env store_at token want_device 0 live)))"

text \<open>A file read answers at most a chunk and possibly less; \<open>sizes\<close> are what the reads answer.\<close>

fun read_pieces :: "nat list \<Rightarrow> bytes \<Rightarrow> bytes list" where
  "read_pieces sizes [] = []"
| "read_pieces [] bs = chunks segment_chunk_bytes bs"
| "read_pieces (n # ns) bs =
     (let k = min (max 1 n) segment_chunk_bytes in take k bs # read_pieces ns (drop k bs))"

definition secure_fetch_segment ::
    "account_env \<Rightarrow> account_store \<Rightarrow> int \<Rightarrow> string option \<Rightarrow> string \<Rightarrow> string \<Rightarrow> nat list \<Rightarrow>
     (segment_env \<times> retention_mode \<times> nat \<times> seg_dir) option \<Rightarrow> (status, bytes list) result \<times> seg_dir option" where
  "secure_fetch_segment env acc now authorization token_field raw_uri sizes segments =
     (let token = token_or_meta authorization token_field; dir = map_option (snd \<circ> snd \<circ> snd) segments
      in case authenticated_scope env acc now token of
           Inl e \<Rightarrow> (Err e, dir)
         | Inr scope \<Rightarrow>
             (case segments of
                None \<Rightarrow> (Err (Unavailable, ''raw review clip retention is disabled on this node''), None)
              | Some (senv, mode, secs, d) \<Rightarrow>
                  (case open_authorized senv mode secs (trim raw_uri) (gsc_device_ids scope) d of
                     (Inl _, d') \<Rightarrow> (Err (Internal, ''opening retained clip''), Some d')
                   | (Inr None, d') \<Rightarrow> (Err (StNotFound, ''clip not found, expired, or not owned by this guardian''), Some d')
                   | (Inr (Some bs), d') \<Rightarrow> (Ok (read_pieces sizes bs), Some d'))))"

section \<open>What the ledger guarantees\<close>

definition ledger_ok :: "ledger_state \<Rightarrow> bool" where
  "ledger_ok s \<longleftrightarrow> distinct (lg_order s) \<and> set (lg_order s) = fset (fmdom (lg_alerts s)) \<and>
     length (lg_order s) \<le> max_replay_alerts \<and> (\<forall>i a. fmlookup (lg_alerts s) i = Some a \<longrightarrow> sa_alert_id a = i)"

inductive ledger_run :: "review_ledger \<Rightarrow> bool" where
  boot: "ledger_with_state_dir (Ok None) = Ok l \<Longrightarrow> ledger_run l"
| memory: "ledger_run ledger_new"
| recorded: "ledger_run l \<Longrightarrow> ledger_run (snd (ledger_record writes event l))"
| retired: "ledger_run l \<Longrightarrow> ledger_run (snd (ledger_retire writes alert_id l))"
| restarted: "ledger_run l \<Longrightarrow> ledger_with_state_dir (Ok (lg_file l)) = Ok l' \<Longrightarrow> ledger_run l'"

lemma evict_small: "length (lg_order s) \<le> max_replay_alerts \<Longrightarrow> evict s = s"
  by (simp add: evict.simps [of s])

lemma evict_one:
  "length order = max_replay_alerts \<Longrightarrow> evict \<lparr>lg_order = x # order, lg_alerts = m\<rparr> = \<lparr>lg_order = order, lg_alerts = fmdrop x m\<rparr>"
  by (simp add: evict.simps [of "\<lparr>lg_order = x # order, lg_alerts = m\<rparr>"] evict_small)

text \<open>The state a new alert leads to: appended, and when full the oldest one dropped.\<close>

definition ledger_added :: "stored_alert \<Rightarrow> ledger_state \<Rightarrow> ledger_state" where
  "ledger_added a s =
     evict \<lparr>lg_order = lg_order s @ [sa_alert_id a], lg_alerts = fmupd (sa_alert_id a) a (lg_alerts s)\<rparr>"

lemma ledger_added_facts:
  assumes ok: "ledger_ok s" and new: "fmlookup (lg_alerts s) (sa_alert_id a) = None"
  shows "ledger_ok (ledger_added a s)" and "fmlookup (lg_alerts (ledger_added a s)) (sa_alert_id a) = Some a"
    and "fmlookup (lg_alerts s) i = Some b \<Longrightarrow>
      fmlookup (lg_alerts (ledger_added a s)) i = Some b \<or>
      fmlookup (lg_alerts (ledger_added a s)) i = None \<and> length (lg_order s) = max_replay_alerts \<and> i = hd (lg_order s)"
proof -
  have fresh: "sa_alert_id a \<notin> set (lg_order s)" using ok new by (auto simp: ledger_ok_def fmdom_notI)
  consider (small) "length (lg_order s) < max_replay_alerts"
    | (full) x order where "lg_order s = x # order" "Suc (length order) = max_replay_alerts"
    using ok by (cases "lg_order s") (auto simp: ledger_ok_def max_replay_alerts_def le_eq_less_or_eq)
  then have "ledger_ok (ledger_added a s) \<and> fmlookup (lg_alerts (ledger_added a s)) (sa_alert_id a) = Some a \<and>
    (fmlookup (lg_alerts s) i = Some b \<longrightarrow> fmlookup (lg_alerts (ledger_added a s)) i = Some b \<or>
      fmlookup (lg_alerts (ledger_added a s)) i = None \<and> length (lg_order s) = max_replay_alerts \<and> i = hd (lg_order s))"
  proof cases
    case small
    then have e: "ledger_added a s = \<lparr>lg_order = lg_order s @ [sa_alert_id a], lg_alerts = fmupd (sa_alert_id a) a (lg_alerts s)\<rparr>"
      by (simp add: ledger_added_def evict_small)
    show ?thesis using ok new fresh small by (auto simp: e ledger_ok_def)
  next
    case full
    have e: "ledger_added a s = \<lparr>lg_order = order @ [sa_alert_id a], lg_alerts = fmdrop x (fmupd (sa_alert_id a) a (lg_alerts s))\<rparr>"
      using evict_one [of "order @ [sa_alert_id a]" x] full by (simp add: ledger_added_def)
    show ?thesis using ok new fresh full by (auto simp: e ledger_ok_def split: if_splits)
  qed
  then show "ledger_ok (ledger_added a s)" "fmlookup (lg_alerts (ledger_added a s)) (sa_alert_id a) = Some a"
    "fmlookup (lg_alerts s) i = Some b \<Longrightarrow> fmlookup (lg_alerts (ledger_added a s)) i = Some b \<or>
      fmlookup (lg_alerts (ledger_added a s)) i = None \<and> length (lg_order s) = max_replay_alerts \<and> i = hd (lg_order s)"
    by blast+
qed

lemma ledger_record_cases:
  obtains (kept) r where "ledger_record w ev l = (r, l)" "\<And>b. r = Ok b \<Longrightarrow>
      \<exists>a. fmlookup (lg_alerts (lg_inner l)) (ae_alert_id ev) = Some a \<and> immutable_identity_eq a (alert_from_proto ev)"
  | (added) "fmlookup (lg_alerts (lg_inner l)) (ae_alert_id ev) = None"
      "ledger_record w ev l = ledger_commit w (ledger_added (alert_from_proto ev) (lg_inner l)) l"
proof (cases "trim (ae_alert_id ev) = []")
  case True
  then show ?thesis by (intro kept) (auto simp: ledger_record_def)
next
  case False
  show ?thesis
  proof (cases "fmlookup (lg_alerts (lg_inner l)) (ae_alert_id ev)")
    case None
    with False show ?thesis by (intro added) (simp_all add: ledger_record_def ledger_added_def alert_from_proto_def Let_def)
  next
    case (Some a)
    then have "ledger_record w ev l = (if immutable_identity_eq a (alert_from_proto ev) then Ok False
        else Err (LedgerConflict ''alert_id was already bound to different immutable facts''), l)"
      using False by (simp add: ledger_record_def alert_from_proto_def Let_def)
    then show ?thesis using Some by (intro kept) (auto split: if_splits)
  qed
qed

definition ledger_synced :: "review_ledger \<Rightarrow> bool" where
  "ledger_synced l \<longleftrightarrow> lg_file l = None \<or> lg_file l = Some (lg_inner l)"

lemma ledger_commit_synced: "ledger_synced l \<Longrightarrow> ledger_synced (snd (ledger_commit w s l))"
  by (auto simp: ledger_commit_def ledger_synced_def split: option.splits)

lemma ledger_commit_inner:
  "lg_inner (snd (ledger_commit w s l)) = s \<or> snd (ledger_commit w s l) = l"
  "fst (ledger_commit w s l) = Ok b \<Longrightarrow> lg_inner (snd (ledger_commit w s l)) = s"
  by (auto simp: ledger_commit_def split: option.splits if_splits)

lemma ledger_retire_cases:
  obtains (kept) b where "ledger_retire w i l = (Ok b, l)" "trim i = [] \<or> trim i |\<notin>| fmdom (lg_alerts (lg_inner l))"
  | (dropped) "ledger_retire w i l = ledger_commit w \<lparr>lg_order = filter (\<lambda>j. j \<noteq> trim i) (lg_order (lg_inner l)),
      lg_alerts = fmdrop (trim i) (lg_alerts (lg_inner l))\<rparr> l"
proof (cases "trim i = [] \<or> trim i |\<notin>| fmdom (lg_alerts (lg_inner l))")
  case True
  then have "ledger_retire w i l = (Ok False, l)" by (auto simp: ledger_retire_def Let_def)
  then show ?thesis using True kept by blast
next
  case False
  then show ?thesis by (intro dropped) (simp add: ledger_retire_def Let_def)
qed

lemma ledger_drop_ok:
  "ledger_ok s \<Longrightarrow> ledger_ok \<lparr>lg_order = filter (\<lambda>j. j \<noteq> i) (lg_order s), lg_alerts = fmdrop i (lg_alerts s)\<rparr>"
  by (auto simp: ledger_ok_def intro: le_trans [OF length_filter_le])

lemma ledger_run_ok: "ledger_run l \<Longrightarrow> ledger_ok (lg_inner l) \<and> ledger_synced l"
proof (induction rule: ledger_run.induct)
  case (recorded l writes event)
  show ?case
  proof (cases rule: ledger_record_cases [of writes event l])
    case added
    have "ledger_ok (ledger_added (alert_from_proto event) (lg_inner l))"
      using recorded.IH added(1) by (intro ledger_added_facts) (simp_all add: alert_from_proto_def)
    then show ?thesis
      using recorded.IH ledger_commit_synced ledger_commit_inner(1) unfolding added(2) by metis
  qed (use recorded.IH in simp)
next
  case (retired l writes alert_id)
  show ?case
  proof (cases rule: ledger_retire_cases [of writes alert_id l])
    case dropped
    then show ?thesis
      using retired.IH ledger_drop_ok ledger_commit_synced ledger_commit_inner(1) by metis
  qed (use retired.IH in simp)
next
  case (restarted l l')
  then show ?case
    by (auto simp: ledger_with_state_dir_def ledger_synced_def ledger_default_def ledger_ok_def split: option.splits)
qed (auto simp: ledger_with_state_dir_def ledger_new_def ledger_default_def ledger_ok_def ledger_synced_def)

lemma ledger_recorded:
  assumes "ledger_run l" "ledger_record w ev l = (Ok b, l')"
  shows "\<exists>a. fmlookup (lg_alerts (lg_inner l')) (ae_alert_id ev) = Some a \<and> immutable_identity_eq a (alert_from_proto ev)"
proof (cases rule: ledger_record_cases [of w ev l])
  case (kept r)
  from kept(2) [of b] kept(1) assms(2) show ?thesis by simp
next
  case added
  have i: "sa_alert_id (alert_from_proto ev) = ae_alert_id ev" by (simp add: alert_from_proto_def)
  have "lg_inner l' = ledger_added (alert_from_proto ev) (lg_inner l)"
    using ledger_commit_inner(2) [of w _ l b] assms(2) added(2) by (metis fst_conv snd_conv)
  moreover have "fmlookup (lg_alerts (ledger_added (alert_from_proto ev) (lg_inner l))) (ae_alert_id ev) = Some (alert_from_proto ev)"
    using ledger_added_facts(2) [of "lg_inner l" "alert_from_proto ev"] ledger_run_ok [OF assms(1)] added(1) i by simp
  ultimately show ?thesis by (auto simp: immutable_identity_eq_def)
qed

text \<open>
  Claim C20. An alert id is bound to the facts it was first used for. In every ledger that recording,
  retiring and restarting reach, the replay order lists exactly the stored alerts, each once and at
  most ten thousand, and a file, when there is one, holds exactly the ledger in memory. Recording
  an alert keeps every stored alert as it is, except that a full ledger drops its oldest; it answers
  success only if an alert with the device, child, family, kind, category and content hash of the
  new one is stored under its id.
\<close>

theorem ledger_binds_first_facts:
  assumes "ledger_run l"
  shows "ledger_ok (lg_inner l) \<and> (lg_file l = None \<or> lg_file l = Some (lg_inner l)) \<and>
    (fmlookup (lg_alerts (lg_inner l)) i = Some a \<longrightarrow>
       fmlookup (lg_alerts (lg_inner (snd (ledger_record w ev l)))) i = Some a \<or>
       fmlookup (lg_alerts (lg_inner (snd (ledger_record w ev l)))) i = None \<and>
       length (lg_order (lg_inner l)) = max_replay_alerts \<and> i = hd (lg_order (lg_inner l))) \<and>
    (fst (ledger_record w ev l) = Ok b \<longrightarrow>
       (\<exists>c. fmlookup (lg_alerts (lg_inner (snd (ledger_record w ev l)))) (ae_alert_id ev) = Some c \<and>
            immutable_identity_eq c (alert_from_proto ev)))"
proof -
  note ok = ledger_run_ok [OF assms]
  let ?a = "alert_from_proto ev"
  have id: "sa_alert_id ?a = ae_alert_id ev" by (simp add: alert_from_proto_def)
  show ?thesis
  proof (cases rule: ledger_record_cases [of w ev l])
    case kept
    then show ?thesis using ok by (auto simp: ledger_synced_def)
  next
    case added
    note f = ledger_added_facts [of "lg_inner l" ?a, unfolded id, OF conjunct1 [OF ok] added(1)]
    have "immutable_identity_eq ?a ?a" by (simp add: immutable_identity_eq_def)
    then show ?thesis
      using ok f(1,2) f(3) [of i a] ledger_commit_inner(1) [of w "ledger_added ?a (lg_inner l)" l]
        ledger_commit_inner(2) [of w "ledger_added ?a (lg_inner l)" l b]
      unfolding added(2) ledger_synced_def by metis
  qed
qed

theorem ledger_binds_first_facts_witness:
  "fst (ledger_record (\<lambda>_. True) (sample_event\<lparr>ae_device_id := ''d2''\<rparr>) (snd (ledger_record (\<lambda>_. True) sample_event ledger_new))) =
     Err (LedgerConflict ''alert_id was already bound to different immutable facts'') \<and>
   ledger_ok (lg_inner (snd (ledger_record (\<lambda>_. True) sample_event ledger_new)))"
proof -
  have "ledger_run (snd (ledger_record (\<lambda>_. True) sample_event ledger_new))" by (intro ledger_run.intros)
  from ledger_binds_first_facts [OF this] show ?thesis
    by (simp add: ledger_record_def sample_event_def trim_graphic graphic_def code_def alert_from_proto_def ledger_new_def
        ledger_default_def ledger_commit_def evict_small max_replay_alerts_def immutable_identity_eq_def)
qed

section \<open>Who may decide\<close>

lemma scope_guardian:
  assumes "guardian_scope_of env acc now token = Some scope"
  obtains g where "account_for_session env acc now token = Some g"
    "\<And>d. d |\<in>| gsc_device_ids scope \<longleftrightarrow> d |\<in>| guardian_devices acc g"
    "\<And>c. c |\<in>| gsc_child_ids scope \<longleftrightarrow>
       (\<exists>i k. fmlookup (children (st_inner acc)) i = Some k \<and> g |\<in>| ch_guardians k \<and> ch_child_id k = c)"
proof -
  obtain entry where e: "fmlookup (sessions (st_inner acc)) (token_hash env token) = Some entry"
    "session_live (sn_issued_ms entry) now (env_session_ttl_ms env)"
    "scope = fold (scope_add (sn_account_id entry)) (map snd (sorted_list_of_fmap (children (st_inner acc)))) \<lparr>gsc_child_ids = {||}, gsc_device_ids = {||}\<rparr>"
    using assms by (auto simp: guardian_scope_of_def split: option.splits if_splits)
  have "account_for_session env acc now token = Some (sn_account_id entry)" using e by (simp add: account_for_session_def)
  moreover have "d |\<in>| gsc_device_ids scope \<longleftrightarrow> d |\<in>| guardian_devices acc (sn_account_id entry)" for d
    by (simp add: guardian_devices_def e(3))
  moreover have "c |\<in>| gsc_child_ids scope \<longleftrightarrow>
      (\<exists>i k. fmlookup (children (st_inner acc)) i = Some k \<and> sn_account_id entry |\<in>| ch_guardians k \<and> ch_child_id k = c)" for c
    unfolding e(3) scope_fold_ids Bex_def registry_children by auto
  ultimately show ?thesis using that by blast
qed

lemma authenticated_scope_Ok: "authenticated_scope env acc now token = Ok scope \<Longrightarrow> guardian_scope_of env acc now token = Some scope"
  by (auto simp: authenticated_scope_def split: if_splits option.splits)

lemma apply_decision_other:
  "d \<noteq> ri_device item \<Longrightarrow> fmlookup (snd (apply_decision item dec sc m)) d = fmlookup m d"
  by (cases dec; cases sc)
     (auto simp: apply_decision_def apply_approve_def apply_deny_def Let_def split: option.split)

lemma submit_other_devices:
  "d \<noteq> rr_device_id r \<Longrightarrow>
   fmlookup (al_per_device (hub_allowlist (snd (submit_decision env sha disk accs now auth r hub)))) d =
   fmlookup (al_per_device (hub_allowlist hub)) d"
  by (rule submit_decision_cases [of env sha disk accs now auth r hub])
     (simp_all add: frame_simps allowlist_apply_per_device apply_decision_other resolve_item_def split: option.split)

text \<open>
  The guards of a decision, read off the code: a live session whose account guards the device and,
  where the alert names one, the child of the alert as it was recorded.
\<close>

definition may_decide :: "account_env \<Rightarrow> account_store \<Rightarrow> int \<Rightarrow> string \<Rightarrow> review_request \<Rightarrow> stored_alert \<Rightarrow> bool" where
  "may_decide env acc now token r a \<longleftrightarrow>
     (\<exists>g. account_for_session env acc now token = Some g \<and> g |\<in>| guardians_for_device acc (sa_device_id a) \<and>
        (sa_child_id a \<noteq> [] \<longrightarrow>
           (\<exists>i k. fmlookup (children (st_inner acc)) i = Some k \<and> g |\<in>| ch_guardians k \<and> ch_child_id k = sa_child_id a))) \<and>
     trim (rr_device_id r) = sa_device_id a \<and>
     (decision_of_i32 (rr_decision r) = Approve \<longrightarrow> category_of_i32 (sa_category a) \<notin> {CatUnspecified, CsamSuspected})"

lemma secure_submit_cases [consumes 1]:
  assumes "registry_ok acc"
  obtains (refused) e where "secure_submit_decision env sha disk w acc now auth r hub l = (Err e, hub, l)"
  | (decided) a where "ledger_alert l (rr_alert_id r) = Some a" "may_decide env acc now (token_or_meta auth []) r a"
      "secure_submit_decision env sha disk w acc now auth r hub l =
        (case submit_decision env sha disk (Some acc) now auth r hub of
           (Inl e, hub') \<Rightarrow> (Err e, hub', l)
         | (Inr response, hub') \<Rightarrow>
             (case ledger_retire w (trim (rr_alert_id r)) l of
                (Inl _, l') \<Rightarrow> (Err (Unavailable, ''review decision could not be durably retired from the pending queue''), hub', l')
              | (Inr _, l') \<Rightarrow> (Ok response, hub', l')))"
proof (cases "\<exists>scope a. authenticated_scope env acc now (token_or_meta auth []) = Ok scope \<and>
    ledger_alert l (rr_alert_id r) = Some a \<and> review_check scope r a = None")
  case False
  then have "\<exists>e. secure_submit_decision env sha disk w acc now auth r hub l = (Err e, hub, l)"
    by (auto simp: secure_submit_decision_def Let_def ledger_alert_def split: sum.splits option.splits)
  then show ?thesis using refused by blast
next
  case True
  then obtain scope a where t: "authenticated_scope env acc now (token_or_meta auth []) = Ok scope"
    "ledger_alert l (rr_alert_id r) = Some a" "review_check scope r a = None" by blast
  have c: "sa_device_id a |\<in>| gsc_device_ids scope" "trim (rr_device_id r) = sa_device_id a"
    "sa_child_id a \<noteq> [] \<longrightarrow> sa_child_id a |\<in>| gsc_child_ids scope"
    "decision_of_i32 (rr_decision r) = Approve \<longrightarrow> category_of_i32 (sa_category a) \<notin> {CatUnspecified, CsamSuspected}"
    using t(3) by (auto simp: review_check_def split: if_splits)
  from scope_guardian [OF authenticated_scope_Ok [OF t(1)]] obtain g where
    g: "account_for_session env acc now (token_or_meta auth []) = Some g" "sa_device_id a |\<in>| guardian_devices acc g"
      "sa_child_id a \<noteq> [] \<longrightarrow> (\<exists>i k. fmlookup (children (st_inner acc)) i = Some k \<and> g |\<in>| ch_guardians k \<and> ch_child_id k = sa_child_id a)"
    using c by metis
  have "g |\<in>| guardians_for_device acc (sa_device_id a)"
    using routing.delivered_iff_in_scope [OF assms, of g "sa_device_id a"] g(2) c(2) by (metis trim_trim)
  then have "may_decide env acc now (token_or_meta auth []) r a" using g c by (auto simp: may_decide_def)
  moreover have "ledger_alert l (trim (rr_alert_id r)) = Some a" using t(2) by (simp add: ledger_alert_def)
  ultimately show ?thesis using decided t by (simp add: secure_submit_decision_def)
qed


definition sample_open_ledger :: review_ledger where
  "sample_open_ledger = \<lparr>lg_inner = \<lparr>lg_order = [''a1''],
     lg_alerts = fmupd ''a1'' (alert_from_proto sample_child_event) fmempty\<rparr>, lg_file = None\<rparr>"

definition sample_open_hub :: alert_hub where
  "sample_open_hub = snd (publish good_disk 0 sample_child_event sample_hub)"

definition sample_approval :: review_request where
  "sample_approval = \<lparr>rr_alert_id = ''a1'', rr_decision = 1, rr_device_id = ''tablet'', rr_scope = 2, rr_ts = 7\<rparr>"


section \<open>Who sees an alert\<close>

lemma event_in_scope_guarded:
  assumes "guardian_scope_of env acc now token = Some scope" "event_in_scope scope want ev"
  shows "\<exists>g i k. account_for_session env acc now token = Some g \<and> fmlookup (children (st_inner acc)) i = Some k \<and>
    g |\<in>| ch_guardians k \<and> (ch_child_id k = ae_child_id ev \<or> ch_device_id k = ae_device_id ev \<and> ae_device_id ev \<noteq> [])"
proof (rule scope_guardian [OF assms(1)])
  fix g assume g: "account_for_session env acc now token = Some g" "\<And>d. (d |\<in>| gsc_device_ids scope) = (d |\<in>| guardian_devices acc g)"
    "\<And>c. (c |\<in>| gsc_child_ids scope) = (\<exists>i k. fmlookup (children (st_inner acc)) i = Some k \<and> g |\<in>| ch_guardians k \<and> ch_child_id k = c)"
  from assms(2) show ?thesis using g unfolding event_in_scope_def guardian_devices_iff by metis
qed

lemma live_items_guarded:
  "Inr ev \<in> set (live_items env store_at token want n items) \<Longrightarrow>
   \<exists>m acc now scope. store_at m = (acc, now) \<and> guardian_scope_of env acc now token = Some scope \<and> event_in_scope scope want ev"
proof (induction env store_at token want n items rule: live_items.induct)
  case (3 env store_at token want n e items)
  obtain acc now where s: "store_at n = (acc, now)" by fastforce
  show ?case
  proof (cases "Inr ev \<in> set (live_items env store_at token want (Suc n) items)")
    case True
    then show ?thesis using 3 s by simp
  next
    case False
    with 3(2) have "\<exists>scope. guardian_scope_of env acc now token = Some scope \<and> event_in_scope scope want ev"
      by (auto simp: s Let_def split: option.splits if_splits)
    then show ?thesis using s by blast
  qed
qed simp_all



section \<open>Observations\<close>

text \<open>
  A safety notice names neither child nor device. The relay lets it through to every guardian, but the
  second filter does not: as no child has an empty id, no notice ever appears on the stream.
\<close>

lemma secure_stream_drops_broadcasts:
  assumes "secure_stream_pending_reviews env acc now store_at auth fltr rx l = Ok items"
    and "ae_child_id ev = []" "ae_device_id ev = []"
    and "\<And>st i k. st = acc \<or> (\<exists>n t. store_at n = (st, t)) \<Longrightarrow> fmlookup (children (st_inner st)) i = Some k \<Longrightarrow> ch_child_id k \<noteq> []"
  shows "Inr ev \<notin> set items"
proof
  let ?t = "token_or_meta auth (df_token fltr)"
  assume "Inr ev \<in> set items"
  moreover obtain scope live where s: "authenticated_scope env acc now ?t = Ok scope"
    "items = map Inr (ledger_replay l scope (trim (df_device_id fltr))) @ live_items env store_at ?t (trim (df_device_id fltr)) 0 live"
    using assms(1) by (auto simp: secure_stream_pending_reviews_def Let_def split: sum.splits)
  ultimately consider "ev \<in> set (ledger_replay l scope (trim (df_device_id fltr)))"
    | "Inr ev \<in> set (live_items env store_at ?t (trim (df_device_id fltr)) 0 live)" by auto
  then obtain st t scope' where st: "st = acc \<or> (\<exists>n t. store_at n = (st, t))" "guardian_scope_of env st t ?t = Some scope'"
    "event_in_scope scope' (trim (df_device_id fltr)) ev"
  proof cases
    case 1
    then have "event_in_scope scope (trim (df_device_id fltr)) ev"
      by (auto simp: ledger_replay_def event_in_scope_def alert_to_proto_def)
    then show ?thesis using that authenticated_scope_Ok [OF s(1)] by blast
  next
    case 2
    from live_items_guarded [OF this] that show ?thesis by blast
  qed
  from event_in_scope_guarded [OF st(2,3)] assms(2,3) assms(4) [OF st(1)] show False by metis
qed

text \<open>
  The device of a request is compared trimmed, but the decision is stored under the text as sent:
  an approval for a padded device id is acknowledged as applied and allows nothing.
\<close>

lemma padded_device_approval_lost:
  "case secure_submit_decision sample_env wit_sha good_disk (\<lambda>_. True) sample_paired 30 (Some ''Bearer 06'')
       (sample_approval\<lparr>rr_device_id := '' tablet''\<rparr>) sample_open_hub sample_open_ledger of
     (res, hub', l') \<Rightarrow> res = Ok \<lparr>ra_alert_id = ''a1'', ra_applied = True\<rparr> \<and> ledger_alert l' ''a1'' = None \<and>
       \<not> is_host_allowed (hub_allowlist hub') ''tablet'' ''chat.example''"
  by code_simp

text \<open>
  The facts an alert id is bound to leave out the host: raising the alert again with another host is
  accepted by the ledger and replaces the host that an approval of the alert will allow.
\<close>

lemma alert_host_substituted:
  "fst (ledger_record (\<lambda>_. True) (sample_child_event\<lparr>ae_app := ''evil.example''\<rparr>) sample_open_ledger) = Ok False \<and>
   (case secure_submit_decision sample_env wit_sha good_disk (\<lambda>_. True) sample_paired 30 (Some ''Bearer 06'') sample_approval
       (snd (publish good_disk 0 (sample_child_event\<lparr>ae_app := ''evil.example''\<rparr>) sample_open_hub)) sample_open_ledger of
     (res, hub', l') \<Rightarrow> is_host_allowed (hub_allowlist hub') ''tablet'' ''evil.example'' \<and>
       \<not> is_host_allowed (hub_allowlist hub') ''tablet'' ''chat.example'')"
  by code_simp

end
