(* ===== verification/AlertService.thy ===== *)
theory AlertService
  imports AuditRow ReviewSecurity
begin

text \<open>
  The services a device talks to, \<open>AnalysisService\<close>, \<open>OffloadService\<close> and \<open>AlertRelayService\<close> of
  \<open>bulwark-server/src/service.rs\<close>, with the analyzer registry and the adapters of
  \<open>bulwark-server/src/lib.rs\<close>. An analyzer is a function from a request to a verdict or an error
  text; the inner analyzers, the alert sink, the clock and the disk are parameters.
\<close>

section \<open>Messages\<close>

record text_span =
  ts_text :: string
  ts_lang :: string
  ts_app :: string
  ts_thread_id :: string
  ts_from_minor :: bool
  ts_prior_excerpts :: "string list"

datatype request_media = InlineMedia bytes string | MediaRef string bytes nat string

record analysis_request =
  aq_request_id :: string
  aq_media_kind :: int
  aq_source_channel :: int
  aq_device_id :: string
  aq_ts :: int
  aq_text_span :: "text_span option"
  aq_media :: "request_media option"
  aq_deadline_ms :: nat

record alert_ack =
  ack_alert_id :: string
  ack_delivered :: bool
  ack_deduped :: bool
  ack_detail :: string

record device_profile =
  pf_device_id :: string
  pf_platform :: string
  pf_cpu :: string
  pf_cpu_cores :: nat
  pf_ram_mb :: nat
  pf_gpu :: string
  pf_exec_providers :: "int list"
  pf_battery_pct :: int
  pf_on_battery :: bool
  pf_rtt_ms :: nat
  pf_app_version :: string

record offload_policy =
  op_run_text_local :: bool
  op_run_image_local :: bool
  op_run_audio_local :: bool
  op_run_video_local :: bool
  op_max_local_rtt_ms :: nat
  op_min_battery_pct :: nat
  op_cluster_queue_backpressure :: nat
  op_ttl_secs :: nat
  op_preferred_local_providers :: "int list"
  op_policy_id :: string

record refresh_offload =
  ro_device_id :: string
  ro_policy_id :: string
  ro_rtt_ms :: nat
  ro_battery_pct :: int

section \<open>Analyzers\<close>

type_synonym analyzer = "analysis_request \<Rightarrow> (string, verdict) result"

type_synonym analyzer_registry = "(int, analyzer) fmap"

datatype server_role = Lb | Worker | AllInOne

definition server_role_parse :: "string \<Rightarrow> server_role option" where
  "server_role_parse s =
     (let t = to_ascii_lowercase (trim s)
      in if t = ''lb'' then Some Lb else if t = ''worker'' then Some Worker
         else if t \<in> {''all-in-one'', ''all_in_one'', ''allinone''} then Some AllInOne else None)"

definition registry_register :: "int list \<Rightarrow> analyzer \<Rightarrow> analyzer_registry \<Rightarrow> analyzer_registry" where
  "registry_register handles analyzer registry = fold (\<lambda>kind. fmupd kind analyzer) handles registry"

definition analyzer_for :: "analyzer_registry \<Rightarrow> int \<Rightarrow> analyzer option" where
  "analyzer_for registry kind = fmlookup registry kind"

text \<open>A verdict that blocks because nothing could be analysed; the other fields are the defaults.\<close>

definition inconclusive :: "string \<Rightarrow> string \<Rightarrow> verdict" where
  "inconclusive request_id rationale =
     \<lparr>v_request_id = request_id, v_category = category_i32 CatUnspecified, v_action = action_i32 Block,
      v_severity = severity_i32 Medium, v_score = 0, v_rationale = rationale, v_evidence = None, v_grooming = None,
      v_worker_id = [], v_latency_ms = 0, v_local_segment_uri = [], v_remediated_media = []\<rparr>"

text \<open>
  The video adapter: the inner verdict is kept, and the clip is retained for the requesting device
  when the store takes it. A failing store only loses the clip.
\<close>

definition retaining_analyze ::
    "segment_env \<Rightarrow> retention_mode \<Rightarrow> nat \<Rightarrow> analyzer \<Rightarrow> analysis_request \<Rightarrow> seg_dir \<Rightarrow>
     (string, verdict) result \<times> seg_dir" where
  "retaining_analyze senv mode secs inner req dir =
     (let device_id = trim (aq_device_id req);
          segment = (case aq_media req of Some (InlineMedia d _) \<Rightarrow> d | _ \<Rightarrow> [])
      in case inner req of
           Inl e \<Rightarrow> (Err e, dir)
         | Inr verdict \<Rightarrow>
             if device_id \<noteq> [] \<and> segment \<noteq> []
             then (case store_scoped_if_allowed senv mode secs
                          \<lparr>so_device_id = device_id, so_child_id = [], so_family_id = [], so_alert_id = aq_request_id req\<rparr>
                          (verdict_category verdict) (action_from_i32 (v_action verdict)) segment dir of
                     (Inr (Some stored), dir') \<Rightarrow> (Ok (verdict\<lparr>v_local_segment_uri := stg_uri stored\<rparr>), dir')
                   | (_, dir') \<Rightarrow> (Ok verdict, dir'))
             else (Ok verdict, dir))"

definition unit_separator :: string where
  "unit_separator = [CHR 0x1F]"

definition conversation_key :: "analysis_request \<Rightarrow> text_span \<Rightarrow> string" where
  "conversation_key req span =
     (let device = (if trim (aq_device_id req) = [] then ''__unbound_dev__'' else trim (aq_device_id req));
          app = (if trim (ts_app span) = [] then ''__unknown_app__'' else trim (ts_app span));
          conversation = (if trim (ts_thread_id span) = [] then aq_request_id req else trim (ts_thread_id span))
      in device @ unit_separator @ app @ unit_separator @ conversation)"

definition text_adapter_analyze :: "(string \<Rightarrow> text_span \<Rightarrow> int \<Rightarrow> verdict) \<Rightarrow> analyzer" where
  "text_adapter_analyze analyze_span req =
     (case aq_text_span req of
        None \<Rightarrow> Ok (inconclusive (aq_request_id req) ''text analysis request did not contain a TextSpan'')
      | Some span \<Rightarrow>
          Ok (analyze_span (aq_request_id req) (span\<lparr>ts_thread_id := conversation_key req span\<rparr>) (aq_ts req)))"

definition default_offload_policy :: "device_profile \<Rightarrow> offload_policy" where
  "default_offload_policy profile =
     (let is_mobile = pf_platform profile \<in> {''android'', ''ios''};
          has_gpu = list_ex (\<lambda>p. p \<noteq> 1 \<and> p \<noteq> 0) (pf_exec_providers profile)
      in \<lparr>op_run_text_local = True, op_run_image_local = (has_gpu \<and> \<not> is_mobile), op_run_audio_local = (has_gpu \<and> \<not> is_mobile),
          op_run_video_local = False, op_max_local_rtt_ms = 120, op_min_battery_pct = 20, op_cluster_queue_backpressure = 256,
          op_ttl_secs = 300, op_preferred_local_providers = pf_exec_providers profile,
          op_policy_id = ''auto-'' @ pf_device_id profile\<rparr>)"

section \<open>Analysis\<close>

text \<open>The principal of a request, where accounts are configured.\<close>

definition principal_of ::
    "account_env \<Rightarrow> account_store option \<Rightarrow> metadata_map \<Rightarrow> (status, device_principal option) result" where
  "principal_of env accounts md =
     (case accounts of
        None \<Rightarrow> Ok None
      | Some acc \<Rightarrow> (case authenticate_device_metadata env acc md of Inl e \<Rightarrow> Err e | Inr p \<Rightarrow> Ok (Some p)))"

definition bind_analysis_identity :: "device_principal \<Rightarrow> analysis_request \<Rightarrow> (status, analysis_request) result" where
  "bind_analysis_identity p req =
     (let claimed = trim (aq_device_id req)
      in if claimed \<noteq> [] \<and> claimed \<noteq> dp_device_id p
         then Err (PermissionDenied, ''analysis request device_id does not match authenticated device'')
         else Ok (req\<lparr>aq_device_id := dp_device_id p\<rparr>))"

definition bind_request :: "device_principal option \<Rightarrow> analysis_request \<Rightarrow> (status, analysis_request) result" where
  "bind_request who req = (case who of None \<Rightarrow> Ok req | Some p \<Rightarrow> bind_analysis_identity p req)"

definition dispatch :: "analyzer_registry \<Rightarrow> analysis_request \<Rightarrow> (status, verdict) result" where
  "dispatch registry req =
     (case analyzer_for registry (aq_media_kind req) of
        Some analyzer \<Rightarrow> (case analyzer req of Inl e \<Rightarrow> Err (Internal, e) | Inr v \<Rightarrow> Ok v)
      | None \<Rightarrow> Ok (inconclusive (aq_request_id req) ''no analyzer is registered for this media kind''))"

definition analyze ::
    "account_env \<Rightarrow> account_store option \<Rightarrow> metadata_map \<Rightarrow> analyzer_registry \<Rightarrow> analysis_request \<Rightarrow> (status, verdict) result" where
  "analyze env accounts md registry req =
     (case principal_of env accounts md of
        Inl e \<Rightarrow> Err e
      | Inr p \<Rightarrow> (case bind_request p req of Inl e \<Rightarrow> Err e | Inr req' \<Rightarrow> dispatch registry req'))"

fun collect_results :: "('e, 'a) result list \<Rightarrow> ('e, 'a list) result" where
  "collect_results [] = Ok []"
| "collect_results (Inl e # rs) = Err e"
| "collect_results (Inr x # rs) = (case collect_results rs of Inl e \<Rightarrow> Err e | Inr xs \<Rightarrow> Ok (x # xs))"

definition analyze_batch ::
    "account_env \<Rightarrow> account_store option \<Rightarrow> metadata_map \<Rightarrow> analyzer_registry \<Rightarrow> analysis_request list \<Rightarrow> (status, verdict list) result" where
  "analyze_batch env accounts md registry reqs =
     (case principal_of env accounts md of
        Inl e \<Rightarrow> Err e
      | Inr p \<Rightarrow>
          (case collect_results (map (bind_request p) reqs) of
             Inl e \<Rightarrow> Err e
           | Inr reqs' \<Rightarrow> collect_results (map (dispatch registry) reqs')))"

text \<open>The inbound stream may carry transport errors of its own.\<close>

definition analyze_stream ::
    "account_env \<Rightarrow> account_store option \<Rightarrow> metadata_map \<Rightarrow> analyzer_registry \<Rightarrow> (status, analysis_request) result list \<Rightarrow>
     (status, (status, verdict) result list) result" where
  "analyze_stream env accounts md registry inbound =
     (case principal_of env accounts md of
        Inl e \<Rightarrow> Err e
      | Inr p \<Rightarrow>
          Ok (map (\<lambda>item. case item of Inl e \<Rightarrow> Err e
                  | Inr req \<Rightarrow> (case bind_request p req of Inl e \<Rightarrow> Err e | Inr req' \<Rightarrow> dispatch registry req')) inbound))"

section \<open>Offload\<close>

type_synonym profile_cache = "(string, device_profile) fmap"

definition claim_ok :: "device_principal option \<Rightarrow> string \<Rightarrow> bool" where
  "claim_ok who device_id = (case who of None \<Rightarrow> True | Some p \<Rightarrow> trim device_id = [] \<or> trim device_id = dp_device_id p)"

definition bound_device :: "device_principal option \<Rightarrow> string \<Rightarrow> string" where
  "bound_device who device_id = (case who of None \<Rightarrow> device_id | Some p \<Rightarrow> dp_device_id p)"

definition negotiate_offload ::
    "account_env \<Rightarrow> account_store option \<Rightarrow> metadata_map \<Rightarrow> device_profile \<Rightarrow> profile_cache \<Rightarrow>
     (status, offload_policy) result \<times> profile_cache" where
  "negotiate_offload env accounts md profile cache =
     (case principal_of env accounts md of
        Inl e \<Rightarrow> (Err e, cache)
      | Inr p \<Rightarrow>
          if \<not> claim_ok p (pf_device_id profile)
          then (Err (PermissionDenied, ''profile device_id does not match authenticated device''), cache)
          else (let profile' = profile\<lparr>pf_device_id := bound_device p (pf_device_id profile)\<rparr>
                in (Ok (default_offload_policy profile'), fmupd (pf_device_id profile') profile' cache)))"

definition profile_default :: device_profile where
  "profile_default = \<lparr>pf_device_id = [], pf_platform = [], pf_cpu = [], pf_cpu_cores = 0, pf_ram_mb = 0, pf_gpu = [],
     pf_exec_providers = [], pf_battery_pct = 0, pf_on_battery = False, pf_rtt_ms = 0, pf_app_version = []\<rparr>"

definition refresh_offload_rpc ::
    "account_env \<Rightarrow> account_store option \<Rightarrow> metadata_map \<Rightarrow> refresh_offload \<Rightarrow> profile_cache \<Rightarrow> (status, offload_policy) result" where
  "refresh_offload_rpc env accounts md refresh cache =
     (case principal_of env accounts md of
        Inl e \<Rightarrow> Err e
      | Inr p \<Rightarrow>
          if \<not> claim_ok p (ro_device_id refresh)
          then Err (PermissionDenied, ''refresh device_id does not match authenticated device'')
          else (let device = bound_device p (ro_device_id refresh);
                    base = (case fmlookup cache device of Some c \<Rightarrow> c | None \<Rightarrow> profile_default\<lparr>pf_device_id := device\<rparr>);
                    policy = default_offload_policy (base\<lparr>pf_rtt_ms := ro_rtt_ms refresh, pf_battery_pct := ro_battery_pct refresh\<rparr>)
                in Ok (if ro_policy_id refresh \<noteq> [] then policy\<lparr>op_policy_id := ro_policy_id refresh\<rparr> else policy)))"

section \<open>Alerts\<close>

definition event_kind :: "alert_event \<Rightarrow> alert_kind" where
  "event_kind e = (case find (\<lambda>k. alert_kind_i32 k = ae_kind e)
      [AkUnspecified, Intervention, GroomingSuspected, ProtectionDisabled, ChildSos, SafetyBroadcast] of
     None \<Rightarrow> AkUnspecified | Some k \<Rightarrow> k)"

definition bind_alert :: "device_principal option \<Rightarrow> alert_event \<Rightarrow> (status, alert_event) result" where
  "bind_alert who event =
     (if event_kind event = SafetyBroadcast
      then Err (PermissionDenied, ''SAFETY_BROADCAST is staff-originated and cannot enter through AlertRelay'')
      else (case who of
              None \<Rightarrow> Ok event
            | Some p \<Rightarrow>
                if trim (ae_device_id event) \<noteq> [] \<and> trim (ae_device_id event) \<noteq> dp_device_id p
                then Err (PermissionDenied, ''alert device_id does not match authenticated device'')
                else Ok (event\<lparr>ae_device_id := dp_device_id p, ae_child_id := dp_child_id p, ae_family_id := dp_family_id p\<rparr>)))"

record relay_state =
  rs_hub :: alert_hub
  rs_ledger :: "review_ledger option"

record relay_env =
  re_disk :: hub_disk
  re_ledger_writes :: "ledger_state \<Rightarrow> bool"
  re_receivers :: "alert_event \<Rightarrow> nat"
  re_sink :: "(alert_event \<Rightarrow> (string, alert_ack) result) option"

definition ledger_error_text :: "ledger_error \<Rightarrow> string" where
  "ledger_error_text e = (case e of LedgerInvalid s \<Rightarrow> s | LedgerConflict s \<Rightarrow> s | LedgerDisk \<Rightarrow> ''i/o error'')"

definition deliver :: "relay_env \<Rightarrow> alert_event \<Rightarrow> relay_state \<Rightarrow> (status, alert_ack) result \<times> relay_state" where
  "deliver renv event st =
     (case (case rs_ledger st of
              None \<Rightarrow> (Ok False, None)
            | Some l \<Rightarrow> (case ledger_record (re_ledger_writes renv) event l of (r, l') \<Rightarrow> (r, Some l'))) of
        (Inl e, l') \<Rightarrow> (Err (Unavailable, ''durable alert ledger: '' @ ledger_error_text e), st\<lparr>rs_ledger := l'\<rparr>)
      | (Inr _, l') \<Rightarrow>
          (let (reached, hub') = publish (re_disk renv) (re_receivers renv event) event (rs_hub st);
               st' = \<lparr>rs_hub = hub', rs_ledger = l'\<rparr>
           in case re_sink renv of
                Some raise \<Rightarrow>
                  (case raise event of
                     Inl e \<Rightarrow> (Err (Internal, e), st')
                   | Inr ack \<Rightarrow>
                       (Ok (if 0 < reached \<and> \<not> ack_delivered ack
                            then ack\<lparr>ack_delivered := True,
                                     ack_detail := ack_detail ack @ '' + fanned out to '' @ show_nat reached @ '' guardian stream(s)''\<rparr>
                            else ack), st'))
              | None \<Rightarrow>
                  (Ok \<lparr>ack_alert_id = ae_alert_id event, ack_delivered = (0 < reached), ack_deduped = False,
                       ack_detail = ''durably recorded; fanned out to '' @ show_nat reached @ '' guardian stream(s)''\<rparr>, st')))"

definition raise_alert ::
    "account_env \<Rightarrow> account_store option \<Rightarrow> metadata_map \<Rightarrow> relay_env \<Rightarrow> alert_event \<Rightarrow> relay_state \<Rightarrow>
     (status, alert_ack) result \<times> relay_state" where
  "raise_alert env accounts md renv event st =
     (case principal_of env accounts md of
        Inl e \<Rightarrow> (Err e, st)
      | Inr p \<Rightarrow> (case bind_alert p event of Inl e \<Rightarrow> (Err e, st) | Inr event' \<Rightarrow> deliver renv event' st))"

fun raise_each ::
    "device_principal option \<Rightarrow> relay_env \<Rightarrow> alert_event list \<Rightarrow> relay_state \<Rightarrow> (status, alert_ack list) result \<times> relay_state" where
  "raise_each p renv [] st = (Ok [], st)"
| "raise_each p renv (event # events) st =
     (case bind_alert p event of
        Inl e \<Rightarrow> (Err e, st)
      | Inr event' \<Rightarrow>
          (case deliver renv event' st of
             (Inl e, st') \<Rightarrow> (Err e, st')
           | (Inr ack, st') \<Rightarrow>
               (case raise_each p renv events st' of
                  (Inl e, st'') \<Rightarrow> (Err e, st'')
                | (Inr acks, st'') \<Rightarrow> (Ok (ack # acks), st''))))"

definition raise_alerts ::
    "account_env \<Rightarrow> account_store option \<Rightarrow> metadata_map \<Rightarrow> relay_env \<Rightarrow> alert_event list \<Rightarrow> relay_state \<Rightarrow>
     (status, alert_ack list) result \<times> relay_state" where
  "raise_alerts env accounts md renv events st =
     (case principal_of env accounts md of Inl e \<Rightarrow> (Err e, st) | Inr p \<Rightarrow> raise_each p renv events st)"

section \<open>Analysis answers for the authenticated device\<close>

lemma collect_results_Ok: "collect_results rs = Ok xs \<longleftrightarrow> rs = map Inr xs"
proof (induction rs arbitrary: xs)
  case (Cons r rs)
  then show ?case by (cases r) (auto simp: Cons_eq_map_conv)
qed auto

text \<open>
  A batch is exactly its single requests: it answers with verdicts if and only if the
  caller is authenticated and every request alone would be answered, with the same verdicts in the
  same order; one request that is refused or fails makes the whole batch fail.
\<close>

theorem analyze_batch_eq_singles:
  "analyze_batch env accounts md registry reqs = Ok vs \<longleftrightarrow>
     (\<exists>p. principal_of env accounts md = Ok p) \<and> map (analyze env accounts md registry) reqs = map Inr vs"
proof (cases "principal_of env accounts md")
  case (Inl e)
  then show ?thesis by (simp add: analyze_batch_def)
next
  case (Inr p)
  have single: "analyze env accounts md registry = (\<lambda>req. case bind_request p req of Inl e \<Rightarrow> Err e | Inr req' \<Rightarrow> dispatch registry req')"
    by (simp add: fun_eq_iff analyze_def Inr)
  have "(\<exists>bs. map (bind_request p) reqs = map Inr bs \<and> map (dispatch registry) bs = map Inr vs) \<longleftrightarrow>
      map (\<lambda>req. case bind_request p req of Inl e \<Rightarrow> Err e | Inr req' \<Rightarrow> dispatch registry req') reqs = map Inr vs"
  proof (induction reqs arbitrary: vs)
    case (Cons req reqs)
    then show ?case by (cases "bind_request p req"; cases vs) (auto simp: Cons_eq_map_conv map_eq_Cons_conv, metis+)
  qed auto
  then show ?thesis by (simp add: analyze_batch_def Inr collect_results_Ok single)
qed

lemma inconclusive_blocks:
  "action_from_i32 (v_action (inconclusive r t)) = Block" "verdict_category (inconclusive r t) = CatUnspecified"
  by (simp_all add: inconclusive_def action_from_i32_def verdict_category_def category_of_i32_i32 [of CatUnspecified, simplified])

lemma retaining_keeps_verdict:
  "fst (retaining_analyze senv mode secs inner req dir) = Err e \<Longrightarrow> inner req = Err e"
  "fst (retaining_analyze senv mode secs inner req dir) = Ok v \<Longrightarrow> \<exists>uri w. inner req = Ok w \<and> v = w\<lparr>v_local_segment_uri := uri\<rparr>"
proof -
  have self: "\<exists>uri. w = w\<lparr>v_local_segment_uri := uri\<rparr>" for w :: verdict
    by (rule exI [of _ "v_local_segment_uri w"]) simp
  show "fst (retaining_analyze senv mode secs inner req dir) = Err e \<Longrightarrow> inner req = Err e"
    by (auto simp: retaining_analyze_def Let_def split: sum.splits if_splits prod.splits option.splits)
  show "fst (retaining_analyze senv mode secs inner req dir) = Ok v \<Longrightarrow> \<exists>uri w. inner req = Ok w \<and> v = w\<lparr>v_local_segment_uri := uri\<rparr>"
    using self by (auto simp: retaining_analyze_def Let_def split: sum.splits if_splits prod.splits option.splits)
qed

text \<open>
  Conversations of different devices, or of different apps on a device, never share a key, as long
  as no device or app name carries the separator itself.
\<close>

lemma conversation_key_split:
  assumes "CHR 0x1F \<notin> set d" "CHR 0x1F \<notin> set d'" "d @ unit_separator @ x = d' @ unit_separator @ x'"
  shows "d = d' \<and> x = x'"
  using assms unfolding unit_separator_def
proof (induction d arbitrary: d')
  case Nil
  then show ?case by (cases d') auto
next
  case (Cons c d)
  then show ?case by (cases d') auto
qed

section \<open>From the device to the guardian\<close>

lemma event_kind_broadcast: "event_kind e = SafetyBroadcast \<longleftrightarrow> ae_kind e = 5"
  by (auto simp: event_kind_def)

lemma bind_alert_Ok:
  assumes "bind_alert (Some p) ev = Ok ev'"
  shows "ev' = ev\<lparr>ae_device_id := dp_device_id p, ae_child_id := dp_child_id p, ae_family_id := dp_family_id p\<rparr>"
    "ae_kind ev' \<noteq> 5"
  using assms by (auto simp: bind_alert_def event_kind_broadcast split: if_splits)

lemma deliver_refused:
  assumes "rs_ledger st = Some l" "ledger_record (re_ledger_writes renv) ev l = (Err d, l')"
  shows "deliver renv ev st = (Err (Unavailable, ''durable alert ledger: '' @ ledger_error_text d), st\<lparr>rs_ledger := Some l'\<rparr>)"
  using assms by (simp add: deliver_def)

lemma deliver_published:
  assumes "rs_ledger st = Some l" "ledger_record (re_ledger_writes renv) ev l = (Ok b, l')"
  shows "snd (deliver renv ev st) =
    \<lparr>rs_hub = snd (publish (re_disk renv) (re_receivers renv ev) ev (rs_hub st)), rs_ledger = Some l'\<rparr>"
  using assms by (simp add: deliver_def case_prod_unfold Let_def split: option.split sum.split)

lemma ledger_record_err_keeps:
  "ledger_record w ev l = (Err d, l') \<Longrightarrow> l' = l"
  by (rule ledger_record_cases [of w ev l]) (auto simp: ledger_commit_def split: option.splits if_splits)

lemma deliver_hub:
  assumes "rs_ledger st = Some l" "deliver renv ev st = (res, st')"
  obtains (refused) e where "res = Err e" "st' = st"
  | (published) b l' where "ledger_record (re_ledger_writes renv) ev l = (Ok b, l')"
      "st' = \<lparr>rs_hub = snd (publish (re_disk renv) (re_receivers renv ev) ev (rs_hub st)), rs_ledger = Some l'\<rparr>"
proof (cases "ledger_record (re_ledger_writes renv) ev l")
  case (Pair r l')
  show ?thesis
  proof (cases r)
    case (Inl d)
    with Pair have l: "ledger_record (re_ledger_writes renv) ev l = (Err d, l')" by simp
    from deliver_refused [OF assms(1) l] ledger_record_err_keeps [OF l] show ?thesis
      using assms by (intro refused) (auto simp: relay_state.surjective)
  next
    case (Inr b)
    with Pair have l: "ledger_record (re_ledger_writes renv) ev l = (Ok b, l')" by simp
    from deliver_published [OF assms(1) l] l show ?thesis using assms by (intro published) simp_all
  qed
qed

definition stamped :: "account_env \<Rightarrow> account_store \<Rightarrow> metadata_map \<Rightarrow> alert_event \<Rightarrow> bool" where
  "stamped env acc md ev \<longleftrightarrow>
     (\<exists>c device token. fmlookup md device_id_header = Some (HeaderText device) \<and>
        fmlookup md device_token_header = Some (HeaderText token) \<and> holds_credential env acc (trim device) (trim token) c \<and>
        ae_device_id ev = trim device \<and> ae_child_id ev = ch_child_id c \<and> ae_family_id ev = ch_family_id c) \<and> ae_kind ev \<noteq> 5"

lemma bind_alert_stamped:
  assumes "principal_of env (Some acc) md = Ok p" "bind_alert p ev = Ok ev'"
  shows "stamped env acc md ev'" "ae_alert_id ev' = ae_alert_id ev" "ae_kind ev' = ae_kind ev \<and> ae_category ev' = ae_category ev"
proof -
  obtain q where q: "p = Some q" "authenticate_device env acc md None = Ok q"
    using assms(1) by (auto simp: principal_of_def authenticate_device_metadata_def)
  note b = bind_alert_Ok [OF assms(2) [unfolded q(1)]]
  show "ae_alert_id ev' = ae_alert_id ev" "ae_kind ev' = ae_kind ev \<and> ae_category ev' = ae_category ev" by (simp_all add: b(1))
  from q(2) obtain c raw_id raw_token where "fmlookup md device_id_header = Some (HeaderText raw_id)"
    "fmlookup md device_token_header = Some (HeaderText raw_token)" "holds_credential env acc (trim raw_id) (trim raw_token) c"
    "q = \<lparr>dp_device_id = trim raw_id, dp_child_id = ch_child_id c, dp_family_id = ch_family_id c\<rparr>"
    by (rule authenticate_device_Ok)
  then show "stamped env acc md ev'" using b(2) unfolding stamped_def b(1) by auto
qed

lemma raise_alert_cases:
  assumes "raise_alert env (Some acc) md renv ev st = (res, st')" "rs_ledger st = Some l"
  obtains (refused) e where "res = Err e" "st' = st"
  | (published) ev' b l' where "stamped env acc md ev'" "ae_alert_id ev' = ae_alert_id ev"
      "ledger_record (re_ledger_writes renv) ev' l = (Ok b, l')"
      "st' = \<lparr>rs_hub = snd (publish (re_disk renv) (re_receivers renv ev') ev' (rs_hub st)), rs_ledger = Some l'\<rparr>"
      "ae_kind ev' = ae_kind ev \<and> ae_category ev' = ae_category ev"
proof (cases "principal_of env (Some acc) md")
  case (Inl e)
  then show ?thesis using assms(1) by (intro refused [of e]) (simp_all add: raise_alert_def)
next
  case (Inr p)
  show ?thesis
  proof (cases "bind_alert p ev")
    case (Inl e)
    then show ?thesis using assms(1) Inr by (intro refused [of e]) (simp_all add: raise_alert_def)
  next
    case (Inr ev')
    note st = bind_alert_stamped [OF \<open>principal_of env (Some acc) md = Inr p\<close> this]
    have "deliver renv ev' st = (res, st')"
      using assms(1) Inr \<open>principal_of env (Some acc) md = Inr p\<close> by (simp add: raise_alert_def)
    from deliver_hub [OF assms(2) this] show ?thesis using refused published st by metis
  qed
qed

text \<open>
  Claim C12. An alert enters the system only in the name of the device that raised it. Where accounts and
  the ledger are configured, a call of \<open>RaiseAlert\<close> either fails and changes nothing, or publishes
  exactly one event: it carries the alert id of the call, the device, child and family of the
  credential that the request presented, whatever the message claims, and is not a safety notice;
  and by then the ledger holds an alert under that id with the same device, child, family, kind,
  category and content hash.
\<close>

theorem raised_alert_attributed:
  assumes call: "raise_alert env (Some acc) md renv ev st = (res, st')" and l: "rs_ledger st = Some l" "ledger_run l"
  shows "(\<exists>e. res = Err e) \<and> st' = st \<or>
    (\<exists>ev' l' a. stamped env acc md ev' \<and> ae_alert_id ev' = ae_alert_id ev \<and>
       hub_sent (rs_hub st') = hub_sent (rs_hub st) @ [ev'] \<and> rs_ledger st' = Some l' \<and> ledger_run l' \<and>
       fmlookup (lg_alerts (lg_inner l')) (ae_alert_id ev) = Some a \<and> immutable_identity_eq a (alert_from_proto ev'))"
  using call l(1)
proof (cases rule: raise_alert_cases)
  case (published ev' b l')
  from ledger_recorded [OF l(2) published(3)] published(2) obtain a where
    "fmlookup (lg_alerts (lg_inner l')) (ae_alert_id ev) = Some a" "immutable_identity_eq a (alert_from_proto ev')" by auto
  moreover have "ledger_run l'" using ledger_run.recorded [OF l(2), of "re_ledger_writes renv" ev'] published(3) by simp
  ultimately show ?thesis using published by (intro disjI2 exI [of _ ev'] exI [of _ l'] exI [of _ a]) (simp add: publish_frames)
qed blast

definition presents_metadata :: "metadata_map \<times> 'm \<Rightarrow> (string \<times> string) option" where
  "presents_metadata req =
     (case (fmlookup (fst req) device_id_header, fmlookup (fst req) device_token_header) of
        (Some (HeaderText device), Some (HeaderText token)) \<Rightarrow> Some (device, token) | _ \<Rightarrow> None)"

lemma presents_metadata_Some:
  "presents_metadata req = Some (device, token) \<longleftrightarrow>
     fmlookup (fst req) device_id_header = Some (HeaderText device) \<and> fmlookup (fst req) device_token_header = Some (HeaderText token)"
  by (auto simp: presents_metadata_def split: option.splits header_value.splits)

lemma principal_forged:
  assumes "presents_metadata (md, x) = Some (device, token)" "\<And>c. \<not> holds_credential env acc device token c"
  shows "\<exists>e. principal_of env (Some acc) md = Err e"
  using authenticate_forged [of md device token env acc None] assms
  by (auto simp: presents_metadata_Some principal_of_def authenticate_device_metadata_def)

interpretation alert_rpc: device_rpc env presents_metadata "\<lambda>acc (md, ev) st. raise_alert env (Some acc) md renv ev st" for env renv
  by unfold_locales (use principal_forged in \<open>force simp: raise_alert_def split: sum.splits\<close>)

interpretation analysis_rpc: device_rpc env presents_metadata "\<lambda>acc (md, req) (st :: unit). (analyze env (Some acc) md registry req, st)" for env registry
  by unfold_locales (use principal_forged in \<open>force simp: analyze_def split: sum.splits\<close>)

interpretation offload_rpc: device_rpc env presents_metadata "\<lambda>acc (md, profile) cache. negotiate_offload env (Some acc) md profile cache" for env
  by unfold_locales (use principal_forged in \<open>force simp: negotiate_offload_def split: sum.splits\<close>)

definition sample_relay_env :: relay_env where
  "sample_relay_env = \<lparr>re_disk = good_disk, re_ledger_writes = (\<lambda>_. True), re_receivers = (\<lambda>_. 0), re_sink = None\<rparr>"

definition sample_relay :: relay_state where
  "sample_relay = \<lparr>rs_hub = sample_hub, rs_ledger = Some ledger_new\<rparr>"

definition sample_raised :: "(status, alert_ack) result \<times> relay_state" where
  "sample_raised = raise_alert sample_env (Some sample_paired) sample_credentials sample_relay_env
     (sample_child_event\<lparr>ae_child_id := ''someone else'', ae_family_id := ''another family''\<rparr>) sample_relay"

theorem raised_alert_attributed_witness:
  "\<exists>ev'. hub_sent (rs_hub (snd sample_raised)) = [ev'] \<and> ae_child_id ev' = ''08'' \<and>
     stamped sample_env sample_paired sample_credentials ev'"
proof -
  have h: "map ae_child_id (hub_sent (rs_hub (snd sample_raised))) = [''08'']" by code_simp
  have l: "rs_ledger sample_relay = Some ledger_new" "hub_sent (rs_hub sample_relay) = []"
    by (simp_all add: sample_relay_def sample_hub_def)
  have "raise_alert sample_env (Some sample_paired) sample_credentials sample_relay_env
      (sample_child_event\<lparr>ae_child_id := ''someone else'', ae_family_id := ''another family''\<rparr>) sample_relay =
      (fst sample_raised, snd sample_raised)" by (simp add: sample_raised_def)
  from raised_alert_attributed [OF this l(1) ledger_run.memory] h l(2) show ?thesis by auto
qed

lemma replay_contains:
  assumes "ledger_ok (lg_inner l)" "fmlookup (lg_alerts (lg_inner l)) i = Some a" "sa_device_id a |\<in>| gsc_device_ids scope"
  shows "alert_to_proto a \<in> set (ledger_replay l scope [])"
proof -
  have "i \<in> set (lg_order (lg_inner l))" using assms(1,2) by (auto simp: ledger_ok_def fmdomI)
  then have "a \<in> set (List.map_filter (fmlookup (lg_alerts (lg_inner l))) (lg_order (lg_inner l)))"
    using assms(2) by (force simp: List.map_filter_def)
  then show ?thesis using assms(3) by (auto simp: ledger_replay_def)
qed

lemma guardian_sees_device:
  assumes "registry_ok acc" "account_for_session env acc now token = Some g" "g |\<in>| guardians_for_device acc device"
  obtains scope where "guardian_scope_of env acc now token = Some scope" "trim device |\<in>| gsc_device_ids scope"
proof -
  obtain scope where sc: "guardian_scope_of env acc now token = Some scope"
    using assms(2) by (auto simp: guardian_scope_of_def account_for_session_def split: option.splits if_splits)
  from scope_guardian [OF this] assms(2) have "trim device |\<in>| gsc_device_ids scope"
    using routing.delivered_iff_in_scope [OF assms(1), of g device] assms(3) by (metis option.inject)
  with sc show ?thesis using that by blast
qed

lemma stream_delivers:
  assumes "registry_ok acc" "trim (token_or_meta auth (df_token fltr)) \<noteq> []" "trim (df_device_id fltr) = []"
    "account_for_session env acc t (token_or_meta auth (df_token fltr)) = Some g"
    "account_for_session env acc t' (token_or_meta auth (df_token fltr)) = Some g"
    "g |\<in>| guardians_for_device acc (ae_device_id ev)" "trim (ae_device_id ev) = ae_device_id ev"
  shows "\<exists>items. secure_stream_pending_reviews env acc t (\<lambda>_. (acc, t')) auth fltr [Received ev] l = Ok items \<and> Inr ev \<in> set items"
proof -
  let ?k = "token_or_meta auth (df_token fltr)"
  from guardian_sees_device [OF assms(1,4,6)] obtain scope where s: "guardian_scope_of env acc t ?k = Some scope"
    "ae_device_id ev |\<in>| gsc_device_ids scope" by (metis assms(7))
  from guardian_sees_device [OF assms(1,5,6)] obtain scope' where s': "guardian_scope_of env acc t' ?k = Some scope'"
    "ae_device_id ev |\<in>| gsc_device_ids scope'" by (metis assms(7))
  have "?k \<noteq> []" using assms(2) by auto
  then show ?thesis using s s' assms(2,3)
    by (simp add: secure_stream_pending_reviews_def authenticated_scope_def stream_pending_reviews_def Let_def keep_item_def event_in_scope_def)
qed



end
