(* ===== verification/Tamper.thy ===== *)
theory Tamper
  imports AlertService
begin

text \<open>
  The dead-man switch: \<open>bulwark-server/src/tamper.rs\<close>. A device reports regularly; what it reports as
  tampered with becomes an alert, and so does its silence, which a sweep finds. The table of devices
  lives in memory; the relay is passed as a second state. The table is traversed in an unspecified
  order, for which the model takes the sorted one.
\<close>

section \<open>Messages and state\<close>

datatype tamper_kind = TkUnspecified | AppUninstallAttempt | DeviceAdminRemoved | AccessibilityDisabled
  | VpnDisabled | HeartbeatMissed | SafeModeOrFactoryReset

fun tamper_kind_i32 :: "tamper_kind \<Rightarrow> int" where
  "tamper_kind_i32 TkUnspecified = 0"
| "tamper_kind_i32 AppUninstallAttempt = 1"
| "tamper_kind_i32 DeviceAdminRemoved = 2"
| "tamper_kind_i32 AccessibilityDisabled = 3"
| "tamper_kind_i32 VpnDisabled = 4"
| "tamper_kind_i32 HeartbeatMissed = 5"
| "tamper_kind_i32 SafeModeOrFactoryReset = 6"

definition tamper_kind_try_from :: "int \<Rightarrow> tamper_kind option" where
  "tamper_kind_try_from n = find (\<lambda>k. tamper_kind_i32 k = n)
     [TkUnspecified, AppUninstallAttempt, DeviceAdminRemoved, AccessibilityDisabled, VpnDisabled, HeartbeatMissed,
      SafeModeOrFactoryReset]"

record protection_status =
  ps_device_id :: string
  ps_child_id :: string
  ps_vpn_active :: bool
  ps_device_admin_active :: bool
  ps_accessibility_active :: bool
  ps_always_on_lockdown :: bool
  ps_platform :: string
  ps_app_version :: string
  ps_ts :: int

definition protection_status_default :: protection_status where
  "protection_status_default = \<lparr>ps_device_id = [], ps_child_id = [], ps_vpn_active = False, ps_device_admin_active = False,
     ps_accessibility_active = False, ps_always_on_lockdown = False, ps_platform = [], ps_app_version = [], ps_ts = 0\<rparr>"

record heartbeat_msg =
  hb_status :: "protection_status option"
  hb_tamper_events :: "int list"
  hb_device_token :: string

record heartbeat_ack =
  ha_next_interval_secs :: nat
  ha_ok :: bool

definition default_heartbeat_secs :: nat where
  "default_heartbeat_secs = 120"

definition default_grace_ms :: int where
  "default_grace_ms = 3 * int default_heartbeat_secs * 1000"

record device_liveness =
  lv_last_seen_ms :: int
  lv_platform :: string
  lv_child_id :: string
  lv_family_id :: string
  lv_overdue_alerted :: bool

record tamper_service =
  tm_liveness :: "(string, device_liveness) fmap"
  tm_grace_ms :: int

definition tamper_service_new :: tamper_service where
  "tamper_service_new = \<lparr>tm_liveness = fmempty, tm_grace_ms = default_grace_ms\<rparr>"

definition with_grace_ms :: "int \<Rightarrow> tamper_service \<Rightarrow> tamper_service" where
  "with_grace_ms grace_ms ts = ts\<lparr>tm_grace_ms := max grace_ms 1\<rparr>"

section \<open>Alerts\<close>

fun tamper_message :: "tamper_kind \<Rightarrow> string" where
  "tamper_message AppUninstallAttempt = ''An attempt was made to remove the Bulwark protection app on the child's device.''"
| "tamper_message DeviceAdminRemoved = ''Device management for the Bulwark app was turned off on the child's device.''"
| "tamper_message AccessibilityDisabled = ''On-device monitoring (accessibility) was turned off on the child's device.''"
| "tamper_message VpnDisabled = ''The filtering VPN was turned off or bypassed on the child's device.''"
| "tamper_message HeartbeatMissed = ''The child's device stopped checking in (app closed, offline, or removed).''"
| "tamper_message SafeModeOrFactoryReset = ''The child's device booted into safe mode or was factory-reset.''"
| "tamper_message TkUnspecified = ''Protection status changed on the child's device.''"

text \<open>Signed division rounds towards zero.\<close>

definition i64_secs :: "int \<Rightarrow> int" where
  "i64_secs ms = (if 0 \<le> ms then ms div 1000 else - (- ms div 1000))"

definition tamper_alert :: "string \<Rightarrow> tamper_kind \<Rightarrow> protection_status \<Rightarrow> string \<Rightarrow> int \<Rightarrow> alert_event" where
  "tamper_alert device_id kind status family_id now_ms =
     \<lparr>ae_alert_id = device_id @ ''-tamper-'' @ show_int (tamper_kind_i32 kind) @ ''-'' @ show_int (i64_secs now_ms),
      ae_kind = alert_kind_i32 ProtectionDisabled, ae_category = category_i32 Safe, ae_severity = severity_i32 High,
      ae_app = ps_platform status, ae_device_id = device_id, ae_ts = now_ms, ae_redacted_context = tamper_message kind,
      ae_evidence = None, ae_child_id = ps_child_id status, ae_family_id = family_id, ae_local_segment_uri = []\<rparr>"

section \<open>Operations\<close>

definition ingest :: "account_store option \<Rightarrow> heartbeat_msg \<Rightarrow> int \<Rightarrow> tamper_service \<Rightarrow> alert_event list \<times> tamper_service" where
  "ingest accounts heartbeat now_ms ts =
     (let status = (case hb_status heartbeat of None \<Rightarrow> protection_status_default | Some s \<Rightarrow> s);
          device_id = trim (ps_device_id status)
      in if device_id = [] then ([], ts)
         else (let (status, family_id) =
                     (case Option.bind accounts (\<lambda>acc. child_for_device acc device_id) of
                        Some (child_id, authoritative_family, _) \<Rightarrow> (status\<lparr>ps_child_id := child_id\<rparr>, authoritative_family)
                      | None \<Rightarrow> (status, []))
               in (map (\<lambda>kind. tamper_alert device_id kind status family_id now_ms)
                     (filter (\<lambda>kind. kind \<noteq> TkUnspecified) (List.map_filter tamper_kind_try_from (hb_tamper_events heartbeat))),
                   ts\<lparr>tm_liveness := fmupd device_id
                     \<lparr>lv_last_seen_ms = now_ms, lv_platform = ps_platform status, lv_child_id = ps_child_id status,
                      lv_family_id = family_id, lv_overdue_alerted = False\<rparr> (tm_liveness ts)\<rparr>)))"

definition is_overdue :: "int \<Rightarrow> int \<Rightarrow> device_liveness \<Rightarrow> bool" where
  "is_overdue grace_ms now_ms live \<longleftrightarrow>
     \<not> (i64_saturating_sub now_ms (lv_last_seen_ms live) < grace_ms \<or> lv_overdue_alerted live)"

definition overdue_alert :: "int \<Rightarrow> string \<Rightarrow> device_liveness \<Rightarrow> alert_event" where
  "overdue_alert now_ms device_id live =
     tamper_alert device_id HeartbeatMissed
       (protection_status_default\<lparr>ps_device_id := device_id, ps_child_id := lv_child_id live, ps_platform := lv_platform live\<rparr>)
       (lv_family_id live) now_ms"

definition overdue :: "int \<Rightarrow> tamper_service \<Rightarrow> alert_event list \<times> tamper_service" where
  "overdue now_ms ts =
     (map (\<lambda>(device_id, live). overdue_alert now_ms device_id live)
        (filter (\<lambda>(device_id, live). is_overdue (tm_grace_ms ts) now_ms live) (sorted_list_of_fmap (tm_liveness ts))),
      ts\<lparr>tm_liveness := fmmap (\<lambda>live. if is_overdue (tm_grace_ms ts) now_ms live then live\<lparr>lv_overdue_alerted := True\<rparr> else live)
        (tm_liveness ts)\<rparr>)"

definition publish_all :: "hub_disk \<Rightarrow> (alert_event \<Rightarrow> nat) \<Rightarrow> alert_event list \<Rightarrow> alert_hub \<Rightarrow> alert_hub" where
  "publish_all disk receivers events hub = fold (\<lambda>event h. snd (publish disk (receivers event) event h)) events hub"

definition sweep ::
    "hub_disk \<Rightarrow> (alert_event \<Rightarrow> nat) \<Rightarrow> int \<Rightarrow> tamper_service \<times> alert_hub \<Rightarrow> nat \<times> tamper_service \<times> alert_hub" where
  "sweep disk receivers now_ms s =
     (let (alerts, ts) = overdue now_ms (fst s)
      in (length alerts, ts, publish_all disk receivers alerts (snd s)))"

definition heartbeat_device :: "heartbeat_msg \<Rightarrow> string" where
  "heartbeat_device heartbeat = (case hb_status heartbeat of None \<Rightarrow> [] | Some s \<Rightarrow> trim (ps_device_id s))"

definition heartbeat_refused :: "account_env \<Rightarrow> account_store option \<Rightarrow> heartbeat_msg \<Rightarrow> status option" where
  "heartbeat_refused env accounts heartbeat =
     (if heartbeat_device heartbeat = [] then Some (InvalidArgument, ''heartbeat requires status.device_id'')
      else (case accounts of
              None \<Rightarrow> None
            | Some acc \<Rightarrow>
                if \<not> verify_device_token_strict env acc (heartbeat_device heartbeat) (trim (hb_device_token heartbeat))
                then Some (Unauthenticated, ''unknown, legacy-unpaired, or invalid device credential'') else None))"

definition heartbeat ::
    "account_env \<Rightarrow> hub_disk \<Rightarrow> (alert_event \<Rightarrow> nat) \<Rightarrow> account_store option \<Rightarrow> heartbeat_msg \<Rightarrow> int \<Rightarrow>
     tamper_service \<times> alert_hub \<Rightarrow> (status, heartbeat_ack) result \<times> tamper_service \<times> alert_hub" where
  "heartbeat env disk receivers accounts hb now_ms s =
     (case heartbeat_refused env accounts hb of
        Some e \<Rightarrow> (Err e, s)
      | None \<Rightarrow>
          (let (alerts, ts) = ingest accounts hb now_ms (fst s)
           in (Ok \<lparr>ha_next_interval_secs = default_heartbeat_secs, ha_ok = True\<rparr>, ts, publish_all disk receivers alerts (snd s))))"

definition presents_beat :: "heartbeat_msg \<Rightarrow> (string \<times> string) option" where
  "presents_beat hb = Some (heartbeat_device hb, hb_device_token hb)"

interpretation tamper_rpc: device_rpc env presents_beat "\<lambda>acc hb s. heartbeat env disk receivers (Some acc) hb now_ms s"
  for env disk receivers now_ms
proof unfold_locales
  fix req :: heartbeat_msg and device token acc and s :: "tamper_service \<times> alert_hub"
  assume p: "presents_beat req = Some (device, token)" and n: "\<And>c. \<not> holds_credential env acc device token c"
  have "\<not> verify_device_token_strict env acc (heartbeat_device req) (trim (hb_device_token req))"
    using p n unfolding strict_iff by (simp add: presents_beat_def)
  then show "\<exists>e. heartbeat env disk receivers (Some acc) req now_ms s = (Err e, s)"
    by (auto simp: heartbeat_def heartbeat_refused_def)
qed

section \<open>Silence is reported once\<close>

datatype tamper_call = Beat "account_store option" heartbeat_msg int | SweepAt int

definition tamper_do ::
    "account_env \<Rightarrow> hub_disk \<Rightarrow> (alert_event \<Rightarrow> nat) \<Rightarrow> tamper_call \<Rightarrow> tamper_service \<times> alert_hub \<Rightarrow> tamper_service \<times> alert_hub" where
  "tamper_do env disk receivers call s =
     (case call of
        Beat accounts hb now_ms \<Rightarrow> snd (heartbeat env disk receivers accounts hb now_ms s)
      | SweepAt now_ms \<Rightarrow> snd (sweep disk receivers now_ms s))"

definition tamper_run where
  "tamper_run env disk receivers calls s = fold (tamper_do env disk receivers) calls s"

definition sweep_times :: "tamper_call list \<Rightarrow> int list" where
  "sweep_times calls = List.map_filter (\<lambda>c. case c of SweepAt t \<Rightarrow> Some t | _ \<Rightarrow> None) calls"

definition quiet_for :: "account_env \<Rightarrow> string \<Rightarrow> tamper_call list \<Rightarrow> bool" where
  "quiet_for env device calls \<longleftrightarrow> list_all (\<lambda>c. case c of
       SweepAt _ \<Rightarrow> True
     | Beat accounts hb _ \<Rightarrow> heartbeat_device hb = device \<longrightarrow> heartbeat_refused env accounts hb \<noteq> None) calls"

lemma publish_all_sent [frame_simps]: "hub_sent (publish_all disk r es h) = hub_sent h @ es"
  by (induction es arbitrary: h) (simp_all add: publish_all_def publish_frames)

lemma sorted_fmap_at:
  fixes m :: "('k::linorder, 'v) fmap"
  shows "filter (\<lambda>(k, v). k = d \<and> P v) (sorted_list_of_fmap m) =
    (case fmlookup m d of Some v \<Rightarrow> if P v then [(d, v)] else [] | None \<Rightarrow> [])"
proof -
  have one: "distinct xs \<Longrightarrow> filter (\<lambda>x. x = d \<and> Q x) xs = (if d \<in> set xs \<and> Q d then [d] else [])" for xs :: "'k list" and Q
    by (induction xs) auto
  have "filter (\<lambda>(k, v). k = d \<and> P v) (sorted_list_of_fmap m) =
      map (\<lambda>k. (k, the (fmlookup m k))) (filter (\<lambda>k. k = d \<and> P (the (fmlookup m k))) (sorted_list_of_fset (fmdom m)))"
    by (simp add: sorted_list_of_fmap_def filter_map comp_def)
  also have "\<dots> = (if d |\<in>| fmdom m \<and> P (the (fmlookup m d)) then [(d, the (fmlookup m d))] else [])"
    using one [of "sorted_list_of_fset (fmdom m)" "\<lambda>k. P (the (fmlookup m k))"] by (simp add: sorted_list_of_fset.rep_eq)
  finally show ?thesis by (cases "fmlookup m d") (auto simp: fmdomI fmdom_notI)
qed

lemma overdue_at:
  assumes "fmlookup (tm_liveness ts) d = Some live"
  shows "filter (\<lambda>e. ae_device_id e = d) (fst (overdue now ts)) =
      (if is_overdue (tm_grace_ms ts) now live then [overdue_alert now d live] else [])"
    and "fmlookup (tm_liveness (snd (overdue now ts))) d =
      Some (if is_overdue (tm_grace_ms ts) now live then live\<lparr>lv_overdue_alerted := True\<rparr> else live)"
    and "tm_grace_ms (snd (overdue now ts)) = tm_grace_ms ts"
proof -
  have "filter (\<lambda>e. ae_device_id e = d) (fst (overdue now ts)) = map (\<lambda>(k, live). overdue_alert now k live)
      (filter (\<lambda>(k, v). k = d \<and> is_overdue (tm_grace_ms ts) now v) (sorted_list_of_fmap (tm_liveness ts)))"
    by (simp add: overdue_def filter_map comp_def case_prod_unfold overdue_alert_def tamper_alert_def conj_commute)
  then show "filter (\<lambda>e. ae_device_id e = d) (fst (overdue now ts)) =
      (if is_overdue (tm_grace_ms ts) now live then [overdue_alert now d live] else [])"
    by (simp add: sorted_fmap_at assms)
qed (simp_all add: overdue_def assms)

lemma ingest_facts:
  assumes "heartbeat_device hb \<noteq> []"
  obtains live where "tm_liveness (snd (ingest accounts hb now ts)) = fmupd (heartbeat_device hb) live (tm_liveness ts)"
    "lv_last_seen_ms live = now" "\<not> lv_overdue_alerted live"
    "\<And>acc c f n. accounts = Some acc \<Longrightarrow> child_for_device acc (heartbeat_device hb) = Some (c, f, n) \<Longrightarrow> lv_child_id live = c \<and> lv_family_id live = f"
    "tm_grace_ms (snd (ingest accounts hb now ts)) = tm_grace_ms ts"
    "\<And>e. e \<in> set (fst (ingest accounts hb now ts)) \<Longrightarrow> ae_device_id e = heartbeat_device hb"
proof -
  from assms obtain st where st: "hb_status hb = Some st" by (cases "hb_status hb") (auto simp: heartbeat_device_def)
  show ?thesis
    by (rule that [of "the (fmlookup (tm_liveness (snd (ingest accounts hb now ts))) (heartbeat_device hb))"])
       (use assms in \<open>auto simp: ingest_def heartbeat_device_def st Let_def tamper_alert_def case_prod_unfold split: option.splits\<close>)
qed

lemma heartbeat_Ok:
  assumes "heartbeat env disk r accounts hb now s = (Ok ack, s')"
  shows "heartbeat_refused env accounts hb = None" "heartbeat_device hb \<noteq> []"
    "fst s' = snd (ingest accounts hb now (fst s))" "hub_sent (snd s') = hub_sent (snd s) @ fst (ingest accounts hb now (fst s))"
  using assms by (auto simp: heartbeat_def heartbeat_refused_def case_prod_unfold Let_def frame_simps split: option.splits if_splits)

lemma beat_other:
  assumes "heartbeat_device hb = d \<longrightarrow> heartbeat_refused env accounts hb \<noteq> None"
  shows "\<exists>es. hub_sent (snd (snd (heartbeat env disk r accounts hb now s))) = hub_sent (snd s) @ es \<and>
      filter (\<lambda>e. ae_device_id e = d) es = []"
    and "fmlookup (tm_liveness (fst (snd (heartbeat env disk r accounts hb now s)))) d = fmlookup (tm_liveness (fst s)) d"
    and "tm_grace_ms (fst (snd (heartbeat env disk r accounts hb now s))) = tm_grace_ms (fst s)"
proof -
  obtain res s' where h: "heartbeat env disk r accounts hb now s = (res, s')" by (meson surj_pair)
  have "(\<exists>es. hub_sent (snd s') = hub_sent (snd s) @ es \<and> filter (\<lambda>e. ae_device_id e = d) es = []) \<and>
      fmlookup (tm_liveness (fst s')) d = fmlookup (tm_liveness (fst s)) d \<and> tm_grace_ms (fst s') = tm_grace_ms (fst s)"
  proof (cases res)
    case (Inl e)
    with h have "s' = s" by (auto simp: heartbeat_def case_prod_unfold Let_def split: option.splits)
    then show ?thesis by simp
  next
    case (Inr ack)
    note ok = heartbeat_Ok [OF h [unfolded Inr]]
    then have "heartbeat_device hb \<noteq> d" using assms by blast
    with ok(2) show ?thesis unfolding ok(3,4)
      by (elim ingest_facts [where accounts = accounts and now = now and ts = "fst s"]) (force simp: filter_empty_conv)
  qed
  then show "\<exists>es. hub_sent (snd (snd (heartbeat env disk r accounts hb now s))) = hub_sent (snd s) @ es \<and>
      filter (\<lambda>e. ae_device_id e = d) es = []"
    "fmlookup (tm_liveness (fst (snd (heartbeat env disk r accounts hb now s)))) d = fmlookup (tm_liveness (fst s)) d"
    "tm_grace_ms (fst (snd (heartbeat env disk r accounts hb now s))) = tm_grace_ms (fst s)" by (simp_all add: h)
qed

lemma quiet_run:
  assumes "fmlookup (tm_liveness (fst s)) d = Some live" "quiet_for env d calls"
  shows "\<exists>sent. hub_sent (snd (tamper_run env disk r calls s)) = hub_sent (snd s) @ sent \<and>
    filter (\<lambda>e. ae_device_id e = d) sent =
      (if lv_overdue_alerted live then []
       else (case find (\<lambda>now. tm_grace_ms (fst s) \<le> i64_saturating_sub now (lv_last_seen_ms live)) (sweep_times calls) of
               None \<Rightarrow> [] | Some now \<Rightarrow> [overdue_alert now d live]))"
  using assms
proof (induction calls arbitrary: s live)
  case Nil
  then show ?case by (simp add: tamper_run_def sweep_times_def List.map_filter_def)
next
  case (Cons c calls)
  have q: "quiet_for env d calls" using Cons.prems(2) by (simp add: quiet_for_def)
  have run: "tamper_run env disk r (c # calls) s = tamper_run env disk r calls (tamper_do env disk r c s)" by (simp add: tamper_run_def)
  show ?case
  proof (cases c)
    case (Beat accounts hb now)
    have b: "heartbeat_device hb = d \<longrightarrow> heartbeat_refused env accounts hb \<noteq> None"
      using Cons.prems(2) by (simp add: quiet_for_def Beat)
    note o = beat_other [OF b, of disk r now s]
    have "sweep_times (c # calls) = sweep_times calls" by (simp add: sweep_times_def List.map_filter_def Beat)
    then show ?thesis
      using o(1) Cons.IH [OF _ q, of "tamper_do env disk r c s" live] Cons.prems(1) o(2,3) unfolding run
      by (force simp: tamper_do_def Beat)
  next
    case (SweepAt now)
    let ?s = "tamper_do env disk r c s"
    let ?live = "if is_overdue (tm_grace_ms (fst s)) now live then live\<lparr>lv_overdue_alerted := True\<rparr> else live"
    have s: "fst ?s = snd (overdue now (fst s))" "hub_sent (snd ?s) = hub_sent (snd s) @ fst (overdue now (fst s))"
      by (simp_all add: tamper_do_def SweepAt sweep_def case_prod_unfold Let_def frame_simps)
    note at = overdue_at [OF Cons.prems(1), of now]
    have t: "sweep_times (c # calls) = now # sweep_times calls" by (simp add: sweep_times_def List.map_filter_def SweepAt)
    from Cons.IH [OF _ q, of ?s ?live] at(2) s(1) obtain sent where
      sent: "hub_sent (snd (tamper_run env disk r calls ?s)) = hub_sent (snd ?s) @ sent"
        "filter (\<lambda>e. ae_device_id e = d) sent = (if lv_overdue_alerted ?live then []
         else (case find (\<lambda>now. tm_grace_ms (fst ?s) \<le> i64_saturating_sub now (lv_last_seen_ms ?live)) (sweep_times calls) of
                 None \<Rightarrow> [] | Some now \<Rightarrow> [overdue_alert now d ?live]))" by auto
    show ?thesis unfolding run
      by (rule exI [of _ "fst (overdue now (fst s)) @ sent"])
         (use sent at in \<open>auto simp: s t is_overdue_def not_less split: option.splits\<close>)
  qed
qed

text \<open>
  Claim C31. The silence of a device is reported exactly once, and never early. After an accepted
  heartbeat of a device, whatever other devices do and whatever heartbeats for this device are refused
  for a wrong credential, the relay is sent no alert for the device until the first sweep
  at which the grace period has passed; that sweep sends one alert, about the child the account store named for
  the device, and no later sweep repeats it.
\<close>

theorem silence_reported_once:
  assumes beat: "heartbeat env disk r accounts hb t0 s = (Ok ack, s1)"
    and quiet: "quiet_for env (heartbeat_device hb) calls"
  shows "\<exists>sent live. hub_sent (snd (tamper_run env disk r calls s1)) = hub_sent (snd s1) @ sent \<and>
    filter (\<lambda>e. ae_device_id e = heartbeat_device hb) sent =
      (case find (\<lambda>now. tm_grace_ms (fst s) \<le> i64_saturating_sub now t0) (sweep_times calls) of
         None \<Rightarrow> [] | Some now \<Rightarrow> [overdue_alert now (heartbeat_device hb) live]) \<and>
    (\<forall>acc c f n. accounts = Some acc \<and> child_for_device acc (heartbeat_device hb) = Some (c, f, n) \<longrightarrow>
       lv_child_id live = c \<and> lv_family_id live = f)"
proof -
  note ok = heartbeat_Ok [OF beat]
  show ?thesis using ok(2)
  proof (rule ingest_facts [where accounts = accounts and now = t0 and ts = "fst s"])
    fix live
    assume live: "tm_liveness (snd (ingest accounts hb t0 (fst s))) = fmupd (heartbeat_device hb) live (tm_liveness (fst s))"
      "lv_last_seen_ms live = t0" "\<not> lv_overdue_alerted live"
      "\<And>acc c f n. accounts = Some acc \<Longrightarrow> child_for_device acc (heartbeat_device hb) = Some (c, f, n) \<Longrightarrow> lv_child_id live = c \<and> lv_family_id live = f"
      "tm_grace_ms (snd (ingest accounts hb t0 (fst s))) = tm_grace_ms (fst s)"
    have "fmlookup (tm_liveness (fst s1)) (heartbeat_device hb) = Some live" using live(1) by (simp add: ok(3))
    from quiet_run [OF this quiet, of disk r] obtain sent where
      "hub_sent (snd (tamper_run env disk r calls s1)) = hub_sent (snd s1) @ sent"
      "filter (\<lambda>e. ae_device_id e = heartbeat_device hb) sent =
        (case find (\<lambda>now. tm_grace_ms (fst s) \<le> i64_saturating_sub now t0) (sweep_times calls) of
           None \<Rightarrow> [] | Some now \<Rightarrow> [overdue_alert now (heartbeat_device hb) live])"
      using live(2,3,5) by (auto simp: ok(3))
    with live(4) show ?thesis by blast
  qed
qed

definition sample_beat :: "string \<Rightarrow> heartbeat_msg" where
  "sample_beat token = \<lparr>hb_status = Some (protection_status_default\<lparr>ps_device_id := '' tablet''\<rparr>), hb_tamper_events = [],
     hb_device_token = token\<rparr>"

definition sample_silence :: "tamper_call list" where
  "sample_silence = [SweepAt 100, Beat (Some sample_paired) (sample_beat ''forged'') 300, SweepAt 430, SweepAt 900]"

definition sample_watch :: "tamper_service \<times> alert_hub" where
  "sample_watch = (with_grace_ms 400 tamper_service_new, sample_hub)"

theorem silence_reported_once_witness:
  "\<exists>sent live. hub_sent (snd (tamper_run sample_env good_disk (\<lambda>_. 0) sample_silence
      (snd (heartbeat sample_env good_disk (\<lambda>_. 0) (Some sample_paired) (sample_beat ''09'') 30 sample_watch)))) = sent \<and>
    filter (\<lambda>e. ae_device_id e = ''tablet'') sent = [overdue_alert 430 ''tablet'' live] \<and> lv_child_id live = ''08''"
proof -
  let ?h = "heartbeat sample_env good_disk (\<lambda>_. 0) (Some sample_paired) (sample_beat ''09'') 30 sample_watch"
  have d: "heartbeat_device (sample_beat ''09'') = ''tablet''" "child_for_device sample_paired ''tablet'' = Some (''08'', ''05'', ''Kim'')"
    by code_simp+
  have "\<not> isl (fst ?h)" by code_simp
  then obtain ack where h: "?h = (Ok ack, snd ?h)" by (cases "fst ?h") (auto simp: prod_eq_iff)
  have q: "quiet_for sample_env (heartbeat_device (sample_beat ''09'')) sample_silence" by code_simp
  have g: "tm_grace_ms (fst sample_watch) = 400" "hub_sent (snd (snd ?h)) = []" by code_simp+
  have f: "find (\<lambda>now. 400 \<le> i64_saturating_sub now 30) (sweep_times sample_silence) = Some 430" by code_simp
  from silence_reported_once [OF h q] show ?thesis by (auto simp: d g f)
qed

section \<open>Observations\<close>

text \<open>
  A device enrolled without a credential of its own cannot report at all, although the description of
  the message says that such devices are accepted for the time being.
\<close>

lemma legacy_heartbeat_refused:
  assumes "fmlookup (device_to_child (st_inner acc)) (heartbeat_device hb) = Some i" "fmlookup (children (st_inner acc)) i = Some k"
    "ch_device_token_sha256 k = []" "trim (heartbeat_device hb) = heartbeat_device hb"
  shows "\<exists>e. heartbeat env disk r (Some acc) hb now s = (Err e, s)"
proof -
  have "\<not> verify_device_token_strict env acc (heartbeat_device hb) (trim (hb_device_token hb))"
    unfolding strict_iff using assms by (auto simp: holds_credential_def)
  then show ?thesis by (auto simp: heartbeat_def heartbeat_refused_def)
qed

end
