(* ===== verification/F32Arith.thy ===== *)
theory F32Arith
  imports F32
begin

text \<open>
  Arithmetic on IEEE 754 binary32 numbers as the program computes scores: values are the 32 bits, an
  operation is the exact rational result rounded to the nearest number, ties to even, with gradual
  underflow and overflow to infinity.
\<close>

section \<open>Rounding\<close>

text \<open>
  The exponent of a positive rational: the \<open>e\<close> with \<open>2\<^sup>e \<le> a < 2\<^sup>e\<^sup>+\<^sup>1\<close>, found by halving or
  doubling. Numbers from \<open>2\<^sup>1\<^sup>2\<^sup>8\<close> on and below \<open>2\<^sup>-\<^sup>1\<^sup>5\<^sup>0\<close> are not told apart, they round to infinity
  and to zero.
\<close>

fun halvings :: "nat \<Rightarrow> rat \<Rightarrow> nat" where
  "halvings n a = (if n = 0 \<or> a < 2 then 0 else Suc (halvings (n - 1) (a / 2)))"

fun doublings :: "nat \<Rightarrow> rat \<Rightarrow> nat" where
  "doublings n a = (if n = 0 \<or> 1 \<le> a then 0 else Suc (doublings (n - 1) (2 * a)))"

declare halvings.simps [simp del] doublings.simps [simp del]

definition rat_exponent :: "rat \<Rightarrow> int" where
  "rat_exponent a = (if 1 \<le> a then int (halvings 128 a) else - int (doublings 150 a))"

text \<open>The exponent of the last place: 24 significant bits, but nothing below \<open>2\<^sup>-\<^sup>1\<^sup>4\<^sup>9\<close>.\<close>

definition ulp_exponent :: "rat \<Rightarrow> int" where
  "ulp_exponent a = max (rat_exponent a - 23) (- 149)"

definition f32_magnitude :: "rat \<Rightarrow> nat" where
  "f32_magnitude a =
     (if a \<le> 0 then 0
      else min (255 * 2 ^ 23)
        (nat (ulp_exponent a + 149) * 2 ^ 23 + nat (round_half_even (a * 2 powi (- ulp_exponent a)))))"

definition f32_round :: "rat \<Rightarrow> f32_bits" where
  "f32_round q = word_of_nat ((if q < 0 then 2 ^ 31 else 0) + f32_magnitude \<bar>q\<bar>)"

definition f32_nan :: f32_bits where "f32_nan = 0x7FC00000"

definition f32_infinity :: "bool \<Rightarrow> f32_bits" where
  "f32_infinity neg = (if neg then 0xFF800000 else 0x7F800000)"

definition f32_zero :: "bool \<Rightarrow> f32_bits" where
  "f32_zero neg = (if neg then 0x80000000 else 0)"

fun f32_neg :: "f32 \<Rightarrow> bool" where
  "f32_neg NaN = False"
| "f32_neg PInf = False"
| "f32_neg NInf = True"
| "f32_neg NZero = True"
| "f32_neg (Fin q) = (q < 0)"

section \<open>Operations\<close>

definition f32_add :: "f32_bits \<Rightarrow> f32_bits \<Rightarrow> f32_bits" where
  "f32_add x y =
     (let a = f32_of_bits x; b = f32_of_bits y
      in if a = NaN \<or> b = NaN \<or> (a = PInf \<and> b = NInf) \<or> (a = NInf \<and> b = PInf) then f32_nan
         else if \<not> f32_is_finite a then x
         else if \<not> f32_is_finite b then y
         else if f32_val a + f32_val b = 0 then f32_zero (f32_neg a \<and> f32_neg b)
         else f32_round (f32_val a + f32_val b))"

definition f32_mul :: "f32_bits \<Rightarrow> f32_bits \<Rightarrow> f32_bits" where
  "f32_mul x y =
     (let a = f32_of_bits x; b = f32_of_bits y; neg = (f32_neg a \<noteq> f32_neg b)
      in if a = NaN \<or> b = NaN then f32_nan
         else if \<not> f32_is_finite a \<or> \<not> f32_is_finite b
         then (if (f32_is_finite a \<and> f32_val a = 0) \<or> (f32_is_finite b \<and> f32_val b = 0) then f32_nan else f32_infinity neg)
         else if f32_val a * f32_val b = 0 then f32_zero neg
         else f32_round (f32_val a * f32_val b))"

definition f32_div :: "f32_bits \<Rightarrow> f32_bits \<Rightarrow> f32_bits" where
  "f32_div x y =
     (let a = f32_of_bits x; b = f32_of_bits y; neg = (f32_neg a \<noteq> f32_neg b)
      in if a = NaN \<or> b = NaN \<or> (\<not> f32_is_finite a \<and> \<not> f32_is_finite b) then f32_nan
         else if \<not> f32_is_finite a then f32_infinity neg
         else if \<not> f32_is_finite b then f32_zero neg
         else if f32_val b = 0 then (if f32_val a = 0 then f32_nan else f32_infinity neg)
         else if f32_val a = 0 then f32_zero neg
         else f32_round (f32_val a / f32_val b))"

text \<open>\<open>Iterator::sum\<close> starts at negative zero, the neutral element of addition.\<close>

definition f32_sum :: "f32_bits list \<Rightarrow> f32_bits" where
  "f32_sum xs = foldl f32_add (f32_zero True) xs"

definition f32_clamp_bits :: "f32_bits \<Rightarrow> f32_bits \<Rightarrow> f32_bits \<Rightarrow> f32_bits" where
  "f32_clamp_bits lo hi x =
     (let y = (if f32_lt (f32_of_bits x) (f32_of_bits lo) then lo else x)
      in if f32_lt (f32_of_bits hi) (f32_of_bits y) then hi else y)"

text \<open>\<open>{:.1}\<close>.\<close>

definition show_tenths :: "nat \<Rightarrow> string" where
  "show_tenths n = show_nat (n div 10) @ ''.'' @ show_nat (n mod 10)"

fun fmt1 :: "f32 \<Rightarrow> string" where
  "fmt1 NaN = ''NaN''"
| "fmt1 PInf = ''inf''"
| "fmt1 NInf = ''-inf''"
| "fmt1 NZero = ''-0.0''"
| "fmt1 (Fin q) = (if q < 0 then ''-'' else '''') @ show_tenths (nat (round_half_even (\<bar>q\<bar> * 10)))"

section \<open>Facts\<close>

lemma floor_numeral_quotient: "\<lfloor>numeral a / numeral b :: rat\<rfloor> = numeral a div numeral b"
  using floor_divide_of_int_eq [of "numeral a" "numeral b", where 'a = rat] by simp

lemmas f32_round_eval = floor_numeral_quotient f32_round_def f32_magnitude_def ulp_exponent_def rat_exponent_def halvings.simps doublings.simps
  round_half_even_def Let_def

lemma f32_round_examples:
  "f32_round (6 / 10) = 0x3F19999A" "f32_round (7 / 10) = 0x3F333333" "f32_round (- 1 / 3) = 0xBEAAAAAB"
  "f32_round (2 ^ 128) = 0x7F800000" "f32_round 16777217 = 0x4B800000"
  by (simp_all add: f32_round_eval)

text \<open>A value that is not a NaN and not below zero; sums, products and quotients of such values stay so.\<close>

definition f32_pos :: "f32_bits \<Rightarrow> bool" where
  "f32_pos x \<longleftrightarrow> (case f32_of_bits x of NaN \<Rightarrow> False | NInf \<Rightarrow> False | Fin q \<Rightarrow> 0 \<le> q | _ \<Rightarrow> True)"

lemma unat_f32_bits: "n < 2 ^ 32 \<Longrightarrow> unat (word_of_nat n :: f32_bits) = n"
  by (simp add: unat_of_nat take_bit_eq_mod)

lemma f32_pos_bits: "n \<le> 255 * 2 ^ 23 \<Longrightarrow> f32_pos (word_of_nat n)"
proof -
  assume n: "n \<le> 255 * 2 ^ 23"
  then have u: "unat (word_of_nat n :: f32_bits) = n" by (intro unat_f32_bits) simp
  have nn: "n div 2 ^ 31 \<noteq> 1" using n by simp
  have "n mod 2 ^ 23 = 0" if "n div 2 ^ 23 mod 256 = 255"
  proof -
    have "n div 2 ^ 23 \<le> 255" using n div_le_mono [of n "255 * 2 ^ 23" "2 ^ 23"] by simp
    then have "n div 2 ^ 23 = 255" using that by simp
    then show ?thesis using n by (metis add_le_same_cancel1 div_mult_mod_eq le_zero_eq)
  qed
  then show ?thesis
    using nn by (auto simp: f32_pos_def f32_of_bits_def u Let_def Fract_of_int_quotient simp del: power_numeral)
qed

lemma f32_round_pos: "0 \<le> q \<Longrightarrow> f32_pos (f32_round q)"
  unfolding f32_round_def by (simp add: f32_magnitude_def f32_pos_bits del: power_numeral)

lemma f32_pos_consts [simp]: "f32_pos (f32_infinity False)" "f32_pos (f32_zero b)"
  by (simp_all add: f32_pos_def f32_infinity_def f32_zero_def f32_of_bits_def rat_number_collapse)

lemma f32_infinity_decode: "f32_of_bits (f32_infinity False) = PInf"
  by (simp add: f32_infinity_def f32_of_bits_def)

lemma f32_posE:
  assumes "f32_pos x"
  obtains "f32_of_bits x = PInf" | "f32_of_bits x = NZero" | q where "f32_of_bits x = Fin q" "0 \<le> q"
  using assms by (auto simp: f32_pos_def split: f32.splits)

lemma f32_add_pos: "f32_pos x \<Longrightarrow> f32_pos y \<Longrightarrow> f32_pos (f32_add x y)"
  by (elim f32_posE) (auto simp: f32_add_def Let_def f32_round_pos, auto simp: f32_pos_def)

lemma f32_mul_pos: "f32_pos x \<Longrightarrow> f32_of_bits y = Fin q \<Longrightarrow> 0 < q \<Longrightarrow> f32_pos (f32_mul x y)"
  by (elim f32_posE) (auto simp: f32_mul_def Let_def f32_round_pos)

lemma f32_div_pos: "f32_pos x \<Longrightarrow> f32_of_bits y = Fin q \<Longrightarrow> 0 < q \<Longrightarrow> f32_pos (f32_div x y)"
  by (elim f32_posE) (auto simp: f32_div_def Let_def f32_round_pos)

lemma f32_sum_pos: "(\<And>x. x \<in> set xs \<Longrightarrow> f32_pos x) \<Longrightarrow> f32_pos (f32_sum xs)"
proof -
  have "f32_pos a \<Longrightarrow> (\<And>x. x \<in> set xs \<Longrightarrow> f32_pos x) \<Longrightarrow> f32_pos (foldl f32_add a xs)" for a
    by (induction xs arbitrary: a) (auto intro: f32_add_pos)
  then show "(\<And>x. x \<in> set xs \<Longrightarrow> f32_pos x) \<Longrightarrow> f32_pos (f32_sum xs)" by (simp add: f32_sum_def)
qed

lemma f32_clamp_bits_decode: "f32_of_bits (f32_clamp_bits lo hi x) = f32_clamp (f32_of_bits lo) (f32_of_bits hi) (f32_of_bits x)"
  by (simp add: f32_clamp_bits_def f32_clamp_def Let_def)

section \<open>Rounding is to the nearest\<close>

lemma halvings_spec:
  "1 \<le> a \<Longrightarrow> a < 2 ^ Suc n \<Longrightarrow> 2 ^ halvings n a \<le> a \<and> a < 2 ^ Suc (halvings n a)"
proof (induction n arbitrary: a)
  case (Suc n)
  show ?case
  proof (cases "a < 2")
    case False
    then have "2 ^ halvings n (a / 2) \<le> a / 2 \<and> a / 2 < 2 ^ Suc (halvings n (a / 2))"
      using Suc.prems by (intro Suc.IH) (simp_all add: field_simps)
    then show ?thesis using False by (simp add: halvings.simps [of "Suc n"] field_simps)
  qed (use Suc.prems in \<open>simp add: halvings.simps [of "Suc n"]\<close>)
qed (simp add: halvings.simps [of 0])

lemma doublings_spec:
  "0 < a \<Longrightarrow> a < 2 \<Longrightarrow> 1 \<le> a * 2 ^ n \<Longrightarrow> 1 \<le> a * 2 ^ doublings n a \<and> a * 2 ^ doublings n a < 2"
proof (induction n arbitrary: a)
  case (Suc n)
  show ?case
  proof (cases "1 \<le> a")
    case False
    then have "1 \<le> 2 * a * 2 ^ doublings n (2 * a) \<and> 2 * a * 2 ^ doublings n (2 * a) < 2"
      using Suc.prems by (intro Suc.IH) (simp_all add: field_simps)
    then show ?thesis using False by (simp add: doublings.simps [of "Suc n"] field_simps)
  qed (use Suc.prems in \<open>simp add: doublings.simps [of "Suc n"]\<close>)
qed (simp add: doublings.simps [of 0])

lemma rat_exponent_spec:
  assumes "1 / 2 ^ 150 \<le> a" "a < 2 ^ 129"
  shows "2 powi rat_exponent a \<le> a" "a < 2 powi (rat_exponent a + 1)"
proof -
  have pos: "0 < a" by (rule less_le_trans [OF _ assms(1)]) simp
  have "2 powi rat_exponent a \<le> a \<and> a < 2 * 2 powi rat_exponent a"
  proof (cases "1 \<le> a")
    case True
    then show ?thesis using halvings_spec [of a 128] assms(2) by (simp add: rat_exponent_def)
  next
    case False
    then have "1 \<le> a * 2 ^ doublings 150 a \<and> a * 2 ^ doublings 150 a < 2"
      using assms(1) pos by (intro doublings_spec) (simp_all add: field_simps)
    then show ?thesis using False by (simp add: rat_exponent_def power_int_minus field_simps)
  qed
  then show "2 powi rat_exponent a \<le> a" "a < 2 powi (rat_exponent a + 1)" by (simp_all add: power_int_add)
qed

lemma round_half_even_near: "\<bar>of_int (round_half_even q) - q\<bar> \<le> 1 / 2"
proof -
  obtain n where n: "n = \<lfloor>q\<rfloor>" by blast
  then have "of_int n \<le> q" "q < of_int n + 1" by linarith+
  then show ?thesis by (auto simp: round_half_even_def n [symmetric] Let_def abs_if)
qed

lemma round_half_even_mono: "a \<le> b \<Longrightarrow> round_half_even a \<le> round_half_even b"
proof -
  assume ab: "a \<le> b"
  obtain m n where mn: "m = \<lfloor>a\<rfloor>" "n = \<lfloor>b\<rfloor>" by blast
  then have "of_int m \<le> a" "a < of_int m + 1" "of_int n \<le> b" "b < of_int n + 1" "m \<le> n" using ab by (linarith, linarith, linarith, linarith, simp add: floor_mono)
  moreover have "m < n \<Longrightarrow> m + 1 \<le> n" by simp
  ultimately show ?thesis using ab by (cases "m = n") (auto simp: round_half_even_def mn [symmetric] Let_def)
qed

lemma f32_decode:
  assumes "e < 255" "f < 2 ^ 23"
  shows "f32_of_bits (word_of_nat (e * 2 ^ 23 + f)) =
    Fin (if e = 0 then of_nat f * 2 powi (- 149) else of_nat (2 ^ 23 + f) * 2 powi (int e - 150))"
proof -
  have "e * 2 ^ 23 + f < 255 * 2 ^ 23" using assms by simp
  then have u: "unat (word_of_nat (e * 2 ^ 23 + f) :: f32_bits) = e * 2 ^ 23 + f" by (intro unat_f32_bits) simp
  have d: "(e * 2 ^ 23 + f) div 2 ^ 23 = e" "(e * 2 ^ 23 + f) mod 2 ^ 23 = f" "(e * 2 ^ 23 + f) div 2 ^ 31 = e div 256"
    using assms by (simp_all add: div_mult2_eq [of _ "2 ^ 23" 256, simplified])
  have lo: "(2 :: rat) powi (int e - 150) = inverse (2 ^ (150 - e))" if "e < 150"
  proof -
    have "int e - 150 = - int (150 - e)" using that by simp
    then show ?thesis by (simp only: power_int_minus power_int_of_nat)
  qed
  have hi: "(2 :: rat) powi (int e - 150) = 2 ^ (e - 150)" if "\<not> e < 150"
  proof -
    have "int e - 150 = int (e - 150)" using that by simp
    then show ?thesis by (simp only: power_int_of_nat)
  qed
  show ?thesis
    unfolding f32_of_bits_def u d Let_def using assms(1) lo hi
    by (auto simp: Fract_of_int_quotient power_int_minus divide_inverse simp del: power_numeral)
qed

text \<open>A significand of 24 bits, or one that was rounded up to \<open>2\<^sup>2\<^sup>4\<close>, with its exponent.\<close>

lemma f32_decode_rounded:
  assumes "m \<le> 2 ^ 24" "E = 0 \<or> 2 ^ 23 \<le> m" "E * 2 ^ 23 + m < 255 * 2 ^ 23"
  shows "f32_of_bits (word_of_nat (E * 2 ^ 23 + m)) = Fin (of_nat m * 2 powi (int E - 149))"
proof -
  consider "m < 2 ^ 23" "E = 0" | "2 ^ 23 \<le> m" "m < 2 ^ 24" | "m = 2 ^ 24" using assms by linarith
  then show ?thesis
  proof cases
    case 1
    then show ?thesis using f32_decode [of 0 m] by simp
  next
    case 2
    have "E * 2 ^ 23 + m = Suc E * 2 ^ 23 + (m - 2 ^ 23)" using 2 by simp
    moreover have "2 ^ 23 + (m - 2 ^ 23) = m" using 2 by simp
    moreover have "Suc E < 255" using 2 assms(3) by simp
    ultimately show ?thesis using f32_decode [of "Suc E" "m - 2 ^ 23"] 2 by (simp add: algebra_simps)
  next
    case 3
    have "E * 2 ^ 23 + m = (E + 2) * 2 ^ 23 + 0" using 3 by simp
    moreover have "E + 2 < 255" using 3 assms(3) by simp
    moreover have "(2 :: rat) ^ 23 * 2 powi (int (E + 2) - 150) = 2 ^ 24 * 2 powi (int E - 149)"
      using power_int_add_1 [of "2 :: rat" "int E - 149"] by simp
    ultimately show ?thesis using f32_decode [of "E + 2" 0] 3 by (simp add: add.commute)
  qed
qed

text \<open>
  The rounding function is correct: below the overflow threshold the result is a number, and it is within
  half a unit in the last place of the exact value.
\<close>

lemma f32_round_nearest:
  assumes "0 \<le> q" "q < 2 ^ 128 - 2 ^ 103"
  obtains v where "f32_of_bits (f32_round q) = Fin v" "\<bar>v - q\<bar> \<le> 2 powi ulp_exponent q / 2"
proof (cases "q = 0")
  case True
  then show ?thesis using that [of 0] by (simp add: f32_round_def f32_magnitude_def f32_of_bits_def rat_number_collapse)
next
  case False
  define u where "u = ulp_exponent q"
  define m where "m = round_half_even (q * 2 powi (- u))"
  have q: "0 < q" using False assms by simp
  have u149: "- 149 \<le> u" by (simp add: u_def ulp_exponent_def)
  have p: "(0 :: rat) < 2 powi u" by simp
  have near: "\<bar>of_int m - q * 2 powi (- u)\<bar> \<le> 1 / 2" unfolding m_def by (rule round_half_even_near)
  have up: "q < 2 powi (u + 24) \<and> (u = - 149 \<or> 2 powi (u + 23) \<le> q)"
  proof (cases "1 / 2 ^ 150 \<le> q")
    case True
    have "q < 2 ^ 129" using assms(2) by simp
    note e = rat_exponent_spec [OF True this]
    have "(2 :: rat) powi (rat_exponent q + 1) \<le> 2 powi (u + 24)" by (rule power_int_increasing) (simp_all add: u_def ulp_exponent_def)
    moreover have "u = - 149 \<or> u + 23 = rat_exponent q" by (auto simp: u_def ulp_exponent_def)
    ultimately show ?thesis using e by auto
  next
    case False
    then have "rat_exponent q \<le> 0" by (simp add: rat_exponent_def)
    have "q < 2 powi (- 125)" using False by (simp add: power_int_minus)
    moreover have "rat_exponent q < -126"
    proof (rule ccontr)
      assume "\<not> rat_exponent q < - 126"
      then show False using False q by (simp add: rat_exponent_def doublings.simps)
    qed
    ultimately show ?thesis by (simp add: u_def ulp_exponent_def)
  qed
  have x: "q * 2 powi (- u) = q / 2 powi u" by (simp add: power_int_minus field_simps)
  have "q < 2 ^ 24 * 2 powi u" using up by (simp add: power_int_add mult.commute)
  then have "q * 2 powi (- u) \<le> of_int (2 ^ 24)" unfolding x by (simp add: divide_le_eq p)
  from round_half_even_mono [OF this] have m24: "m \<le> 2 ^ 24" by (simp add: m_def round_half_even_def Let_def)
  have m23: "2 ^ 23 \<le> m" if "u \<noteq> - 149"
  proof -
    have "2 ^ 23 * 2 powi u \<le> q" using up that by (simp add: power_int_add mult.commute)
    then have "of_int (2 ^ 23) \<le> q * 2 powi (- u)" unfolding x by (simp add: le_divide_eq p)
    from round_half_even_mono [OF this] show ?thesis by (simp add: m_def round_half_even_def Let_def)
  qed
  have "of_int 0 \<le> q * 2 powi (- u)" using q by simp
  from round_half_even_mono [OF this] have m0: "0 \<le> m" by (simp add: m_def round_half_even_def Let_def)
  have u104: "u \<le> 104"
  proof (rule ccontr)
    assume "\<not> u \<le> 104"
    then have "(2 :: rat) powi 128 \<le> 2 powi (u + 23)" by (intro power_int_increasing) simp_all
    then show False using up assms(2) \<open>\<not> u \<le> 104\<close> by simp
  qed
  have small: "m < 2 ^ 24" if "u = 104"
  proof -
    have "q * 2 powi (- u) < 2 ^ 24 - 1 / 2" using assms(2) by (simp add: that x field_simps)
    moreover have "of_int m - q * 2 powi (- u) \<le> 1 / 2" using near by linarith
    ultimately have "rat_of_int m < of_int (2 ^ 24)" by simp
    then show ?thesis by (simp only: of_int_less_iff)
  qed
  have fits: "nat (u + 149) * 2 ^ 23 + nat m < 255 * 2 ^ 23" using u104 u149 m24 m0 small by (cases "u = 104") auto
  have "nat (u + 149) = 0 \<or> 2 ^ 23 \<le> nat m" using m23 by (cases "u = - 149") (auto simp: le_nat_iff)
  then have "f32_of_bits (word_of_nat (nat (u + 149) * 2 ^ 23 + nat m)) = Fin (of_nat (nat m) * 2 powi (int (nat (u + 149)) - 149))"
    by (intro f32_decode_rounded) (use m24 fits in \<open>simp_all add: nat_le_iff\<close>)
  moreover have "f32_magnitude q = nat (u + 149) * 2 ^ 23 + nat m"
    unfolding f32_magnitude_def u_def [symmetric] m_def [symmetric]
    using q min_absorb2 [OF less_imp_le [OF fits]] by (simp del: power_numeral min_absorb2)
  moreover have "f32_round q = word_of_nat (f32_magnitude q)" using q by (simp add: f32_round_def)
  ultimately have "f32_of_bits (f32_round q) = Fin (of_int m * 2 powi u)" using u149 m0 by (simp del: power_numeral)
  moreover have "\<bar>of_int m * 2 powi u - q\<bar> \<le> 2 powi u / 2"
  proof -
    have "of_int m * 2 powi u - q = (of_int m - q * 2 powi (- u)) * 2 powi u" unfolding x by (simp add: field_simps)
    then show ?thesis using near p by (simp add: abs_mult)
  qed
  ultimately show ?thesis using that by (simp add: u_def)
qed

section \<open>Values that stay away from zero\<close>

definition f32_above :: "rat \<Rightarrow> f32_bits \<Rightarrow> bool" where
  "f32_above l x \<longleftrightarrow> (case f32_of_bits x of PInf \<Rightarrow> True | Fin q \<Rightarrow> l \<le> q | _ \<Rightarrow> False)"

lemma f32_above_bits:
  assumes "e * 2 ^ 23 \<le> n" "n \<le> 255 * 2 ^ 23" "0 < e"
  shows "f32_above (2 powi (int e - 127)) (word_of_nat n)"
proof (cases "n = 255 * 2 ^ 23")
  case True
  then show ?thesis by (simp add: f32_above_def f32_of_bits_def)
next
  case False
  define e' f where "e' = n div 2 ^ 23" and "f = n mod 2 ^ 23"
  have n: "n = e' * 2 ^ 23 + f" by (simp add: e'_def f_def)
  have "e \<le> e'" using assms(1) div_le_mono [of "e * 2 ^ 23" n "2 ^ 23"] by (simp add: e'_def)
  have "e' < 255" using assms(2) False by (simp add: e'_def less_mult_imp_div_less)
  moreover have "f < 2 ^ 23" by (simp add: f_def)
  ultimately have d: "f32_of_bits (word_of_nat n) = Fin (of_nat (2 ^ 23 + f) * 2 powi (int e' - 150))"
    unfolding n using f32_decode [of e' f] \<open>e \<le> e'\<close> assms(3) by simp
  have "(2 :: rat) powi (int e - 127) = 2 ^ 23 * 2 powi (int e - 150)"
    using power_int_add [of "2 :: rat" 23 "int e - 150"] by simp
  also have "\<dots> \<le> 2 ^ 23 * 2 powi (int e' - 150)" using \<open>e \<le> e'\<close> by (intro mult_left_mono power_int_increasing) simp_all
  also have "\<dots> \<le> of_nat (2 ^ 23 + f) * 2 powi (int e' - 150)" by (intro mult_right_mono) simp_all
  finally show ?thesis by (simp add: f32_above_def d)
qed

lemma rat_exponent_ge:
  assumes "1 \<le> a * 2 ^ k" "k \<le> 150" "0 < a"
  shows "- int k \<le> rat_exponent a"
proof -
  have "1 \<le> a * 2 ^ k \<Longrightarrow> k \<le> n \<Longrightarrow> doublings n a \<le> k" for n
    using assms(3)
  proof (induction n arbitrary: a k)
    case (Suc n)
    show ?case
    proof (cases "1 \<le> a")
      case False
      then obtain k' where k: "k = Suc k'" using Suc.prems(1) by (cases k) auto
      have "doublings n (2 * a) \<le> k'" using Suc.prems by (intro Suc.IH) (simp_all add: k field_simps)
      then show ?thesis using False by (simp add: doublings.simps [of "Suc n"] k)
    qed (simp add: doublings.simps [of "Suc n"])
  qed (simp add: doublings.simps [of 0])
  from this [OF assms(1,2)] show ?thesis by (simp add: rat_exponent_def)
qed

text \<open>Rounding does not cross a power of two downwards; one place of slack is left.\<close>

lemma f32_round_above:
  assumes "1 \<le> a * 2 ^ k" "k \<le> 100" "0 < a"
  shows "f32_above (2 powi (- int k - 1)) (f32_round a)"
proof -
  have "- int k - 23 \<le> ulp_exponent a" using rat_exponent_ge [OF assms(1) _ assms(3)] assms(2) by (simp add: ulp_exponent_def)
  then have "(126 - k) * 2 ^ 23 \<le> nat (ulp_exponent a + 149) * 2 ^ 23" by simp
  then have "(126 - k) * 2 ^ 23 \<le> f32_magnitude a"
    using assms(3) unfolding f32_magnitude_def by (simp add: trans_le_add1)
  moreover have "f32_magnitude a \<le> 255 * 2 ^ 23" by (simp add: f32_magnitude_def)
  ultimately have "f32_above (2 powi (int (126 - k) - 127)) (word_of_nat (f32_magnitude a))"
    by (rule f32_above_bits) (use assms(2) in simp)
  moreover have "int (126 - k) - 127 = - int k - 1" using assms(2) by simp
  ultimately show ?thesis using assms(3) by (simp only: f32_round_def) simp
qed

lemma f32_add_above:
  assumes "f32_pos x" "f32_of_bits y = Fin c" "1 \<le> c * 2 ^ k" "k \<le> 100"
  shows "f32_above (2 powi (- int k - 1)) (f32_add x y)"
proof -
  have c: "0 < c" using assms(3) by (metis less_le_trans mult_le_0_iff not_le zero_less_one zero_le_numeral zero_le_power)
  from assms(1) show ?thesis
  proof (cases rule: f32_posE)
    case 1
    then show ?thesis by (simp add: f32_add_def f32_above_def assms(2))
  next
    case 2
    then show ?thesis using f32_round_above [OF assms(3,4) c] c by (simp add: f32_add_def assms(2))
  next
    case (3 q)
    have "1 \<le> (q + c) * 2 ^ k" using assms(3) 3(2) by (simp add: distrib_right add_increasing)
    from f32_round_above [OF this assms(4)] show ?thesis using 3 c by (simp add: f32_add_def assms(2) Let_def)
  qed
qed

lemma f32_mul_above:
  assumes "f32_above l x" "0 < l" "f32_of_bits y = Fin c" "1 \<le> l * c * 2 ^ k" "k \<le> 100"
  shows "f32_above (2 powi (- int k - 1)) (f32_mul x y)"
proof -
  have "0 < l * c * 2 ^ k" using assms(4) by (rule less_le_trans [OF zero_less_one])
  then have c: "0 < c" using assms(2) by (simp add: zero_less_mult_iff)
  show ?thesis
  proof (cases "f32_of_bits x")
    case (Fin q)
    then have q: "l \<le> q" using assms(1) by (simp add: f32_above_def)
    have "l * c * 2 ^ k \<le> q * c * 2 ^ k" using q c by (intro mult_right_mono) simp_all
    then have "1 \<le> (q * c) * 2 ^ k" using assms(4) by simp
    from f32_round_above [OF this assms(5)] show ?thesis using Fin q c assms(2) by (simp add: f32_mul_def assms(3) Let_def)
  qed (use assms(1) c in \<open>simp_all add: f32_above_def f32_mul_def assms(3) f32_infinity_decode\<close>)
qed

lemma f32_div_above:
  assumes "f32_above l x" "0 < l" "f32_of_bits y = Fin c" "0 < c" "1 \<le> l / c * 2 ^ k" "k \<le> 100"
  shows "f32_above (2 powi (- int k - 1)) (f32_div x y)"
proof (cases "f32_of_bits x")
  case (Fin q)
  then have q: "l \<le> q" using assms(1) by (simp add: f32_above_def)
  have "l / c * 2 ^ k \<le> q / c * 2 ^ k" using q assms(4) by (intro mult_right_mono divide_right_mono) simp_all
  then have "1 \<le> q / c * 2 ^ k" using assms(5) by simp
  from f32_round_above [OF this assms(6)] show ?thesis using Fin q assms(2,4) by (simp add: f32_div_def assms(3) Let_def)
qed (use assms(1,4) in \<open>simp_all add: f32_above_def f32_div_def assms(3) f32_infinity_decode\<close>)

lemma f32_above_weaken: "f32_above l x \<Longrightarrow> l' \<le> l \<Longrightarrow> f32_above l' x"
  by (auto simp: f32_above_def split: f32.splits)

end
