(* ===== verification/FamilySafety.thy ===== *)
theory FamilySafety
  imports AlertService StaffAdmin
begin

text \<open>
  The SOS button and safety notices: \<open>bulwark-server/src/family_safety.rs\<close>. The notice board and the
  relay are the states; the accounts, the staff store, the alert sink, the clock and the random
  numbers are arguments.
\<close>

section \<open>Notices\<close>

record safety_broadcast =
  bc_broadcast_id :: string
  bc_title :: string
  bc_body :: string
  bc_severity :: int
  bc_region :: string
  bc_issued_ts :: int
  bc_expires_ts :: int
  bc_notify_child_devices :: bool
  bc_issued_by :: string

record broadcast_row =
  br_broadcast_id :: string
  br_title :: string
  br_body :: string
  br_severity :: int
  br_region :: string
  br_issued_ts :: int
  br_expires_ts :: int
  br_notify_child_devices :: bool
  br_issued_by :: string

definition max_stored_broadcasts :: nat where
  "max_stored_broadcasts = 64"

definition max_title_chars :: nat where
  "max_title_chars = 120"

definition max_body_chars :: nat where
  "max_body_chars = 2000"

definition broadcast_from_proto :: "safety_broadcast \<Rightarrow> broadcast_row" where
  "broadcast_from_proto v = \<lparr>br_broadcast_id = bc_broadcast_id v, br_title = bc_title v, br_body = bc_body v,
     br_severity = bc_severity v, br_region = bc_region v, br_issued_ts = bc_issued_ts v, br_expires_ts = bc_expires_ts v,
     br_notify_child_devices = bc_notify_child_devices v, br_issued_by = bc_issued_by v\<rparr>"

definition broadcast_into_proto :: "broadcast_row \<Rightarrow> safety_broadcast" where
  "broadcast_into_proto r = \<lparr>bc_broadcast_id = br_broadcast_id r, bc_title = br_title r, bc_body = br_body r,
     bc_severity = br_severity r, bc_region = br_region r, bc_issued_ts = br_issued_ts r, bc_expires_ts = br_expires_ts r,
     bc_notify_child_devices = br_notify_child_devices r, bc_issued_by = br_issued_by r\<rparr>"

definition row_active :: "int \<Rightarrow> broadcast_row \<Rightarrow> bool" where
  "row_active now_ms row \<longleftrightarrow> br_expires_ts row \<le> 0 \<or> now_ms < br_expires_ts row"

record broadcast_store =
  bs_inner :: "broadcast_row list"
  bs_file :: "broadcast_row list option"

definition broadcast_store_new :: broadcast_store where
  "broadcast_store_new = \<lparr>bs_inner = [], bs_file = None\<rparr>"

definition broadcast_with_state_dir :: "(unit, broadcast_row list option) result \<Rightarrow> (unit, broadcast_store) result" where
  "broadcast_with_state_dir loaded =
     (case loaded of
        Inl e \<Rightarrow> Err e
      | Inr rows \<Rightarrow> (let r = (case rows of None \<Rightarrow> [] | Some rs \<Rightarrow> rs) in Ok \<lparr>bs_inner = r, bs_file = Some r\<rparr>))"

definition broadcast_add ::
    "(broadcast_row list \<Rightarrow> bool) \<Rightarrow> safety_broadcast \<Rightarrow> broadcast_store \<Rightarrow> (unit, unit) result \<times> broadcast_store" where
  "broadcast_add writes broadcast st =
     (let pushed = bs_inner st @ [broadcast_from_proto broadcast];
          next' = (if max_stored_broadcasts < length pushed then drop (length pushed - max_stored_broadcasts) pushed else pushed)
      in case bs_file st of
           None \<Rightarrow> (Ok (), st\<lparr>bs_inner := next'\<rparr>)
         | Some _ \<Rightarrow> if writes next' then (Ok (), \<lparr>bs_inner = next', bs_file = Some next'\<rparr>) else (Err (), st))"

definition row_in_region :: "string \<Rightarrow> broadcast_row \<Rightarrow> bool" where
  "row_in_region region row \<longleftrightarrow> region = [] \<or> br_region row = [] \<or> br_region row = region"

definition broadcast_active :: "int \<Rightarrow> string \<Rightarrow> broadcast_store \<Rightarrow> safety_broadcast list" where
  "broadcast_active now_ms region st =
     (let region = to_ascii_lowercase (trim region)
      in sort_key (\<lambda>b. - bc_issued_ts b)
           (map broadcast_into_proto (filter (row_in_region region) (filter (row_active now_ms) (bs_inner st)))))"

section \<open>Events\<close>

definition em_dash :: string where
  "em_dash = [CHR 0xE2, CHR 0x80, CHR 0x94]"

definition sos_alert :: "string \<Rightarrow> string \<Rightarrow> string \<Rightarrow> string \<Rightarrow> string \<Rightarrow> int \<Rightarrow> alert_event" where
  "sos_alert alert_id device_id child_id family_id child_name now_ms =
     (let who = (if trim child_name = [] then ''Your child'' else trim child_name)
      in \<lparr>ae_alert_id = alert_id, ae_kind = alert_kind_i32 ChildSos, ae_category = category_i32 Safe,
          ae_severity = severity_i32 Critical, ae_app = [], ae_device_id = device_id, ae_ts = now_ms,
          ae_redacted_context = ''URGENT: '' @ who @ '' pressed the SOS button in PH Bulwark on their device. Please contact them right away.'',
          ae_evidence = None, ae_child_id = child_id, ae_family_id = family_id, ae_local_segment_uri = []\<rparr>)"

definition broadcast_alert_event :: "safety_broadcast \<Rightarrow> alert_event" where
  "broadcast_alert_event b =
     \<lparr>ae_alert_id = bc_broadcast_id b, ae_kind = alert_kind_i32 SafetyBroadcast, ae_category = category_i32 Safe,
      ae_severity = bc_severity b, ae_app = bc_region b, ae_device_id = [], ae_ts = bc_issued_ts b,
      ae_redacted_context = (if bc_body b = [] then bc_title b else bc_title b @ '' '' @ em_dash @ '' '' @ bc_body b),
      ae_evidence = None, ae_child_id = [], ae_family_id = [], ae_local_segment_uri = []\<rparr>"

section \<open>The service\<close>

record family_safety =
  fs_accounts :: "account_store option"
  fs_sink :: "(alert_event \<Rightarrow> (string, alert_ack) result) option"
  fs_staff :: "(staff_env \<times> staff_store) option"
  fs_staff_token_sha256 :: "string option"

definition fs_sha256_hex :: "(bytes \<Rightarrow> bytes) \<Rightarrow> string \<Rightarrow> string" where
  "fs_sha256_hex sha value = hex (sha (as_bytes value))"

definition with_staff_token :: "(bytes \<Rightarrow> bytes) \<Rightarrow> string option \<Rightarrow> family_safety \<Rightarrow> family_safety" where
  "with_staff_token sha raw fs = fs\<lparr>fs_staff_token_sha256 :=
     (case raw of None \<Rightarrow> None | Some token \<Rightarrow> if trim token = [] then None else Some (fs_sha256_hex sha (trim token)))\<rparr>"

text \<open>The comparison reads every byte, so that its time does not depend on where they differ.\<close>

definition token_matches :: "(bytes \<Rightarrow> bytes) \<Rightarrow> string \<Rightarrow> string \<Rightarrow> bool" where
  "token_matches sha expected_sha256_hex presented =
     (let presented = fs_sha256_hex sha (trim presented)
      in if length presented \<noteq> length expected_sha256_hex then False
         else fold (\<lambda>(left, right) diff. or diff (xor left right)) (zip (as_bytes presented) (as_bytes expected_sha256_hex)) 0 = 0)"

fun show_hex_nat :: "nat \<Rightarrow> string" where
  "show_hex_nat n = (if n < 16 then [hex_digits ! n] else show_hex_nat (n div 16) @ [hex_digits ! (n mod 16)])"

definition random_hex :: "bytes option \<Rightarrow> int \<Rightarrow> string" where
  "random_hex draw now_ms = (case draw of Some bs \<Rightarrow> hex bs | None \<Rightarrow> show_hex_nat (nat now_ms))"

definition chars_count :: "string \<Rightarrow> nat" where
  "chars_count s = length (filter (\<lambda>c. \<not> (128 \<le> code c \<and> code c < 192)) s)"

record sos_request =
  sq_device_id :: string
  sq_device_token :: string
  sq_ts :: int
  sq_client_sos_id :: string

record sos_ack =
  sk_delivered :: bool
  sk_alert_id :: string
  sk_guardian_streams_reached :: nat
  sk_detail :: string

definition sos_identity ::
    "account_env \<Rightarrow> account_store option \<Rightarrow> sos_request \<Rightarrow> (status, string \<times> string \<times> string) result" where
  "sos_identity env accounts sos =
     (case accounts of
        None \<Rightarrow> Ok ([], [], [])
      | Some acc \<Rightarrow>
          if \<not> verify_device_token_strict env acc (trim (sq_device_id sos)) (trim (sq_device_token sos))
          then Err (Unauthenticated, ''unknown, legacy-unpaired, or invalid device credential'')
          else (case child_for_device acc (trim (sq_device_id sos)) of
                  None \<Rightarrow> Err (Unauthenticated, ''device enrollment is no longer valid'')
                | Some identity \<Rightarrow> Ok identity))"

definition raise_sos ::
    "account_env \<Rightarrow> hub_disk \<Rightarrow> (alert_event \<Rightarrow> nat) \<Rightarrow> family_safety \<Rightarrow> int \<Rightarrow> sos_request \<Rightarrow> alert_hub \<Rightarrow>
     (status, sos_ack) result \<times> alert_hub" where
  "raise_sos env disk receivers fs now sos hub =
     (let device_id = trim (sq_device_id sos)
      in if device_id = [] then (Err (InvalidArgument, ''device_id is required''), hub)
         else (case sos_identity env (fs_accounts fs) sos of
                 Inl e \<Rightarrow> (Err e, hub)
               | Inr (child_id, family_id, child_name) \<Rightarrow>
                   (let alert_id = (if trim (sq_client_sos_id sos) = [] then device_id @ ''-sos-'' @ show_int (now div 1000)
                                    else trim (sq_client_sos_id sos));
                        event = sos_alert alert_id device_id child_id family_id child_name now;
                        (reached, hub') = publish disk (receivers event) event hub;
                        sink_delivered = (case fs_sink fs of
                            None \<Rightarrow> False
                          | Some sink \<Rightarrow> (case sink event of Inr ack \<Rightarrow> ack_delivered ack | Inl _ \<Rightarrow> False));
                        delivered = (0 < reached \<or> sink_delivered)
                    in (Ok \<lparr>sk_delivered = delivered, sk_alert_id = alert_id, sk_guardian_streams_reached = as_u32 reached,
                            sk_detail = (if delivered then ''your guardian has been alerted''
                                         else ''SOS accepted; no guardian delivery path is currently online'')\<rparr>, hub'))))"

record send_broadcast_request =
  sr_staff_token :: string
  sr_broadcast :: "safety_broadcast option"

record broadcast_ack =
  bk_accepted :: bool
  bk_broadcast_id :: string
  bk_guardian_streams_reached :: nat
  bk_detail :: string

definition broadcast_issuer ::
    "(bytes \<Rightarrow> bytes) \<Rightarrow> family_safety \<Rightarrow> int \<Rightarrow> string option \<Rightarrow> send_broadcast_request \<Rightarrow> (status, string) result" where
  "broadcast_issuer sha fs now authorization incoming =
     (case fs_staff fs of
        Some (env, staff) \<Rightarrow>
          (let token = (case bearer_token authorization of
                          Some t \<Rightarrow> if trim t \<noteq> [] then trim t else trim (sr_staff_token incoming)
                        | None \<Rightarrow> trim (sr_staff_token incoming))
           in case authorize env staff now token [SafetyOfficer, Admin] of
                Inl e \<Rightarrow> Err (staff_status e) | Inr identity \<Rightarrow> Ok (id_staff_id identity))
      | None \<Rightarrow>
          (case fs_staff_token_sha256 fs of
             Some expected \<Rightarrow>
               if \<not> token_matches sha expected (sr_staff_token incoming) then Err (PermissionDenied, ''invalid staff token'')
               else Ok ''staff-shared-token''
           | None \<Rightarrow> Err (Unimplemented, ''staff safety broadcasts are not enabled on this listener'')))"

definition prepare_broadcast ::
    "int \<Rightarrow> bytes option \<Rightarrow> string \<Rightarrow> safety_broadcast \<Rightarrow> (status, safety_broadcast) result" where
  "prepare_broadcast now draw issued_by b =
     (let title = trim (bc_title b); body = trim (bc_body b)
      in if title = [] then Err (InvalidArgument, ''broadcast.title is required'')
         else if max_title_chars < chars_count title \<or> max_body_chars < chars_count body
         then Err (InvalidArgument, ''broadcast title/body exceeds the allowed length'')
         else Ok (b\<lparr>bc_title := title, bc_body := body, bc_region := to_ascii_lowercase (trim (bc_region b)),
                    bc_broadcast_id := ''bcast-'' @ random_hex draw now, bc_issued_ts := now, bc_issued_by := issued_by,
                    bc_severity := (if bc_severity b = severity_i32 SevUnspecified then severity_i32 High else bc_severity b)\<rparr>))"

definition send_safety_broadcast ::
    "(bytes \<Rightarrow> bytes) \<Rightarrow> hub_disk \<Rightarrow> (alert_event \<Rightarrow> nat) \<Rightarrow> (broadcast_row list \<Rightarrow> bool) \<Rightarrow> family_safety \<Rightarrow> int \<Rightarrow> bytes option \<Rightarrow>
     string option \<Rightarrow> send_broadcast_request \<Rightarrow> broadcast_store \<Rightarrow> alert_hub \<Rightarrow>
     (status, broadcast_ack) result \<times> broadcast_store \<times> alert_hub" where
  "send_safety_broadcast sha disk receivers writes fs now draw authorization incoming st hub =
     (case broadcast_issuer sha fs now authorization incoming of
        Inl e \<Rightarrow> (Err e, st, hub)
      | Inr issued_by \<Rightarrow>
          (case sr_broadcast incoming of
             None \<Rightarrow> (Err (InvalidArgument, ''broadcast is required''), st, hub)
           | Some b \<Rightarrow>
               (case prepare_broadcast now draw issued_by b of
                  Inl e \<Rightarrow> (Err e, st, hub)
                | Inr broadcast \<Rightarrow>
                    (case broadcast_add writes broadcast st of
                       (Inl _, st') \<Rightarrow> (Err (Unavailable, ''could not durably record safety broadcast''), st', hub)
                     | (Inr _, st') \<Rightarrow>
                         (let event = broadcast_alert_event broadcast;
                              (reached, hub') = publish disk (receivers event) event hub
                          in (Ok \<lparr>bk_accepted = True, bk_broadcast_id = bc_broadcast_id broadcast,
                                  bk_guardian_streams_reached = as_u32 reached,
                                  bk_detail = ''broadcast stored and fanned out to '' @ show_nat reached @ '' guardian stream(s)''\<rparr>,
                              st', hub'))))))"

record list_broadcasts_request =
  lb_token :: string
  lb_device_id :: string
  lb_device_token :: string
  lb_region :: string

definition list_safety_broadcasts ::
    "account_env \<Rightarrow> family_safety \<Rightarrow> int \<Rightarrow> string option \<Rightarrow> list_broadcasts_request \<Rightarrow> broadcast_store \<Rightarrow>
     (status, safety_broadcast list) result" where
  "list_safety_broadcasts env fs now authorization fltr st =
     (let permitted = (case fs_accounts fs of
            None \<Rightarrow> True
          | Some acc \<Rightarrow>
              (let session = (if trim (lb_token fltr) = [] then meta_token authorization else trim (lb_token fltr));
                   guardian_ok = (session \<noteq> [] \<and> guardian_scope_of env acc now session \<noteq> None);
                   device_ok = (trim (lb_device_id fltr) \<noteq> [] \<and>
                     verify_device_token_strict env acc (trim (lb_device_id fltr)) (trim (lb_device_token fltr)))
               in guardian_ok \<or> device_ok))
      in if \<not> permitted then Err (Unauthenticated, ''a guardian session or paired-device credential is required'')
         else Ok (broadcast_active now (trim (lb_region fltr)) st))"

section \<open>Who may send\<close>

lemma xor_zero_iff: "xor a b = 0 \<longleftrightarrow> a = (b :: 'a::len word)"
proof
  assume "xor a b = 0"
  then have "xor (xor a b) b = b" by simp
  then show "a = b" by (simp add: xor.assoc)
qed simp

lemma diff_fold_zero:
  "fold (\<lambda>(left, right) diff. or diff (xor left right)) zs d = (0 :: u8) \<longleftrightarrow> d = 0 \<and> (\<forall>(l, r)\<in>set zs. l = r)"
  by (induction zs arbitrary: d) (auto simp: or_eq_0_iff xor_zero_iff)

lemma token_matches_iff: "token_matches sha expected presented \<longleftrightarrow> fs_sha256_hex sha (trim presented) = expected"
proof -
  have "(\<forall>(l, r)\<in>set (zip xs ys). l = r) \<longleftrightarrow> xs = ys" if "length xs = length ys" for xs ys :: bytes
    using that by (induction xs ys rule: list_induct2) auto
  then show ?thesis by (auto simp: token_matches_def Let_def diff_fold_zero)
qed

text \<open>The authority to send: a staff session with the right role, or the shared token where there is no staff store.\<close>

definition may_broadcast ::
    "(bytes \<Rightarrow> bytes) \<Rightarrow> family_safety \<Rightarrow> int \<Rightarrow> string option \<Rightarrow> send_broadcast_request \<Rightarrow> bool" where
  "may_broadcast sha fs now authorization incoming \<longleftrightarrow>
     (case fs_staff fs of
        Some (env, staff) \<Rightarrow>
          (\<exists>token staff_id role. token \<in> {trim (sr_staff_token incoming), meta_token authorization} \<and>
             identity_for_token env (ts_inner staff) now token = Ok (staff_id, role) \<and>
             role \<in> {role_number SafetyOfficer, role_number Admin})
      | None \<Rightarrow> fs_staff_token_sha256 fs = Some (fs_sha256_hex sha (trim (sr_staff_token incoming))))"

lemma bearer_token_trimmed: "bearer_token a = Some t \<Longrightarrow> trim t = t \<and> t \<noteq> []"
  by (auto simp: bearer_token_def split: option.splits if_splits)

lemma authorize_Ok:
  assumes "authorize env st now token roles = Ok identity"
  shows "identity_for_token env (ts_inner st) now token = Ok (id_staff_id identity, id_role identity)"
    "\<exists>r\<in>set roles. id_role identity = role_number r"
  using assms by (auto simp: authorize_def list_ex_iff split: sum.splits prod.splits if_splits)

lemma broadcast_issuer_Ok:
  assumes "broadcast_issuer sha fs now auth incoming = Ok who"
  shows "may_broadcast sha fs now auth incoming"
proof (cases "fs_staff fs")
  case None
  then show ?thesis using assms
    by (auto simp: broadcast_issuer_def may_broadcast_def token_matches_iff split: option.splits if_splits)
next
  case (Some p)
  obtain env staff where p: "p = (env, staff)" by (cases p)
  let ?t = "case bearer_token auth of Some t \<Rightarrow> if trim t \<noteq> [] then trim t else trim (sr_staff_token incoming)
    | None \<Rightarrow> trim (sr_staff_token incoming)"
  have t: "?t \<in> {trim (sr_staff_token incoming), meta_token auth}"
    using bearer_token_trimmed [of auth] by (auto simp: meta_token_def split: option.splits)
  from assms obtain identity where "authorize env staff now ?t [SafetyOfficer, Admin] = Ok identity"
    by (auto simp: broadcast_issuer_def Some p Let_def split: sum.splits)
  from authorize_Ok [OF this] t show ?thesis unfolding may_broadcast_def Some p by auto
qed

lemma prepare_broadcast_Ok:
  assumes "prepare_broadcast now draw who b = Ok b'"
  shows "bc_title b' = trim (bc_title b)" "bc_title b' \<noteq> []" "chars_count (bc_title b') \<le> max_title_chars"
    "chars_count (bc_body b') \<le> max_body_chars" "bc_issued_by b' = who" "bc_issued_ts b' = now"
    "bc_expires_ts b' = bc_expires_ts b" "bc_severity b' \<noteq> 0"
  using assms by (auto simp: prepare_broadcast_def Let_def split: if_splits)

lemma send_cases:
  assumes "send_safety_broadcast sha disk r w fs now draw auth incoming st hub = (res, st', hub')"
  obtains (refused) e where "res = Err e" "st' = st" "hub' = hub"
  | (sent) who b b' ack where "broadcast_issuer sha fs now auth incoming = Ok who" "sr_broadcast incoming = Some b"
      "prepare_broadcast now draw who b = Ok b'" "broadcast_add w b' st = (Ok (), st')" "res = Ok ack"
      "bk_broadcast_id ack = bc_broadcast_id b'"
      "hub' = snd (publish disk (r (broadcast_alert_event b')) (broadcast_alert_event b') hub)"
proof (cases "\<exists>who b b'. broadcast_issuer sha fs now auth incoming = Ok who \<and> sr_broadcast incoming = Some b \<and>
    prepare_broadcast now draw who b = Ok b' \<and> fst (broadcast_add w b' st) = Ok ()")
  case True
  then obtain who b b' where "broadcast_issuer sha fs now auth incoming = Ok who" "sr_broadcast incoming = Some b"
    "prepare_broadcast now draw who b = Ok b'" "fst (broadcast_add w b' st) = Ok ()" by blast
  then show ?thesis using assms
    by (intro sent [of who b b']) (auto simp: send_safety_broadcast_def Let_def case_prod_unfold prod_eq_iff)
next
  case False
  have "snd (broadcast_add w b st) = st" if "fst (broadcast_add w b st) = Err x" for b x
    using that by (auto simp: broadcast_add_def Let_def split: option.splits if_splits)
  with False assms have "\<exists>e. res = Err e \<and> st' = st \<and> hub' = hub"
    by (auto simp: send_safety_broadcast_def Let_def case_prod_unfold split: sum.splits option.splits)
  then show ?thesis using refused by blast
qed

section \<open>The notice board\<close>

inductive broadcast_run :: "broadcast_store \<Rightarrow> bool" where
  memory: "broadcast_run broadcast_store_new"
| boot: "broadcast_with_state_dir (Ok None) = Ok st \<Longrightarrow> broadcast_run st"
| added: "broadcast_run st \<Longrightarrow> broadcast_run (snd (broadcast_add w b st))"
| restarted: "broadcast_run st \<Longrightarrow> broadcast_with_state_dir (Ok (bs_file st)) = Ok st' \<Longrightarrow> broadcast_run st'"

definition pushed_rows :: "broadcast_row \<Rightarrow> broadcast_row list \<Rightarrow> broadcast_row list" where
  "pushed_rows r rows = drop (Suc (length rows) - max_stored_broadcasts) (rows @ [r])"

lemma broadcast_add_alt:
  "broadcast_add w b st =
    (case bs_file st of
       None \<Rightarrow> (Ok (), st\<lparr>bs_inner := pushed_rows (broadcast_from_proto b) (bs_inner st)\<rparr>)
     | Some _ \<Rightarrow> if w (pushed_rows (broadcast_from_proto b) (bs_inner st))
                 then (Ok (), \<lparr>bs_inner = pushed_rows (broadcast_from_proto b) (bs_inner st),
                               bs_file = Some (pushed_rows (broadcast_from_proto b) (bs_inner st))\<rparr>)
                 else (Err (), st))"
proof -
  have "(if max_stored_broadcasts < length (bs_inner st @ [x]) then drop (length (bs_inner st @ [x]) - max_stored_broadcasts) (bs_inner st @ [x])
      else bs_inner st @ [x]) = pushed_rows x (bs_inner st)" for x by (simp add: pushed_rows_def)
  then show ?thesis by (simp only: broadcast_add_def Let_def)
qed

lemma broadcast_run_ok:
  "broadcast_run st \<Longrightarrow> length (bs_inner st) \<le> max_stored_broadcasts \<and> (bs_file st = None \<or> bs_file st = Some (bs_inner st))"
proof (induction rule: broadcast_run.induct)
  case (added st w b)
  then show ?case by (auto simp: broadcast_add_alt pushed_rows_def split: option.splits)
qed (auto simp: broadcast_store_new_def broadcast_with_state_dir_def Let_def split: option.splits)

text \<open>
  The notice board keeps the newest sixty-four notices, in memory as on disk, and lists exactly
  those that have not expired and concern the region asked for, newest first.
\<close>

theorem notice_board:
  assumes "broadcast_run st"
  shows "length (bs_inner st) \<le> max_stored_broadcasts \<and> (bs_file st = None \<or> bs_file st = Some (bs_inner st)) \<and>
    sorted_wrt (\<lambda>a b. bc_issued_ts b \<le> bc_issued_ts a) (broadcast_active now region st) \<and>
    mset (broadcast_active now region st) = image_mset broadcast_into_proto
      (filter_mset (\<lambda>r. row_active now r \<and> row_in_region (to_ascii_lowercase (trim region)) r) (mset (bs_inner st)))"
proof -
  have "sorted_wrt (\<lambda>a b. bc_issued_ts b \<le> bc_issued_ts a) (sort_key (\<lambda>b. - bc_issued_ts b) xs)" for xs
  proof -
    have "sorted_wrt (\<lambda>x y. x \<le> y) (map (\<lambda>b. - bc_issued_ts b) (sort_key (\<lambda>b. - bc_issued_ts b) xs))" by simp
    then show ?thesis unfolding sorted_wrt_map by simp
  qed
  then show ?thesis using broadcast_run_ok [OF assms]
    by (simp add: broadcast_active_def Let_def mset_filter filter_filter_mset conj_commute)
qed

lemma row_survives:
  assumes "row \<in> set (drop (length rows - n) rows)" "length rows \<le> max_stored_broadcasts" "n < max_stored_broadcasts"
  shows "row \<in> set (drop (length (pushed_rows r rows) - Suc n) (pushed_rows r rows))"
proof -
  have "length rows - (Suc (length rows) - max_stored_broadcasts + n) + (Suc (length rows) - max_stored_broadcasts) = length rows - n"
    using assms(2,3) by (cases "length rows = max_stored_broadcasts") auto
  then show ?thesis using assms(1) by (auto simp: pushed_rows_def)
qed

lemma rows_after_adds:
  assumes "row \<in> set (drop (length (bs_inner st) - n) (bs_inner st))" "length (bs_inner st) \<le> max_stored_broadcasts"
    "n + length later < max_stored_broadcasts + 1"
  shows "row \<in> set (bs_inner (fold (\<lambda>(w, b) s. snd (broadcast_add w b s)) later st))"
  using assms
proof (induction later arbitrary: st n)
  case Nil
  then show ?case by (auto dest: in_set_dropD)
next
  case (Cons l later)
  obtain w b where l: "l = (w, b)" by fastforce
  let ?st = "snd (broadcast_add w b st)"
  have "\<exists>m \<le> Suc n. row \<in> set (drop (length (bs_inner ?st) - m) (bs_inner ?st)) \<and> length (bs_inner ?st) \<le> max_stored_broadcasts"
  proof (cases "bs_inner ?st = bs_inner st")
    case True
    then show ?thesis using Cons.prems by (intro exI [of _ n]) simp
  next
    case False
    then have "bs_inner ?st = pushed_rows (broadcast_from_proto b) (bs_inner st)"
      by (auto simp: broadcast_add_alt split: option.splits if_splits)
    moreover have "length (pushed_rows (broadcast_from_proto b) (bs_inner st)) \<le> max_stored_broadcasts" by (simp add: pushed_rows_def)
    moreover have "n < max_stored_broadcasts" using Cons.prems(3) by simp
    ultimately show ?thesis using row_survives [OF Cons.prems(1,2), of "broadcast_from_proto b"] by auto
  qed
  then obtain m where m: "m \<le> Suc n" "row \<in> set (drop (length (bs_inner ?st) - m) (bs_inner ?st))"
    "length (bs_inner ?st) \<le> max_stored_broadcasts" by blast
  then show ?case using Cons.IH [OF m(2,3)] Cons.prems(3) by (simp add: l)
qed

text \<open>
  A safety notice is sent by staff only, and stays up. A call that is not answered with
  success changes neither the board nor the relay. A successful one was made with the session of a
  safety officer or an administrator (with the shared token, where no staff store is configured);
  the relay is sent exactly one event, a safety notice that names no device and no child; and the
  notice is on the board: it is listed under the id that was answered, in its region, until it expires or
  sixty-four later notices have been added.
\<close>

theorem safety_notice_by_staff:
  assumes call: "send_safety_broadcast sha disk r w fs now draw auth incoming st hub = (res, st', hub')"
    and run: "broadcast_run st"
  shows "(\<exists>e. res = Err e) \<and> st' = st \<and> hub' = hub \<or>
    may_broadcast sha fs now auth incoming \<and>
    (\<exists>ack ev b. res = Ok ack \<and> hub_sent hub' = hub_sent hub @ [ev] \<and> ae_kind ev = alert_kind_i32 SafetyBroadcast \<and>
       ae_device_id ev = [] \<and> ae_child_id ev = [] \<and> sr_broadcast incoming = Some b \<and>
       (\<forall>later t. length later < max_stored_broadcasts \<and> (bc_expires_ts b \<le> 0 \<or> t < bc_expires_ts b) \<longrightarrow>
          (\<exists>n\<in>set (broadcast_active t (bc_region b) (fold (\<lambda>(w, b) s. snd (broadcast_add w b s)) later st')).
             bc_broadcast_id n = bk_broadcast_id ack \<and> bc_title n = trim (bc_title b))))"
  using call
proof (cases rule: send_cases)
  case (sent who b b' ack)
  let ?row = "broadcast_from_proto b'"
  have ok: "length (bs_inner st') \<le> max_stored_broadcasts"
    using broadcast_run_ok [OF broadcast_run.added [OF run, of w b']] sent(4) by simp
  have "bs_inner st' = pushed_rows ?row (bs_inner st)"
    using sent(4) by (auto simp: broadcast_add_alt split: option.splits if_splits)
  then have new: "?row \<in> set (drop (length (bs_inner st') - 1) (bs_inner st'))"
    by (auto simp: pushed_rows_def max_stored_broadcasts_def)
  have "\<exists>n\<in>set (broadcast_active t (bc_region b) (fold (\<lambda>(w, b) s. snd (broadcast_add w b s)) later st')).
      bc_broadcast_id n = bk_broadcast_id ack \<and> bc_title n = trim (bc_title b)"
    if later: "length later < max_stored_broadcasts" "bc_expires_ts b \<le> 0 \<or> t < bc_expires_ts b" for later t
  proof -
    have "?row \<in> set (bs_inner (fold (\<lambda>(w, b) s. snd (broadcast_add w b s)) later st'))"
      using rows_after_adds [OF new ok] later(1) by simp
    moreover have "row_active t ?row" "row_in_region (to_ascii_lowercase (trim (bc_region b))) ?row"
      using later(2) sent(3) by (auto simp: row_active_def row_in_region_def broadcast_from_proto_def prepare_broadcast_def Let_def split: if_splits)
    ultimately have "broadcast_into_proto ?row \<in> set (broadcast_active t (bc_region b) (fold (\<lambda>(w, b) s. snd (broadcast_add w b s)) later st'))"
      by (auto simp: broadcast_active_def Let_def)
    moreover have "broadcast_into_proto ?row = b'" by (simp add: broadcast_into_proto_def broadcast_from_proto_def)
    ultimately show ?thesis using sent(6) prepare_broadcast_Ok(1) [OF sent(3)] by auto
  qed
  moreover have "hub_sent hub' = hub_sent hub @ [broadcast_alert_event b']" by (simp add: sent(7) publish_frames)
  ultimately show ?thesis using broadcast_issuer_Ok [OF sent(1)] sent(2,5)
    by (intro disjI2 conjI exI [of _ ack] exI [of _ "broadcast_alert_event b'"] exI [of _ b]) (simp_all add: broadcast_alert_event_def)
qed blast

definition sample_notice :: safety_broadcast where
  "sample_notice = \<lparr>bc_broadcast_id = [], bc_title = '' Storm '', bc_body = [], bc_severity = 0, bc_region = ''UK'', bc_issued_ts = 0,
     bc_expires_ts = 100, bc_notify_child_devices = False, bc_issued_by = []\<rparr>"

definition sample_desk :: family_safety where
  "sample_desk = \<lparr>fs_accounts = Some sample_paired, fs_sink = None, fs_staff = None, fs_staff_token_sha256 = Some ''0173''\<rparr>"

definition sample_sent :: "(status, broadcast_ack) result \<times> broadcast_store \<times> alert_hub" where
  "sample_sent = send_safety_broadcast (\<lambda>x. 1 # x) good_disk (\<lambda>_. 0) (\<lambda>_. True) sample_desk 50 (Some [7]) None
     \<lparr>sr_staff_token = ''s'', sr_broadcast = Some sample_notice\<rparr> broadcast_store_new sample_hub"

theorem safety_notice_by_staff_witness:
  "may_broadcast (\<lambda>x. 1 # x) sample_desk 50 None \<lparr>sr_staff_token = ''s'', sr_broadcast = Some sample_notice\<rparr> \<and>
   (\<exists>n\<in>set (broadcast_active 99 ''UK'' (fst (snd sample_sent))). bc_title n = ''Storm'')"
proof -
  have c: "send_safety_broadcast (\<lambda>x. 1 # x) good_disk (\<lambda>_. 0) (\<lambda>_. True) sample_desk 50 (Some [7]) None
     \<lparr>sr_staff_token = ''s'', sr_broadcast = Some sample_notice\<rparr> broadcast_store_new sample_hub =
     (fst sample_sent, fst (snd sample_sent), snd (snd sample_sent))" by (simp add: sample_sent_def)
  have "trim ''s'' = ''s''" "fs_sha256_hex (\<lambda>x. 1 # x) ''s'' = ''0173''" by code_simp+
  then have i: "broadcast_issuer (\<lambda>x. 1 # x) sample_desk 50 None \<lparr>sr_staff_token = ''s'', sr_broadcast = Some sample_notice\<rparr> =
      Ok ''staff-shared-token''" by (simp add: broadcast_issuer_def sample_desk_def token_matches_iff)
  have "\<not> isl (prepare_broadcast 50 (Some [7]) ''staff-shared-token'' sample_notice)" by code_simp
  then obtain b where "prepare_broadcast 50 (Some [7]) ''staff-shared-token'' sample_notice = Ok b"
    by (cases "prepare_broadcast 50 (Some [7]) ''staff-shared-token'' sample_notice") auto
  then have no: "\<not> (\<exists>e. fst sample_sent = Err e)"
    by (simp add: sample_sent_def send_safety_broadcast_def i broadcast_add_alt broadcast_store_new_def case_prod_unfold Let_def)
  have t: "trim (bc_title sample_notice) = ''Storm''" "bc_region sample_notice = ''UK''" "bc_expires_ts sample_notice = 100" by code_simp+
  from safety_notice_by_staff [OF c broadcast_run.memory] no
  have m: "may_broadcast (\<lambda>x. 1 # x) sample_desk 50 None \<lparr>sr_staff_token = ''s'', sr_broadcast = Some sample_notice\<rparr>"
    and b: "\<exists>ack :: broadcast_ack. \<forall>later t. length later < max_stored_broadcasts \<and> (bc_expires_ts sample_notice \<le> 0 \<or> t < bc_expires_ts sample_notice) \<longrightarrow>
      (\<exists>n\<in>set (broadcast_active t (bc_region sample_notice) (fold (\<lambda>(w, b) s. snd (broadcast_add w b s)) later (fst (snd sample_sent)))).
         bc_broadcast_id n = bk_broadcast_id ack \<and> bc_title n = trim (bc_title sample_notice))" by auto
  from b obtain ack :: broadcast_ack where ack: "\<And>later t. length later < max_stored_broadcasts \<and>
      (bc_expires_ts sample_notice \<le> 0 \<or> t < bc_expires_ts sample_notice) \<Longrightarrow>
      \<exists>n\<in>set (broadcast_active t (bc_region sample_notice) (fold (\<lambda>(w, b) s. snd (broadcast_add w b s)) later (fst (snd sample_sent)))).
         bc_broadcast_id n = bk_broadcast_id ack \<and> bc_title n = trim (bc_title sample_notice)" by blast
  from ack [of "[]" 99] have "\<exists>n\<in>set (broadcast_active 99 ''UK'' (fst (snd sample_sent))). bc_title n = ''Storm''"
    by (auto simp: t max_stored_broadcasts_def)
  with m show ?thesis by (auto simp: t)
qed

theorem notice_board_witness:
  "broadcast_run (snd (broadcast_add (\<lambda>_. True) sample_notice broadcast_store_new)) \<and>
   length (bs_inner (snd (broadcast_add (\<lambda>_. True) sample_notice broadcast_store_new))) \<le> max_stored_broadcasts"
  using notice_board [OF broadcast_run.added [OF broadcast_run.memory]] broadcast_run.intros(1,3) by blast

section \<open>SOS\<close>

lemma raise_sos_Ok:
  assumes "raise_sos env disk r fs now sos hub = (Ok ack, hub')" "fs_accounts fs = Some acc"
  obtains c ev where "holds_credential env acc (trim (sq_device_id sos)) (trim (sq_device_token sos)) c"
    "ev = sos_alert (sk_alert_id ack) (trim (sq_device_id sos)) (ch_child_id c) (ch_family_id c) (ch_name c) now"
    "hub_sent hub' = hub_sent hub @ [ev]"
    "sk_delivered ack \<longleftrightarrow> 0 < r ev \<or> (\<exists>sink k. fs_sink fs = Some sink \<and> sink ev = Ok k \<and> ack_delivered k)"
proof -
  from assms obtain ch fa na where i: "sos_identity env (Some acc) sos = Ok (ch, fa, na)"
    by (auto simp: raise_sos_def Let_def split: if_splits sum.splits)
  then have v: "verify_device_token_strict env acc (trim (sq_device_id sos)) (trim (sq_device_token sos))"
    "child_for_device acc (trim (sq_device_id sos)) = Some (ch, fa, na)"
    by (auto simp: sos_identity_def split: if_splits option.splits)
  from v(1) obtain c where c: "holds_credential env acc (trim (sq_device_id sos)) (trim (sq_device_token sos)) c"
    unfolding strict_iff by blast
  from holds_credential_child [OF c] v(2) have e: "ch = ch_child_id c" "fa = ch_family_id c" "na = ch_name c" by auto
  define aid where "aid = (if trim (sq_client_sos_id sos) = [] then trim (sq_device_id sos) @ ''-sos-'' @ show_int (now div 1000)
    else trim (sq_client_sos_id sos))"
  define ev where "ev = sos_alert aid (trim (sq_device_id sos)) ch fa na now"
  have dev: "trim (sq_device_id sos) \<noteq> []" using assms by (auto simp: raise_sos_def)
  have "hub' = snd (publish disk (r ev) ev hub)" "sk_alert_id ack = aid" "sk_delivered ack \<longleftrightarrow> 0 < r ev \<or>
      (case fs_sink fs of None \<Rightarrow> False | Some sink \<Rightarrow> (case sink ev of Inr ack \<Rightarrow> ack_delivered ack | Inl _ \<Rightarrow> False))"
    using assms(1) unfolding raise_sos_def assms(2) i sum.case Let_def case_prod_unfold fst_conv snd_conv
    unfolding aid_def [symmetric] ev_def [symmetric]
    by (auto simp: dev publish_def Let_def)
  then show ?thesis using ev_def e by (intro that [OF c, of ev]) (simp_all add: publish_frames split: option.split sum.split)
qed

lemma raise_sos_Err:
  assumes "raise_sos env disk r fs now sos hub = (Err e, hub')"
  shows "hub' = hub"
  using assms by (auto simp: raise_sos_def Let_def case_prod_unfold split: if_splits sum.splits)

definition presents_sos :: "sos_request \<Rightarrow> (string \<times> string) option" where
  "presents_sos sos = Some (sq_device_id sos, sq_device_token sos)"

interpretation sos_rpc: device_rpc env presents_sos "\<lambda>acc sos hub. raise_sos env disk receivers (fs\<lparr>fs_accounts := Some acc\<rparr>) now sos hub"
  for env disk receivers fs now
proof unfold_locales
  fix req :: sos_request and device token acc and hub :: alert_hub
  assume p: "presents_sos req = Some (device, token)" and n: "\<And>c. \<not> holds_credential env acc device token c"
  show "\<exists>e. raise_sos env disk receivers (fs\<lparr>fs_accounts := Some acc\<rparr>) now req hub = (Err e, hub)"
  proof (cases "raise_sos env disk receivers (fs\<lparr>fs_accounts := Some acc\<rparr>) now req hub")
    case (Pair res hub')
    show ?thesis
    proof (cases res)
      case (Inl e)
      then show ?thesis using Pair raise_sos_Err by auto
    next
      case (Inr ack)
      from raise_sos_Ok [OF Pair [unfolded Inr], of acc] p n show ?thesis by (auto simp: presents_sos_def)
    qed
  qed
qed


definition sample_sos :: sos_request where
  "sample_sos = \<lparr>sq_device_id = '' tablet'', sq_device_token = ''09'', sq_ts = 0, sq_client_sos_id = ''help-1''\<rparr>"


section \<open>Observations\<close>

text \<open>
  The identifier that the client chooses does not make a retry harmless: the second call sends a second event.
\<close>

lemma sos_retry_alerts_twice:
  assumes "raise_sos env disk r fs now sos hub = (Ok ack, hub1)" "raise_sos env disk r fs later sos hub1 = (Ok ack', hub2)"
    "fs_accounts fs = Some acc" "trim (sq_client_sos_id sos) \<noteq> []"
  shows "\<exists>e1 e2. hub_sent hub2 = hub_sent hub @ [e1, e2] \<and> ae_alert_id e1 = trim (sq_client_sos_id sos) \<and>
    ae_alert_id e2 = trim (sq_client_sos_id sos)"
proof -
  have i: "sk_alert_id a = trim (sq_client_sos_id sos)" if "raise_sos env disk r fs t sos h = (Ok a, h')" for t h a h'
    using that assms(3,4) by (auto simp: raise_sos_def Let_def case_prod_unfold split: if_splits sum.splits)
  from raise_sos_Ok [OF assms(1,3)] i [OF assms(1)] obtain e1 where
    e1: "hub_sent hub1 = hub_sent hub @ [e1]" "ae_alert_id e1 = trim (sq_client_sos_id sos)"
    by (metis sos_alert_def alert_event.select_convs(1))
  from raise_sos_Ok [OF assms(2,3)] i [OF assms(2)] obtain e2 where
    "hub_sent hub2 = hub_sent hub1 @ [e2]" "ae_alert_id e2 = trim (sq_client_sos_id sos)"
    by (metis sos_alert_def alert_event.select_convs(1))
  with e1 show ?thesis by simp
qed

text \<open>
  The answer says that the guardian has been alerted as soon as any stream is connected, also when
  the only one connected belongs to a stranger, who is not sent the event.
\<close>

lemma sos_delivery_overclaimed:
  assumes call: "raise_sos env disk (\<lambda>_. 1) fs now sos hub = (Ok ack, hub')" "fs_accounts fs = Some acc" "fs_sink fs = None"
    and stranger: "guardian_scope_of env acc now token = Some scope" "gsc_child_ids scope = {||}" "gsc_device_ids scope = {||}"
  shows "sk_delivered ack \<and> (\<exists>ev. hub_sent hub' = hub_sent hub @ [ev] \<and> \<not> event_in_scope scope want ev)"
  using raise_sos_Ok [OF call(1,2)] stranger by (metis event_in_scope_def fempty_iff less_one)

end
