(* ===== verification/ChildControl.thy ===== *)
theory ChildControl
  imports AlertService
begin

text \<open>
  The settings a guardian makes for a child's device: \<open>bulwark-server/src/child_control.rs\<close>. The store
  keeps one configuration per child with a version, which device it is for, and what each
  device says it has applied. A watch channel is its current value; a receiver is the list of
  values it sees. The policy snapshot replays the relay's decision journal.
\<close>

section \<open>State\<close>

record child_config =
  cg_child_id :: string
  cg_device_id :: string
  cg_filtering_enabled :: bool
  cg_server_region :: string
  cg_server_endpoint :: string
  cg_profile :: int
  cg_require_always_on :: bool
  cg_config_version :: nat
  cg_updated_ts :: int
  cg_updated_by :: string
  cg_filter_location :: int

record config_row =
  cw_child_id :: string
  cw_device_id :: string
  cw_filtering_enabled :: bool
  cw_server_region :: string
  cw_server_endpoint :: string
  cw_profile :: int
  cw_require_always_on :: bool
  cw_config_version :: nat
  cw_updated_ts :: int
  cw_updated_by :: string
  cw_filter_location :: int

record applied_row =
  aw_device_id :: string
  aw_version :: nat

record config_snapshot =
  sn_configs :: "config_row list"
  sn_applied :: "applied_row list"

record applied_report =
  rp_version :: nat
  rp_ts :: int

record child_config_store =
  cc_by_child :: "(string, child_config) fmap"
  cc_device_to_child :: "(string, string) fmap"
  cc_applied :: "(string, applied_report) fmap"
  cc_file :: "config_snapshot option"

definition config_from_proto :: "child_config \<Rightarrow> config_row" where
  "config_from_proto c = \<lparr>cw_child_id = cg_child_id c, cw_device_id = cg_device_id c, cw_filtering_enabled = cg_filtering_enabled c,
     cw_server_region = cg_server_region c, cw_server_endpoint = cg_server_endpoint c, cw_profile = cg_profile c,
     cw_require_always_on = cg_require_always_on c, cw_config_version = cg_config_version c, cw_updated_ts = cg_updated_ts c,
     cw_updated_by = cg_updated_by c, cw_filter_location = cg_filter_location c\<rparr>"

definition config_into_proto :: "config_row \<Rightarrow> child_config" where
  "config_into_proto r = \<lparr>cg_child_id = cw_child_id r, cg_device_id = cw_device_id r, cg_filtering_enabled = cw_filtering_enabled r,
     cg_server_region = cw_server_region r, cg_server_endpoint = cw_server_endpoint r, cg_profile = cw_profile r,
     cg_require_always_on = cw_require_always_on r, cg_config_version = cw_config_version r, cg_updated_ts = cw_updated_ts r,
     cg_updated_by = cw_updated_by r, cg_filter_location = cw_filter_location r\<rparr>"

definition report_default :: applied_report where
  "report_default = \<lparr>rp_version = 0, rp_ts = 0\<rparr>"

definition config_snapshot_default :: config_snapshot where
  "config_snapshot_default = \<lparr>sn_configs = [], sn_applied = []\<rparr>"

definition config_store_new :: child_config_store where
  "config_store_new = \<lparr>cc_by_child = fmempty, cc_device_to_child = fmempty, cc_applied = fmempty, cc_file = None\<rparr>"

definition load_applied :: "applied_row \<Rightarrow> child_config_store \<Rightarrow> child_config_store" where
  "load_applied row st = st\<lparr>cc_applied := fmupd (aw_device_id row) \<lparr>rp_version = aw_version row, rp_ts = 0\<rparr> (cc_applied st)\<rparr>"

definition load_config :: "config_row \<Rightarrow> child_config_store \<Rightarrow> child_config_store" where
  "load_config row st =
     (let config = config_into_proto row
      in st\<lparr>cc_device_to_child := (if cg_device_id config \<noteq> [] then fmupd (cg_device_id config) (cg_child_id config) (cc_device_to_child st)
                                   else cc_device_to_child st),
            cc_by_child := fmupd (cg_child_id config) config (cc_by_child st)\<rparr>)"

definition config_with_state_dir :: "(unit, config_snapshot option) result \<Rightarrow> (unit, child_config_store) result" where
  "config_with_state_dir loaded =
     (case loaded of
        Inl e \<Rightarrow> Err e
      | Inr s \<Rightarrow>
          (let snap = (case s of None \<Rightarrow> config_snapshot_default | Some x \<Rightarrow> x)
           in Ok (fold load_config (sn_configs snap) (fold load_applied (sn_applied snap)
                   (config_store_new\<lparr>cc_file := Some snap\<rparr>)))))"

definition config_snapshot_of :: "child_config_store \<Rightarrow> config_snapshot" where
  "config_snapshot_of st =
     \<lparr>sn_configs = sort_key cw_child_id (map (config_from_proto \<circ> snd) (sorted_list_of_fmap (cc_by_child st))),
      sn_applied = sort_key aw_device_id
        (map (\<lambda>(device_id, report). \<lparr>aw_device_id = device_id, aw_version = rp_version report\<rparr>) (sorted_list_of_fmap (cc_applied st)))\<rparr>"

definition persist_snapshot ::
    "(config_snapshot \<Rightarrow> bool) \<Rightarrow> config_snapshot \<Rightarrow> child_config_store \<Rightarrow> (status, unit) result \<times> child_config_store" where
  "persist_snapshot writes snap st =
     (case cc_file st of
        None \<Rightarrow> (Ok (), st)
      | Some _ \<Rightarrow>
          if writes snap then (Ok (), st\<lparr>cc_file := Some snap\<rparr>)
          else (Err (Unavailable, ''could not durably persist child configuration''), st))"

section \<open>Operations\<close>

text \<open>The first row with the key is replaced, or the row is appended.\<close>

fun upsert :: "('a \<Rightarrow> bool) \<Rightarrow> ('a \<Rightarrow> 'a) \<Rightarrow> 'a \<Rightarrow> 'a list \<Rightarrow> 'a list" where
  "upsert p f new [] = [new]"
| "upsert p f new (x # xs) = (if p x then f x # xs else x # upsert p f new xs)"

definition u64_saturating_add :: "nat \<Rightarrow> nat \<Rightarrow> nat" where
  "u64_saturating_add a b = min u64_max (a + b)"

definition config_version_of :: "child_config_store \<Rightarrow> string \<Rightarrow> nat" where
  "config_version_of st child_id = (case fmlookup (cc_by_child st) child_id of None \<Rightarrow> 0 | Some c \<Rightarrow> cg_config_version c)"

definition config_check :: "guardian_scope \<Rightarrow> child_config \<Rightarrow> status option" where
  "config_check scope config =
     (let child_id = trim (cg_child_id config); device_id = trim (cg_device_id config)
      in if child_id = [] then Some (InvalidArgument, ''config.child_id is required'')
         else if child_id |\<notin>| gsc_child_ids scope then Some (PermissionDenied, ''caller is not a guardian of this child'')
         else if device_id \<noteq> [] \<and> device_id |\<notin>| gsc_device_ids scope
         then Some (PermissionDenied, ''device_id is not a supervised device of this guardian'')
         else None)"

definition updated_config ::
    "account_env \<Rightarrow> account_store \<times> int \<Rightarrow> string \<Rightarrow> child_config \<Rightarrow> child_config_store \<Rightarrow> child_config" where
  "updated_config env second token config st =
     config\<lparr>cg_child_id := trim (cg_child_id config), cg_device_id := trim (cg_device_id config),
       cg_config_version := u64_saturating_add (config_version_of st (trim (cg_child_id config))) 1, cg_updated_ts := snd second,
       cg_updated_by := (case account_for_session env (fst second) (snd second) token of None \<Rightarrow> [] | Some a \<Rightarrow> a)\<rparr>"

definition updated_snapshot :: "child_config \<Rightarrow> child_config_store \<Rightarrow> config_snapshot" where
  "updated_snapshot config st =
     (let snap = config_snapshot_of st; row = config_from_proto config
      in snap\<lparr>sn_configs := sort_key cw_child_id (upsert (\<lambda>r. cw_child_id r = cg_child_id config) (\<lambda>_. row) row (sn_configs snap))\<rparr>)"

definition install_config :: "child_config \<Rightarrow> child_config_store \<Rightarrow> child_config_store" where
  "install_config config st =
     st\<lparr>cc_device_to_child := (if cg_device_id config \<noteq> []
          then fmupd (cg_device_id config) (cg_child_id config)
                 (fm_retain (\<lambda>device child. child \<noteq> cg_child_id config \<or> device = cg_device_id config) (cc_device_to_child st))
          else cc_device_to_child st),
        cc_by_child := fmupd (cg_child_id config) config (cc_by_child st)\<rparr>"

text \<open>
  The session is looked up twice without a lock in between, so the second time the account store and
  the clock may have moved on.
\<close>

definition set_config ::
    "account_env \<Rightarrow> (config_snapshot \<Rightarrow> bool) \<Rightarrow> account_store \<times> int \<Rightarrow> account_store \<times> int \<Rightarrow> string \<Rightarrow> child_config \<Rightarrow>
     child_config_store \<Rightarrow> (status, nat \<times> child_config) result \<times> child_config_store" where
  "set_config env writes first second token config st =
     (case guardian_scope_of env (fst first) (snd first) token of
        None \<Rightarrow> (Err (Unauthenticated, ''invalid or missing session token''), st)
      | Some scope \<Rightarrow>
          (case config_check scope config of
             Some e \<Rightarrow> (Err e, st)
           | None \<Rightarrow>
               (let config = updated_config env second token config st
                in case persist_snapshot writes (updated_snapshot config st) st of
                     (Inl e, st') \<Rightarrow> (Err e, st')
                   | (Inr _, st') \<Rightarrow> (Ok (cg_config_version config, config), install_config config st'))))"

definition no_config :: status where
  "no_config = (StNotFound, ''no config for this device yet'')"

definition get_by_device :: "child_config_store \<Rightarrow> string \<Rightarrow> (status, child_config) result" where
  "get_by_device st device_id =
     (if trim device_id = [] then Err (InvalidArgument, ''device_id is required'')
      else (case fmlookup (cc_device_to_child st) (trim device_id) of
              None \<Rightarrow> Err no_config
            | Some child_id \<Rightarrow> (case fmlookup (cc_by_child st) child_id of None \<Rightarrow> Err no_config | Some config \<Rightarrow> Ok config)))"

definition applied_of :: "child_config_store \<Rightarrow> string \<Rightarrow> applied_report" where
  "applied_of st device_id = (case fmlookup (cc_applied st) device_id of None \<Rightarrow> report_default | Some r \<Rightarrow> r)"

definition record_applied_report ::
    "(config_snapshot \<Rightarrow> bool) \<Rightarrow> int \<Rightarrow> string \<Rightarrow> nat \<Rightarrow> child_config_store \<Rightarrow> child_config_store" where
  "record_applied_report writes now raw_device version st =
     (let device_id = trim raw_device
      in if device_id = [] then st
         else (case fmlookup (cc_device_to_child st) device_id of
                 None \<Rightarrow> st
               | Some child_id \<Rightarrow>
                   (let version = min version (config_version_of st child_id);
                        current = applied_of st device_id;
                        touched = (\<lambda>s. s\<lparr>cc_applied := fmupd device_id (applied_of s device_id\<lparr>rp_ts := now\<rparr>) (cc_applied s)\<rparr>)
                    in if rp_version current < version
                       then (let snap = config_snapshot_of st;
                                 next' = snap\<lparr>sn_applied := sort_key aw_device_id
                                   (upsert (\<lambda>r. aw_device_id r = device_id) (\<lambda>r. r\<lparr>aw_version := version\<rparr>)
                                     \<lparr>aw_device_id = device_id, aw_version = version\<rparr> (sn_applied snap))\<rparr>
                             in case persist_snapshot writes next' st of
                                  (Inl e, st') \<Rightarrow> touched st'
                                | (Inr _, st') \<Rightarrow>
                                    st'\<lparr>cc_applied := fmupd device_id \<lparr>rp_version = version, rp_ts = now\<rparr> (cc_applied st')\<rparr>)
                       else touched st)))"

record child_config_status =
  cs_child_id :: string
  cs_desired_version :: nat
  cs_applied_version :: nat
  cs_last_report_ts :: int
  cs_desired :: "child_config option"

definition child_status ::
    "account_env \<Rightarrow> account_store \<Rightarrow> int \<Rightarrow> string \<Rightarrow> string \<Rightarrow> child_config_store \<Rightarrow> (status, child_config_status) result" where
  "child_status env acc now token raw_child st =
     (case guardian_scope_of env acc now token of
        None \<Rightarrow> Err (Unauthenticated, ''invalid or missing session token'')
      | Some scope \<Rightarrow>
          (let child_id = trim raw_child
           in if child_id = [] then Err (InvalidArgument, ''child_id is required'')
              else if child_id |\<notin>| gsc_child_ids scope then Err (PermissionDenied, ''caller is not a guardian of this child'')
              else (case fmlookup (cc_by_child st) child_id of
                      None \<Rightarrow> Err (StNotFound, ''no config set for this child yet'')
                    | Some config \<Rightarrow>
                        (let report = applied_of st (trim (cg_device_id config))
                         in Ok \<lparr>cs_child_id = child_id, cs_desired_version = cg_config_version config,
                                cs_applied_version = rp_version report, cs_last_report_ts = rp_ts report, cs_desired = Some config\<rparr>))))"

definition subscribe_by_device :: "child_config_store \<Rightarrow> string \<Rightarrow> child_config option" where
  "subscribe_by_device st device_id =
     Option.bind (fmlookup (cc_device_to_child st) (trim device_id)) (fmlookup (cc_by_child st))"

text \<open>
  The stream of a receiver: the current value first, then the value found at each wake-up, each one only if
  it is newer than what was sent last. It ends with the sender.
\<close>

fun watch_values :: "nat \<Rightarrow> child_config list \<Rightarrow> child_config list" where
  "watch_values last_version [] = []"
| "watch_values last_version (current # values) =
     (if last_version < cg_config_version current then current # watch_values (cg_config_version current) values
      else watch_values last_version values)"

definition watch_into_stream :: "child_config \<Rightarrow> child_config list \<Rightarrow> nat \<Rightarrow> child_config list" where
  "watch_into_stream current wakeups have_version = watch_values have_version (current # wakeups)"

section \<open>The policy a device is sent\<close>

datatype audit_file = NoStateDir | AuditMissing | AuditUnreadable | AuditCorrupt | AuditRows "audit_entry_row list"

record device_policy =
  dv_version :: nat
  dv_issued_ts :: int
  dv_complete :: bool
  dv_approved_hosts :: "string list"
  dv_approved_sha256_hex :: "string list"

definition policy_entry_cap :: nat where
  "policy_entry_cap = 128"

definition decode_hex :: "string \<Rightarrow> bytes option" where
  "decode_hex value = (let bytes = trim value in if bytes = [] \<or> odd (length bytes) then None else hex_pairs bytes)"

definition policy_row :: "(string \<Rightarrow> bytes) \<Rightarrow> audit_entry_row \<Rightarrow> allowlist \<Rightarrow> allowlist" where
  "policy_row sha r al =
     snd (allowlist_apply sha al
       \<lparr>ri_device = ar_device_id r, ri_alert_id = ar_alert_id r, ri_host = ar_host r,
        ri_sha256 = (case decode_hex (ar_sha256_hex r) of None \<Rightarrow> [] | Some bs \<Rightarrow> bs), ri_category = category_of_i32 (ar_category r)\<rparr>
       (decision_of_i32 (ar_decision r)) (scope_of_i32 (ar_scope r)) (ar_ts r))"

definition device_policy_snapshot :: "(string \<Rightarrow> bytes) \<Rightarrow> int \<Rightarrow> audit_file \<Rightarrow> string \<Rightarrow> device_policy" where
  "device_policy_snapshot sha now file device_id =
     (let blank = \<lparr>dv_version = 0, dv_issued_ts = now, dv_complete = True, dv_approved_hosts = [], dv_approved_sha256_hex = []\<rparr>
      in case file of
           NoStateDir \<Rightarrow> blank
         | AuditMissing \<Rightarrow> blank
         | AuditUnreadable \<Rightarrow> blank\<lparr>dv_complete := False\<rparr>
         | AuditCorrupt \<Rightarrow> blank\<lparr>dv_complete := False\<rparr>
         | AuditRows rows \<Rightarrow>
             (let al = fold (policy_row sha) rows allowlist_new;
                  (hosts, hashes) = (case fmlookup (al_per_device al) (trim device_id) of
                     None \<Rightarrow> ([], []) | Some p \<Rightarrow> (sorted_list_of_fset (da_hosts p), sorted_list_of_fset (da_hashes p)))
              in if policy_entry_cap < length hosts \<or> policy_entry_cap < length hashes
                 then blank\<lparr>dv_version := length rows, dv_complete := False\<rparr>
                 else blank\<lparr>dv_version := length rows, dv_approved_hosts := hosts, dv_approved_sha256_hex := hashes\<rparr>))"

section \<open>The service\<close>

record config_ack =
  ca_applied :: bool
  ca_config_version :: nat
  ca_detail :: string

record config_filter =
  cf_device_id :: string
  cf_have_version :: nat
  cf_device_token :: string

definition verify_device :: "account_env \<Rightarrow> account_store \<Rightarrow> string \<Rightarrow> string \<Rightarrow> (status, unit) result" where
  "verify_device env acc device_id device_token =
     (if verify_device_token_strict env acc device_id device_token then Ok ()
      else Err (Unauthenticated, ''unknown, legacy-unpaired, or invalid device credential''))"

definition set_child_config where
  "set_child_config env writes first second authorization token config st =
     (case config of
        None \<Rightarrow> (Err (InvalidArgument, ''config is required''), st)
      | Some c \<Rightarrow>
          (case set_config env writes first second (token_or_meta authorization token) c st of
             (Inl e, st') \<Rightarrow> (Err e, st')
           | (Inr (version, _), st') \<Rightarrow>
               (Ok \<lparr>ca_applied = True, ca_config_version = version, ca_detail = ''child config updated''\<rparr>, st')))"

definition get_child_config ::
    "account_env \<Rightarrow> (string \<Rightarrow> bytes) \<Rightarrow> (config_snapshot \<Rightarrow> bool) \<Rightarrow> account_store \<Rightarrow> int \<Rightarrow> audit_file \<Rightarrow> config_filter \<Rightarrow>
     child_config_store \<Rightarrow> (status, child_config \<times> device_policy) result \<times> child_config_store" where
  "get_child_config env sha writes acc now file fltr st =
     (if trim (cf_device_id fltr) = [] then (Err (InvalidArgument, ''device_id is required''), st)
      else (case verify_device env acc (cf_device_id fltr) (cf_device_token fltr) of
              Inl e \<Rightarrow> (Err e, st)
            | Inr _ \<Rightarrow>
                (let st' = record_applied_report writes now (cf_device_id fltr) (cf_have_version fltr) st
                 in case get_by_device st' (cf_device_id fltr) of
                      Inl e \<Rightarrow> (Err e, st')
                    | Inr config \<Rightarrow> (Ok (config, device_policy_snapshot sha now file (cf_device_id fltr)), st'))))"

definition stream_child_config ::
    "account_env \<Rightarrow> (string \<Rightarrow> bytes) \<Rightarrow> (config_snapshot \<Rightarrow> bool) \<Rightarrow> account_store \<Rightarrow> int \<Rightarrow> audit_file \<Rightarrow> config_filter \<Rightarrow>
     child_config list \<Rightarrow> child_config_store \<Rightarrow> (status, child_config list \<times> device_policy) result \<times> child_config_store" where
  "stream_child_config env sha writes acc now file fltr wakeups st =
     (let device_id = trim (cf_device_id fltr)
      in if device_id = [] then (Err (InvalidArgument, ''device_id is required''), st)
         else (case verify_device env acc device_id (cf_device_token fltr) of
                 Inl e \<Rightarrow> (Err e, st)
               | Inr _ \<Rightarrow>
                   (let st' = record_applied_report writes now device_id (cf_have_version fltr) st
                    in case subscribe_by_device st' device_id of
                         None \<Rightarrow> (Err no_config, st')
                       | Some current \<Rightarrow>
                           (Ok (watch_into_stream current wakeups (cf_have_version fltr), device_policy_snapshot sha now file device_id), st'))))"

definition get_child_status where
  "get_child_status env acc now authorization token child_id st = child_status env acc now (token_or_meta authorization token) child_id st"

section \<open>Who sets a configuration\<close>

lemma persist_snapshot_cases:
  obtains (failed) e where "persist_snapshot w snap st = (Err e, st)"
  | (written) "persist_snapshot w snap st = (Ok (), st\<lparr>cc_file := map_option (\<lambda>_. snap) (cc_file st)\<rparr>)"
  by (cases "cc_file st"; cases "w snap") (auto simp: persist_snapshot_def)

lemma set_config_cases:
  assumes "set_config env w first second token config st = (res, st')"
  obtains (refused) e where "res = Err e" "st' = st"
  | (set) scope c where "guardian_scope_of env (fst first) (snd first) token = Some scope" "config_check scope config = None"
      "c = updated_config env second token config st" "res = Ok (cg_config_version c, c)"
      "st' = install_config c (st\<lparr>cc_file := map_option (\<lambda>_. updated_snapshot c st) (cc_file st)\<rparr>)"
proof (cases "\<exists>scope. guardian_scope_of env (fst first) (snd first) token = Some scope \<and> config_check scope config = None")
  case False
  then have "\<exists>e. res = Err e \<and> st' = st" using assms by (auto simp: set_config_def split: option.splits)
  then show ?thesis using refused by blast
next
  case True
  then obtain scope where sc: "guardian_scope_of env (fst first) (snd first) token = Some scope" "config_check scope config = None" by blast
  let ?c = "updated_config env second token config st"
  show ?thesis
  proof (cases rule: persist_snapshot_cases [of w "updated_snapshot ?c st" st])
    case (failed e)
    then show ?thesis using assms sc by (intro refused [of e]) (simp_all add: set_config_def Let_def)
  next
    case written
    then show ?thesis using assms sc by (intro set [OF sc refl]) (simp_all add: set_config_def Let_def)
  qed
qed

text \<open>
  Claim C15. Only a guardian changes a child's settings. A call either fails and changes nothing, or was made
  with a live session of a guardian of that child (and of the device it names); it then
  stores the settings under the next version number, leaves the settings of every other child as
  they are, and when the store has a file, the file was written with the new settings first.
\<close>

theorem config_set_by_guardian:
  assumes call: "set_config env w (acc, now) second token config st = (res, st')"
  shows "(\<exists>e. res = Err e) \<and> st' = st \<or>
    (\<exists>g c i k. account_for_session env acc now token = Some g \<and> res = Ok (cg_config_version c, c) \<and>
       fmlookup (children (st_inner acc)) i = Some k \<and> ch_child_id k = cg_child_id c \<and> g |\<in>| ch_guardians k \<and>
       (cg_device_id c = [] \<or> cg_device_id c |\<in>| guardian_devices acc g) \<and>
       cg_config_version c = min u64_max (config_version_of st (cg_child_id c) + 1) \<and>
       cg_child_id c = trim (cg_child_id config) \<and> cg_filtering_enabled c = cg_filtering_enabled config \<and> cg_profile c = cg_profile config \<and>
       fmlookup (cc_by_child st') (cg_child_id c) = Some c \<and>
       (\<forall>child. child \<noteq> cg_child_id c \<longrightarrow> fmlookup (cc_by_child st') child = fmlookup (cc_by_child st) child) \<and>
       (\<forall>f. cc_file st' = Some f \<longrightarrow> config_from_proto c \<in> set (sn_configs f)))"
  using call
proof (cases rule: set_config_cases)
  case (set scope c)
  have ids: "cg_child_id c = trim (cg_child_id config)" "cg_device_id c = trim (cg_device_id config)"
    by (simp_all add: set(3) updated_config_def)
  have chk: "cg_child_id c |\<in>| gsc_child_ids scope" "cg_device_id c = [] \<or> cg_device_id c |\<in>| gsc_device_ids scope"
    using set(2) by (auto simp: config_check_def ids Let_def split: if_splits)
  have sc: "guardian_scope_of env acc now token = Some scope" using set(1) by simp
  from scope_guardian [OF sc] chk obtain g i k where g: "account_for_session env acc now token = Some g"
    "fmlookup (children (st_inner acc)) i = Some k" "g |\<in>| ch_guardians k" "ch_child_id k = cg_child_id c"
    "cg_device_id c = [] \<or> cg_device_id c |\<in>| guardian_devices acc g" by metis
  have "y \<in> set (upsert p (\<lambda>_. y) y xs)" for p and y :: config_row and xs by (induction xs) auto
  then have onfile: "config_from_proto c \<in> set (sn_configs (updated_snapshot c st))" by (simp add: updated_snapshot_def Let_def)
  have ver: "cg_config_version c = min u64_max (config_version_of st (cg_child_id c) + 1)"
    "cg_filtering_enabled c = cg_filtering_enabled config" "cg_profile c = cg_profile config"
    by (simp_all add: set(3) updated_config_def u64_saturating_add_def)
  show ?thesis
    by (rule disjI2, intro exI [of _ g] exI [of _ c] exI [of _ i] exI [of _ k])
       (use g ids ver onfile set(4) in \<open>auto simp: set(5) install_config_def\<close>)
qed blast

definition presents_filter :: "config_filter \<Rightarrow> (string \<times> string) option" where
  "presents_filter fltr = Some (cf_device_id fltr, cf_device_token fltr)"

lemma verify_forged:
  assumes "presents_filter fltr = Some (device, token)" "\<And>c. \<not> holds_credential env acc device token c"
  shows "\<exists>e. verify_device env acc (cf_device_id fltr) (cf_device_token fltr) = Err e"
    "\<exists>e. verify_device env acc (trim (cf_device_id fltr)) (cf_device_token fltr) = Err e"
  using assms by (auto simp: verify_device_def strict_iff presents_filter_def)

interpretation config_rpc: device_rpc env presents_filter "\<lambda>acc fltr st. get_child_config env sha writes acc now audit fltr st"
  for env sha writes now audit
proof unfold_locales
  fix req :: config_filter and device token acc and st :: child_config_store
  assume "presents_filter req = Some (device, token)" "\<And>c. \<not> holds_credential env acc device token c"
  then show "\<exists>e. get_child_config env sha writes acc now audit req st = (Err e, st)"
    using verify_forged(1) by (fastforce simp: get_child_config_def)
qed

interpretation watch_rpc: device_rpc env presents_filter "\<lambda>acc fltr st. stream_child_config env sha writes acc now audit fltr wakeups st"
  for env sha writes now audit wakeups
proof unfold_locales
  fix req :: config_filter and device token acc and st :: child_config_store
  assume "presents_filter req = Some (device, token)" "\<And>c. \<not> holds_credential env acc device token c"
  then show "\<exists>e. stream_child_config env sha writes acc now audit req wakeups st = (Err e, st)"
    using verify_forged(2) by (fastforce simp: stream_child_config_def Let_def)
qed

section \<open>What a device receives\<close>

lemma watch_values_facts:
  "sorted_wrt (<) (map cg_config_version (watch_values n vs)) \<and> (\<forall>c\<in>set (watch_values n vs). n < cg_config_version c \<and> c \<in> set vs) \<and>
   (\<forall>v\<in>set vs. n < cg_config_version v \<longrightarrow> (\<exists>c\<in>set (watch_values n vs). cg_config_version v \<le> cg_config_version c))"
proof (induction n vs rule: watch_values.induct)
  case (2 n v vs)
  show ?case
  proof (cases "n < cg_config_version v")
    case True
    let ?r = "watch_values (cg_config_version v) vs"
    note ih = 2(1) [OF True]
    have "\<exists>c\<in>set (v # ?r). cg_config_version u \<le> cg_config_version c" if "u \<in> set (v # vs)" for u
    proof (cases "cg_config_version u \<le> cg_config_version v")
      case False
      then show ?thesis using ih that by auto
    qed simp
    moreover have "sorted_wrt (<) (map cg_config_version (v # ?r))" using ih by simp
    moreover have "\<forall>c\<in>set (v # ?r). n < cg_config_version c \<and> c \<in> set (v # vs)" using ih True by fastforce
    ultimately show ?thesis using True by simp
  next
    case False
    with 2(2) [OF False] show ?thesis by auto
  qed
qed simp

text \<open>
  A device is sent only settings that are newer than what it has. A stream of settings
  requires the credential of the device; the versions on it are strictly increasing and above the
  version the device reported; and no update is missed for good: for every newer version that was
  current when the stream looked, that version or a later one is sent.
\<close>

theorem config_stream_increasing:
  assumes "stream_child_config env sha w acc now file fltr wakeups st = (Ok (configs, policy), st')"
  shows "\<exists>current. subscribe_by_device st' (cf_device_id fltr) = Some current \<and>
    (\<exists>c. holds_credential env acc (trim (cf_device_id fltr)) (cf_device_token fltr) c) \<and>
    sorted_wrt (<) (map cg_config_version configs) \<and> (\<forall>c\<in>set configs. cf_have_version fltr < cg_config_version c) \<and>
    (\<forall>v\<in>set (current # wakeups). cf_have_version fltr < cg_config_version v \<longrightarrow>
       (\<exists>c\<in>set configs. cg_config_version v \<le> cg_config_version c))"
proof -
  from assms obtain current where cur: "subscribe_by_device st' (trim (cf_device_id fltr)) = Some current"
    "configs = watch_into_stream current wakeups (cf_have_version fltr)"
    "verify_device_token_strict env acc (trim (cf_device_id fltr)) (cf_device_token fltr)"
    by (auto simp: stream_child_config_def Let_def verify_device_def split: if_splits option.splits sum.splits)
  have "subscribe_by_device st' (cf_device_id fltr) = Some current" using cur(1) by (simp add: subscribe_by_device_def)
  moreover have "\<exists>c. holds_credential env acc (trim (cf_device_id fltr)) (cf_device_token fltr) c" using cur(3) unfolding strict_iff .
  ultimately show ?thesis
    using watch_values_facts [of "cf_have_version fltr" "current # wakeups"] unfolding cur(2) watch_into_stream_def by blast
qed

section \<open>The policy a device is sent is the relay's\<close>

lemma decode_hex_hex: "(case decode_hex (hex bs) of None \<Rightarrow> [] | Some b \<Rightarrow> b) = bs"
proof (cases "bs = []")
  case False
  have g: "graphic c" if "c \<in> set (hex xs)" for c xs
  proof -
    have d: "graphic (hex_digits ! n)" if "n < 16" for n
    proof -
      have "\<forall>n\<in>set [0..<16]. graphic (hex_digits ! n)" by code_simp
      with that show ?thesis by auto
    qed
    show ?thesis using that by (induction xs) (auto intro: d hex_nibbles)
  qed
  have "hex bs \<noteq> []" using False by simp
  then have "trim (hex bs) = hex bs" using g [OF hd_in_set] g [OF last_in_set] by (intro trim_graphic) simp_all
  then show ?thesis using False by (simp add: decode_hex_def hex_pairs_hex)
qed (simp add: decode_hex_def)

lemma reach_hex: "allowlist_reach sha al \<Longrightarrow> e \<in> set (al_audit al) \<Longrightarrow> \<exists>bs. au_sha256_hex e = hex bs"
proof (induction rule: allowlist_reach.induct)
  case (decide al item decision scope ts)
  then show ?case using allowlist_apply_audit [of sha al item decision scope ts]
    by (auto simp: audit_append_def Let_def)
qed (simp add: allowlist_new_def)

lemma policy_replays_journal:
  assumes "allowlist_reach sha al"
  shows "fold (policy_row sha) (audit_rows al) allowlist_new = al"
proof -
  have "replay_audit sha rows = Some (fold (policy_row sha) rows allowlist_new)"
    if "\<forall>r\<in>set rows. \<exists>bs. ar_sha256_hex r = hex bs" for rows
    using that
  proof (induction rows rule: rev_induct)
    case (snoc r rows)
    then obtain bs where "ar_sha256_hex r = hex bs" by auto
    with snoc show ?case by (simp add: replay_append replay_row_def policy_row_def decode_hex_hex)
  qed (simp add: replay_audit_def)
  moreover have "\<forall>r\<in>set (audit_rows al). \<exists>bs. ar_sha256_hex r = hex bs"
    using reach_hex [OF assms] by (auto simp: audit_rows_def audit_row_of_def)
  ultimately show ?thesis using replay_journal [OF assms] by simp
qed

text \<open>
  Claim C16. The approvals a device is sent are the guardians' decisions. In every hub that alerts,
  decisions, registrations and restarts reach while the disk takes its writes, the policy that a device
  gets from the journal on disk is either complete, and then allows exactly the hosts and contents
  the relay's allowlist allows for that device, or incomplete, and then allows nothing; the latter only when
  the device has more than a hundred and twenty-eight approvals of a kind.
\<close>

theorem device_policy_matches_relay:
  assumes "hub_reach env sha parse_url insecure disk regs hub" "disk_works disk" "hub_files hub = Some f"
    and p: "p = device_policy_snapshot sha now (AuditRows (hp_audit f)) device"
  shows "(if dv_complete p
     then (\<forall>host. is_host_allowed (hub_allowlist hub) (trim device) host \<longleftrightarrow>
             to_ascii_lowercase (trim host) \<noteq> [] \<and> to_ascii_lowercase (trim host) \<in> set (dv_approved_hosts p)) \<and>
          (\<forall>bs. is_hash_allowed (hub_allowlist hub) (trim device) bs \<longleftrightarrow> bs \<noteq> [] \<and> hex bs \<in> set (dv_approved_sha256_hex p))
     else dv_approved_hosts p = [] \<and> dv_approved_sha256_hex p = [] \<and>
          (\<exists>a. fmlookup (al_per_device (hub_allowlist hub)) (trim device) = Some a \<and>
             (policy_entry_cap < fcard (da_hosts a) \<or> policy_entry_cap < fcard (da_hashes a))))"
proof -
  have h: "allowlist_reach sha (hub_allowlist hub)" "hp_audit f = audit_rows (hub_allowlist hub)"
    using hub_reach_ok [OF assms(2,1)] assms(2,3) by (auto simp: hub_ok_def disk_works_def)
  have al: "fold (policy_row sha) (hp_audit f) allowlist_new = hub_allowlist hub" using policy_replays_journal [OF h(1)] h(2) by simp
  have len: "length (sorted_list_of_fset F) = fcard F" for F :: "string fset"
    by (simp add: sorted_list_of_fset.rep_eq fcard.rep_eq)
  show ?thesis
  proof (cases "fmlookup (al_per_device (hub_allowlist hub)) (trim device)")
    case None
    then show ?thesis by (simp add: p device_policy_snapshot_def al is_host_allowed_def is_hash_allowed_def Let_def policy_entry_cap_def)
  next
    case (Some a)
    then show ?thesis
      by (simp add: p device_policy_snapshot_def al is_host_allowed_def is_hash_allowed_def allows_host_def allows_hash_def Let_def len)
  qed
qed

section \<open>Restart\<close>

text \<open>A table on disk as a map: the key and the value of each row.\<close>

definition row_map :: "('r \<Rightarrow> 'k) \<Rightarrow> ('r \<Rightarrow> 'v) \<Rightarrow> 'r list \<Rightarrow> 'k \<Rightarrow> 'v option" where
  "row_map key val rows = map_of (map (\<lambda>r. (key r, val r)) rows)"

lemma row_map_sort:
  assumes "distinct (map key rows)"
  shows "row_map key val (sort_key h rows) = row_map key val rows" "distinct (map key (sort_key h rows))"
proof -
  show d: "distinct (map key (sort_key h rows))"
    using assms by (metis distinct_map distinct_sort set_sort)
  show "row_map key val (sort_key h rows) = row_map key val rows"
    unfolding row_map_def using assms d by (intro iffD2 [OF map_of_inject_set]) (simp_all add: comp_def)
qed

lemma row_map_upsert:
  assumes "distinct (map key rows)" "\<And>r. key r = k \<Longrightarrow> key (f r) = k" "key new = k" "\<And>r. val (f r) = v" "val new = v"
  shows "row_map key val (upsert (\<lambda>r. key r = k) f new rows) = (row_map key val rows)(k \<mapsto> v)" "distinct (map key (upsert (\<lambda>r. key r = k) f new rows))"
proof -
  have keys: "set (map key (upsert (\<lambda>r. key r = k) f new xs)) = insert k (set (map key xs))" for xs
    using assms(2,3) by (induction xs) auto
  show "distinct (map key (upsert (\<lambda>r. key r = k) f new rows))"
    using assms(1)
  proof (induction rows)
    case (Cons x xs)
    then show ?case using keys [of xs] assms(2) by auto
  qed simp
  show "row_map key val (upsert (\<lambda>r. key r = k) f new rows) = (row_map key val rows)(k \<mapsto> v)"
    using assms(1)
  proof (induction rows)
    case (Cons x xs)
    then show ?case using assms(2,4) by (auto simp: row_map_def fun_upd_twist)
  qed (simp add: row_map_def assms(3,5))
qed

lemma sorted_fmap_rows: "map_of (sorted_list_of_fmap m) = fmlookup m" "distinct (map fst (sorted_list_of_fmap m))"
  for m :: "('k::linorder, 'v) fmap"
proof -
  show d: "distinct (map fst (sorted_list_of_fmap m))"
    by (simp add: sorted_list_of_fmap_def comp_def sorted_list_of_fset.rep_eq)
  have "map_of (sorted_list_of_fmap m) k = Some v \<longleftrightarrow> fmlookup m k = Some v" for k v
    by (simp add: map_of_eq_Some_iff [OF d] set_sorted_list_of_fmap)
  then show "map_of (sorted_list_of_fmap m) = fmlookup m" by (intro ext) (metis option.exhaust)
qed

definition keyed :: "child_config_store \<Rightarrow> bool" where
  "keyed st \<longleftrightarrow> (\<forall>c cfg. fmlookup (cc_by_child st) c = Some cfg \<longrightarrow> cg_child_id cfg = c)"

lemma config_roundtrip [simp]: "config_into_proto (config_from_proto c) = c"
  by (simp add: config_into_proto_def config_from_proto_def)

lemma snapshot_configs:
  assumes "keyed st"
  shows "row_map cw_child_id config_into_proto (sn_configs (config_snapshot_of st)) = fmlookup (cc_by_child st)"
    "distinct (map cw_child_id (sn_configs (config_snapshot_of st)))"
proof -
  let ?rows = "map (config_from_proto \<circ> snd) (sorted_list_of_fmap (cc_by_child st))"
  have k: "map (\<lambda>r. (cw_child_id r, config_into_proto r)) ?rows = sorted_list_of_fmap (cc_by_child st)"
    using assms by (auto simp: keyed_def comp_def config_from_proto_def set_sorted_list_of_fmap config_into_proto_def intro!: map_idI)
  have "map cw_child_id ?rows = map fst (map (\<lambda>r. (cw_child_id r, config_into_proto r)) ?rows)" by simp
  then have d: "distinct (map cw_child_id ?rows)" unfolding k using sorted_fmap_rows(2) by metis
  have r: "sn_configs (config_snapshot_of st) = sort_key cw_child_id ?rows" by (simp add: config_snapshot_of_def)
  show "distinct (map cw_child_id (sn_configs (config_snapshot_of st)))" unfolding r by (rule row_map_sort(2) [OF d])
  show "row_map cw_child_id config_into_proto (sn_configs (config_snapshot_of st)) = fmlookup (cc_by_child st)"
    unfolding r row_map_sort(1) [OF d] unfolding row_map_def k by (rule sorted_fmap_rows)
qed

lemma snapshot_applied:
  "row_map aw_device_id aw_version (sn_applied (config_snapshot_of st)) = (\<lambda>d. map_option rp_version (fmlookup (cc_applied st) d))"
  "distinct (map aw_device_id (sn_applied (config_snapshot_of st)))"
proof -
  let ?rows = "map (\<lambda>(device_id, report). \<lparr>aw_device_id = device_id, aw_version = rp_version report\<rparr>) (sorted_list_of_fmap (cc_applied st))"
  have k: "map (\<lambda>r. (aw_device_id r, aw_version r)) ?rows = map (\<lambda>(d, r). (d, rp_version r)) (sorted_list_of_fmap (cc_applied st))"
    by (simp add: comp_def case_prod_unfold)
  have d: "distinct (map aw_device_id ?rows)" using sorted_fmap_rows(2) [of "cc_applied st"] by (simp add: comp_def case_prod_unfold)
  have r: "sn_applied (config_snapshot_of st) = sort_key aw_device_id ?rows" by (simp add: config_snapshot_of_def)
  show "distinct (map aw_device_id (sn_applied (config_snapshot_of st)))" unfolding r by (rule row_map_sort(2) [OF d])
  show "row_map aw_device_id aw_version (sn_applied (config_snapshot_of st)) = (\<lambda>d. map_option rp_version (fmlookup (cc_applied st) d))"
    unfolding r row_map_sort(1) [OF d] unfolding row_map_def k by (simp add: map_of_map sorted_fmap_rows comp_def)
qed

inductive config_run :: "account_env \<Rightarrow> child_config_store \<Rightarrow> bool" for env where
  memory: "config_run env config_store_new"
| boot: "config_with_state_dir (Ok None) = Ok st \<Longrightarrow> config_run env st"
| set: "config_run env st \<Longrightarrow> config_run env (snd (set_config env w first second token config st))"
| report: "config_run env st \<Longrightarrow> config_run env (record_applied_report w now device version st)"
| restarted: "config_run env st \<Longrightarrow> config_with_state_dir (Ok (cc_file st)) = Ok st' \<Longrightarrow> config_run env st'"

text \<open>What a reload of the file gives is what is in memory: every configuration, and the version each device applied.\<close>

definition snapshot_current :: "config_snapshot \<Rightarrow> child_config_store \<Rightarrow> bool" where
  "snapshot_current f st \<longleftrightarrow>
     row_map cw_child_id config_into_proto (sn_configs f) = fmlookup (cc_by_child st) \<and> distinct (map cw_child_id (sn_configs f)) \<and>
     (\<forall>d. (case row_map aw_device_id aw_version (sn_applied f) d of None \<Rightarrow> 0 | Some v \<Rightarrow> v) = rp_version (applied_of st d)) \<and>
     distinct (map aw_device_id (sn_applied f))"

definition config_ok :: "child_config_store \<Rightarrow> bool" where
  "config_ok st \<longleftrightarrow> keyed st \<and> (\<forall>f. cc_file st = Some f \<longrightarrow> snapshot_current f st)"

lemma version_lookup:
  "rp_version (applied_of st d) = (case map_option rp_version (fmlookup (cc_applied st) d) of None \<Rightarrow> 0 | Some v \<Rightarrow> v)"
  by (simp add: applied_of_def report_default_def split: option.split)

lemma load_frames [frame_simps]:
  "cc_applied (load_config r st) = cc_applied st" "cc_file (load_config r st) = cc_file st"
  "cc_by_child (load_config r st) = fmupd (cw_child_id r) (config_into_proto r) (cc_by_child st)"
  "cc_by_child (load_applied a st) = cc_by_child st" "cc_file (load_applied a st) = cc_file st"
  "cc_applied (load_applied a st) = fmupd (aw_device_id a) \<lparr>rp_version = aw_version a, rp_ts = 0\<rparr> (cc_applied st)"
  by (simp_all add: load_config_def load_applied_def Let_def config_into_proto_def)

lemma fold_load_frames [frame_simps]:
  "cc_applied (fold load_config rows st) = cc_applied st" "cc_file (fold load_config rows st) = cc_file st"
  "cc_by_child (fold load_applied as st) = cc_by_child st" "cc_file (fold load_applied as st) = cc_file st"
  by (induction rows arbitrary: st) (simp_all add: frame_simps, (induction as arbitrary: st; simp add: frame_simps)+)

lemma row_map_Cons: "row_map key val (r # rows) = (row_map key val rows)(key r \<mapsto> val r)"
  by (simp add: row_map_def)

lemma row_map_fresh: "k \<notin> set (map key rows) \<Longrightarrow> row_map key val rows k = None"
  by (auto simp: row_map_def map_of_eq_None_iff)

lemma load_configs:
  "distinct (map cw_child_id rows) \<Longrightarrow>
   fmlookup (cc_by_child (fold load_config rows st)) c =
     (case row_map cw_child_id config_into_proto rows c of Some v \<Rightarrow> Some v | None \<Rightarrow> fmlookup (cc_by_child st) c)"
proof (induction rows arbitrary: st)
  case (Cons r rows)
  then show ?case
    using row_map_fresh [of "cw_child_id r" cw_child_id rows config_into_proto] by (simp add: frame_simps row_map_Cons split: option.split)
qed (simp add: row_map_def)

lemma load_applieds:
  "distinct (map aw_device_id rows) \<Longrightarrow>
   map_option rp_version (fmlookup (cc_applied (fold load_applied rows st)) d) =
     (case row_map aw_device_id aw_version rows d of Some v \<Rightarrow> Some v | None \<Rightarrow> map_option rp_version (fmlookup (cc_applied st) d))"
proof (induction rows arbitrary: st)
  case (Cons r rows)
  then show ?case
    using row_map_fresh [of "aw_device_id r" aw_device_id rows aw_version] by (simp add: frame_simps row_map_Cons split: option.split)
qed (simp add: row_map_def)

lemma reload_current:
  assumes "snapshot_current f st" "config_with_state_dir (Ok (Some f)) = Ok st'"
  shows "cc_by_child st' = cc_by_child st" "rp_version (applied_of st' d) = rp_version (applied_of st d)" "cc_file st' = Some f"
proof -
  have st': "st' = fold load_config (sn_configs f) (fold load_applied (sn_applied f) (config_store_new\<lparr>cc_file := Some f\<rparr>))"
    using assms(2) by (simp add: config_with_state_dir_def)
  have "fmlookup (cc_by_child st') c = fmlookup (cc_by_child st) c" for c
    using assms(1) by (simp add: st' load_configs frame_simps snapshot_current_def config_store_new_def split: option.split)
  then show "cc_by_child st' = cc_by_child st" by (rule fmap_ext)
  have "map_option rp_version (fmlookup (cc_applied st') d) = row_map aw_device_id aw_version (sn_applied f) d"
    using assms(1) by (simp add: st' load_applieds frame_simps snapshot_current_def config_store_new_def split: option.split)
  then show "rp_version (applied_of st' d) = rp_version (applied_of st d)"
    using assms(1) unfolding version_lookup [of st'] snapshot_current_def by simp
  show "cc_file st' = Some f" by (simp add: st' frame_simps)
qed

lemma boot_config_ok: "config_with_state_dir (Ok None) = Ok st \<Longrightarrow> config_ok st"
  by (auto simp: config_with_state_dir_def config_snapshot_default_def config_store_new_def config_ok_def keyed_def
      snapshot_current_def row_map_def applied_of_def report_default_def fun_eq_iff)

lemma set_config_ok:
  assumes "config_ok st" "set_config env w first second token config st = (res, st')"
  shows "config_ok st'"
  using assms(2)
proof (cases rule: set_config_cases)
  case (set scope c)
  have k: "keyed st" using assms(1) by (simp add: config_ok_def)
  let ?row = "config_from_proto c"
  have cid: "cw_child_id ?row = cg_child_id c" by (simp add: config_from_proto_def)
  note up = row_map_upsert [OF snapshot_configs(2) [OF k], of "cg_child_id c" "\<lambda>_. ?row" ?row config_into_proto c, OF cid cid config_roundtrip config_roundtrip]
  have "keyed st'" using k by (auto simp: set(5) install_config_def keyed_def)
  moreover have "snapshot_current (updated_snapshot c st) st'"
    using row_map_sort(1) [OF up(2), of config_into_proto cw_child_id] row_map_sort(2) [OF up(2), of cw_child_id] up(1)
      snapshot_configs(1) [OF k] snapshot_applied [of st]
    by (simp add: snapshot_current_def updated_snapshot_def Let_def set(5) install_config_def version_lookup fun_eq_iff)
  ultimately show ?thesis by (auto simp: config_ok_def set(5) install_config_def)
qed (use assms in simp)

lemma report_cases:
  obtains (same) "record_applied_report w now raw v st = st"
  | (touched) "record_applied_report w now raw v st =
      st\<lparr>cc_applied := fmupd (trim raw) (applied_of st (trim raw)\<lparr>rp_ts := now\<rparr>) (cc_applied st)\<rparr>"
  | (raised) child m where "fmlookup (cc_device_to_child st) (trim raw) = Some child" "m = min v (config_version_of st child)"
      "rp_version (applied_of st (trim raw)) < m"
      "record_applied_report w now raw v st = st\<lparr>cc_applied := fmupd (trim raw) \<lparr>rp_version = m, rp_ts = now\<rparr> (cc_applied st),
        cc_file := map_option (\<lambda>_. (config_snapshot_of st)\<lparr>sn_applied := sort_key aw_device_id
          (upsert (\<lambda>r. aw_device_id r = trim raw) (\<lambda>r. r\<lparr>aw_version := m\<rparr>) \<lparr>aw_device_id = trim raw, aw_version = m\<rparr>
            (sn_applied (config_snapshot_of st)))\<rparr>) (cc_file st)\<rparr>"
proof (cases "trim raw = [] \<or> fmlookup (cc_device_to_child st) (trim raw) = None")
  case True
  then show ?thesis by (intro same) (auto simp: record_applied_report_def Let_def)
next
  case False
  then obtain child where c: "trim raw \<noteq> []" "fmlookup (cc_device_to_child st) (trim raw) = Some child" by auto
  let ?m = "min v (config_version_of st child)"
  let ?snap = "(config_snapshot_of st)\<lparr>sn_applied := sort_key aw_device_id
    (upsert (\<lambda>r. aw_device_id r = trim raw) (\<lambda>r. r\<lparr>aw_version := ?m\<rparr>) \<lparr>aw_device_id = trim raw, aw_version = ?m\<rparr>
      (sn_applied (config_snapshot_of st)))\<rparr>"
  show ?thesis
  proof (cases "rp_version (applied_of st (trim raw)) < ?m")
    case False
    then show ?thesis using c by (intro touched) (simp add: record_applied_report_def Let_def del: min_less_iff_conj)
  next
    case True
    show ?thesis
    proof (cases rule: persist_snapshot_cases [of w ?snap st])
      case (failed e)
      then show ?thesis using c True by (intro touched) (simp add: record_applied_report_def Let_def del: min_less_iff_conj)
    next
      case written
      then show ?thesis using c True by (intro raised [OF c(2) refl True]) (simp add: record_applied_report_def Let_def del: min_less_iff_conj)
    qed
  qed
qed

lemma report_ok:
  assumes "config_ok st"
  shows "config_ok (record_applied_report w now raw v st)"
proof (cases rule: report_cases [of w now raw v st])
  case touched
  have "rp_version (applied_of (record_applied_report w now raw v st) d) = rp_version (applied_of st d)" for d
    unfolding touched by (simp add: applied_of_def)
  then show ?thesis using assms by (simp add: config_ok_def keyed_def snapshot_current_def touched)
next
  case (raised child m)
  have k: "keyed st" using assms by (simp add: config_ok_def)
  let ?up = "upsert (\<lambda>r. aw_device_id r = trim raw) (\<lambda>r. r\<lparr>aw_version := m\<rparr>) \<lparr>aw_device_id = trim raw, aw_version = m\<rparr>
    (sn_applied (config_snapshot_of st))"
  have up: "row_map aw_device_id aw_version ?up = (row_map aw_device_id aw_version (sn_applied (config_snapshot_of st)))(trim raw \<mapsto> m)"
    "distinct (map aw_device_id ?up)"
    by (rule row_map_upsert [OF snapshot_applied(2)]; simp)+
  define rows where "rows = sort_key aw_device_id ?up"
  have rows: "row_map aw_device_id aw_version rows = (\<lambda>d. map_option rp_version (fmlookup (cc_applied st) d))(trim raw \<mapsto> m)"
    unfolding rows_def row_map_sort(1) [OF up(2)] up(1) snapshot_applied(1) ..
  have rows_distinct: "distinct (map aw_device_id rows)" unfolding rows_def by (rule row_map_sort(2) [OF up(2)])
  have "snapshot_current ((config_snapshot_of st)\<lparr>sn_applied := rows\<rparr>) (record_applied_report w now raw v st)"
    using snapshot_configs [OF k] unfolding snapshot_current_def raised(4)
    by (simp add: rows rows_distinct version_lookup)
  then show ?thesis using k by (auto simp: config_ok_def keyed_def raised(4) rows_def)
qed (use assms in simp)

lemma config_run_ok: "config_run env st \<Longrightarrow> config_ok st"
proof (induction rule: config_run.induct)
  case (set st w first second token config)
  then show ?case using set_config_ok by (metis prod.collapse)
next
  case (restarted st st')
  show ?case
  proof (cases "cc_file st")
    case None
    then show ?thesis using restarted.hyps(2) by (intro boot_config_ok) simp
  next
    case (Some f)
    then have cur: "snapshot_current f st" "config_with_state_dir (Ok (Some f)) = Ok st'"
      using restarted by (simp_all add: config_ok_def)
    show ?thesis using cur(1) restarted.IH reload_current [OF cur] by (simp add: config_ok_def keyed_def snapshot_current_def)
  qed
next
  case (boot st)
  then show ?case by (rule boot_config_ok)
next
  case (report st w now device version)
  then show ?case by (intro report_ok)
qed (simp add: config_ok_def keyed_def config_store_new_def)

text \<open>
  A restart loses no setting. In every store that setting, reporting and restarting reach, whatever
  writes fail, reloading the file gives back the settings of every child, with their versions, and
  for every device the version it has applied.
\<close>

theorem restart_restores_configs:
  assumes "config_run env st" "cc_file st = Some f" "config_with_state_dir (Ok (Some f)) = Ok st'"
  shows "cc_by_child st' = cc_by_child st \<and> rp_version (applied_of st' d) = rp_version (applied_of st d)"
  using reload_current [OF _ assms(3), of st] config_run_ok [OF assms(1)] assms(2) by (simp add: config_ok_def)

section \<open>Samples\<close>

definition sample_config :: child_config where
  "sample_config = \<lparr>cg_child_id = ''08'', cg_device_id = '' tablet'', cg_filtering_enabled = True, cg_server_region = [], cg_server_endpoint = [],
     cg_profile = 2, cg_require_always_on = True, cg_config_version = 0, cg_updated_ts = 0, cg_updated_by = [], cg_filter_location = 1\<rparr>"

definition sample_config_boot :: child_config_store where
  "sample_config_boot = \<lparr>cc_by_child = fmempty, cc_device_to_child = fmempty, cc_applied = fmempty, cc_file = Some config_snapshot_default\<rparr>"

definition sample_config_set :: child_config_store where
  "sample_config_set = snd (set_config sample_env (\<lambda>_. True) (sample_paired, 30) (sample_paired, 31) ''06'' sample_config sample_config_boot)"

definition sample_config_new :: child_config where
  "sample_config_new = sample_config\<lparr>cg_device_id := ''tablet'', cg_config_version := 1, cg_updated_ts := 31, cg_updated_by := ''04''\<rparr>"

lemma sample_config_boots: "config_with_state_dir (Ok None) = Ok sample_config_boot"
  by (simp add: config_with_state_dir_def config_snapshot_default_def config_store_new_def sample_config_boot_def)

text \<open>Evaluated step by step, as a whole the settings would be computed once for each use.\<close>

lemma set_config_by_steps:
  assumes "case guardian_scope_of env (fst first) (snd first) token of None \<Rightarrow> False | Some sc \<Rightarrow> config_check sc config = None"
    "updated_config env second token config st = c"
  shows "set_config env (\<lambda>_. True) first second token config st =
    (Ok (cg_config_version c, c), install_config c (st\<lparr>cc_file := map_option (\<lambda>_. updated_snapshot c st) (cc_file st)\<rparr>))"
  using assms by (cases st) (auto simp: set_config_def persist_snapshot_def Let_def split: option.splits)

lemma sample_scope_check:
  "case guardian_scope_of sample_env (fst (sample_paired, 30)) (snd (sample_paired, 30)) ''06'' of None \<Rightarrow> False
   | Some sc \<Rightarrow> config_check sc sample_config = None"
  by code_simp

lemma sample_config_updated:
  "updated_config sample_env (sample_paired, 31) ''06'' sample_config sample_config_boot = sample_config_new"
proof -
  have "trim '' tablet'' = ''tablet''" "trim ''08'' = ''08''" "account_for_session sample_env sample_paired 31 ''06'' = Some ''04''" by code_simp+
  then show ?thesis
    by (simp add: updated_config_def sample_config_def sample_config_new_def sample_config_boot_def config_version_of_def
        u64_saturating_add_def u64_max_def)
qed

lemmas sample_config_result = set_config_by_steps [OF sample_scope_check sample_config_updated]

lemma sample_config_set_eq: "sample_config_set = install_config sample_config_new
    (sample_config_boot\<lparr>cc_file := Some (updated_snapshot sample_config_new sample_config_boot)\<rparr>)"
  unfolding sample_config_set_def sample_config_result by (simp add: sample_config_boot_def)

theorem config_set_by_guardian_witness:
  "\<exists>g i k. account_for_session sample_env sample_paired 30 ''06'' = Some g \<and>
     fmlookup (children (st_inner sample_paired)) i = Some k \<and> ch_child_id k = ''08'' \<and> g |\<in>| ch_guardians k \<and>
     fmlookup (cc_by_child sample_config_set) ''08'' = Some sample_config_new"
proof -
  have "fmlookup (cc_by_child sample_config_set) ''08'' = Some sample_config_new"
    by (simp add: sample_config_set_eq install_config_def sample_config_new_def sample_config_def)
  moreover from config_set_by_guardian [OF sample_config_result] obtain g i k where
    "account_for_session sample_env sample_paired 30 ''06'' = Some g" "fmlookup (children (st_inner sample_paired)) i = Some k"
    "ch_child_id k = ''08''" "g |\<in>| ch_guardians k" by (auto simp: sample_config_new_def sample_config_def)
  ultimately show ?thesis by blast
qed

theorem restart_restores_configs_witness:
  "\<exists>f st'. cc_file sample_config_set = Some f \<and> config_with_state_dir (Ok (Some f)) = Ok st' \<and>
     map_option cg_config_version (fmlookup (cc_by_child st') ''08'') = Some 1"
proof -
  have v: "map_option cg_config_version (fmlookup (cc_by_child sample_config_set) ''08'') = Some 1"
    by (simp add: sample_config_set_eq install_config_def sample_config_new_def sample_config_def)
  obtain f where f: "cc_file sample_config_set = Some f" by (simp add: sample_config_set_eq install_config_def)
  obtain st' where st': "config_with_state_dir (Ok (Some f)) = Ok st'" by (simp add: config_with_state_dir_def)
  have "config_run sample_env sample_config_set"
    unfolding sample_config_set_def by (intro config_run.set config_run.boot [OF sample_config_boots])
  from restart_restores_configs [OF this f st'] f st' v show ?thesis by auto
qed

theorem config_stream_increasing_witness:
  "\<exists>policy st'. stream_child_config sample_env wit_sha (\<lambda>_. True) sample_paired 40 AuditMissing
      \<lparr>cf_device_id = ''tablet'', cf_have_version = 0, cf_device_token = ''09''\<rparr> [sample_config\<lparr>cg_config_version := 2\<rparr>] sample_config_set =
      (Ok ([sample_config_new, sample_config\<lparr>cg_config_version := 2\<rparr>], policy), st') \<and>
      sorted_wrt (<) (map cg_config_version [sample_config_new, sample_config\<lparr>cg_config_version := 2\<rparr>])"
proof -
  let ?f = "\<lparr>cf_device_id = ''tablet'', cf_have_version = 0, cf_device_token = ''09''\<rparr>"
  let ?s = "stream_child_config sample_env wit_sha (\<lambda>_. True) sample_paired 40 AuditMissing ?f [sample_config\<lparr>cg_config_version := 2\<rparr>] sample_config_set"
  have t: "trim ''tablet'' = ''tablet''" "verify_device_token_strict sample_env sample_paired ''tablet'' ''09''" by code_simp+
  have "cc_device_to_child (record_applied_report w now raw v st) = cc_device_to_child st"
    "cc_by_child (record_applied_report w now raw v st) = cc_by_child st" for w now raw v st
    by (cases rule: report_cases [of w now raw v st]; simp)+
  then have "subscribe_by_device (record_applied_report w now raw v sample_config_set) ''tablet'' = Some sample_config_new" for w now raw v
    by (simp add: subscribe_by_device_def t sample_config_set_eq install_config_def sample_config_new_def sample_config_def)
  then obtain policy st' where s: "?s = (Ok ([sample_config_new, sample_config\<lparr>cg_config_version := 2\<rparr>], policy), st')"
    by (simp add: stream_child_config_def t verify_device_def watch_into_stream_def Let_def) (simp add: sample_config_new_def)
  from config_stream_increasing [OF s] s show ?thesis by blast
qed

theorem device_policy_matches_relay_witness:
  "\<exists>f p. hub_files sample_hub = Some f \<and> p = device_policy_snapshot wit_sha 5 (AuditRows (hp_audit f)) ''tablet'' \<and> dv_complete p \<and>
     \<not> is_host_allowed (hub_allowlist sample_hub) (trim ''tablet'') ''x''"
proof -
  have f: "hub_files sample_hub = Some empty_files" by (simp add: sample_hub_def)
  have d: "disk_works good_disk" by (simp add: disk_works_def good_disk_def)
  let ?p = "device_policy_snapshot wit_sha 5 (AuditRows (hp_audit empty_files)) ''tablet''"
  have c: "dv_complete ?p" "dv_approved_hosts ?p = []" by code_simp+
  from device_policy_matches_relay [OF hub_reach.boot [OF sample_hub_boot] d f refl, where sha = wit_sha and now = 5 and device = "''tablet''"] c f show ?thesis by auto
qed

section \<open>Observations\<close>

text \<open>
  Which device a configuration is for is not restored: after settings were changed without naming the
  device, the running store still serves the device, and the restarted one refuses it.
\<close>

lemma unnamed_device_lost_on_restart:
  assumes "cg_device_id c = []" "fmlookup (cc_device_to_child st) d = Some (cg_child_id c)" "trim d = d"
    "\<And>cfg i. fmlookup (cc_by_child st) i = Some cfg \<Longrightarrow> i = cg_child_id c \<and> cg_child_id cfg = i"
    "config_with_state_dir (Ok (Some (updated_snapshot c st))) = Ok st'"
  shows "subscribe_by_device (install_config c st) d = Some c" "subscribe_by_device st' d = None"
proof -
  show "subscribe_by_device (install_config c st) d = Some c"
    using assms(1,2,3) by (simp add: subscribe_by_device_def install_config_def)
  have up: "set (upsert p (\<lambda>_. y) y xs) \<subseteq> {y}" if "\<forall>x\<in>set xs. p x" "length xs \<le> 1" for p and y :: config_row and xs
    using that by (cases xs) auto
  have one: "length (sn_configs (config_snapshot_of st)) \<le> 1" "\<forall>r\<in>set (sn_configs (config_snapshot_of st)). cw_child_id r = cg_child_id c"
  proof -
    have "keyed st" using assms(4) by (auto simp: keyed_def)
    from snapshot_configs(2) [OF this] show "\<forall>r\<in>set (sn_configs (config_snapshot_of st)). cw_child_id r = cg_child_id c"
      using assms(4) by (auto simp: config_snapshot_of_def set_sorted_list_of_fmap config_from_proto_def)
    with snapshot_configs(2) [OF \<open>keyed st\<close>] show "length (sn_configs (config_snapshot_of st)) \<le> 1"
      by (cases "sn_configs (config_snapshot_of st)" rule: list.exhaust) (auto, metis insertI1 length_0_conv list.map_disc_iff list.set_intros(1) neq_Nil_conv list.set_map image_eqI)
  qed
  have rows: "set (sn_configs (updated_snapshot c st)) \<subseteq> {config_from_proto c}"
    using up [OF one(2,1), of "config_from_proto c"] by (auto simp: updated_snapshot_def Let_def)
  have "cc_device_to_child (fold load_config rs s) = cc_device_to_child s" if "set rs \<subseteq> {config_from_proto c}" for rs s
    using that assms(1) by (induction rs arbitrary: s) (auto simp: load_config_def Let_def)
  moreover have "cc_device_to_child (fold load_applied as s) = cc_device_to_child s" for as s
    by (induction as arbitrary: s) (auto simp: load_applied_def)
  ultimately show "subscribe_by_device st' d = None"
    using assms(5) rows by (auto simp: config_with_state_dir_def Let_def subscribe_by_device_def config_store_new_def)
qed

end
