(* ===== verification/WgProvision.thy ===== *)
theory WgProvision
  imports ChildControl
begin

text \<open>
  Leases of tunnel addresses: \<open>bulwark-server/src/wg_provision.rs\<close>. The store of peers, the signed
  session that renews a lease, and the handler that grants one. Base64, SHA-256, HMAC and JSON are
  parameters, as are the clock, random numbers, the disk and the readiness of the filter.
\<close>

section \<open>Addresses and keys\<close>

definition wg_subnet_prefix :: string where
  "wg_subnet_prefix = ''10.8.0''"

definition wg_first_host :: nat where
  "wg_first_host = 2"

definition wg_last_host :: nat where
  "wg_last_host = 254"

record wg_env =
  we_base64_decode :: "string \<Rightarrow> bytes option"
  we_url_encode :: "bytes \<Rightarrow> string"
  we_url_decode :: "string \<Rightarrow> bytes option"
  we_sha256 :: "bytes \<Rightarrow> bytes"

definition valid_wg_public_key :: "wg_env \<Rightarrow> string \<Rightarrow> bool" where
  "valid_wg_public_key we key \<longleftrightarrow>
     length key = 44 \<and> ends_with key ''='' \<and> (case we_base64_decode we key of None \<Rightarrow> False | Some bs \<Rightarrow> length bs = 32)"

definition lowest_free_octet :: "nat fset \<Rightarrow> nat option" where
  "lowest_free_octet used = find (\<lambda>octet. octet |\<notin>| used) [wg_first_host..<Suc wg_last_host]"

text \<open>\<open>parse\<close> of an unsigned number takes an optional plus sign and decimal digits.\<close>

definition parse_unsigned :: "nat \<Rightarrow> string \<Rightarrow> nat option" where
  "parse_unsigned largest s =
     (let digits = (case s of [] \<Rightarrow> [] | c # r \<Rightarrow> if c = CHR ''+'' then r else s)
      in if digits = [] \<or> \<not> list_all is_digit digits \<or> largest < parse_nat_acc 0 digits then None
         else Some (parse_nat_acc 0 digits))"

definition parse_u8 :: "string \<Rightarrow> nat option" where
  "parse_u8 s = parse_unsigned 255 s"

definition last_octet :: "string \<Rightarrow> nat option" where
  "last_octet address = parse_u8 (last (split_char CHR ''.'' address))"

definition reserved_octets_from_env_str :: "string \<Rightarrow> nat fset" where
  "reserved_octets_from_env_str raw =
     fset_of_list (filter (\<lambda>octet. wg_first_host \<le> octet \<and> octet \<le> wg_last_host)
       (List.map_filter (\<lambda>token. if trim token = [] then None else last_octet (trim token)) (split_char CHR '','' raw)))"

section \<open>The store of peers\<close>

record peer_row =
  pe_device_id :: string
  pe_address :: string
  pe_public_key :: string
  pe_updated_ts :: int
  pe_expires_ts :: int

record wg_store =
  wg_by_device :: "(string, peer_row) fmap"
  wg_file :: "peer_row list option"
  wg_reserved :: "nat fset"

definition wg_store_new :: wg_store where
  "wg_store_new = \<lparr>wg_by_device = fmempty, wg_file = None, wg_reserved = {||}\<rparr>"

definition load_peers :: "peer_row list \<Rightarrow> (string, peer_row) fmap" where
  "load_peers rows = fold (\<lambda>row. fmupd (pe_device_id row) row) rows fmempty"

definition wg_with_state_dir :: "(unit, peer_row list option) result \<Rightarrow> (unit, wg_store) result" where
  "wg_with_state_dir loaded =
     (case loaded of
        Inl e \<Rightarrow> Err e
      | Inr rows \<Rightarrow> (let r = (case rows of None \<Rightarrow> [] | Some x \<Rightarrow> x)
                     in Ok \<lparr>wg_by_device = load_peers r, wg_file = Some r, wg_reserved = {||}\<rparr>))"

definition with_reserved :: "nat fset \<Rightarrow> wg_store \<Rightarrow> wg_store" where
  "with_reserved reserved st = st\<lparr>wg_reserved := reserved\<rparr>"

definition wg_snapshot :: "(string, peer_row) fmap \<Rightarrow> peer_row list" where
  "wg_snapshot m = sort_key (\<lambda>peer. case last_octet (pe_address peer) of None \<Rightarrow> 255 | Some o' \<Rightarrow> o') (map snd (sorted_list_of_fmap m))"

text \<open>Writing the new table; when the disk refuses, the table is put back as it was.\<close>

definition wg_commit ::
    "(peer_row list \<Rightarrow> bool) \<Rightarrow> (string, peer_row) fmap \<Rightarrow> (string, peer_row) fmap \<Rightarrow> wg_store \<Rightarrow> (status, unit) result \<times> wg_store" where
  "wg_commit writes next' undo st =
     (case wg_file st of
        None \<Rightarrow> (Ok (), st\<lparr>wg_by_device := next'\<rparr>)
      | Some _ \<Rightarrow>
          if writes (wg_snapshot next') then (Ok (), st\<lparr>wg_by_device := next', wg_file := Some (wg_snapshot next')\<rparr>)
          else (Err (Unavailable, ''could not durably record the WireGuard peer lease''), st\<lparr>wg_by_device := undo\<rparr>))"

definition peers :: "(string, peer_row) fmap \<Rightarrow> peer_row list" where
  "peers m = map snd (sorted_list_of_fmap m)"

definition used_octets :: "wg_store \<Rightarrow> nat fset" where
  "used_octets st = wg_reserved st |\<union>| fset_of_list (List.map_filter (\<lambda>peer. last_octet (pe_address peer)) (peers (wg_by_device st)))"

definition register_peer_with_expiry ::
    "wg_env \<Rightarrow> (peer_row list \<Rightarrow> bool) \<Rightarrow> int \<Rightarrow> int \<Rightarrow> string \<Rightarrow> string \<Rightarrow> int \<Rightarrow> wg_store \<Rightarrow> (status, string) result \<times> wg_store" where
  "register_peer_with_expiry we writes now stamp raw_device raw_key expires_ts st =
     (let device_id = trim raw_device; public_key = trim raw_key; m = wg_by_device st
      in if device_id = [] then (Err (InvalidArgument, ''device_id is required''), st)
         else if \<not> valid_wg_public_key we public_key
         then (Err (InvalidArgument, ''wg_public_key must be a valid WireGuard public key''), st)
         else if expires_ts \<le> now then (Err (InvalidArgument, ''WireGuard lease expiry must be in the future''), st)
         else if list_ex (\<lambda>peer. pe_public_key peer = public_key \<and> pe_device_id peer \<noteq> device_id) (peers m)
         then (Err (AlreadyExists, ''this WireGuard key is already registered to another device''), st)
         else (case fmlookup m device_id of
                 Some existing \<Rightarrow>
                   if pe_public_key existing = public_key \<and> pe_expires_ts existing = expires_ts then (Ok (pe_address existing), st)
                   else (case wg_commit writes
                            (fmupd device_id \<lparr>pe_device_id = device_id, pe_address = pe_address existing, pe_public_key = public_key,
                               pe_updated_ts = stamp, pe_expires_ts = expires_ts\<rparr> m)
                            (fmupd (pe_device_id existing) existing (fmupd device_id \<lparr>pe_device_id = device_id, pe_address = pe_address existing,
                               pe_public_key = public_key, pe_updated_ts = stamp, pe_expires_ts = expires_ts\<rparr> m)) st of
                           (Inl e, st') \<Rightarrow> (Err e, st')
                         | (Inr _, st') \<Rightarrow> (Ok (pe_address existing), st'))
               | None \<Rightarrow>
                   (case lowest_free_octet (used_octets st) of
                      None \<Rightarrow> (Err (ResourceExhausted, ''tunnel subnet 10.8.0.0/24 is exhausted; grow the subnet first''), st)
                    | Some octet \<Rightarrow>
                        (let address = wg_subnet_prefix @ ''.'' @ show_nat octet
                         in case wg_commit writes
                                (fmupd device_id \<lparr>pe_device_id = device_id, pe_address = address, pe_public_key = public_key,
                                   pe_updated_ts = stamp, pe_expires_ts = expires_ts\<rparr> m)
                                (fmdrop device_id m) st of
                              (Inl e, st') \<Rightarrow> (Err e, st')
                            | (Inr _, st') \<Rightarrow> (Ok address, st')))))"

definition register_peer where
  "register_peer we writes now stamp device_id public_key st =
     register_peer_with_expiry we writes now stamp device_id public_key i64_max st"

definition lease_live :: "int \<Rightarrow> peer_row \<Rightarrow> bool" where
  "lease_live at_ms peer \<longleftrightarrow> at_ms < pe_expires_ts peer \<or> pe_expires_ts peer = i64_max"

definition prune_peers :: "(peer_row list \<Rightarrow> bool) \<Rightarrow> int \<Rightarrow> wg_store \<Rightarrow> (status, nat) result \<times> wg_store" where
  "prune_peers writes at_ms st =
     (let m = wg_by_device st; kept = fm_retain (\<lambda>_ peer. lease_live at_ms peer) m;
          removed = size (fmdom m) - size (fmdom kept)
      in if 0 < removed
         then (case wg_commit writes kept (load_peers (peers m)) st of
                 (Inl e, st') \<Rightarrow> (Err e, st')
               | (Inr _, st') \<Rightarrow> (Ok removed, st'))
         else (Ok removed, st\<lparr>wg_by_device := kept\<rparr>))"

definition peer_count :: "int \<Rightarrow> wg_store \<Rightarrow> nat" where
  "peer_count at_ms st = as_u32 (length (filter (lease_live at_ms) (peers (wg_by_device st))))"

definition device_id_for_address :: "int \<Rightarrow> string \<Rightarrow> wg_store \<Rightarrow> string option" where
  "device_id_for_address at_ms address st =
     map_option pe_device_id (find (\<lambda>peer. pe_address peer = trim address \<and> lease_live at_ms peer) (peers (wg_by_device st)))"

section \<open>Sessions\<close>

record session_claims =
  sc_version :: nat
  sc_device_id :: string
  sc_wg_key_sha256 :: string
  sc_exp_ms :: int
  sc_nonce :: string

record session_auth =
  sx_key :: "(bytes \<Rightarrow> bytes) option"
  sx_ttl_ms :: int
  sx_renew_after_ms :: int
  sx_to_json :: "session_claims \<Rightarrow> bytes"
  sx_of_json :: "bytes \<Rightarrow> session_claims option"

record minted_session =
  mn_token :: string
  mn_expires_ts :: int
  mn_renew_after_ms :: int

definition session_key :: "session_auth \<Rightarrow> (status, bytes \<Rightarrow> bytes) result" where
  "session_key sx =
     (case sx_key sx of
        None \<Rightarrow> Err (FailedPrecondition, ''Remote VPN authentication is not configured on this region'')
      | Some k \<Rightarrow> Ok k)"

definition wg_key_hash :: "wg_env \<Rightarrow> string \<Rightarrow> string" where
  "wg_key_hash we public_key = hex (we_sha256 we (as_bytes public_key))"

definition minted_claims :: "wg_env \<Rightarrow> session_auth \<Rightarrow> int \<Rightarrow> bytes \<Rightarrow> string \<Rightarrow> string \<Rightarrow> session_claims" where
  "minted_claims we sx now nonce device_id public_key =
     \<lparr>sc_version = 1, sc_device_id = device_id, sc_wg_key_sha256 = wg_key_hash we public_key,
      sc_exp_ms = i64_saturating_add now (sx_ttl_ms sx), sc_nonce = we_url_encode we nonce\<rparr>"

definition mint :: "wg_env \<Rightarrow> session_auth \<Rightarrow> int \<Rightarrow> bytes option \<Rightarrow> string \<Rightarrow> string \<Rightarrow> (status, minted_session) result" where
  "mint we sx now nonce device_id public_key =
     (case session_key sx of
        Inl e \<Rightarrow> Err e
      | Inr sign \<Rightarrow>
          (case nonce of
             None \<Rightarrow> Err (Internal, ''could not generate Remote VPN session nonce'')
           | Some n \<Rightarrow>
               (let claims = minted_claims we sx now n device_id public_key;
                    payload = we_url_encode we (sx_to_json sx claims)
                in Ok \<lparr>mn_token = payload @ ''.'' @ we_url_encode we (sign (as_bytes payload)), mn_expires_ts = sc_exp_ms claims,
                       mn_renew_after_ms = sx_renew_after_ms sx\<rparr>)))"

definition invalid_session :: status where
  "invalid_session = (Unauthenticated, ''invalid Remote VPN session'')"

definition session_verify :: "wg_env \<Rightarrow> session_auth \<Rightarrow> int \<Rightarrow> string \<Rightarrow> string \<Rightarrow> string \<Rightarrow> (status, unit) result" where
  "session_verify we sx now token device_id public_key =
     (case session_key sx of
        Inl e \<Rightarrow> Err e
      | Inr sign \<Rightarrow>
     (case split_once ''.'' (trim token) of
        None \<Rightarrow> Err invalid_session
      | Some (payload, signature) \<Rightarrow>
     (case we_url_decode we signature of
        None \<Rightarrow> Err invalid_session
      | Some sig \<Rightarrow>
          if sign (as_bytes payload) \<noteq> sig then Err invalid_session
          else
     (case we_url_decode we payload of
        None \<Rightarrow> Err invalid_session
      | Some claims_bytes \<Rightarrow>
     (case sx_of_json sx claims_bytes of
        None \<Rightarrow> Err invalid_session
      | Some claims \<Rightarrow>
          if sc_version claims \<noteq> 1 \<or> sc_device_id claims \<noteq> trim device_id \<or>
             sc_wg_key_sha256 claims \<noteq> wg_key_hash we (trim public_key) \<or> sc_exp_ms claims \<le> now
          then Err (Unauthenticated, ''expired or mismatched Remote VPN session'')
          else Ok ())))))"

section \<open>Granting a lease\<close>

datatype config_file = ConfigNoDir | ConfigUnreadable | ConfigCorrupt | ConfigRows "config_row list"

definition filter_on_server :: int where
  "filter_on_server = 1"

definition authorize_remote_mode :: "config_file \<Rightarrow> string \<Rightarrow> (status, unit) result" where
  "authorize_remote_mode configs device_id =
     (case configs of
        ConfigNoDir \<Rightarrow> Err (FailedPrecondition, ''Remote VPN requires durable server state and a guardian-applied child config'')
      | ConfigUnreadable \<Rightarrow> Err (FailedPrecondition, ''guardian has not authorized Remote VPN for this device'')
      | ConfigCorrupt \<Rightarrow> Err (Unavailable, ''child configuration state is unreadable'')
      | ConfigRows rows \<Rightarrow>
          if list_ex (\<lambda>c. trim (cw_device_id c) = trim device_id \<and> cw_filtering_enabled c \<and> cw_filter_location c = filter_on_server) rows
          then Ok () else Err (PermissionDenied, ''guardian has not authorized Remote VPN for this device''))"

datatype ca_file = CaNoPath | CaUnreadable string | CaBytes bytes

definition inspection_ca_material :: "wg_env \<Rightarrow> ca_file \<Rightarrow> (status, bytes \<times> string) result" where
  "inspection_ca_material we ca =
     (case ca of
        CaNoPath \<Rightarrow> Err (FailedPrecondition, ''Remote VPN inspection CA is not configured'')
      | CaUnreadable detail \<Rightarrow> Err (FailedPrecondition, ''Remote VPN inspection CA '' @ detail)
      | CaBytes pem \<Rightarrow>
          if \<not> list_ex (\<lambda>s. prefix (as_bytes ''-----BEGIN CERTIFICATE-----'') s) (suffixes pem)
          then Err (FailedPrecondition, ''configured Remote VPN inspection CA is not PEM certificate material'')
          else Ok (pem, hex (we_sha256 we pem)))"

record wg_region_config =
  rg_server_public_key :: string
  rg_server_endpoint :: string
  rg_keepalive_secs :: nat
  rg_filter_active :: bool

record wg_service =
  wv_accounts :: account_store
  wv_region :: wg_region_config
  wv_sessions :: session_auth
  wv_configs :: config_file
  wv_ca :: ca_file
  wv_ready :: bool

record register_request =
  wq_device_id :: string
  wq_device_token :: string
  wq_public_key :: string

record peer_grant =
  gr_assigned_address :: string
  gr_server_public_key :: string
  gr_server_endpoint :: string
  gr_keepalive_secs :: nat
  gr_filter_active :: bool
  gr_inspection_ca :: bytes
  gr_inspection_ca_sha256 :: string
  gr_session :: string
  gr_session_expires :: string
  gr_session_renew :: string

definition wg_region_default :: wg_region_config where
  "wg_region_default = \<lparr>rg_server_public_key = [], rg_server_endpoint = ''vpn.predatorhunters.co.uk:51820'',
     rg_keepalive_secs = 25, rg_filter_active = False\<rparr>"

text \<open>The environment of the process, as a function from names to values.\<close>

definition region_from_env :: "wg_env \<Rightarrow> (string \<Rightarrow> string option) \<Rightarrow> wg_region_config" where
  "region_from_env we var =
     (let key = (case var ''BULWARK_WG_SERVER_PUBLIC_KEY'' of None \<Rightarrow> [] | Some v \<Rightarrow> trim v);
          endpoint = (case var ''BULWARK_WG_ENDPOINT'' of None \<Rightarrow> [] | Some v \<Rightarrow> trim v);
          keepalive = Option.bind (var ''BULWARK_WG_KEEPALIVE_SECS'') (\<lambda>v. parse_unsigned (2 ^ 32 - 1) (trim v))
      in \<lparr>rg_server_public_key = (if key \<noteq> [] \<and> \<not> valid_wg_public_key we key then [] else key),
          rg_server_endpoint = (if endpoint = [] then rg_server_endpoint wg_region_default else endpoint),
          rg_keepalive_secs = (case keepalive of None \<Rightarrow> rg_keepalive_secs wg_region_default
             | Some v \<Rightarrow> if 0 < v then v else rg_keepalive_secs wg_region_default),
          rg_filter_active = (case var ''BULWARK_WG_FILTER_ACTIVE'' of None \<Rightarrow> False
             | Some v \<Rightarrow> trim v \<in> {''1'', ''true'', ''TRUE'', ''True''})\<rparr>)"

definition reserved_octets_from_env :: "(string \<Rightarrow> string option) \<Rightarrow> nat fset" where
  "reserved_octets_from_env var =
     (case var ''BULWARK_WG_RESERVED_ADDRS'' of None \<Rightarrow> {||} | Some raw \<Rightarrow> reserved_octets_from_env_str raw)"

text \<open>\<open>hmac\<close> makes the signing function of a secret; \<open>sx_to_json\<close> and \<open>sx_of_json\<close> are the JSON codec.\<close>

definition session_auth_from_env ::
    "(bytes \<Rightarrow> bytes \<Rightarrow> bytes) \<Rightarrow> (session_claims \<Rightarrow> bytes) \<Rightarrow> (bytes \<Rightarrow> session_claims option) \<Rightarrow> (string \<Rightarrow> string option) \<Rightarrow> session_auth" where
  "session_auth_from_env hmac to_json of_json var =
     (let key = (case var ''BULWARK_REMOTE_VPN_SESSION_SECRET'' of None \<Rightarrow> None
                   | Some v \<Rightarrow> if 32 \<le> length (as_bytes v) then Some (hmac (as_bytes v)) else None);
          ttl_secs = max (5 * 60) (min (24 * 60 * 60)
            (case Option.bind (var ''BULWARK_REMOTE_VPN_SESSION_TTL_SECS'') (\<lambda>v. parse_unsigned u64_max (trim v)) of
               None \<Rightarrow> 30 * 60 | Some v \<Rightarrow> v));
          ttl_ms = min (int (min u64_max (ttl_secs * 1000))) i64_max
      in \<lparr>sx_key = key, sx_ttl_ms = ttl_ms, sx_renew_after_ms = max (ttl_ms div 2) 60000, sx_to_json = to_json, sx_of_json = of_json\<rparr>)"

definition verify_bootstrap_device :: "account_env \<Rightarrow> account_store \<Rightarrow> string \<Rightarrow> string \<Rightarrow> (status, unit) result" where
  "verify_bootstrap_device env acc device_id device_token =
     (if verify_device_token_strict env acc device_id device_token then Ok ()
      else Err (Unauthenticated, ''unknown, legacy-unpaired, or invalid device credential''))"

definition authenticate_request ::
    "account_env \<Rightarrow> wg_env \<Rightarrow> wg_service \<Rightarrow> int \<Rightarrow> string option \<Rightarrow> register_request \<Rightarrow> (status, unit) result" where
  "authenticate_request env we sv now session_token request =
     (case (case session_token of Some t \<Rightarrow> if trim t = [] then None else Some t | None \<Rightarrow> None) of
        Some token \<Rightarrow> session_verify we (wv_sessions sv) now token (wq_device_id request) (wq_public_key request)
      | None \<Rightarrow> verify_bootstrap_device env (wv_accounts sv) (wq_device_id request) (wq_device_token request))"

definition remote_ready :: "wg_env \<Rightarrow> wg_service \<Rightarrow> (status, bytes \<times> string) result" where
  "remote_ready we sv =
     (if rg_server_public_key (wv_region sv) = [] then Err (FailedPrecondition, ''this region has no WireGuard server identity'')
      else if \<not> rg_filter_active (wv_region sv) \<or> \<not> wv_ready sv
      then Err (FailedPrecondition, ''Remote VPN is unavailable because the live server-side filter is not ready'')
      else (case session_key (wv_sessions sv) of Inl e \<Rightarrow> Err e | Inr _ \<Rightarrow> inspection_ca_material we (wv_ca sv)))"

text \<open>The clock is read anew for the session, the pruning, the check of the expiry and the stamp of the row.\<close>

definition register_wg_peer ::
    "account_env \<Rightarrow> wg_env \<Rightarrow> (peer_row list \<Rightarrow> bool) \<Rightarrow> wg_service \<Rightarrow> int \<times> int \<times> int \<times> int \<times> int \<Rightarrow> bytes option \<Rightarrow> string option \<Rightarrow>
     register_request \<Rightarrow> wg_store \<Rightarrow> (status, peer_grant) result \<times> wg_store" where
  "register_wg_peer env we writes sv clock nonce session_token request st =
     (let (now, minted_at, pruned_at, checked_at, stamp) = clock
      in if trim (wq_device_id request) = [] then (Err (InvalidArgument, ''device_id is required''), st)
         else if \<not> valid_wg_public_key we (trim (wq_public_key request)) then (Err (InvalidArgument, ''wg_public_key is invalid''), st)
         else
      (case authenticate_request env we sv now session_token request of Inl e \<Rightarrow> (Err e, st) | Inr _ \<Rightarrow>
      (case authorize_remote_mode (wv_configs sv) (wq_device_id request) of Inl e \<Rightarrow> (Err e, st) | Inr _ \<Rightarrow>
      (case remote_ready we sv of Inl e \<Rightarrow> (Err e, st) | Inr (ca, ca_hash) \<Rightarrow>
      (case mint we (wv_sessions sv) minted_at nonce (wq_device_id request) (wq_public_key request) of Inl e \<Rightarrow> (Err e, st) | Inr session \<Rightarrow>
      (case register_peer_with_expiry we writes checked_at stamp (wq_device_id request) (wq_public_key request) (mn_expires_ts session)
              (snd (prune_peers writes pruned_at st)) of
         (Inl e, st') \<Rightarrow> (Err e, st')
       | (Inr address, st') \<Rightarrow>
           (Ok \<lparr>gr_assigned_address = address, gr_server_public_key = rg_server_public_key (wv_region sv),
                gr_server_endpoint = rg_server_endpoint (wv_region sv), gr_keepalive_secs = rg_keepalive_secs (wv_region sv),
                gr_filter_active = True, gr_inspection_ca = ca, gr_inspection_ca_sha256 = ca_hash, gr_session = mn_token session,
                gr_session_expires = show_int (mn_expires_ts session), gr_session_renew = show_int (mn_renew_after_ms session)\<rparr>, st')))))))"

section \<open>Addresses\<close>

definition wg_address :: "nat \<Rightarrow> string" where
  "wg_address octet = wg_subnet_prefix @ ''.'' @ show_nat octet"

lemma wg_address_inj [simp]: "wg_address a = wg_address b \<longleftrightarrow> a = b"
  by (simp add: wg_address_def)

lemma split_char_app: "split_char c (p @ c # s) = split_char c p @ split_char c s"
  by (induction p) (auto split: list.split)

lemma split_char_free: "c \<notin> set s \<Longrightarrow> split_char c s = [s]"
  by (induction s) auto

lemma last_split_char: "c \<notin> set s \<Longrightarrow> last (split_char c (p @ c # s)) = s"
  by (simp add: split_char_app split_char_free)

lemma parse_u8_show: "octet \<le> 255 \<Longrightarrow> parse_u8 (show_nat octet) = Some octet"
proof -
  assume o: "octet \<le> 255"
  have "show_nat octet \<noteq> CHR ''+'' # r" for r
    using show_nat_digits [of "CHR ''+''" octet] by (auto simp: is_digit_def code_def)
  then have "(case show_nat octet of [] \<Rightarrow> [] | c # r \<Rightarrow> if c = CHR ''+'' then r else show_nat octet) = show_nat octet"
    by (auto split: list.split)
  moreover have "list_all is_digit (show_nat octet)"
    using show_nat_digits by (auto simp: list_all_iff)
  ultimately show ?thesis using o by (simp add: parse_u8_def parse_unsigned_def parse_show_nat)
qed

lemma last_octet_address [simp]: "octet \<le> 255 \<Longrightarrow> last_octet (wg_address octet) = Some octet"
proof -
  assume o: "octet \<le> 255"
  have "CHR ''.'' \<notin> set (show_nat octet)"
    using show_nat_digits [of "CHR ''.''" octet] by (auto simp: is_digit_def code_def)
  then show ?thesis
    using last_split_char [of "CHR ''.''" "show_nat octet" wg_subnet_prefix] parse_u8_show [OF o]
    by (simp add: last_octet_def wg_address_def)
qed

lemma find_upt_Some:
  "find P [a..<b] = Some x \<Longrightarrow> a \<le> x \<and> x < b \<and> P x \<and> (\<forall>y. a \<le> y \<longrightarrow> y < x \<longrightarrow> \<not> P y)"
proof -
  assume "find P [a..<b] = Some x"
  then obtain i where i: "i < b - a" "P (a + i)" "x = a + i" and low: "\<forall>j<i. \<not> P ([a..<b] ! j)"
    by (auto simp: find_Some_iff nth_upt)
  have "\<not> P y" if "a \<le> y" "y < x" for y
    using low [rule_format, of "y - a"] i that by (simp add: nth_upt)
  then show ?thesis using i by auto
qed

lemma lowest_free_octet_Some:
  assumes "lowest_free_octet used = Some octet"
  shows "wg_first_host \<le> octet" "octet \<le> wg_last_host" "octet |\<notin>| used"
    "wg_first_host \<le> lower \<Longrightarrow> lower < octet \<Longrightarrow> lower |\<in>| used"
  using find_upt_Some [OF assms [unfolded lowest_free_octet_def]] by auto

lemma lowest_free_octet_None:
  "lowest_free_octet used = None \<longleftrightarrow> (\<forall>octet. wg_first_host \<le> octet \<longrightarrow> octet \<le> wg_last_host \<longrightarrow> octet |\<in>| used)"
  by (auto simp: lowest_free_octet_def find_None_iff)

section \<open>The invariant of the store\<close>

definition row_ok :: "wg_env \<Rightarrow> string \<Rightarrow> peer_row \<Rightarrow> bool" where
  "row_ok we d row \<longleftrightarrow>
     pe_device_id row = d \<and> d \<noteq> [] \<and> trim d = d \<and> valid_wg_public_key we (pe_public_key row) \<and>
     (\<exists>octet. wg_first_host \<le> octet \<and> octet \<le> wg_last_host \<and> pe_address row = wg_address octet)"

definition rows_apart :: "peer_row \<Rightarrow> peer_row \<Rightarrow> bool" where
  "rows_apart row1 row2 \<longleftrightarrow> pe_address row1 \<noteq> pe_address row2 \<and> pe_public_key row1 \<noteq> pe_public_key row2"

definition table_ok :: "wg_env \<Rightarrow> (string, peer_row) fmap \<Rightarrow> bool" where
  "table_ok we m \<longleftrightarrow>
     (\<forall>d row. fmlookup m d = Some row \<longrightarrow> row_ok we d row) \<and>
     (\<forall>d1 d2 row1 row2. fmlookup m d1 = Some row1 \<longrightarrow> fmlookup m d2 = Some row2 \<longrightarrow> d1 \<noteq> d2 \<longrightarrow> rows_apart row1 row2)"

definition wg_ok :: "wg_env \<Rightarrow> wg_store \<Rightarrow> bool" where
  "wg_ok we st \<longleftrightarrow>
     table_ok we (wg_by_device st) \<and> (\<forall>rows. wg_file st = Some rows \<longrightarrow> load_peers rows = wg_by_device st)"

lemma set_peers: "row \<in> set (peers m) \<longleftrightarrow> (\<exists>d. fmlookup m d = Some row)"
  by (force simp: peers_def set_sorted_list_of_fmap)

lemma set_wg_snapshot: "set (wg_snapshot m) = set (peers m)"
  by (simp add: wg_snapshot_def peers_def)

text \<open>Loading the rows of a table whose rows carry their own key gives the table back.\<close>

lemma load_peers_lookup:
  "fmlookup (load_peers rows) d =
     (if \<exists>row\<in>set rows. pe_device_id row = d then Some (last (filter (\<lambda>row. pe_device_id row = d) rows)) else None)"
  by (induction rows rule: rev_induct) (auto simp: load_peers_def filter_empty_conv)

lemma load_peers_table:
  assumes keyed: "\<And>d row. fmlookup m d = Some row \<Longrightarrow> pe_device_id row = d" and rows: "set rows = set (peers m)"
  shows "load_peers rows = m"
proof (rule fmap_ext)
  fix d
  show "fmlookup (load_peers rows) d = fmlookup m d"
  proof (cases "fmlookup m d")
    case None
    then show ?thesis using keyed by (auto simp: load_peers_lookup rows set_peers)
  next
    case (Some row)
    have only: "r = row" if "r \<in> set rows" "pe_device_id r = d" for r
      using that keyed Some by (auto simp: rows set_peers)
    have ex: "row \<in> set rows" "pe_device_id row = d" using Some keyed by (auto simp: rows set_peers)
    have "last (filter (\<lambda>row. pe_device_id row = d) rows) \<in> set (filter (\<lambda>row. pe_device_id row = d) rows)"
      by (rule last_in_set) (use ex in \<open>auto simp: filter_empty_conv\<close>)
    then have "last (filter (\<lambda>row. pe_device_id row = d) rows) = row" using only by auto
    then show ?thesis using ex Some by (auto simp: load_peers_lookup)
  qed
qed

lemma table_ok_row: "table_ok we m \<Longrightarrow> fmlookup m d = Some row \<Longrightarrow> row_ok we d row"
  by (simp add: table_ok_def)

lemma table_ok_apart:
  "table_ok we m \<Longrightarrow> fmlookup m d1 = Some row1 \<Longrightarrow> fmlookup m d2 = Some row2 \<Longrightarrow> d1 \<noteq> d2 \<Longrightarrow> rows_apart row1 row2"
  by (simp add: table_ok_def)

lemma table_ok_keyed: "table_ok we m \<Longrightarrow> fmlookup m d = Some row \<Longrightarrow> pe_device_id row = d"
  using table_ok_row by (fastforce simp: row_ok_def)

lemma rows_apart_sym: "rows_apart row1 row2 \<Longrightarrow> rows_apart row2 row1"
  by (auto simp: rows_apart_def)

lemma table_ok_upd:
  assumes "table_ok we m" "row_ok we d row"
    and "\<And>d' row'. fmlookup m d' = Some row' \<Longrightarrow> d' \<noteq> d \<Longrightarrow> rows_apart row' row"
  shows "table_ok we (fmupd d row m)"
  unfolding table_ok_def
proof (intro conjI allI impI)
  fix d' row' assume "fmlookup (fmupd d row m) d' = Some row'"
  then show "row_ok we d' row'" using assms(1,2) table_ok_row by (auto split: if_splits)
next
  fix d1 d2 row1 row2
  assume "fmlookup (fmupd d row m) d1 = Some row1" "fmlookup (fmupd d row m) d2 = Some row2" "d1 \<noteq> d2"
  then show "rows_apart row1 row2"
    using assms(3) [of d1 row1] assms(3) [of d2 row2, THEN rows_apart_sym] table_ok_apart [OF assms(1), of d1 row1 d2 row2]
    by (auto split: if_splits)
qed

lemma load_snapshot: "table_ok we m \<Longrightarrow> load_peers (wg_snapshot m) = m"
  by (rule load_peers_table) (auto simp: table_ok_keyed set_wg_snapshot)

lemma load_peers_peers: "table_ok we m \<Longrightarrow> load_peers (peers m) = m"
  by (rule load_peers_table) (auto simp: table_ok_keyed)

lemma wg_commit_ok:
  assumes "wg_ok we st" "table_ok we next'" "undo = wg_by_device st"
  shows "wg_ok we (snd (wg_commit writes next' undo st))"
  using assms load_snapshot [of we next'] by (auto simp: wg_commit_def wg_ok_def split: option.split)

definition key_taken :: "string \<Rightarrow> string \<Rightarrow> (string, peer_row) fmap \<Rightarrow> bool" where
  "key_taken key d m \<longleftrightarrow> list_ex (\<lambda>peer. pe_public_key peer = key \<and> pe_device_id peer \<noteq> d) (peers m)"

lemma key_not_taken:
  "table_ok we m \<Longrightarrow> \<not> key_taken key d m \<Longrightarrow> fmlookup m d' = Some row \<Longrightarrow> d' \<noteq> d \<Longrightarrow> pe_public_key row \<noteq> key"
  using table_ok_keyed [of we m d' row] by (auto simp: key_taken_def list_ex_iff set_peers)

lemma table_ok_renew:
  assumes "table_ok we m" "fmlookup m d = Some existing" "valid_wg_public_key we key" "\<not> key_taken key d m"
  shows "table_ok we (fmupd d \<lparr>pe_device_id = d, pe_address = pe_address existing, pe_public_key = key,
           pe_updated_ts = stamp, pe_expires_ts = e\<rparr> m)"
proof (rule table_ok_upd [OF assms(1)])
  fix d' row' assume "fmlookup m d' = Some row'" "d' \<noteq> d"
  then show "rows_apart row' \<lparr>pe_device_id = d, pe_address = pe_address existing, pe_public_key = key,
      pe_updated_ts = stamp, pe_expires_ts = e\<rparr>"
    using key_not_taken [OF assms(1,4)] table_ok_apart [OF assms(1) _ assms(2)] by (simp add: rows_apart_def)
qed (use table_ok_row [OF assms(1,2)] assms(3) in \<open>simp add: row_ok_def\<close>)

lemma table_ok_new:
  assumes "table_ok we m" "valid_wg_public_key we key" "d \<noteq> []" "trim d = d" "\<not> key_taken key d m"
    and "wg_first_host \<le> octet" "octet \<le> wg_last_host"
    and fresh: "\<And>row. row \<in> set (peers m) \<Longrightarrow> last_octet (pe_address row) \<noteq> Some octet"
  shows "table_ok we (fmupd d \<lparr>pe_device_id = d, pe_address = wg_address octet, pe_public_key = key,
           pe_updated_ts = stamp, pe_expires_ts = e\<rparr> m)"
proof (rule table_ok_upd [OF assms(1)])
  fix d' row' assume row: "fmlookup m d' = Some row'" "d' \<noteq> d"
  then have "row' \<in> set (peers m)" by (auto simp: set_peers)
  then have "pe_address row' \<noteq> wg_address octet" using fresh [of row'] assms(7) by (auto simp: wg_last_host_def)
  then show "rows_apart row' \<lparr>pe_device_id = d, pe_address = wg_address octet, pe_public_key = key,
      pe_updated_ts = stamp, pe_expires_ts = e\<rparr>"
    using key_not_taken [OF assms(1,5) row] by (simp add: rows_apart_def)
qed (use assms in \<open>auto simp: row_ok_def\<close>)

lemma table_ok_retain: "table_ok we m \<Longrightarrow> table_ok we (fm_retain P m)"
  unfolding table_ok_def by (simp split: option.splits if_splits)

lemma used_octets_free:
  assumes "octet |\<notin>| used_octets st" "row \<in> set (peers (wg_by_device st))"
  shows "last_octet (pe_address row) \<noteq> Some octet"
proof
  assume "last_octet (pe_address row) = Some octet"
  then have "octet \<in> set (List.map_filter (\<lambda>peer. last_octet (pe_address peer)) (peers (wg_by_device st)))"
    using assms(2) by (force simp: List.map_filter_def)
  then show False using assms(1) by (simp add: used_octets_def fset_of_list_elem)
qed

lemma snd_commit [simp]:
  "snd (case r of (Inl e, st) \<Rightarrow> (Err (f e), st) | (Inr x, st) \<Rightarrow> (Ok (g x), st)) = snd r"
  by (cases r) (auto split: sum.split)

lemma register_peer_ok:
  assumes "wg_ok we st"
  shows "wg_ok we (snd (register_peer_with_expiry we writes now stamp raw_device raw_key e st))"
proof -
  define d where "d = trim raw_device"
  define key where "key = trim raw_key"
  let ?m = "wg_by_device st"
  let ?row = "\<lambda>a. \<lparr>pe_device_id = d, pe_address = a, pe_public_key = key, pe_updated_ts = stamp, pe_expires_ts = e\<rparr>"
  let ?new = "\<lambda>a. fmupd d (?row a) ?m"
  have ok: "table_ok we ?m" using assms by (simp add: wg_ok_def)
  show ?thesis
  proof (cases "d = [] \<or> \<not> valid_wg_public_key we key \<or> e \<le> now \<or> key_taken key d ?m")
    case True
    then show ?thesis using assms
      by (auto simp: register_peer_with_expiry_def d_def key_def key_taken_def Let_def)
  next
    case False
    have renew: "wg_ok we (snd (wg_commit writes (?new (pe_address x)) (fmupd (pe_device_id x) x (?new (pe_address x))) st))"
      if "fmlookup ?m d = Some x" for x
      using False that table_ok_keyed [OF ok that]
      by (intro wg_commit_ok [OF assms] table_ok_renew ok) (auto intro!: fmap_ext)
    have new: "wg_ok we (snd (wg_commit writes (?new (wg_address octet)) (fmdrop d ?m) st))"
      if "fmlookup ?m d = None" "lowest_free_octet (used_octets st) = Some octet" for octet
      using False that lowest_free_octet_Some [OF that(2)] used_octets_free
      by (intro wg_commit_ok [OF assms] table_ok_new ok) (auto intro!: fmap_ext simp: d_def)
    show ?thesis
      unfolding register_peer_with_expiry_def d_def [symmetric] key_def [symmetric] Let_def
        wg_address_def [symmetric] key_taken_def [symmetric]
      using False renew new assms by (simp split: option.split)
  qed
qed

lemma retain_all:
  assumes "size (fmdom m) \<le> size (fmdom (fm_retain P m))"
  shows "fm_retain P m = m"
proof -
  have "fmdom (fm_retain P m) |\<subseteq>| fmdom m" by (auto simp: fm_retain_def)
  then have dom: "fmdom (fm_retain P m) = fmdom m" using assms by (intro fcard_seteq) (auto simp: fcard.rep_eq)
  have "fmlookup (fm_retain P m) k = fmlookup m k" for k
  proof (cases "fmlookup m k")
    case (Some v)
    then have "k |\<in>| fmdom (fm_retain P m)" unfolding dom by (rule fmdomI)
    then show ?thesis using Some by (auto elim!: fmdomE split: if_splits)
  qed simp
  then show ?thesis by (rule fmap_ext)
qed

lemma prune_peers_ok: "wg_ok we st \<Longrightarrow> wg_ok we (snd (prune_peers writes at_ms st))"
proof -
  assume ok: "wg_ok we st"
  let ?m = "wg_by_device st" and ?kept = "fm_retain (\<lambda>_ peer. lease_live at_ms peer) (wg_by_device st)"
  have t: "table_ok we ?m" using ok by (simp add: wg_ok_def)
  have "wg_ok we (snd (wg_commit writes ?kept (load_peers (peers ?m)) st))"
    by (rule wg_commit_ok [OF ok table_ok_retain [OF t] load_peers_peers [OF t]])
  moreover have "st\<lparr>wg_by_device := ?kept\<rparr> = st" if "\<not> 0 < size (fmdom ?m) - size (fmdom ?kept)"
  proof -
    have "?kept = ?m" by (rule retain_all) (use that in linarith)
    then show ?thesis by simp
  qed
  ultimately show ?thesis
    unfolding prune_peers_def Let_def
    by (cases "0 < size (fmdom ?m) - size (fmdom ?kept)") (simp_all only: if_True if_False snd_commit snd_conv ok not_False_eq_True)
qed

section \<open>Runs of the store\<close>

text \<open>
  What the process does with the store: leases, pruning, and restarts, which read the file back and
  may come up with other reserved addresses.
\<close>

inductive wg_step :: "wg_env \<Rightarrow> wg_store \<Rightarrow> wg_store \<Rightarrow> bool" for we where
  lease: "wg_step we st (snd (register_peer_with_expiry we writes now stamp device_id public_key expires_ts st))"
| prune: "wg_step we st (snd (prune_peers writes at_ms st))"
| restart: "wg_file st \<noteq> None \<Longrightarrow> wg_with_state_dir (Ok (wg_file st)) = Ok st' \<Longrightarrow> wg_step we st (with_reserved reserved st')"

inductive wg_reachable :: "wg_env \<Rightarrow> wg_store \<Rightarrow> bool" for we where
  in_memory: "wg_reachable we (with_reserved reserved wg_store_new)"
| fresh_dir: "wg_with_state_dir (Ok None) = Ok st \<Longrightarrow> wg_reachable we (with_reserved reserved st)"
| step: "wg_reachable we st \<Longrightarrow> wg_step we st st' \<Longrightarrow> wg_reachable we st'"

lemma wg_ok_empty: "wg_by_device st = fmempty \<Longrightarrow> wg_file st \<in> {None, Some []} \<Longrightarrow> wg_ok we st"
  by (auto simp: wg_ok_def table_ok_def load_peers_def)

lemma wg_step_ok: "wg_step we st st' \<Longrightarrow> wg_ok we st \<Longrightarrow> wg_ok we st'"
proof (induction rule: wg_step.induct)
  case (restart st st' reserved)
  then show ?case by (auto simp: wg_with_state_dir_def with_reserved_def wg_ok_def)
qed (auto intro: register_peer_ok prune_peers_ok)

lemma wg_reachable_ok: "wg_reachable we st \<Longrightarrow> wg_ok we st"
proof (induction rule: wg_reachable.induct)
  case (fresh_dir st reserved)
  then show ?case by (intro wg_ok_empty) (auto simp: wg_with_state_dir_def with_reserved_def load_peers_def)
qed (auto intro: wg_ok_empty wg_step_ok simp: wg_store_new_def with_reserved_def)

lemma device_for_address_iff:
  assumes ok: "table_ok we (wg_by_device st)"
  shows "device_id_for_address at_ms address st = Some d \<longleftrightarrow>
           (\<exists>row. fmlookup (wg_by_device st) d = Some row \<and> pe_address row = trim address \<and> lease_live at_ms row)"
    (is "?l \<longleftrightarrow> (\<exists>row. _ \<and> ?p1 row \<and> ?p2 row)")
proof
  let ?p = "\<lambda>peer. pe_address peer = trim address \<and> lease_live at_ms peer"
  show "\<exists>row. fmlookup (wg_by_device st) d = Some row \<and> ?p row" if ?l
    using that table_ok_keyed [OF ok] by (auto simp: device_id_for_address_def set_peers dest!: find_SomeD)
  assume "\<exists>row. fmlookup (wg_by_device st) d = Some row \<and> ?p row"
  then obtain row where row: "fmlookup (wg_by_device st) d = Some row" "?p row" by blast
  then have "find ?p (peers (wg_by_device st)) \<noteq> None" by (auto simp: find_None_iff set_peers)
  then obtain row' where found: "find ?p (peers (wg_by_device st)) = Some row'" by blast
  then obtain d' where d': "fmlookup (wg_by_device st) d' = Some row'" "?p row'"
    using find_SomeD [OF found] by (auto simp: set_peers)
  then have "d' = d" using table_ok_apart [OF ok d'(1) row(1)] row(2) by (auto simp: rows_apart_def)
  then show ?l using found table_ok_keyed [OF ok d'(1)] by (simp add: device_id_for_address_def)
qed

text \<open>
  Claim C33. However leases are taken, renewed, pruned and restored, also when the disk refuses writes: no two
  devices hold the same tunnel address or the same key, each lease is filed under the device that holds it with
  an address from 10.8.0.2 to 10.8.0.254, the file holds what the table holds, and so the device that the
  filter attributes a packet to is the one with a live lease on the address.
\<close>

theorem wg_leases_exclusive:
  assumes "wg_reachable we st"
  shows "(\<forall>d row. fmlookup (wg_by_device st) d = Some row \<longrightarrow> pe_device_id row = d \<and>
            (\<exists>octet. 2 \<le> octet \<and> octet \<le> 254 \<and> pe_address row = wg_address octet)) \<and>
         (\<forall>d1 d2 row1 row2. fmlookup (wg_by_device st) d1 = Some row1 \<longrightarrow> fmlookup (wg_by_device st) d2 = Some row2 \<longrightarrow>
            pe_address row1 = pe_address row2 \<or> pe_public_key row1 = pe_public_key row2 \<longrightarrow> d1 = d2) \<and>
         (\<forall>rows. wg_file st = Some rows \<longrightarrow> load_peers rows = wg_by_device st) \<and>
         (\<forall>at_ms address d. device_id_for_address at_ms address st = Some d \<longleftrightarrow>
            (\<exists>row. fmlookup (wg_by_device st) d = Some row \<and> pe_address row = trim address \<and> lease_live at_ms row))"
proof -
  have ok: "table_ok we (wg_by_device st)" and sync: "\<forall>rows. wg_file st = Some rows \<longrightarrow> load_peers rows = wg_by_device st"
    using wg_reachable_ok [OF assms] by (auto simp: wg_ok_def)
  have "\<forall>d row. fmlookup (wg_by_device st) d = Some row \<longrightarrow> pe_device_id row = d \<and>
            (\<exists>octet. 2 \<le> octet \<and> octet \<le> 254 \<and> pe_address row = wg_address octet)"
    using table_ok_row [OF ok] by (auto simp: row_ok_def wg_first_host_def wg_last_host_def)
  moreover have "\<forall>d1 d2 row1 row2. fmlookup (wg_by_device st) d1 = Some row1 \<longrightarrow> fmlookup (wg_by_device st) d2 = Some row2 \<longrightarrow>
            pe_address row1 = pe_address row2 \<or> pe_public_key row1 = pe_public_key row2 \<longrightarrow> d1 = d2"
    using table_ok_apart [OF ok] by (auto simp: rows_apart_def)
  ultimately show ?thesis using sync device_for_address_iff [OF ok] by blast
qed

section \<open>Which address a device gets\<close>

lemma used_octets_iff:
  assumes "table_ok we (wg_by_device st)" "octet \<le> wg_last_host"
  shows "octet |\<in>| used_octets st \<longleftrightarrow>
           octet |\<in>| wg_reserved st \<or> (\<exists>d row. fmlookup (wg_by_device st) d = Some row \<and> pe_address row = wg_address octet)"
proof -
  have o: "octet \<le> 255" using assms(2) by (simp add: wg_last_host_def)
  have "last_octet (pe_address row) = Some octet \<longleftrightarrow> pe_address row = wg_address octet"
    if row: "fmlookup (wg_by_device st) d = Some row" for d row
    using table_ok_row [OF assms(1) row] o by (auto simp: row_ok_def wg_last_host_def)
  then have "(\<exists>row\<in>set (peers (wg_by_device st)). last_octet (pe_address row) = Some octet) \<longleftrightarrow>
      (\<exists>d row. fmlookup (wg_by_device st) d = Some row \<and> pe_address row = wg_address octet)"
    unfolding Bex_def set_peers by metis
  moreover have "octet |\<in>| used_octets st \<longleftrightarrow>
      octet |\<in>| wg_reserved st \<or> (\<exists>row\<in>set (peers (wg_by_device st)). last_octet (pe_address row) = Some octet)"
    using used_octets_free [of octet st] by (force simp: used_octets_def fset_of_list_elem List.map_filter_def)
  ultimately show ?thesis by simp
qed

lemma lowest_free_is_least:
  assumes "\<And>octet. octet \<le> wg_last_host \<Longrightarrow> octet |\<in>| used \<longleftrightarrow> octet \<in> taken"
  shows "lowest_free_octet used =
    (if {wg_first_host..wg_last_host} \<subseteq> taken then None else Some (LEAST octet. wg_first_host \<le> octet \<and> octet \<notin> taken))"
proof (cases "lowest_free_octet used")
  case None
  then show ?thesis using assms by (auto simp: lowest_free_octet_None)
next
  case (Some x)
  note f = lowest_free_octet_Some [OF Some]
  have "(LEAST octet. wg_first_host \<le> octet \<and> octet \<notin> taken) = x"
  proof (rule Least_equality)
    show "wg_first_host \<le> x \<and> x \<notin> taken" using f(1-3) assms by blast
    show "x \<le> y" if "wg_first_host \<le> y \<and> y \<notin> taken" for y
      using f(2) f(4) [of y] assms [of y] that by (meson leI le_trans order_less_imp_le)
  qed
  moreover have "x \<in> {wg_first_host..wg_last_host}" "x \<notin> taken" using f(1-3) assms by auto
  ultimately show ?thesis using Some by auto
qed

text \<open>The addresses that are reserved or leased, as last octets.\<close>

definition taken :: "wg_store \<Rightarrow> nat set" where
  "taken st = {octet. octet |\<in>| wg_reserved st \<or>
     (\<exists>d row. fmlookup (wg_by_device st) d = Some row \<and> pe_address row = wg_address octet)}"

text \<open>
  A device with a valid key that nobody else holds gets a lease while there is room: a device that
  has one keeps its address, a new one gets the lowest address from 10.8.0.2 to 10.8.0.254 that is neither
  leased nor reserved, and the call is refused for want of addresses exactly when all 253 are taken.
\<close>

theorem lease_lowest_free:
  assumes "wg_reachable we st" "trim device_id \<noteq> []" "valid_wg_public_key we (trim public_key)" "now < expires_ts"
    and "\<not> key_taken (trim public_key) (trim device_id) (wg_by_device st)"
  shows "fst (register_peer_with_expiry we (\<lambda>_. True) now stamp device_id public_key expires_ts st) =
    (case fmlookup (wg_by_device st) (trim device_id) of
       Some row \<Rightarrow> Ok (pe_address row)
     | None \<Rightarrow> if {2..254} \<subseteq> taken st
               then Err (ResourceExhausted, ''tunnel subnet 10.8.0.0/24 is exhausted; grow the subnet first'')
               else Ok (wg_address (LEAST octet. 2 \<le> octet \<and> octet \<notin> taken st)))"
proof -
  have "table_ok we (wg_by_device st)" using wg_reachable_ok [OF assms(1)] by (simp add: wg_ok_def)
  from used_octets_iff [OF this]
  have "lowest_free_octet (used_octets st) = (if {2..254} \<subseteq> taken st then None else Some (LEAST octet. 2 \<le> octet \<and> octet \<notin> taken st))"
    using lowest_free_is_least [of "used_octets st" "taken st"] by (auto simp: taken_def wg_first_host_def wg_last_host_def)
  then show ?thesis
    using assms(2-5) unfolding register_peer_with_expiry_def Let_def key_taken_def [symmetric] wg_address_def [symmetric]
    by (auto simp: wg_commit_def split: option.split)
qed

lemma lease_in_table:
  assumes "register_peer_with_expiry we writes now stamp device_id public_key e st = (Ok address, st')"
  obtains row where "fmlookup (wg_by_device st') (trim device_id) = Some row" "pe_address row = address"
    "pe_public_key row = trim public_key" "pe_expires_ts row = e" "now < e"
proof -
  have "\<exists>row. fmlookup (wg_by_device st') (trim device_id) = Some row \<and> pe_address row = address \<and>
      pe_public_key row = trim public_key \<and> pe_expires_ts row = e \<and> now < e"
    using assms unfolding register_peer_with_expiry_def Let_def
    by (auto simp: wg_commit_def split: if_splits option.splits)
  then show ?thesis using that by blast
qed

section \<open>Sessions that verify\<close>

text \<open>
  What is used of the URL alphabet of base64: the codec gives the bytes back, and its characters are
  printable and not the full stop. Of JSON it is used that the minted claims are read back.
\<close>

definition url_codec :: "wg_env \<Rightarrow> bool" where
  "url_codec we \<longleftrightarrow>
     (\<forall>bs. we_url_decode we (we_url_encode we bs) = Some bs \<and> (\<forall>c\<in>set (we_url_encode we bs). graphic c \<and> c \<noteq> CHR ''.''))"

lemma split_once_dot:
  "CHR ''.'' \<notin> set p \<Longrightarrow> split_once ''.'' (p @ ''.'' @ s) = Some (p, s)"
  by (induction p) (auto simp: strip_prefix_def)

lemma trim_token:
  assumes "\<forall>c\<in>set p. graphic c" "\<forall>c\<in>set s. graphic c"
  shows "trim (p @ ''.'' @ s) = p @ ''.'' @ s"
proof (rule trim_graphic)
  have dot: "graphic CHR ''.''" by (simp add: graphic_def code_def)
  show "graphic (hd (p @ ''.'' @ s))" using assms dot by (cases p) auto
  show "graphic (last (p @ ''.'' @ s))" using assms dot by (cases s rule: rev_cases) auto
qed simp

lemma verify_minted:
  assumes "url_codec we" "sx_key sx = Some sign" "sx_of_json sx (sx_to_json sx claims) = Some claims"
    and "payload = we_url_encode we (sx_to_json sx claims)"
  shows "session_verify we sx now (payload @ ''.'' @ we_url_encode we (sign (as_bytes payload))) device_id public_key =
    (if sc_version claims \<noteq> 1 \<or> sc_device_id claims \<noteq> trim device_id \<or>
        sc_wg_key_sha256 claims \<noteq> wg_key_hash we (trim public_key) \<or> sc_exp_ms claims \<le> now
     then Err (Unauthenticated, ''expired or mismatched Remote VPN session'') else Ok ())"
proof -
  have g: "\<forall>c\<in>set (we_url_encode we bs). graphic c \<and> c \<noteq> CHR ''.''" and d: "we_url_decode we (we_url_encode we bs) = Some bs" for bs
    using assms(1) by (auto simp: url_codec_def)
  have "CHR ''.'' \<notin> set payload" "\<forall>c\<in>set payload. graphic c" using g assms(4) by auto
  moreover have "\<forall>c\<in>set (we_url_encode we (sign (as_bytes payload))). graphic c" using g by auto
  ultimately have "split_once ''.'' (trim (payload @ ''.'' @ we_url_encode we (sign (as_bytes payload)))) =
      Some (payload, we_url_encode we (sign (as_bytes payload)))"
    using split_once_dot [of payload] trim_token [of payload] by simp
  then show ?thesis
    unfolding session_verify_def session_key_def using assms(2,3) d by (simp add: assms(4))
qed

text \<open>
  A session renews exactly the lease it was minted for: the token that \<open>mint\<close> returns is accepted
  for a device and a key if and only if the trimmed device is the one in the token, the key has the digest in
  the token, and the session has not expired.
\<close>

theorem vpn_session_roundtrip:
  assumes "url_codec we" "mint we sx now (Some nonce) device_id public_key = Ok session"
    and "sx_of_json sx (sx_to_json sx (minted_claims we sx now nonce device_id public_key)) =
           Some (minted_claims we sx now nonce device_id public_key)"
  shows "session_verify we sx at_ms (mn_token session) device public = Ok () \<longleftrightarrow>
    trim device = device_id \<and> wg_key_hash we (trim public) = wg_key_hash we public_key \<and> at_ms < mn_expires_ts session"
proof -
  obtain sign where sign: "sx_key sx = Some sign" using assms(2) by (auto simp: mint_def session_key_def split: option.splits)
  have s: "mn_token session = we_url_encode we (sx_to_json sx (minted_claims we sx now nonce device_id public_key)) @ ''.'' @
        we_url_encode we (sign (as_bytes (we_url_encode we (sx_to_json sx (minted_claims we sx now nonce device_id public_key)))))"
      "mn_expires_ts session = sc_exp_ms (minted_claims we sx now nonce device_id public_key)"
    using assms(2) sign by (auto simp: mint_def session_key_def Let_def)
  show ?thesis
    unfolding s verify_minted [OF assms(1) sign assms(3) refl] by (auto simp: minted_claims_def)
qed

text \<open>
  A session is minted for the identifier as it was sent and checked against the trimmed one, so the session
  that a padded identifier is granted renews no lease.
\<close>

lemma padded_session_useless:
  assumes "url_codec we" "mint we sx now (Some nonce) device_id public_key = Ok session" "trim device_id \<noteq> device_id"
    and "sx_of_json sx (sx_to_json sx (minted_claims we sx now nonce device_id public_key)) =
           Some (minted_claims we sx now nonce device_id public_key)"
  shows "session_verify we sx at_ms (mn_token session) device public \<noteq> Ok ()"
proof -
  obtain sign where sign: "sx_key sx = Some sign" using assms(2) by (auto simp: mint_def session_key_def split: option.splits)
  have "trim device \<noteq> device_id" using assms(3) by auto
  then show ?thesis
    using verify_minted [OF assms(1) sign assms(4) refl, of at_ms device public] assms(2) sign
    by (auto simp: mint_def session_key_def Let_def minted_claims_def)
qed

text \<open>No token is accepted whose signature is not the one of the region's key.\<close>

lemma session_verify_signed:
  assumes "session_verify we sx now token device_id public_key = Ok ()"
  obtains sign payload signature where "sx_key sx = Some sign" "trim token = payload @ ''.'' @ signature"
    "we_url_decode we signature = Some (sign (as_bytes payload))"
proof -
  obtain sign payload signature where "sx_key sx = Some sign" "split_once ''.'' (trim token) = Some (payload, signature)"
    "we_url_decode we signature = Some (sign (as_bytes payload))"
    using assms by (auto simp: session_verify_def session_key_def split: option.splits if_splits)
  then show ?thesis using that split_once_Some by blast
qed

section \<open>Who gets a lease\<close>

lemma authenticate_request_Ok:
  assumes "authenticate_request env we sv now session_token request = Ok ()"
  shows "(\<exists>t. session_token = Some t \<and> trim t \<noteq> [] \<and>
            session_verify we (wv_sessions sv) now t (wq_device_id request) (wq_public_key request) = Ok ()) \<or>
         (\<exists>c. holds_credential env (wv_accounts sv) (wq_device_id request) (wq_device_token request) c)"
  using assms by (auto simp: authenticate_request_def verify_bootstrap_device_def strict_iff split: option.splits if_splits)

lemma authorizing_row:
  assumes "authorize_remote_mode (ConfigRows (sn_configs f)) device_id = Ok ()" "config_run cenv cfg" "cc_file cfg = Some f"
  obtains child c where "fmlookup (cc_by_child cfg) child = Some c" "trim (cg_device_id c) = trim device_id"
    "cg_filtering_enabled c" "cg_filter_location c = filter_on_server"
proof -
  obtain row where row: "row \<in> set (sn_configs f)" "trim (cw_device_id row) = trim device_id" "cw_filtering_enabled row"
      "cw_filter_location row = filter_on_server"
    using assms(1) by (auto simp: authorize_remote_mode_def list_ex_iff split: if_splits)
  have cur: "row_map cw_child_id config_into_proto (sn_configs f) = fmlookup (cc_by_child cfg)" "distinct (map cw_child_id (sn_configs f))"
    using config_run_ok [OF assms(2)] assms(3) by (auto simp: config_ok_def snapshot_current_def)
  have "row_map cw_child_id config_into_proto (sn_configs f) (cw_child_id row) = Some (config_into_proto row)"
    unfolding row_map_def by (rule map_of_is_SomeI) (use cur(2) row(1) in \<open>auto simp: comp_def\<close>)
  then show ?thesis using that [of "cw_child_id row" "config_into_proto row"] cur(1) row by (simp add: config_into_proto_def)
qed

lemma register_wg_peer_Ok:
  assumes "register_wg_peer env we writes sv (now, minted_at, pruned_at, checked_at, stamp) nonce session_token request st = (Ok grant, st')"
  obtains ca session where "authenticate_request env we sv now session_token request = Ok ()"
    "authorize_remote_mode (wv_configs sv) (wq_device_id request) = Ok ()" "remote_ready we sv = Ok ca"
    "mint we (wv_sessions sv) minted_at nonce (wq_device_id request) (wq_public_key request) = Ok session"
    "register_peer_with_expiry we writes checked_at stamp (wq_device_id request) (wq_public_key request) (mn_expires_ts session)
       (snd (prune_peers writes pruned_at st)) = (Ok (gr_assigned_address grant), st')"
    "gr_session grant = mn_token session" "(gr_inspection_ca grant, gr_inspection_ca_sha256 grant) = ca"
  using assms that unfolding register_wg_peer_def Let_def prod.case
  by (auto split: if_splits sum.splits prod.splits)

lemma remote_ready_Ok:
  assumes "remote_ready we sv = Ok (pem, fingerprint)"
  shows "rg_filter_active (wv_region sv) \<and> wv_ready sv \<and> rg_server_public_key (wv_region sv) \<noteq> [] \<and>
    wv_ca sv = CaBytes pem \<and> fingerprint = hex (we_sha256 we pem)"
  using assms by (auto simp: remote_ready_def inspection_ca_material_def split: if_splits sum.splits ca_file.splits)

text \<open>
  Claim C14. A device gets a tunnel only if its guardian wants one. Every grant was asked for with the
  credential of an enrolled device or with a session that verifies for this device and this key; the
  guardian's current settings name the device, with filtering enabled and placed on the server; the region's
  filter is up, and the fingerprint sent is that of the certificate sent. The lease is then in the table under
  the device, with the key and the expiry of the session, and traffic from its address is attributed to the
  device until the session expires.
\<close>

theorem vpn_grant_authorized:
  assumes "register_wg_peer env we writes sv (now, minted_at, pruned_at, checked_at, stamp) (Some nonce) session_token request st = (Ok grant, st')"
    and "wg_reachable we st" "config_run cenv cfg" "cc_file cfg = Some f" "wv_configs sv = ConfigRows (sn_configs f)"
  shows "((\<exists>t. session_token = Some t \<and> session_verify we (wv_sessions sv) now t (wq_device_id request) (wq_public_key request) = Ok ()) \<or>
          (\<exists>c. holds_credential env (wv_accounts sv) (wq_device_id request) (wq_device_token request) c)) \<and>
         (\<exists>child c. fmlookup (cc_by_child cfg) child = Some c \<and> trim (cg_device_id c) = trim (wq_device_id request) \<and>
            cg_filtering_enabled c \<and> cg_filter_location c = filter_on_server) \<and>
         rg_filter_active (wv_region sv) \<and> wv_ready sv \<and> gr_inspection_ca_sha256 grant = hex (we_sha256 we (gr_inspection_ca grant)) \<and>
         (\<exists>row. fmlookup (wg_by_device st') (trim (wq_device_id request)) = Some row \<and> pe_address row = gr_assigned_address grant \<and>
            pe_public_key row = trim (wq_public_key request) \<and> pe_expires_ts row = i64_saturating_add minted_at (sx_ttl_ms (wv_sessions sv))) \<and>
         (\<forall>at_ms. at_ms < i64_saturating_add minted_at (sx_ttl_ms (wv_sessions sv)) \<longrightarrow>
            device_id_for_address at_ms (gr_assigned_address grant) st' = Some (trim (wq_device_id request)))"
proof -
  from assms(1) obtain ca session where g:
    "authenticate_request env we sv now session_token request = Ok ()"
    "authorize_remote_mode (wv_configs sv) (wq_device_id request) = Ok ()" "remote_ready we sv = Ok ca"
    "mint we (wv_sessions sv) minted_at (Some nonce) (wq_device_id request) (wq_public_key request) = Ok session"
    and reg: "register_peer_with_expiry we writes checked_at stamp (wq_device_id request) (wq_public_key request) (mn_expires_ts session)
       (snd (prune_peers writes pruned_at st)) = (Ok (gr_assigned_address grant), st')"
    and ca: "(gr_inspection_ca grant, gr_inspection_ca_sha256 grant) = ca"
    by (rule register_wg_peer_Ok)
  have e: "mn_expires_ts session = i64_saturating_add minted_at (sx_ttl_ms (wv_sessions sv))"
    using g(4) by (auto simp: mint_def session_key_def Let_def minted_claims_def split: option.splits)
  from reg obtain row where row: "fmlookup (wg_by_device st') (trim (wq_device_id request)) = Some row" "pe_address row = gr_assigned_address grant"
    "pe_public_key row = trim (wq_public_key request)" "pe_expires_ts row = mn_expires_ts session" by (rule lease_in_table)
  have "wg_ok we (snd (prune_peers writes pruned_at st))" by (rule prune_peers_ok [OF wg_reachable_ok [OF assms(2)]])
  then have "wg_ok we st'" using register_peer_ok reg by (metis snd_conv)
  then have ok: "table_ok we (wg_by_device st')" by (simp add: wg_ok_def)
  obtain octet where octet: "pe_address row = wg_address octet" using table_ok_row [OF ok row(1)] by (auto simp: row_ok_def)
  have "trim (pe_address row) = pe_address row" unfolding octet wg_address_def
    by (rule trim_graphic) (use show_nat_digits [of "last (show_nat octet)" octet] in
      \<open>auto simp: wg_subnet_prefix_def graphic_def code_def is_digit_def\<close>)
  then have "device_id_for_address at_ms (gr_assigned_address grant) st' = Some (trim (wq_device_id request))"
    if "at_ms < mn_expires_ts session" for at_ms
    unfolding device_for_address_iff [OF ok] using row that by (auto simp: lease_live_def)
  moreover obtain child c where "fmlookup (cc_by_child cfg) child = Some c" "trim (cg_device_id c) = trim (wq_device_id request)"
    "cg_filtering_enabled c" "cg_filter_location c = filter_on_server"
    using g(2) authorizing_row [OF _ assms(3,4)] unfolding assms(5) by metis
  moreover have "remote_ready we sv = Ok (gr_inspection_ca grant, gr_inspection_ca_sha256 grant)" using g(3) ca by simp
  ultimately show ?thesis
    unfolding e [symmetric] using authenticate_request_Ok [OF g(1)] remote_ready_Ok [of we sv] row by blast
qed

text \<open>A registration without a session needs a credential, as every call of a device does.\<close>

definition presents_wg :: "string option \<times> register_request \<Rightarrow> (string \<times> string) option" where
  "presents_wg req =
     (case fst req of
        None \<Rightarrow> Some (wq_device_id (snd req), wq_device_token (snd req))
      | Some t \<Rightarrow> if trim t = [] then Some (wq_device_id (snd req), wq_device_token (snd req)) else None)"

interpretation wg_rpc: device_rpc env presents_wg
  "\<lambda>acc req st. register_wg_peer env we writes (sv\<lparr>wv_accounts := acc\<rparr>) clock nonce (fst req) (snd req) st"
proof
  fix req device token acc st
  assume p: "presents_wg req = Some (device, token)" and no: "\<And>c. \<not> holds_credential env acc device token c"
  have "\<exists>e. authenticate_request env we (sv\<lparr>wv_accounts := acc\<rparr>) now (fst req) (snd req) = Err e" for now
    using p no by (auto simp: presents_wg_def authenticate_request_def verify_bootstrap_device_def strict_iff split: option.splits if_splits)
  then show "\<exists>e. register_wg_peer env we writes (sv\<lparr>wv_accounts := acc\<rparr>) clock nonce (fst req) (snd req) st = (Err e, st)"
    by (cases clock) (auto simp: register_wg_peer_def, metis sum.simps(5))
qed

text \<open>
  Whatever the environment says, a session lasts from five minutes to a day and is due for renewal before it
  expires, and no reserved octet lies outside the pool.
\<close>

lemma session_ttl_bounds:
  "let sx = session_auth_from_env hmac to_json of_json var
   in 300000 \<le> sx_ttl_ms sx \<and> sx_ttl_ms sx \<le> 86400000 \<and> 60000 \<le> sx_renew_after_ms sx \<and> sx_renew_after_ms sx < sx_ttl_ms sx"
  by (auto simp: session_auth_from_env_def Let_def u64_max_def i64_max_def min_def max_def)

lemma reserved_in_pool: "octet |\<in>| reserved_octets_from_env var \<Longrightarrow> 2 \<le> octet \<and> octet \<le> 254"
  by (auto simp: reserved_octets_from_env_def reserved_octets_from_env_str_def wg_first_host_def wg_last_host_def fset_of_list_elem
      split: option.splits)

section \<open>Samples\<close>

definition sample_key :: string where
  "sample_key = replicate 43 CHR ''A'' @ ''=''"

definition sample_claims :: session_claims where
  "sample_claims = \<lparr>sc_version = 1, sc_device_id = ''tablet'', sc_wg_key_sha256 = [], sc_exp_ms = 1100, sc_nonce = ''07''\<rparr>"

definition sample_wg :: wg_env where
  "sample_wg = \<lparr>we_base64_decode = \<lambda>k. Some (take 32 (as_bytes k)), we_url_encode = hex, we_url_decode = AuditRow.hex_pairs, we_sha256 = \<lambda>_. []\<rparr>"

definition sample_sessions :: session_auth where
  "sample_sessions = \<lparr>sx_key = Some (\<lambda>bs. 5 # bs), sx_ttl_ms = 1000, sx_renew_after_ms = 500,
     sx_to_json = \<lambda>c. as_bytes (sc_device_id c), sx_of_json = \<lambda>bs. if bs = as_bytes ''tablet'' then Some sample_claims else None\<rparr>"

definition sample_lease :: peer_row where
  "sample_lease = \<lparr>pe_device_id = ''tablet'', pe_address = ''10.8.0.3'', pe_public_key = sample_key, pe_updated_ts = 0, pe_expires_ts = 1100\<rparr>"

definition sample_wg_store :: wg_store where
  "sample_wg_store = with_reserved {|2|} wg_store_new"

lemma sample_key_facts [simp]: "trim sample_key = sample_key" "valid_wg_public_key sample_wg sample_key"
proof -
  show "trim sample_key = sample_key"
    by (rule trim_graphic) (simp_all add: sample_key_def graphic_def code_def)
  show "valid_wg_public_key sample_wg sample_key"
    by (simp add: valid_wg_public_key_def sample_wg_def sample_key_def ends_with_iff)
qed

lemma sample_tablet [simp]: "trim ''tablet'' = ''tablet''"
  by code_simp

lemma sample_lowest: "lowest_free_octet (used_octets sample_wg_store) = Some 3"
  by code_simp

lemma sample_leased:
  "register_peer_with_expiry sample_wg w 20 0 ''tablet'' sample_key 1100 sample_wg_store =
     (Ok ''10.8.0.3'', sample_wg_store\<lparr>wg_by_device := fmupd ''tablet'' sample_lease fmempty\<rparr>)"
proof -
  have a [simplified]: "wg_subnet_prefix @ ''.'' @ show_nat 3 = ''10.8.0.3''" by code_simp
  have p: "peers fmempty = []" by (simp add: peers_def sorted_list_of_fmap_def sorted_list_of_fset.rep_eq)
  have s: "wg_by_device sample_wg_store = fmempty" "wg_file sample_wg_store = None"
    by (simp_all add: sample_wg_store_def wg_store_new_def with_reserved_def)
  show ?thesis
    unfolding register_peer_with_expiry_def Let_def
    by (simp add: s p sample_lowest a wg_commit_def sample_lease_def)
qed

definition sample_wg_leased :: wg_store where
  "sample_wg_leased = sample_wg_store\<lparr>wg_by_device := fmupd ''tablet'' sample_lease fmempty\<rparr>"

lemma sample_wg_reachable: "wg_reachable sample_wg sample_wg_store" "wg_reachable sample_wg sample_wg_leased"
proof -
  show b: "wg_reachable sample_wg sample_wg_store" unfolding sample_wg_store_def by (rule wg_reachable.in_memory)
  have "wg_step sample_wg sample_wg_store (snd (register_peer_with_expiry sample_wg (\<lambda>_. True) 20 0 ''tablet'' sample_key 1100 sample_wg_store))"
    by (rule wg_step.lease)
  then show "wg_reachable sample_wg sample_wg_leased"
    unfolding sample_leased snd_conv sample_wg_leased_def by (rule wg_reachable.step [OF b])
qed

theorem wg_leases_exclusive_witness:
  "wg_reachable sample_wg sample_wg_leased \<and> fmlookup (wg_by_device sample_wg_leased) ''tablet'' = Some sample_lease \<and>
   (\<exists>octet. 2 \<le> octet \<and> octet \<le> 254 \<and> ''10.8.0.3'' = wg_address octet) \<and>
   device_id_for_address 30 '' 10.8.0.3'' sample_wg_leased = Some ''tablet''"
proof -
  have l: "fmlookup (wg_by_device sample_wg_leased) ''tablet'' = Some sample_lease" by (simp add: sample_wg_leased_def)
  have t: "trim '' 10.8.0.3'' = ''10.8.0.3''" by code_simp
  note x = wg_leases_exclusive [OF sample_wg_reachable(2)]
  from x l have "\<exists>octet. 2 \<le> octet \<and> octet \<le> 254 \<and> pe_address sample_lease = wg_address octet" by blast
  moreover from x have "device_id_for_address 30 '' 10.8.0.3'' sample_wg_leased = Some ''tablet'' \<longleftrightarrow>
      (\<exists>row. fmlookup (wg_by_device sample_wg_leased) ''tablet'' = Some row \<and> pe_address row = trim '' 10.8.0.3'' \<and> lease_live 30 row)"
    by blast
  then have "device_id_for_address 30 '' 10.8.0.3'' sample_wg_leased = Some ''tablet''"
    by (simp add: l t sample_lease_def lease_live_def)
  ultimately show ?thesis using sample_wg_reachable(2) l by (metis peer_row.select_convs(2) sample_lease_def)
qed

theorem lease_lowest_free_witness:
  "taken sample_wg_store = {2} \<and>
   fst (register_peer_with_expiry sample_wg (\<lambda>_. True) 20 0 ''tablet'' sample_key 1100 sample_wg_store) = Ok (wg_address 3)"
proof -
  have t: "taken sample_wg_store = {2}" and k: "\<not> key_taken sample_key ''tablet'' (wg_by_device sample_wg_store)"
    by (simp_all add: taken_def sample_wg_store_def with_reserved_def wg_store_new_def key_taken_def peers_def sorted_list_of_fmap_def
        sorted_list_of_fset.rep_eq)
  have "(LEAST octet. 2 \<le> octet \<and> octet \<notin> {2::nat}) = 3" by (rule Least_equality) auto
  moreover have "\<not> {2..254} \<subseteq> {2::nat}" by (auto dest: subsetD [of _ _ 3])
  ultimately show ?thesis
    using lease_lowest_free [OF sample_wg_reachable(1), of "''tablet''" sample_key 20 1100 0] k t
    by (simp add: sample_wg_store_def with_reserved_def wg_store_new_def)
qed

lemma sample_codec: "url_codec sample_wg"
proof -
  have h: "\<forall>c\<in>set hex_digits. graphic c \<and> c \<noteq> CHR ''.''" by (simp add: hex_digits_def graphic_def code_def)
  have m: "hex_digits ! n \<in> set hex_digits" if "n < 16" for n
    by (rule nth_mem) (use that in \<open>simp add: hex_digits_def\<close>)
  have "\<forall>c\<in>set (hex bs). graphic c \<and> c \<noteq> CHR ''.''" for bs
    by (induction bs) (use h m hex_nibbles in auto)
  then show ?thesis by (simp add: url_codec_def sample_wg_def AuditRow.hex_pairs_hex)
qed

lemma sample_json:
  "sx_of_json sample_sessions (sx_to_json sample_sessions (minted_claims sample_wg sample_sessions 100 [7] ''tablet'' sample_key)) =
     Some (minted_claims sample_wg sample_sessions 100 [7] ''tablet'' sample_key)"
proof -
  have "hex [7] = ''07''" by code_simp
  then show ?thesis
    by (simp add: sample_sessions_def minted_claims_def sample_claims_def sample_wg_def wg_key_hash_def i64_saturating_add_def i64_sat_def i64_max_def i64_min_def)
qed

theorem vpn_session_roundtrip_witness:
  "\<exists>session. mint sample_wg sample_sessions 100 (Some [7]) ''tablet'' sample_key = Ok session \<and>
     session_verify sample_wg sample_sessions 1099 (mn_token session) ''tablet'' sample_key = Ok () \<and>
     session_verify sample_wg sample_sessions 1100 (mn_token session) ''tablet'' sample_key \<noteq> Ok () \<and>
     session_verify sample_wg sample_sessions 200 (mn_token session) ''phone'' sample_key \<noteq> Ok ()"
proof -
  obtain session where s: "mint sample_wg sample_sessions 100 (Some [7]) ''tablet'' sample_key = Ok session"
    by (simp add: mint_def session_key_def sample_sessions_def Let_def)
  have e: "mn_expires_ts session = 1100"
    using s by (auto simp: mint_def session_key_def Let_def minted_claims_def sample_sessions_def i64_saturating_add_def i64_sat_def i64_max_def i64_min_def)
  have p: "trim ''phone'' \<noteq> ''tablet''" by code_simp
  show ?thesis using s vpn_session_roundtrip [OF sample_codec s sample_json] e p by auto
qed

definition sample_pem :: bytes where
  "sample_pem = as_bytes ''-----BEGIN CERTIFICATE-----''"

definition sample_service :: wg_service where
  "sample_service = \<lparr>wv_accounts = sample_paired,
     wv_region = \<lparr>rg_server_public_key = sample_key, rg_server_endpoint = ''vpn:1'', rg_keepalive_secs = 25, rg_filter_active = True\<rparr>,
     wv_sessions = sample_sessions, wv_configs = ConfigRows [config_from_proto sample_config_new], wv_ca = CaBytes sample_pem, wv_ready = True\<rparr>"

definition sample_request :: register_request where
  "sample_request = \<lparr>wq_device_id = ''tablet'', wq_device_token = ''09'', wq_public_key = sample_key\<rparr>"

lemma sample_config_rows: "\<exists>f. cc_file sample_config_set = Some f \<and> sn_configs f = [config_from_proto sample_config_new]"
proof -
  have "sorted_list_of_fmap (fmempty :: (string, child_config) fmap) = []"
    by (simp add: sorted_list_of_fmap_def sorted_list_of_fset.rep_eq)
  then show ?thesis
    by (simp add: sample_config_set_eq install_config_def updated_snapshot_def config_snapshot_of_def sample_config_boot_def Let_def)
qed

lemma sample_granted:
  "\<exists>grant st'. register_wg_peer sample_env sample_wg (\<lambda>_. True) sample_service (20, 100, 20, 20, 0) (Some [7]) None sample_request sample_wg_store =
     (Ok grant, st') \<and> gr_assigned_address grant = ''10.8.0.3''"
proof -
  have c: "verify_device_token_strict sample_env sample_paired ''tablet'' ''09''" by code_simp
  have a: "authorize_remote_mode (ConfigRows [config_from_proto sample_config_new]) ''tablet'' = Ok ()"
    by (simp add: authorize_remote_mode_def config_from_proto_def sample_config_new_def sample_config_def filter_on_server_def)
  have r: "inspection_ca_material sample_wg (CaBytes sample_pem) = Ok (sample_pem, hex (we_sha256 sample_wg sample_pem))"
    by (simp add: inspection_ca_material_def sample_pem_def list_ex_iff) (use suffixes_eq_snoc in \<open>force\<close>)
  have p: "snd (prune_peers w 20 sample_wg_store) = sample_wg_store" for w
    by (simp add: prune_peers_def sample_wg_store_def with_reserved_def wg_store_new_def fm_retain_def)
  have m: "\<exists>s. mint sample_wg sample_sessions 100 (Some [7]) ''tablet'' sample_key = Ok s \<and> mn_expires_ts s = 1100"
    by (simp add: mint_def session_key_def Let_def minted_claims_def sample_sessions_def i64_saturating_add_def i64_sat_def i64_max_def i64_min_def)
  then obtain s where s: "mint sample_wg sample_sessions 100 (Some [7]) ''tablet'' sample_key = Ok s" "mn_expires_ts s = 1100" by blast
  have k: "sample_key \<noteq> []" "session_key sample_sessions = Ok (\<lambda>bs. 5 # bs)"
    by (simp_all add: sample_key_def session_key_def sample_sessions_def)
  show ?thesis
    unfolding register_wg_peer_def Let_def prod.case
    by (simp add: sample_request_def sample_service_def authenticate_request_def verify_bootstrap_device_def c a remote_ready_def r k s p
        sample_leased)
qed

theorem vpn_grant_authorized_witness:
  "\<exists>grant st'. register_wg_peer sample_env sample_wg (\<lambda>_. True) sample_service (20, 100, 20, 20, 0) (Some [7]) None sample_request sample_wg_store =
       (Ok grant, st') \<and>
     (\<exists>c. holds_credential sample_env sample_paired ''tablet'' ''09'' c) \<and>
     device_id_for_address 1099 (gr_assigned_address grant) st' = Some ''tablet''"
proof -
  from sample_granted obtain grant st' where g: "register_wg_peer sample_env sample_wg (\<lambda>_. True) sample_service (20, 100, 20, 20, 0) (Some [7])
      None sample_request sample_wg_store = (Ok grant, st')" by blast
  obtain f where f: "cc_file sample_config_set = Some f" "sn_configs f = [config_from_proto sample_config_new]"
    using sample_config_rows by blast
  have run: "config_run sample_env sample_config_set"
    unfolding sample_config_set_def by (intro config_run.set config_run.boot [OF sample_config_boots])
  have "wv_configs sample_service = ConfigRows (sn_configs f)" by (simp add: f sample_service_def)
  note x = vpn_grant_authorized [OF g sample_wg_reachable(1) run f(1) this]
  have e: "i64_saturating_add 100 (sx_ttl_ms (wv_sessions sample_service)) = 1100"
    by (simp add: sample_service_def sample_sessions_def i64_saturating_add_def i64_sat_def i64_max_def i64_min_def)
  have "\<exists>c. holds_credential sample_env sample_paired ''tablet'' ''09'' c"
    using x by (auto simp: sample_request_def sample_service_def)
  moreover have "device_id_for_address 1099 (gr_assigned_address grant) st' = Some (trim (wq_device_id sample_request))"
    using x unfolding e by simp
  ultimately show ?thesis using g by (auto simp: sample_request_def)
qed

end
