(* ===== verification/TextEngine.thy ===== *)
theory TextEngine
  imports F32Arith FamilySafety SafetyCases WgProvision "HOL-Library.While_Combinator"
begin

text \<open>
  The text analyzer of \<open>bulwark-text\<close>: \<open>lexicon.rs\<close>, \<open>engine.rs\<close>, \<open>state.rs\<close>, \<open>redact.rs\<close>,
  \<open>error.rs\<close> and \<open>analyzer.rs\<close>. The two matching automata (phrases and regular expressions), Unicode
  lower case and the classifier are parameters; scores are computed in binary32.
\<close>

section \<open>Errors and literals\<close>

datatype text_error = LexiconError string | MissingTextSpan | ThreadStateError string | ClassifierError string

fun text_error_str :: "text_error \<Rightarrow> string" where
  "text_error_str (LexiconError s) = ''lexicon error: '' @ s"
| "text_error_str MissingTextSpan = ''analysis request had no text_span (media_kind must be TEXT)''"
| "text_error_str (ThreadStateError s) = ''thread state codec error: '' @ s"
| "text_error_str (ClassifierError s) = ''classifier error: '' @ s"

text \<open>Characters of the messages outside ASCII, in UTF-8.\<close>

definition times_sign :: string where "times_sign = [CHR 0xC3, CHR 0x97]"

definition ge_sign :: string where "ge_sign = [CHR 0xE2, CHR 0x89, CHR 0xA5]"

definition arrow_sign :: string where "arrow_sign = [CHR 0xE2, CHR 0x86, CHR 0x92]"

definition middle_dot :: string where "middle_dot = [CHR 0xC2, CHR 0xB7]"

definition ellipsis_sign :: string where "ellipsis_sign = [CHR 0xE2, CHR 0x80, CHR 0xA6]"

fun join_with :: "string \<Rightarrow> string list \<Rightarrow> string" where
  "join_with sep [] = []"
| "join_with sep [x] = x"
| "join_with sep (x # y # r) = x @ sep @ join_with sep (y # r)"

section \<open>The lexicon\<close>

record raw_category =
  rc_phrases :: "string list"
  rc_patterns :: "string list"

record raw_lexicon =
  rl_lang :: string
  rl_grooming :: "grooming_rule \<Rightarrow> raw_category"
  rl_adult_text :: raw_category

text \<open>\<open>tx_aho\<close> and \<open>tx_regex\<close> build the two matchers from phrases and patterns, or fail with a message.\<close>

record text_env =
  tx_aho :: "string list \<Rightarrow> (string, string \<Rightarrow> bool) result"
  tx_regex :: "string list \<Rightarrow> (string, string \<Rightarrow> bool) result"
  tx_lower :: "string \<Rightarrow> string"

record category_matcher =
  cm_phrases :: "(string \<Rightarrow> bool) option"
  cm_patterns :: "(string \<Rightarrow> bool) option"

definition build_part :: "(string list \<Rightarrow> (string, string \<Rightarrow> bool) result) \<Rightarrow> string list \<Rightarrow> (text_error, (string \<Rightarrow> bool) option) result" where
  "build_part compile xs =
     (if xs = [] then Ok None else (case compile xs of Inl e \<Rightarrow> Err (LexiconError e) | Inr m \<Rightarrow> Ok (Some m)))"

definition matcher_build :: "text_env \<Rightarrow> raw_category \<Rightarrow> (text_error, category_matcher) result" where
  "matcher_build tx c =
     (case build_part (tx_aho tx) (rc_phrases c) of
        Inl e \<Rightarrow> Err e
      | Inr phrases \<Rightarrow>
          (case build_part (tx_regex tx) (map (\<lambda>p. ''(?i)'' @ p) (rc_patterns c)) of
             Inl e \<Rightarrow> Err e
           | Inr patterns \<Rightarrow> Ok \<lparr>cm_phrases = phrases, cm_patterns = patterns\<rparr>))"

definition matcher_matches :: "category_matcher \<Rightarrow> string \<Rightarrow> bool" where
  "matcher_matches m haystack \<longleftrightarrow>
     (case cm_phrases m of Some p \<Rightarrow> p haystack | None \<Rightarrow> False) \<or> (case cm_patterns m of Some p \<Rightarrow> p haystack | None \<Rightarrow> False)"

record language_lexicon =
  lx_lang :: string
  lx_grooming :: "(string, category_matcher) fmap"
  lx_adult_text :: category_matcher

fun build_rules ::
    "text_env \<Rightarrow> raw_lexicon \<Rightarrow> grooming_rule list \<Rightarrow> (string, category_matcher) fmap \<Rightarrow> (text_error, (string, category_matcher) fmap) result" where
  "build_rules tx raw [] m = Ok m"
| "build_rules tx raw (r # rs) m =
     (case matcher_build tx (rl_grooming raw r) of
        Inl e \<Rightarrow> Err e
      | Inr c \<Rightarrow> build_rules tx raw rs (fmupd (grooming_rule_as_str r) c m))"

definition language_lexicon_build :: "text_env \<Rightarrow> raw_lexicon \<Rightarrow> (text_error, language_lexicon) result" where
  "language_lexicon_build tx raw =
     (case build_rules tx raw grooming_rule_all fmempty of
        Inl e \<Rightarrow> Err e
      | Inr g \<Rightarrow>
          (case matcher_build tx (rl_adult_text raw) of
             Inl e \<Rightarrow> Err e
           | Inr a \<Rightarrow> Ok \<lparr>lx_lang = rl_lang raw, lx_grooming = g, lx_adult_text = a\<rparr>))"

definition fired_rules :: "text_env \<Rightarrow> language_lexicon \<Rightarrow> string \<Rightarrow> grooming_rule list" where
  "fired_rules tx lx message =
     (let hay = tx_lower tx message
      in filter (\<lambda>rule. case fmlookup (lx_grooming lx) (grooming_rule_as_str rule) of None \<Rightarrow> False | Some m \<Rightarrow> matcher_matches m hay)
           grooming_rule_all)"

definition is_adult_text :: "text_env \<Rightarrow> language_lexicon \<Rightarrow> string \<Rightarrow> bool" where
  "is_adult_text tx lx message = matcher_matches (lx_adult_text lx) (tx_lower tx message)"

text \<open>\<open>toml\<close> is the file embedded in the program, as its parser reads it.\<close>

definition load_builtin :: "text_env \<Rightarrow> (string, raw_lexicon) result \<Rightarrow> (text_error, (string, language_lexicon) fmap) result" where
  "load_builtin tx toml =
     (case toml of
        Inl e \<Rightarrow> Err (LexiconError e)
      | Inr raw \<Rightarrow>
          (case language_lexicon_build tx raw of
             Inl e \<Rightarrow> Err e
           | Inr en \<Rightarrow> Ok (fmupd (lx_lang en) en fmempty)))"

text \<open>The primary subtag of the hint, or English; \<open>None\<close> is the panic when there is no English lexicon.\<close>

definition resolve :: "text_env \<Rightarrow> (string, language_lexicon) fmap \<Rightarrow> string \<Rightarrow> language_lexicon option" where
  "resolve tx by_lang lang_hint =
     (let primary = tx_lower tx (takeWhile (\<lambda>c. c \<noteq> CHR ''-'' \<and> c \<noteq> CHR ''_'') lang_hint)
      in case fmlookup by_lang primary of Some l \<Rightarrow> Some l | None \<Rightarrow> fmlookup by_lang ''en'')"

section \<open>What a conversation has shown\<close>

definition escalation_window_ms :: int where
  "escalation_window_ms = 7 * 24 * 60 * 60 * 1000"

record thread_state =
  th_thread_id :: string
  th_last_seen_ms :: "(string, int) fmap"
  th_flagged_messages :: nat
  th_image_request_seen :: bool

definition thread_state_new :: "string \<Rightarrow> thread_state" where
  "thread_state_new thread_id = \<lparr>th_thread_id = thread_id, th_last_seen_ms = fmempty, th_flagged_messages = 0, th_image_request_seen = False\<rparr>"

definition has_seen :: "thread_state \<Rightarrow> grooming_rule \<Rightarrow> bool" where
  "has_seen st rule \<longleftrightarrow> grooming_rule_as_str rule |\<in>| fmdom (th_last_seen_ms st)"

definition within :: "int \<Rightarrow> int \<Rightarrow> int \<Rightarrow> bool" where
  "within now_ms window_ms t \<longleftrightarrow> i64_saturating_sub now_ms t \<le> window_ms"

definition seen_within :: "thread_state \<Rightarrow> grooming_rule \<Rightarrow> int \<Rightarrow> int \<Rightarrow> bool" where
  "seen_within st rule now_ms window_ms =
     (case fmlookup (th_last_seen_ms st) (grooming_rule_as_str rule) of Some t \<Rightarrow> within now_ms window_ms t | None \<Rightarrow> False)"

definition distinct_within :: "thread_state \<Rightarrow> int \<Rightarrow> int \<Rightarrow> nat" where
  "distinct_within st now_ms window_ms = length (filter (within now_ms window_ms) (map snd (sorted_list_of_fmap (th_last_seen_ms st))))"

definition record_rule :: "int \<Rightarrow> grooming_rule \<Rightarrow> thread_state \<Rightarrow> thread_state" where
  "record_rule now_ms rule st =
     (let key = grooming_rule_as_str rule;
          entry = (case fmlookup (th_last_seen_ms st) key of None \<Rightarrow> now_ms | Some t \<Rightarrow> t)
      in st\<lparr>th_last_seen_ms := fmupd key (if entry \<le> now_ms then now_ms else entry) (th_last_seen_ms st),
            th_image_request_seen := (th_image_request_seen st \<or> rule = ImageRequest)\<rparr>)"

definition thread_record :: "grooming_rule list \<Rightarrow> int \<Rightarrow> thread_state \<Rightarrow> thread_state" where
  "thread_record fired now_ms st =
     (if fired = [] then st
      else fold (record_rule now_ms) fired (st\<lparr>th_flagged_messages := u32_saturating_add (th_flagged_messages st) 1\<rparr>))"

section \<open>The rules\<close>

fun weight :: "grooming_rule \<Rightarrow> f32_bits" where
  "weight Secrecy = f32_round (5 / 10)"
| "weight SecrecyIsolation = f32_round (6 / 10)"
| "weight PlatformSwitching = f32_round (5 / 10)"
| "weight PersonalInfoAgeProbing = f32_round (4 / 10)"
| "weight Sexualization = f32_round (6 / 10)"
| "weight GiftsBribery = f32_round (4 / 10)"
| "weight EmotionalManipulation = f32_round (5 / 10)"
| "weight BoundaryTesting = f32_round (3 / 10)"
| "weight ImageRequest = f32_round 5"

definition normalize_divisor :: f32_bits where
  "normalize_divisor = f32_round 10"

record rule_outcome =
  ro_fired :: "grooming_rule list"
  ro_score :: f32_bits
  ro_severity :: severity
  ro_rationale :: string
  ro_image_request :: bool

definition is_silent :: "rule_outcome \<Rightarrow> bool" where
  "is_silent o' \<longleftrightarrow> ro_fired o' = [] \<and> (case f32_of_bits (ro_score o') of NZero \<Rightarrow> True | Fin q \<Rightarrow> q = 0 | _ \<Rightarrow> False)"

record applied =
  ap_label :: string
  ap_bonus :: f32_bits

text \<open>The context rules in the order of the code, each with the condition under which it adds its bonus.\<close>

definition context_rules :: "grooming_rule list \<Rightarrow> thread_state \<Rightarrow> (bool \<times> applied) list" where
  "context_rules fired st =
     (let now = (\<lambda>r. r \<in> set fired); in_thread = (\<lambda>r. r \<in> set fired \<or> has_seen st r)
      in [(now SecrecyIsolation, \<lparr>ap_label = ''guardian-isolation secrecy (+2.5)'', ap_bonus = f32_round (25 / 10)\<rparr>),
          ((in_thread Secrecy \<or> in_thread SecrecyIsolation) \<and> in_thread PlatformSwitching,
             \<lparr>ap_label = ''secrecy '' @ times_sign @ '' platform-switch (+2.0)'', ap_bonus = f32_round 2\<rparr>),
          (now PersonalInfoAgeProbing, \<lparr>ap_label = ''personal-info + age-probing (+1.0)'', ap_bonus = f32_round 1\<rparr>),
          (in_thread Sexualization \<and> (in_thread GiftsBribery \<or> in_thread EmotionalManipulation),
             \<lparr>ap_label = ''sexualization '' @ times_sign @ '' (gifts | emotional-isolation) (+2.0)'', ap_bonus = f32_round 2\<rparr>),
          (now ImageRequest \<or> th_image_request_seen st,
             \<lparr>ap_label = ''image-request present (+5.0, CSAM risk)'', ap_bonus = f32_round 5\<rparr>)])"

definition applied_rules :: "grooming_rule list \<Rightarrow> thread_state \<Rightarrow> applied list" where
  "applied_rules fired st = map snd (filter fst (context_rules fired st))"

definition recent_distinct :: "grooming_rule list \<Rightarrow> thread_state \<Rightarrow> int \<Rightarrow> nat" where
  "recent_distinct fired st now_ms =
     distinct_within st now_ms escalation_window_ms +
     length (filter (\<lambda>r. \<not> seen_within st r now_ms escalation_window_ms) fired)"

fun severity_name :: "severity \<Rightarrow> string" where
  "severity_name Critical = ''CRITICAL (image request / CSAM risk)''"
| "severity_name High = ''HIGH ('' @ ge_sign @ ''0.7 alert + human review)''"
| "severity_name Medium = ''MEDIUM ('' @ ge_sign @ ''0.5 flag + log)''"
| "severity_name Low = ''LOW ('' @ ge_sign @ ''0.3 log)''"
| "severity_name Info = ''INFO (<0.3 pass)''"
| "severity_name SevUnspecified = ''unspecified''"

definition build_rationale :: "grooming_rule list \<Rightarrow> applied list \<Rightarrow> bool \<Rightarrow> f32_bits \<Rightarrow> severity \<Rightarrow> string" where
  "build_rationale fired applied escalated score severity =
     (if fired = [] \<and> applied = [] then ''no grooming indicators fired''
      else join_with ''; ''
        ((if fired = [] then []
          else [''fired: '' @ join_with '', ''
                  (map (\<lambda>r. grooming_rule_as_str r @ '' (+'' @ fmt1 (f32_of_bits (weight r)) @ '')'') fired)]) @
         map (\<lambda>a. ''context: '' @ ap_label a @ '' +'' @ fmt1 (f32_of_bits (ap_bonus a))) applied @
         (if escalated then [''rapid escalation ('' @ ge_sign @ ''2 categories <7d) '' @ times_sign @ ''1.5''] else []) @
         [''score='' @ fmt2 (f32_of_bits score) @ '' '' @ arrow_sign @ '' '' @ severity_name severity]))"

definition engine_score :: "grooming_rule list \<Rightarrow> thread_state \<Rightarrow> int \<Rightarrow> f32_bits" where
  "engine_score fired st now_ms =
     (let raw = foldl f32_add (f32_sum (map weight fired)) (map ap_bonus (applied_rules fired st));
          raw' = (if 2 \<le> recent_distinct fired st now_ms then f32_mul raw (f32_round (15 / 10)) else raw)
      in f32_clamp_bits (f32_round 0) (f32_round 1) (f32_div raw' normalize_divisor))"

definition engine_evaluate :: "text_env \<Rightarrow> string \<Rightarrow> language_lexicon \<Rightarrow> thread_state \<Rightarrow> int \<Rightarrow> rule_outcome" where
  "engine_evaluate tx message lx st now_ms =
     (let fired = fired_rules tx lx message;
          image_request = (ImageRequest \<in> set fired \<or> th_image_request_seen st);
          score = engine_score fired st now_ms;
          severity = (if image_request then Critical else severity_for_score (f32_of_bits score))
      in \<lparr>ro_fired = fired, ro_score = score, ro_severity = severity,
          ro_rationale = build_rationale fired (applied_rules fired st) (2 \<le> recent_distinct fired st now_ms) score severity,
          ro_image_request = image_request\<rparr>)"

section \<open>Excerpts\<close>

definition max_fragment :: nat where "max_fragment = 48"

definition max_full_excerpt :: nat where "max_full_excerpt = 200"

text \<open>\<open>split_whitespace\<close>: the non-empty pieces between white space.\<close>

function split_ws :: "string \<Rightarrow> string \<Rightarrow> string list" where
  "split_ws word [] = (if word = [] then [] else [rev word])"
| "split_ws word (c # s) =
     (if ws_head (c # s) \<noteq> 0 then (if word = [] then [] else [rev word]) @ split_ws [] (drop (ws_head (c # s) - 1) s)
      else split_ws (c # word) s)"
  by pat_completeness auto
termination by (relation "measure (\<lambda>(_, s). length s)") auto

definition squeeze_truncate_to :: "string \<Rightarrow> nat \<Rightarrow> string" where
  "squeeze_truncate_to s largest =
     (let collapsed = join_with '' '' (split_ws [] s)
      in if chars_count collapsed \<le> largest then collapsed else take_chars largest collapsed @ ellipsis_sign)"

definition rule_names :: "grooming_rule list \<Rightarrow> string" where
  "rule_names fired = join_with '', '' (map grooming_rule_as_str fired)"

definition full_excerpt :: "string \<Rightarrow> grooming_rule list \<Rightarrow> string" where
  "full_excerpt message fired =
     (let fragment = squeeze_truncate_to message max_full_excerpt
      in if fired = [] then fragment else ''['' @ rule_names fired @ ''] '' @ fragment)"

definition mask_digits :: "string \<Rightarrow> string" where
  "mask_digits s = map (\<lambda>c. if is_digit c then CHR ''#'' else c) s"

definition squeeze_truncate :: "string \<Rightarrow> string" where
  "squeeze_truncate s = squeeze_truncate_to s max_fragment"

definition redacted_excerpt :: "string \<Rightarrow> grooming_rule list \<Rightarrow> string" where
  "redacted_excerpt message fired =
     (if fired = [] then ''[redacted '' @ middle_dot @ '' content withheld]''
      else ''[redacted '' @ middle_dot @ '' '' @ rule_names fired @ '' '' @ middle_dot @ '' content withheld]'')"

definition redacted_adult_excerpt :: "string \<Rightarrow> string" where
  "redacted_adult_excerpt message =
     ''[redacted '' @ middle_dot @ '' adult_text] '' @ [CHR 0x22] @ squeeze_truncate (mask_digits message) @ [CHR 0x22]"

section \<open>The analyzer\<close>

definition rule_engine_id :: string where "rule_engine_id = ''bulwark-grooming-rules''"

definition rule_engine_version :: string where "rule_engine_version = ''2''"

record thread_cell =
  tc_state :: thread_state
  tc_last_seen_ms :: int

definition thread_cell_new :: "thread_state \<Rightarrow> int \<Rightarrow> thread_cell" where
  "thread_cell_new st ts_ms = \<lparr>tc_state = st, tc_last_seen_ms = max ts_ms 0\<rparr>"

record text_analyzer =
  ta_lexicon :: "(string, language_lexicon) fmap"
  ta_agrees :: "text_span \<Rightarrow> bool"
  ta_threads :: "(string, thread_cell) fmap"
  ta_thread_ttl_ms :: int
  ta_max_threads :: nat

definition parse_positive :: "nat \<Rightarrow> nat \<Rightarrow> string option \<Rightarrow> nat" where
  "parse_positive largest dflt v =
     (case Option.bind v (parse_unsigned largest) of None \<Rightarrow> dflt | Some n \<Rightarrow> if 0 < n then n else dflt)"

definition with_components ::
    "text_env \<Rightarrow> (string, raw_lexicon) result \<Rightarrow> (string \<Rightarrow> string option) \<Rightarrow> (text_span \<Rightarrow> bool) \<Rightarrow> (text_error, text_analyzer) result" where
  "with_components tx toml var agrees =
     (case load_builtin tx toml of
        Inl e \<Rightarrow> Err e
      | Inr by_lang \<Rightarrow> Ok \<lparr>ta_lexicon = by_lang, ta_agrees = agrees, ta_threads = fmempty,
          ta_thread_ttl_ms = int (parse_positive (nat i64_max) (24 * 60 * 60 * 1000) (var ''BULWARK_TEXT_THREAD_TTL_MS'')),
          ta_max_threads = parse_positive u64_max 4096 (var ''BULWARK_TEXT_MAX_THREADS'')\<rparr>)"

definition thread_snapshot :: "text_analyzer \<Rightarrow> string \<Rightarrow> thread_state option" where
  "thread_snapshot ta thread_id = map_option tc_state (fmlookup (ta_threads ta) thread_id)"

text \<open>\<open>min_by_key\<close> over the table: the first cell with the least time; the table is read in sorted order.\<close>

definition oldest_thread :: "(string, thread_cell) fmap \<Rightarrow> string option" where
  "oldest_thread m =
     (case sorted_list_of_fmap m of [] \<Rightarrow> None
      | e # es \<Rightarrow> Some (fst (foldl (\<lambda>best x. if tc_last_seen_ms (snd x) < tc_last_seen_ms (snd best) then x else best) e es)))"

text \<open>The loop that evicts while the table is full. Its state is the table and whether it has left by \<open>break\<close>.\<close>

definition evict_step :: "(string, thread_cell) fmap \<times> bool \<Rightarrow> (string, thread_cell) fmap \<times> bool" where
  "evict_step = (\<lambda>(m, stop). case oldest_thread m of Some key \<Rightarrow> (fmdrop key m, stop) | None \<Rightarrow> (m, True))"

definition evict_loop :: "nat \<Rightarrow> (string, thread_cell) fmap \<Rightarrow> ((string, thread_cell) fmap \<times> bool) option" where
  "evict_loop max_threads m = while_option (\<lambda>(m, stop). \<not> stop \<and> max_threads \<le> size (fmdom m)) evict_step (m, False)"

definition prune_threads :: "text_analyzer \<Rightarrow> int \<Rightarrow> (string, thread_cell) fmap option" where
  "prune_threads ta now =
     (let cutoff = i64_saturating_sub now (ta_thread_ttl_ms ta)
      in map_option fst (evict_loop (ta_max_threads ta) (fm_retain (\<lambda>_ cell. cutoff \<le> tc_last_seen_ms cell) (ta_threads ta))))"

definition load_thread_state :: "int \<Rightarrow> thread_state \<Rightarrow> text_analyzer \<Rightarrow> text_analyzer option" where
  "load_thread_state now st ta =
     map_option (\<lambda>m. ta\<lparr>ta_threads := fmupd (th_thread_id st) (thread_cell_new st now) m\<rparr>) (prune_threads ta now)"

definition or_now :: "int \<Rightarrow> int \<Rightarrow> int" where
  "or_now now ts_ms = (if 0 < ts_ms then ts_ms else now)"

definition thread_cell_for :: "int \<Rightarrow> string \<Rightarrow> int \<Rightarrow> text_analyzer \<Rightarrow> (thread_cell \<times> text_analyzer) option" where
  "thread_cell_for now thread_id ts_ms ta =
     (let timestamp = or_now now ts_ms
      in map_option (\<lambda>m. let cell = (case fmlookup m thread_id of Some c \<Rightarrow> c | None \<Rightarrow> thread_cell_new (thread_state_new thread_id) timestamp)
                          in (cell, ta\<lparr>ta_threads := fmupd thread_id cell m\<rparr>)) (prune_threads ta timestamp))"

fun action_for :: "severity \<Rightarrow> action" where
  "action_for Critical = Block"
| "action_for High = Warn"
| "action_for Medium = Log"
| "action_for Low = Log"
| "action_for Info = Allow"
| "action_for SevUnspecified = Allow"

definition evidence_default :: evidence where
  "evidence_default = \<lparr>ev_sha256 = [], ev_perceptual_hash = [], ev_safe_thumbnail = [], ev_text_snippet = [], ev_model_id = [], ev_model_version = []\<rparr>"

definition verdict_default :: verdict where
  "verdict_default = \<lparr>v_request_id = [], v_category = 0, v_action = 0, v_severity = 0, v_score = f32_round 0, v_rationale = [], v_evidence = None,
     v_grooming = None, v_worker_id = [], v_latency_ms = 0, v_local_segment_uri = [], v_remediated_media = []\<rparr>"

definition rule_evidence :: "string \<Rightarrow> evidence" where
  "rule_evidence excerpt = evidence_default\<lparr>ev_text_snippet := excerpt, ev_model_id := rule_engine_id, ev_model_version := rule_engine_version\<rparr>"

definition grooming_verdict :: "text_analyzer \<Rightarrow> string \<Rightarrow> text_span \<Rightarrow> rule_outcome \<Rightarrow> verdict" where
  "grooming_verdict ta request_id span outcome =
     (let backed = ta_agrees ta span; excerpt = redacted_excerpt (ts_text span) (ro_fired outcome)
      in verdict_default\<lparr>v_request_id := request_id, v_category := category_i32 Grooming,
           v_action := action_i32 (action_for (ro_severity outcome)), v_severity := severity_i32 (ro_severity outcome),
           v_score := ro_score outcome,
           v_rationale := ro_rationale outcome @ (if ro_image_request outcome then ''; sexual-image solicitation risk'' else []) @
             (if backed then ''; backstop classifier agreed'' else ''; deterministic-rule signal''),
           v_evidence := Some (rule_evidence excerpt),
           v_grooming := Some \<lparr>gs_fired_categories = map grooming_rule_as_str (ro_fired outcome), gs_score = ro_score outcome,
             gs_excerpt = excerpt, gs_classifier_backed = backed\<rparr>\<rparr>)"

definition adult_text_verdict :: "string \<Rightarrow> text_span \<Rightarrow> verdict" where
  "adult_text_verdict request_id span =
     verdict_default\<lparr>v_request_id := request_id, v_category := category_i32 AdultText, v_action := action_i32 Warn,
       v_severity := severity_i32 Medium, v_score := f32_round (6 / 10),
       v_rationale := ''adult-text lexicon matched explicit sexual content'', v_evidence := Some (rule_evidence (redacted_excerpt (ts_text span) []))\<rparr>"

definition safe_verdict :: "string \<Rightarrow> verdict" where
  "safe_verdict request_id =
     verdict_default\<lparr>v_request_id := request_id, v_category := category_i32 Safe, v_action := action_i32 Allow, v_severity := severity_i32 Info,
       v_score := f32_round 0, v_rationale := ''no grooming or adult-text indicators fired''\<rparr>"

text \<open>
  One message. \<open>clock\<close> is what the clock reads when the request has no time, once here and once where the cell
  is fetched. \<open>None\<close> is a panic, for want of an English lexicon.
\<close>

definition analyze_span :: "text_env \<Rightarrow> int \<times> int \<Rightarrow> string \<Rightarrow> text_span \<Rightarrow> int \<Rightarrow> text_analyzer \<Rightarrow> (verdict \<times> text_analyzer) option" where
  "analyze_span tx clock request_id span ts_ms ta =
     (let timestamp = or_now (fst clock) ts_ms
      in case resolve tx (ta_lexicon ta) (ts_lang span) of
           None \<Rightarrow> None
         | Some lx \<Rightarrow>
             (case thread_cell_for (snd clock) (ts_thread_id span) timestamp ta of
                None \<Rightarrow> None
              | Some (cell, ta') \<Rightarrow>
                  (let outcome = engine_evaluate tx (ts_text span) lx (tc_state cell) timestamp;
                       st' = (if ro_fired outcome = [] then tc_state cell else thread_record (ro_fired outcome) timestamp (tc_state cell));
                       ta'' = ta'\<lparr>ta_threads := fmupd (ts_thread_id span) \<lparr>tc_state = st', tc_last_seen_ms = timestamp\<rparr> (ta_threads ta')\<rparr>;
                       verdict = (if \<not> is_silent outcome then grooming_verdict ta request_id span outcome
                                  else if is_adult_text tx lx (ts_text span) then adult_text_verdict request_id span
                                  else safe_verdict request_id)
                   in Some (verdict, ta''))))"

definition evaluate_signal :: "text_env \<Rightarrow> int \<Rightarrow> text_analyzer \<Rightarrow> text_span \<Rightarrow> thread_state \<Rightarrow> grooming_signal option" where
  "evaluate_signal tx now ta span thread =
     map_option (\<lambda>lx. let outcome = engine_evaluate tx (ts_text span) lx thread now
       in \<lparr>gs_fired_categories = map grooming_rule_as_str (ro_fired outcome), gs_score = ro_score outcome,
           gs_excerpt = redacted_excerpt (ts_text span) (ro_fired outcome), gs_classifier_backed = (\<not> is_silent outcome \<and> ta_agrees ta span)\<rparr>)
       (resolve tx (ta_lexicon ta) (ts_lang span))"

definition require_text_span :: "analysis_request \<Rightarrow> (text_error, text_span) result" where
  "require_text_span req = (case aq_text_span req of None \<Rightarrow> Err MissingTextSpan | Some s \<Rightarrow> Ok s)"

definition text_analyze ::
    "text_env \<Rightarrow> int \<times> int \<Rightarrow> analysis_request \<Rightarrow> text_analyzer \<Rightarrow> ((text_error, verdict) result \<times> text_analyzer) option" where
  "text_analyze tx clock req ta =
     (case require_text_span req of
        Inl e \<Rightarrow> Some (Err e, ta)
      | Inr span \<Rightarrow> map_option (\<lambda>(v, ta'). (Ok v, ta')) (analyze_span tx clock (aq_request_id req) span (aq_ts req) ta))"

fun text_analyze_stream ::
    "text_env \<Rightarrow> ((int \<times> int) \<times> analysis_request) list \<Rightarrow> text_analyzer \<Rightarrow> ((text_error, verdict) result list \<times> text_analyzer) option" where
  "text_analyze_stream tx [] ta = Some ([], ta)"
| "text_analyze_stream tx ((clock, req) # rest) ta =
     (case text_analyze tx clock req ta of
        None \<Rightarrow> None
      | Some (r, ta') \<Rightarrow> map_option (\<lambda>(rs, ta''). (r # rs, ta'')) (text_analyze_stream tx rest ta'))"

section \<open>Scores\<close>

lemma f32_constants:
  "f32_of_bits (f32_round 0) = Fin 0" "f32_of_bits (f32_round 1) = Fin 1" "f32_of_bits (f32_round (15 / 10)) = Fin (3 / 2)"
  "f32_of_bits (f32_round 10) = Fin 10" "f32_of_bits (f32_round 5) = Fin 5"
  by (simp_all add: f32_round_eval f32_of_bits_def Fract_of_int_quotient)

lemma f32_weight_pos: "f32_pos (weight r)"
  by (cases r) (simp_all add: f32_round_pos)

lemma applied_bonus_pos: "a \<in> set (applied_rules fired st) \<Longrightarrow> f32_pos (ap_bonus a)"
proof -
  have "\<forall>x\<in>set (context_rules fired st). f32_pos (ap_bonus (snd x))" by (simp add: context_rules_def Let_def f32_round_pos)
  then show "a \<in> set (applied_rules fired st) \<Longrightarrow> f32_pos (ap_bonus a)" by (auto simp: applied_rules_def)
qed

lemma foldl_add_pos: "f32_pos a \<Longrightarrow> (\<And>x. x \<in> set xs \<Longrightarrow> f32_pos x) \<Longrightarrow> f32_pos (foldl f32_add a xs)"
  by (induction xs arbitrary: a) (auto intro: f32_add_pos)

definition raw_score :: "grooming_rule list \<Rightarrow> thread_state \<Rightarrow> f32_bits" where
  "raw_score fired st = foldl f32_add (f32_sum (map weight fired)) (map ap_bonus (applied_rules fired st))"

definition scaled_score :: "grooming_rule list \<Rightarrow> thread_state \<Rightarrow> int \<Rightarrow> f32_bits" where
  "scaled_score fired st now_ms =
     f32_div (if 2 \<le> recent_distinct fired st now_ms then f32_mul (raw_score fired st) (f32_round (15 / 10)) else raw_score fired st)
       normalize_divisor"

lemma engine_score_scaled: "engine_score fired st now_ms = f32_clamp_bits (f32_round 0) (f32_round 1) (scaled_score fired st now_ms)"
  by (simp add: engine_score_def raw_score_def scaled_score_def Let_def)

lemma raw_score_pos: "f32_pos (raw_score fired st)"
  unfolding raw_score_def
  by (rule foldl_add_pos) (auto intro!: f32_sum_pos simp: f32_weight_pos applied_bonus_pos)

lemma scaled_score_pos: "f32_pos (scaled_score fired st now_ms)"
  unfolding scaled_score_def normalize_divisor_def
  by (rule f32_div_pos [OF _ f32_constants(4)]) (simp_all only: if_split f32_mul_pos [OF raw_score_pos f32_constants(3)] raw_score_pos, simp_all)

lemma engine_score_bounds:
  "f32_le (Fin 0) (f32_of_bits (engine_score fired st now_ms)) \<and> f32_le (f32_of_bits (engine_score fired st now_ms)) (Fin 1) \<and>
   f32_is_finite (f32_of_bits (engine_score fired st now_ms))"
proof -
  have "f32_of_bits (scaled_score fired st now_ms) \<noteq> NaN" using scaled_score_pos [of fired st now_ms] by (auto simp: f32_pos_def)
  then show ?thesis
    unfolding engine_score_scaled f32_clamp_bits_decode f32_constants
    using f32_clamp_bounds [of _ "Fin 0" "Fin 1"] f32_clamp_finite [of _ "Fin 0" "Fin 1"] by simp
qed


section \<open>The table of conversations\<close>

lemma foldl_min:
  fixes f :: "'a \<Rightarrow> int"
  defines "pick \<equiv> \<lambda>best x. if f x < f best then x else best"
  shows "foldl pick e es \<in> set (e # es) \<and> (\<forall>x\<in>set (e # es). f (foldl pick e es) \<le> f x)"
proof (induction es arbitrary: e)
  case (Cons x es)
  show ?case using Cons.IH [of "pick e x"] by (auto simp: pick_def)
qed simp

lemma oldest_thread_None: "oldest_thread m = None \<longleftrightarrow> m = fmempty"
proof -
  have "sorted_list_of_fmap m = [] \<longleftrightarrow> m = fmempty"
  proof
    assume "sorted_list_of_fmap m = []"
    then have "set (sorted_list_of_fmap m) = {}" by simp
    then show "m = fmempty" unfolding set_sorted_list_of_fmap by (intro fmap_ext) (auto simp flip: not_Some_eq)
  qed (simp add: sorted_list_of_fmap_def sorted_list_of_fset.rep_eq)
  then show ?thesis by (auto simp: oldest_thread_def split: list.split)
qed

lemma oldest_thread_Some:
  assumes "oldest_thread m = Some key"
  shows "\<exists>cell. fmlookup m key = Some cell \<and>
    (\<forall>key' cell'. fmlookup m key' = Some cell' \<longrightarrow> tc_last_seen_ms cell \<le> tc_last_seen_ms cell')"
proof -
  obtain e es where l: "sorted_list_of_fmap m = e # es" using assms by (auto simp: oldest_thread_def split: list.splits)
  let ?b = "foldl (\<lambda>best x. if tc_last_seen_ms (snd x) < tc_last_seen_ms (snd best) then x else best) e es"
  have b: "?b \<in> set (e # es)" "\<forall>x\<in>set (e # es). tc_last_seen_ms (snd ?b) \<le> tc_last_seen_ms (snd x)"
    using foldl_min [of "\<lambda>x. tc_last_seen_ms (snd x)" e es] by auto
  have k: "key = fst ?b" using assms by (simp add: oldest_thread_def l)
  have s: "set (e # es) = {(k, v). fmlookup m k = Some v}" unfolding l [symmetric] by (rule set_sorted_list_of_fmap)
  have "fmlookup m key = Some (snd ?b)" using b(1) unfolding s k by (simp add: case_prod_unfold)
  moreover have "tc_last_seen_ms (snd ?b) \<le> tc_last_seen_ms cell'" if "fmlookup m key' = Some cell'" for key' cell'
  proof -
    have "(key', cell') \<in> set (e # es)" unfolding s using that by simp
    then show ?thesis using b(2) by fastforce
  qed
  ultimately show ?thesis by blast
qed

text \<open>What the loop keeps: a part of the table, from which the longest silent conversations are gone.\<close>

definition evicted_from :: "(string, thread_cell) fmap \<Rightarrow> (string, thread_cell) fmap \<Rightarrow> bool" where
  "evicted_from m0 m \<longleftrightarrow>
     (\<forall>k c. fmlookup m k = Some c \<longrightarrow> fmlookup m0 k = Some c) \<and>
     (\<forall>k c k' c'. fmlookup m0 k = Some c \<longrightarrow> fmlookup m k = None \<longrightarrow> fmlookup m k' = Some c' \<longrightarrow> tc_last_seen_ms c \<le> tc_last_seen_ms c')"

lemma evicted_from_refl: "evicted_from m m"
  by (auto simp: evicted_from_def)

lemma evicted_from_drop:
  assumes "evicted_from m0 m" "oldest_thread m = Some key"
  shows "evicted_from m0 (fmdrop key m)"
proof -
  obtain cell where cell: "fmlookup m key = Some cell"
    "\<forall>key' cell'. fmlookup m key' = Some cell' \<longrightarrow> tc_last_seen_ms cell \<le> tc_last_seen_ms cell'"
    using oldest_thread_Some [OF assms(2)] by blast
  have "fmlookup m0 key = Some cell" using assms(1) cell(1) by (simp add: evicted_from_def)
  then show ?thesis using assms(1) cell(2) unfolding evicted_from_def by (auto split: if_splits)
qed

lemma size_fmdrop: "fmlookup m key = Some cell \<Longrightarrow> size (fmdom (fmdrop key m)) < size (fmdom m)"
proof -
  assume k: "fmlookup m key = Some cell"
  have "fset (fmdom (fmdrop key m)) = fset (fmdom m) - {key}" by auto
  moreover have "key \<in> fset (fmdom m)" using k by (simp add: fmdomI)
  ultimately have "card (fset (fmdom (fmdrop key m))) < card (fset (fmdom m))" by (simp only: card_Diff1_less finite_fset)
  then show ?thesis by simp
qed

lemma evict_loop_returns:
  "\<exists>m stop. evict_loop max_threads m0 = Some (m, stop) \<and> evicted_from m0 m \<and> (0 < max_threads \<longrightarrow> size (fmdom m) < max_threads) \<and>
     (size (fmdom m0) < max_threads \<longrightarrow> m = m0)"
proof -
  let ?b = "\<lambda>(m, stop). \<not> stop \<and> max_threads \<le> size (fmdom m)"
  let ?P = "\<lambda>(m, stop). evicted_from m0 m \<and> (stop \<longrightarrow> m = fmempty) \<and> (size (fmdom m0) < max_threads \<longrightarrow> m = m0 \<and> \<not> stop)"
  let ?f = "\<lambda>(m, stop). size (fmdom m) + (if stop then 0 else 1)"
  have step: "?P (evict_step s) \<and> ?f (evict_step s) < ?f s" if inv: "?P s" and guard: "?b s" for s
  proof -
    obtain m where s: "s = (m, False)" using guard by (cases s) auto
    have full: "max_threads \<le> size (fmdom m)" "evicted_from m0 m" "\<not> size (fmdom m0) < max_threads" using inv guard by (auto simp: s)
    show ?thesis
    proof (cases "oldest_thread m")
      case None
      then have "m = fmempty" by (simp add: oldest_thread_None)
      moreover have "oldest_thread fmempty = None" by (simp add: oldest_thread_None)
      ultimately show ?thesis using full by (simp add: s evict_step_def)
    next
      case (Some key)
      then obtain cell where "fmlookup m key = Some cell" using oldest_thread_Some by blast
      then show ?thesis using Some full evicted_from_drop [OF full(2) Some] size_fmdrop by (simp add: s evict_step_def)
    qed
  qed
  have start: "?P (m0, False)" using evicted_from_refl by simp
  have "\<exists>t. while_option ?b evict_step (m0, False) = Some t" by (rule measure_while_option_Some [of ?P ?b evict_step ?f, OF step start])
  then obtain m stop where t: "while_option ?b evict_step (m0, False) = Some (m, stop)" by (metis surj_pair)
  have inv: "?P (evict_step s)" if "?P s" "?b s" for s by (rule step [OF that, THEN conjunct1])
  have "?P (m, stop)" by (rule while_option_rule [where P = ?P, OF inv t start])
  moreover have "\<not> ?b (m, stop)" by (rule while_option_stop [OF t])
  ultimately show ?thesis using t unfolding evict_loop_def by auto
qed

lemma engine_score_image:
  assumes "ImageRequest \<in> set fired \<or> th_image_request_seen st"
  shows "\<exists>q>0. f32_of_bits (engine_score fired st now_ms) = Fin q"
proof -
  let ?five = "\<lparr>ap_label = ''image-request present (+5.0, CSAM risk)'', ap_bonus = f32_round 5\<rparr>"
  have "context_rules fired st = butlast (context_rules fired st) @ [(True, ?five)]"
    using assms by (simp add: context_rules_def Let_def)
  then obtain rs where "context_rules fired st = rs @ [(True, ?five)]" by blast
  then have xs': "applied_rules fired st = map snd (filter fst rs) @ [?five]" unfolding applied_rules_def by simp
  then obtain xs where xs: "applied_rules fired st = xs @ [?five]" by blast
  then have "f32_pos (foldl f32_add (f32_sum (map weight fired)) (map ap_bonus xs))"
    using applied_bonus_pos [of _ fired st] by (intro foldl_add_pos f32_sum_pos) (auto simp: f32_weight_pos)
  from f32_add_above [OF this f32_constants(5), of 0] have raw: "f32_above (1 / 2) (raw_score fired st)"
    by (simp add: raw_score_def xs)
  then have "f32_above (1 / 4) (f32_mul (raw_score fired st) (f32_round (15 / 10)))"
    using f32_mul_above [OF raw _ f32_constants(3), of 1] by (simp add: power_int_minus)
  then have "f32_above (1 / 4) (if 2 \<le> recent_distinct fired st now_ms then f32_mul (raw_score fired st) (f32_round (15 / 10)) else raw_score fired st)"
    using f32_above_weaken [OF raw, of "1 / 4"] by simp
  from f32_div_above [OF this _ f32_constants(4), of 6] have a: "f32_above (1 / 128) (scaled_score fired st now_ms)"
    by (simp add: scaled_score_def normalize_divisor_def power_int_minus)
  show ?thesis
    unfolding engine_score_scaled f32_clamp_bits_decode f32_constants
    using a by (auto simp: f32_above_def f32_clamp_def Let_def split: f32.splits)
qed

abbreviation fresh_threads :: "text_analyzer \<Rightarrow> int \<Rightarrow> (string, thread_cell) fmap" where
  "fresh_threads ta now \<equiv> fm_retain (\<lambda>_ cell. i64_saturating_sub now (ta_thread_ttl_ms ta) \<le> tc_last_seen_ms cell) (ta_threads ta)"

lemma prune_threads_returns:
  "\<exists>m. prune_threads ta now = Some m \<and> evicted_from (fresh_threads ta now) m \<and>
     (0 < ta_max_threads ta \<longrightarrow> size (fmdom m) < ta_max_threads ta) \<and>
     (size (fmdom (ta_threads ta)) < ta_max_threads ta \<longrightarrow> m = fresh_threads ta now)"
proof -
  have "fset (fmdom (fresh_threads ta now)) \<subseteq> fset (fmdom (ta_threads ta))" by (auto simp: fm_retain_def)
  from card_mono [OF finite_fset this] have "size (fmdom (fresh_threads ta now)) \<le> size (fmdom (ta_threads ta))" by simp
  moreover obtain m stop where "evict_loop (ta_max_threads ta) (fresh_threads ta now) = Some (m, stop)"
    "evicted_from (fresh_threads ta now) m" "0 < ta_max_threads ta \<longrightarrow> size (fmdom m) < ta_max_threads ta"
    "size (fmdom (fresh_threads ta now)) < ta_max_threads ta \<longrightarrow> m = fresh_threads ta now"
    using evict_loop_returns by blast
  ultimately show ?thesis unfolding prune_threads_def Let_def by auto
qed

text \<open>
  Claim C35. Making room for a conversation always ends, and within its limit: whatever the table and the clock,
  the loop returns; afterwards there is room for one more conversation; what is kept is unchanged and
  has been active within the retention time; of the conversations that are fresh enough, those given
  up have been silent for at least as long as any that is kept; and none is given up below the limit.
\<close>

theorem thread_table_pruned:
  "\<exists>m. prune_threads ta now = Some m \<and>
     (0 < ta_max_threads ta \<longrightarrow> size (fmdom m) < ta_max_threads ta) \<and>
     (\<forall>k c. fmlookup m k = Some c \<longrightarrow> fmlookup (ta_threads ta) k = Some c \<and> i64_saturating_sub now (ta_thread_ttl_ms ta) \<le> tc_last_seen_ms c) \<and>
     (\<forall>k c k' c'. fmlookup (ta_threads ta) k = Some c \<longrightarrow> i64_saturating_sub now (ta_thread_ttl_ms ta) \<le> tc_last_seen_ms c \<longrightarrow>
        fmlookup m k = None \<longrightarrow> ta_max_threads ta \<le> size (fmdom (ta_threads ta)) \<and>
        (fmlookup m k' = Some c' \<longrightarrow> tc_last_seen_ms c \<le> tc_last_seen_ms c'))"
proof -
  obtain m where m: "prune_threads ta now = Some m" "evicted_from (fresh_threads ta now) m"
    "0 < ta_max_threads ta \<longrightarrow> size (fmdom m) < ta_max_threads ta"
    "size (fmdom (ta_threads ta)) < ta_max_threads ta \<longrightarrow> m = fresh_threads ta now"
    using prune_threads_returns by blast
  have "\<forall>k c. fmlookup m k = Some c \<longrightarrow> fmlookup (ta_threads ta) k = Some c \<and> i64_saturating_sub now (ta_thread_ttl_ms ta) \<le> tc_last_seen_ms c"
    using m(2) by (fastforce simp: evicted_from_def split: option.splits if_splits)
  moreover have "ta_max_threads ta \<le> size (fmdom (ta_threads ta)) \<and> (fmlookup m k' = Some c' \<longrightarrow> tc_last_seen_ms c \<le> tc_last_seen_ms c')"
    if "fmlookup (ta_threads ta) k = Some c" "i64_saturating_sub now (ta_thread_ttl_ms ta) \<le> tc_last_seen_ms c" "fmlookup m k = None" for k c k' c'
  proof
    show "ta_max_threads ta \<le> size (fmdom (ta_threads ta))"
    proof (rule ccontr)
      assume "\<not> ta_max_threads ta \<le> size (fmdom (ta_threads ta))"
      then have "size (fmdom (ta_threads ta)) < ta_max_threads ta" by linarith
      from m(4) [rule_format, OF this] that show False by simp
    qed
    show "fmlookup m k' = Some c' \<longrightarrow> tc_last_seen_ms c \<le> tc_last_seen_ms c'"
    proof -
      have "fmlookup (fresh_threads ta now) k = Some c" using that(1,2) by simp
      then show ?thesis using m(2) that(3) unfolding evicted_from_def by blast
    qed
  qed
  ultimately show ?thesis using m(1,3) by (intro exI [of _ m] conjI allI impI) blast+
qed

section \<open>Messages\<close>

lemma record_rule_image: "th_image_request_seen (record_rule now_ms rule st) \<longleftrightarrow> th_image_request_seen st \<or> rule = ImageRequest"
  by (simp add: record_rule_def Let_def)

lemma thread_record_image:
  "th_image_request_seen (thread_record fired now_ms st) \<longleftrightarrow> th_image_request_seen st \<or> ImageRequest \<in> set fired"
proof -
  have "th_image_request_seen (fold (record_rule now_ms) fired st) \<longleftrightarrow> th_image_request_seen st \<or> ImageRequest \<in> set fired" for st
    by (induction fired arbitrary: st) (auto simp: record_rule_image)
  then show ?thesis by (simp add: thread_record_def)
qed

text \<open>The conversation a message is read against: what the table has after pruning, or an empty one.\<close>

definition read_against :: "text_analyzer \<Rightarrow> int \<Rightarrow> string \<Rightarrow> thread_state" where
  "read_against ta timestamp thread_id =
     (case prune_threads ta timestamp of None \<Rightarrow> thread_state_new thread_id
      | Some m \<Rightarrow> (case fmlookup m thread_id of Some c \<Rightarrow> tc_state c | None \<Rightarrow> thread_state_new thread_id))"

lemma analyze_span_Some:
  assumes "analyze_span tx clock request_id span ts_ms ta = Some (v, ta')" "0 < or_now (fst clock) ts_ms"
  obtains lx outcome where "resolve tx (ta_lexicon ta) (ts_lang span) = Some lx"
    "outcome = engine_evaluate tx (ts_text span) lx (read_against ta (or_now (fst clock) ts_ms) (ts_thread_id span)) (or_now (fst clock) ts_ms)"
    "v = (if \<not> is_silent outcome then grooming_verdict ta request_id span outcome
          else if is_adult_text tx lx (ts_text span) then adult_text_verdict request_id span else safe_verdict request_id)"
    "fmlookup (ta_threads ta') (ts_thread_id span) =
       Some \<lparr>tc_state = thread_record (ro_fired outcome) (or_now (fst clock) ts_ms) (read_against ta (or_now (fst clock) ts_ms) (ts_thread_id span)),
             tc_last_seen_ms = or_now (fst clock) ts_ms\<rparr>"
proof -
  obtain m where m: "prune_threads ta (or_now (fst clock) ts_ms) = Some m" using prune_threads_returns by blast
  have t: "or_now (snd clock) (or_now (fst clock) ts_ms) = or_now (fst clock) ts_ms" using assms(2) by (simp add: or_now_def)
  obtain lx where lx: "resolve tx (ta_lexicon ta) (ts_lang span) = Some lx"
    using assms(1) by (auto simp: analyze_span_def Let_def split: option.splits)
  have "tc_state (case fmlookup m (ts_thread_id span) of Some c \<Rightarrow> c
      | None \<Rightarrow> thread_cell_new (thread_state_new (ts_thread_id span)) (or_now (fst clock) ts_ms)) =
      read_against ta (or_now (fst clock) ts_ms) (ts_thread_id span)"
    by (simp add: read_against_def m thread_cell_new_def split: option.split)
  then show ?thesis
    using assms(1) that [OF lx refl] unfolding analyze_span_def thread_cell_for_def Let_def t m lx
    by (auto simp: thread_record_def)
qed

lemma read_against_kept:
  assumes "fmlookup (ta_threads ta) thread_id = Some c" "i64_saturating_sub timestamp (ta_thread_ttl_ms ta) \<le> tc_last_seen_ms c"
    "size (fmdom (ta_threads ta)) < ta_max_threads ta"
  shows "read_against ta timestamp thread_id = tc_state c"
proof -
  obtain m where "prune_threads ta timestamp = Some m" "m = fresh_threads ta timestamp"
    using prune_threads_returns [of ta timestamp] assms(3) by blast
  then show ?thesis using assms(1,2) by (simp add: read_against_def)
qed



section \<open>What the analyzer remembers\<close>

definition thread_ok :: "thread_state \<Rightarrow> bool" where
  "thread_ok st \<longleftrightarrow>
     fset (fmdom (th_last_seen_ms st)) \<subseteq> range grooming_rule_as_str \<and> (th_image_request_seen st \<longleftrightarrow> has_seen st ImageRequest)"

definition analyzer_ok :: "text_analyzer \<Rightarrow> bool" where
  "analyzer_ok ta \<longleftrightarrow> (\<forall>k c. fmlookup (ta_threads ta) k = Some c \<longrightarrow> th_thread_id (tc_state c) = k \<and> thread_ok (tc_state c))"

lemma grooming_rule_as_str_inj [simp]: "grooming_rule_as_str r = grooming_rule_as_str r' \<longleftrightarrow> r = r'"
  by (metis grooming_rule_roundtrip option.inject)

lemma thread_ok_new: "thread_ok (thread_state_new thread_id)" "th_thread_id (thread_state_new thread_id) = thread_id"
  by (simp_all add: thread_ok_def thread_state_new_def has_seen_def)

lemma record_rule_ok: "thread_ok st \<Longrightarrow> thread_ok (record_rule now_ms rule st)"
  by (auto simp: thread_ok_def record_rule_def has_seen_def Let_def simp del: grooming_rule_as_str.simps)

lemma thread_record_ok: "thread_ok st \<Longrightarrow> thread_ok (thread_record fired now_ms st)" "th_thread_id (thread_record fired now_ms st) = th_thread_id st"
proof -
  have "thread_ok st \<Longrightarrow> thread_ok (fold (record_rule now_ms) fired st)" for st
    by (induction fired arbitrary: st) (auto simp: record_rule_ok)
  moreover have "th_thread_id (fold (record_rule now_ms) fired st) = th_thread_id st" for st
    by (induction fired arbitrary: st) (auto simp: record_rule_def Let_def)
  ultimately show "thread_ok st \<Longrightarrow> thread_ok (thread_record fired now_ms st)" "th_thread_id (thread_record fired now_ms st) = th_thread_id st"
    by (simp_all add: thread_record_def thread_ok_def has_seen_def)
qed

lemma prune_threads_sub: "prune_threads ta now = Some m \<Longrightarrow> fmlookup m k = Some c \<Longrightarrow> fmlookup (ta_threads ta) k = Some c"
  using prune_threads_returns [of ta now] by (fastforce simp: evicted_from_def split: option.splits if_splits)

lemma analyze_span_total:
  assumes "resolve tx (ta_lexicon ta) (ts_lang span) = Some lx"
  shows "\<exists>v ta'. analyze_span tx clock request_id span ts_ms ta = Some (v, ta')"
proof -
  let ?t = "or_now (snd clock) (or_now (fst clock) ts_ms)"
  obtain m where "prune_threads ta ?t = Some m" using prune_threads_returns by blast
  then show ?thesis using assms by (simp add: analyze_span_def thread_cell_for_def Let_def)
qed

lemma analyze_span_ok:
  assumes "analyze_span tx clock request_id span ts_ms ta = Some (v, ta')" "analyzer_ok ta"
  shows "analyzer_ok ta' \<and> ta_lexicon ta' = ta_lexicon ta \<and> v_request_id v = request_id"
proof -
  let ?t = "or_now (snd clock) (or_now (fst clock) ts_ms)"
  obtain m where m: "prune_threads ta ?t = Some m" using prune_threads_returns by blast
  have old: "th_thread_id (tc_state c) = k \<and> thread_ok (tc_state c)" if "fmlookup m k = Some c" for k c
    using prune_threads_sub [OF m that] assms(2) by (simp add: analyzer_ok_def)
  obtain lx where lx: "resolve tx (ta_lexicon ta) (ts_lang span) = Some lx"
    using assms(1) by (auto simp: analyze_span_def Let_def split: option.splits)
  show ?thesis
    using assms(1) old thread_ok_new
    unfolding analyze_span_def thread_cell_for_def Let_def m lx option.map option.case
    by (auto simp: analyzer_ok_def thread_record_ok thread_cell_new_def grooming_verdict_def adult_text_verdict_def safe_verdict_def Let_def
        split: if_splits option.splits)
qed

definition answers :: "analysis_request \<Rightarrow> (text_error, verdict) result \<Rightarrow> bool" where
  "answers req r \<longleftrightarrow>
     (case r of Inl e \<Rightarrow> e = MissingTextSpan \<and> aq_text_span req = None
      | Inr v \<Rightarrow> aq_text_span req \<noteq> None \<and> v_request_id v = aq_request_id req)"

lemma text_analyze_ok:
  assumes "analyzer_ok ta" "fmlookup (ta_lexicon ta) ''en'' \<noteq> None"
  shows "\<exists>r ta'. text_analyze tx clock req ta = Some (r, ta') \<and> analyzer_ok ta' \<and> ta_lexicon ta' = ta_lexicon ta \<and> answers req r"
proof (cases "aq_text_span req")
  case None
  then show ?thesis using assms(1) by (simp add: text_analyze_def require_text_span_def answers_def)
next
  case (Some span)
  have "resolve tx (ta_lexicon ta) (ts_lang span) \<noteq> None" using assms(2) by (auto simp: resolve_def Let_def split: option.split)
  then obtain lx where "resolve tx (ta_lexicon ta) (ts_lang span) = Some lx" by blast
  from analyze_span_total [OF this] obtain v ta' where a: "analyze_span tx clock (aq_request_id req) span (aq_ts req) ta = Some (v, ta')" by blast
  show ?thesis using analyze_span_ok [OF a assms(1)] Some a by (simp add: text_analyze_def require_text_span_def answers_def)
qed

text \<open>
  Claim C36. A stream of requests is answered one for one: with an English lexicon loaded the analyzer returns for
  every sequence of requests and clock readings; the n-th answer is for the n-th request, a verdict
  under its id or, exactly when it has no text, an error; and the memory stays well-formed: every
  conversation under its own id, with times for known rules only, and flagged for an image request
  exactly if that rule has been seen.
\<close>

theorem text_stream_answered:
  assumes "analyzer_ok ta" "fmlookup (ta_lexicon ta) ''en'' \<noteq> None"
  shows "\<exists>rs ta'. text_analyze_stream tx reqs ta = Some (rs, ta') \<and> analyzer_ok ta' \<and> list_all2 (\<lambda>(_, req). answers req) reqs rs"
proof -
  have "\<exists>rs ta'. text_analyze_stream tx reqs ta = Some (rs, ta') \<and> analyzer_ok ta' \<and> ta_lexicon ta' = ta_lexicon ta \<and>
      list_all2 (\<lambda>(_, req). answers req) reqs rs"
    using assms
  proof (induction reqs arbitrary: ta)
    case (Cons x reqs)
    obtain clock req where x: "x = (clock, req)" by (cases x)
    obtain r ta1 where r: "text_analyze tx clock req ta = Some (r, ta1)" "analyzer_ok ta1" "ta_lexicon ta1 = ta_lexicon ta" "answers req r"
      using text_analyze_ok [OF Cons.prems, of tx clock req] by blast
    from Cons.IH [of ta1] r Cons.prems(2) obtain rs ta2 where "text_analyze_stream tx reqs ta1 = Some (rs, ta2)" "analyzer_ok ta2"
      "ta_lexicon ta2 = ta_lexicon ta" "list_all2 (\<lambda>(_, req). answers req) reqs rs" by auto
    then show ?case using r by (simp add: x)
  qed simp
  then show ?thesis by blast
qed

text \<open>Escalation counts the rules seen within a week, now or before, each once.\<close>

lemma distinct_within_rules:
  assumes "thread_ok st"
  shows "distinct_within st now_ms w = card {r. seen_within st r now_ms w}"
proof -
  let ?l = "sorted_list_of_fmap (th_last_seen_ms st)"
  have d: "distinct ?l" using sorted_fmap_rows(2) distinct_map by blast
  have "distinct_within st now_ms w = length (filter (\<lambda>x. within now_ms w (snd x)) ?l)"
    by (simp add: distinct_within_def filter_map comp_def)
  also have "\<dots> = card (set (filter (\<lambda>x. within now_ms w (snd x)) ?l))"
    by (rule distinct_card [OF distinct_filter [OF d], symmetric])
  also have "set (filter (\<lambda>x. within now_ms w (snd x)) ?l) =
      (\<lambda>r. (grooming_rule_as_str r, the (fmlookup (th_last_seen_ms st) (grooming_rule_as_str r)))) ` {r. seen_within st r now_ms w}"
  proof (intro set_eqI iffI)
    fix x assume x: "x \<in> set (filter (\<lambda>x. within now_ms w (snd x)) ?l)"
    then have l: "fmlookup (th_last_seen_ms st) (fst x) = Some (snd x)" by (auto simp: set_sorted_list_of_fmap)
    then have "fst x \<in> range grooming_rule_as_str" using assms by (auto simp: thread_ok_def dest: fmdomI)
    then obtain r where "fst x = grooming_rule_as_str r" by blast
    then show "x \<in> (\<lambda>r. (grooming_rule_as_str r, the (fmlookup (th_last_seen_ms st) (grooming_rule_as_str r)))) ` {r. seen_within st r now_ms w}"
      using l x by (intro image_eqI [of _ _ r]) (auto simp: seen_within_def prod_eq_iff)
  qed (auto simp: seen_within_def set_sorted_list_of_fmap split: option.splits)
  also have "card \<dots> = card {r. seen_within st r now_ms w}"
    by (rule card_image) (auto simp: inj_on_def)
  finally show ?thesis .
qed

lemma escalation_counts_rules:
  assumes "thread_ok st"
  shows "recent_distinct (fired_rules tx lx message) st now_ms =
    card {r. r \<in> set (fired_rules tx lx message) \<or> seen_within st r now_ms escalation_window_ms}"
proof -
  let ?fired = "fired_rules tx lx message" and ?seen = "{r. seen_within st r now_ms escalation_window_ms}"
  have fin: "finite A" for A :: "grooming_rule set"
    by (metis List.finite_set finite_subset set_grooming_rule_all subset_UNIV)
  have "distinct ?fired" by (simp add: fired_rules_def Let_def grooming_rule_all_def)
  then have "length (filter (\<lambda>r. r \<notin> ?seen) ?fired) = card (set ?fired - ?seen)"
    by (subst distinct_card [symmetric]) (auto simp: set_diff_eq intro!: arg_cong [where f = card])
  moreover have "{r. r \<in> set ?fired \<or> r \<in> ?seen} = ?seen \<union> (set ?fired - ?seen)" by blast
  moreover have "card (?seen \<union> (set ?fired - ?seen)) = card ?seen + card (set ?fired - ?seen)"
    by (rule card_Un_disjoint) (auto simp: fin)
  ultimately show ?thesis by (simp add: recent_distinct_def distinct_within_rules [OF assms])
qed

text \<open>
  Room is made before the conversation is looked up, also when it is in the table already. In a full
  table the conversation heard of longest ago is therefore forgotten when its next message arrives, with the
  image request it may have contained.
\<close>

lemma full_table_forgets_oldest:
  assumes oldest: "fmlookup (fresh_threads ta now) thread_id = Some c"
    "\<And>k c'. fmlookup (fresh_threads ta now) k = Some c' \<Longrightarrow> k \<noteq> thread_id \<Longrightarrow> tc_last_seen_ms c < tc_last_seen_ms c'"
    and full: "0 < ta_max_threads ta" "ta_max_threads ta \<le> size (fmdom (fresh_threads ta now))"
  shows "read_against ta now thread_id = thread_state_new thread_id"
proof -
  obtain m where m: "prune_threads ta now = Some m" "evicted_from (fresh_threads ta now) m" "size (fmdom m) < ta_max_threads ta"
    using prune_threads_returns [of ta now] full(1) by blast
  have "fmlookup m thread_id = None"
  proof (rule ccontr)
    assume "fmlookup m thread_id \<noteq> None"
    then have kept: "fmlookup m thread_id = Some c" using m(2) oldest(1) unfolding evicted_from_def by (metis not_None_eq option.inject)
    have "\<not> fset (fmdom (fresh_threads ta now)) \<subseteq> fset (fmdom m)"
    proof
      assume "fset (fmdom (fresh_threads ta now)) \<subseteq> fset (fmdom m)"
      from card_mono [OF finite_fset this] have "size (fmdom (fresh_threads ta now)) \<le> size (fmdom m)" by simp
      then show False using m(3) full(2) by linarith
    qed
    then obtain k where "k \<in> fset (fmdom (fresh_threads ta now))" "k \<notin> fset (fmdom m)" by blast
    then obtain c' where k: "fmlookup (fresh_threads ta now) k = Some c'" "fmlookup m k = None"
      by (metis fmdomE fmdom_notD)
    then have "tc_last_seen_ms c' \<le> tc_last_seen_ms c" using m(2) kept unfolding evicted_from_def by blast
    moreover have "k \<noteq> thread_id" using k(2) kept by auto
    ultimately show False using oldest(2) [OF k(1)] by simp
  qed
  then show ?thesis by (simp add: read_against_def m(1))
qed

text \<open>The excerpt for adult text, which nothing calls, would mask every digit.\<close>

lemma mask_digits_free: "c \<in> set (mask_digits s) \<Longrightarrow> \<not> is_digit c"
  by (auto simp: mask_digits_def is_digit_def code_def split: if_splits)

section \<open>Samples\<close>

definition sample_tx :: text_env where
  "sample_tx = \<lparr>tx_aho = \<lambda>ps. Ok (\<lambda>s. s \<in> set ps), tx_regex = \<lambda>_. Err ''unsupported'', tx_lower = to_ascii_lowercase\<rparr>"

definition sample_raw :: raw_lexicon where
  "sample_raw = \<lparr>rl_lang = ''en'', rl_grooming = (\<lambda>r. if r = ImageRequest then \<lparr>rc_phrases = [''send a pic'', ''pics?''], rc_patterns = []\<rparr>
       else \<lparr>rc_phrases = [], rc_patterns = []\<rparr>), rl_adult_text = \<lparr>rc_phrases = [], rc_patterns = []\<rparr>\<rparr>"

definition sample_lexicon :: language_lexicon where
  "sample_lexicon = (case language_lexicon_build sample_tx sample_raw of Inr l \<Rightarrow> l)"

definition sample_thread :: "bool \<Rightarrow> int \<Rightarrow> thread_cell" where
  "sample_thread flagged ts = \<lparr>tc_state = (if flagged then thread_record [ImageRequest] ts (thread_state_new ''t'') else thread_state_new ''u''),
     tc_last_seen_ms = ts\<rparr>"

definition sample_analyzer :: "nat \<Rightarrow> text_analyzer" where
  "sample_analyzer largest = \<lparr>ta_lexicon = fmupd ''en'' sample_lexicon fmempty, ta_agrees = (\<lambda>_. False),
     ta_threads = fmupd ''t'' (sample_thread True 1000) (fmupd ''u'' (sample_thread False 2000) fmempty),
     ta_thread_ttl_ms = 100000, ta_max_threads = largest\<rparr>"

definition sample_span :: "string \<Rightarrow> text_span" where
  "sample_span message = \<lparr>ts_text = message, ts_lang = ''en-GB'', ts_app = ''chat'', ts_thread_id = ''t'', ts_from_minor = True, ts_prior_excerpts = []\<rparr>"

lemma sample_resolves: "resolve sample_tx (ta_lexicon (sample_analyzer n)) ''en-GB'' = Some sample_lexicon"
proof -
  have "tx_lower sample_tx (takeWhile (\<lambda>c. c \<noteq> CHR ''-'' \<and> c \<noteq> CHR ''_'') ''en-GB'') = ''en''" by code_simp
  then show ?thesis by (simp add: resolve_def sample_analyzer_def Let_def)
qed

lemma sample_analyzer_ok: "analyzer_ok (sample_analyzer n)"
  by (auto simp: analyzer_ok_def sample_analyzer_def sample_thread_def thread_record_ok thread_ok_new split: if_splits)

lemma sample_threads_size: "size (fmdom (ta_threads (sample_analyzer n))) = 2"
  by (simp add: sample_analyzer_def)

lemma sample_thread_facts: "th_image_request_seen (tc_state (sample_thread True ts))" "tc_last_seen_ms (sample_thread b ts) = ts"
  by (simp_all add: sample_thread_def thread_record_image)


theorem thread_table_pruned_witness:
  "\<exists>m. prune_threads (sample_analyzer 2) 3000 = Some m \<and> size (fmdom m) < 2 \<and>
     (fmlookup m ''u'' = None \<longrightarrow> fmlookup m ''t'' = None)"
proof -
  from thread_table_pruned [of "sample_analyzer 2" 3000] obtain m where
    "prune_threads (sample_analyzer 2) 3000 = Some m" "size (fmdom m) < ta_max_threads (sample_analyzer 2)"
    and e: "\<forall>k c k' c'. fmlookup (ta_threads (sample_analyzer 2)) k = Some c \<longrightarrow>
        i64_saturating_sub 3000 (ta_thread_ttl_ms (sample_analyzer 2)) \<le> tc_last_seen_ms c \<longrightarrow>
        fmlookup m k = None \<longrightarrow> ta_max_threads (sample_analyzer 2) \<le> size (fmdom (ta_threads (sample_analyzer 2))) \<and>
        (fmlookup m k' = Some c' \<longrightarrow> tc_last_seen_ms c \<le> tc_last_seen_ms c')"
    and sub: "\<forall>k c. fmlookup m k = Some c \<longrightarrow> fmlookup (ta_threads (sample_analyzer 2)) k = Some c \<and>
        i64_saturating_sub 3000 (ta_thread_ttl_ms (sample_analyzer 2)) \<le> tc_last_seen_ms c"
    by (auto simp: sample_analyzer_def)
  moreover have "fmlookup m ''t'' = None" if u: "fmlookup m ''u'' = None"
  proof (rule ccontr)
    assume "fmlookup m ''t'' \<noteq> None"
    then obtain y where y: "fmlookup m ''t'' = Some y" by blast
    then have "fmlookup m ''t'' = Some (sample_thread True 1000)"
      using sub [rule_format, OF y] by (simp add: sample_analyzer_def)
    moreover have "fmlookup (ta_threads (sample_analyzer 2)) ''u'' = Some (sample_thread False 2000)"
      "i64_saturating_sub 3000 (ta_thread_ttl_ms (sample_analyzer 2)) \<le> tc_last_seen_ms (sample_thread False 2000)"
      unfolding sample_thread_facts(2)
      by (simp_all add: sample_analyzer_def i64_saturating_sub_def i64_sat_def i64_min_def i64_max_def)
    ultimately have "tc_last_seen_ms (sample_thread False 2000) \<le> tc_last_seen_ms (sample_thread True 1000)"
      using e u by blast
    then show False by (simp add: sample_thread_facts)
  qed
  ultimately show ?thesis by (auto simp: sample_analyzer_def)
qed


definition sample_text_request :: "text_span option \<Rightarrow> analysis_request" where
  "sample_text_request span = \<lparr>aq_request_id = ''r1'', aq_media_kind = 1, aq_source_channel = 1, aq_device_id = ''tablet'', aq_ts = 3000,
     aq_text_span = span, aq_media = None, aq_deadline_ms = 0\<rparr>"

theorem text_stream_answered_witness:
  "\<exists>v ta'. text_analyze_stream sample_tx [((0, 0), sample_text_request (Some (sample_span ''hello''))), ((0, 0), sample_text_request None)]
      (sample_analyzer 10) = Some ([Ok v, Err MissingTextSpan], ta') \<and> v_request_id v = ''r1''"
proof -
  have "fmlookup (ta_lexicon (sample_analyzer 10)) ''en'' \<noteq> None" by (simp add: sample_analyzer_def)
  from text_stream_answered [OF sample_analyzer_ok this, of sample_tx
      "[((0, 0), sample_text_request (Some (sample_span ''hello''))), ((0, 0), sample_text_request None)]"]
  obtain r1 r2 ta' where s: "text_analyze_stream sample_tx [((0, 0), sample_text_request (Some (sample_span ''hello''))), ((0, 0), sample_text_request None)]
      (sample_analyzer 10) = Some ([r1, r2], ta')" and a: "answers (sample_text_request (Some (sample_span ''hello''))) r1"
      "answers (sample_text_request None) r2" by (fastforce simp: list_all2_Cons1)
  obtain v where "r1 = Ok v" "v_request_id v = ''r1''" using a(1) by (cases r1) (auto simp: answers_def sample_text_request_def)
  moreover have "r2 = Err MissingTextSpan" using a(2) by (cases r2) (auto simp: answers_def sample_text_request_def)
  ultimately show ?thesis using s by blast
qed

end
