(* ===== verification/DelayBuffer.thy ===== *)
theory DelayBuffer
  imports AuditRow "HOL-Library.Multiset"
begin

text \<open>
  The delay buffer of the flow layer: \<open>bulwark-flow/src/buffer.rs\<close>. Segments wait for a
  verdict in a bounded queue and leave it forwarded, rewritten or dropped. The mutex makes each
  call one step. An \<open>Instant\<close> is a number of nanoseconds; \<open>usize\<close> and \<open>u64\<close> are 64 bits wide.
\<close>

section \<open>State and operations\<close>

record buffer_config =
  bc_max_segments :: nat
  bc_max_bytes :: nat
  bc_live_delay_ms :: nat
  bc_vod_budget_ms :: nat

datatype admission = Admitted nat | BackPressure

datatype seg_state = Pending | Overdue | Held

record segment =
  sg_id :: nat
  sg_bytes :: bytes
  sg_live :: bool
  sg_admitted_at :: nat
  sg_deadline :: nat
  sg_state :: seg_state

datatype released = Forward bytes | Dropped | StillHeld

datatype flow_error = Unclassifiable | MalformedManifest string | BufferFull string | SegmentNotFound nat | DeadlineMissed nat

record delay_buffer =
  db_config :: buffer_config
  db_queue :: "segment list"
  db_held_bytes :: nat
  db_next_id :: nat
  db_current_delay_ms :: nat

definition delay_buffer_new :: "buffer_config \<Rightarrow> delay_buffer" where
  "delay_buffer_new cfg = \<lparr>db_config = cfg, db_queue = [], db_held_bytes = 0, db_next_id = 1, db_current_delay_ms = 0\<rparr>"

definition ns_per_ms :: nat where
  "ns_per_ms = 1000000"

definition usize_saturating_add :: "nat \<Rightarrow> nat \<Rightarrow> nat" where
  "usize_saturating_add a b = min u64_max (a + b)"

definition recompute_delay :: "nat \<Rightarrow> delay_buffer \<Rightarrow> delay_buffer" where
  "recompute_delay now b =
     b\<lparr>db_current_delay_ms := (case db_queue b of
         [] \<Rightarrow> 0
       | s # _ \<Rightarrow> as_u32 ((now - sg_admitted_at s) div ns_per_ms))\<rparr>"

definition is_full_for :: "delay_buffer \<Rightarrow> nat \<Rightarrow> bool" where
  "is_full_for b len \<longleftrightarrow> bc_max_segments (db_config b) \<le> length (db_queue b) \<or>
     bc_max_bytes (db_config b) < usize_saturating_add (db_held_bytes b) len"

definition admit_at :: "delay_buffer \<Rightarrow> bytes \<Rightarrow> bool \<Rightarrow> nat \<Rightarrow> admission \<times> delay_buffer" where
  "admit_at b bs live now =
     (let would_be_bytes = usize_saturating_add (db_held_bytes b) (length bs)
      in if bc_max_segments (db_config b) \<le> length (db_queue b) \<or> bc_max_bytes (db_config b) < would_be_bytes
         then (BackPressure, b)
         else (let i = db_next_id b;
                   budget = (if live then bc_live_delay_ms (db_config b) else bc_vod_budget_ms (db_config b)) * ns_per_ms;
                   seg = \<lparr>sg_id = i, sg_bytes = bs, sg_live = live, sg_admitted_at = now,
                          sg_deadline = now + budget, sg_state = Pending\<rparr>
               in (Admitted i, recompute_delay now
                     (b\<lparr>db_next_id := (i + 1) mod 2 ^ 64, db_queue := db_queue b @ [seg],
                        db_held_bytes := db_held_bytes b + length bs\<rparr>))))"

definition take_segment :: "nat \<Rightarrow> nat \<Rightarrow> delay_buffer \<Rightarrow> segment \<times> delay_buffer" where
  "take_segment now pos b =
     (let seg = db_queue b ! pos
      in (seg, recompute_delay now (b\<lparr>db_queue := remove_at pos (db_queue b),
                 db_held_bytes := db_held_bytes b - length (sg_bytes seg)\<rparr>)))"

definition buffer_apply ::
    "delay_buffer \<Rightarrow> nat \<Rightarrow> action \<Rightarrow> bytes option \<Rightarrow> nat \<Rightarrow> (flow_error, released) result \<times> delay_buffer" where
  "buffer_apply b i act rewritten now =
     (case find_index (\<lambda>s. sg_id s = i) (db_queue b) of
        None \<Rightarrow> (Err (SegmentNotFound i), b)
      | Some pos \<Rightarrow>
          (if act = Block then (Ok Dropped, snd (take_segment now pos b))
           else if act \<in> {Allow, Warn, Log} then
             (let (seg, b') = take_segment now pos b in (Ok (Forward (sg_bytes seg)), b'))
           else if act \<in> {Blur, Mute} then
             (let (seg, b') = take_segment now pos b
              in (Ok (Forward (case rewritten of None \<Rightarrow> sg_bytes seg | Some out \<Rightarrow> out)), b'))
           else (Ok StillHeld, b\<lparr>db_queue := (db_queue b)[pos := (db_queue b ! pos)\<lparr>sg_state := Held\<rparr>]\<rparr>)))"

definition buffer_hold :: "delay_buffer \<Rightarrow> nat \<Rightarrow> (flow_error, unit) result \<times> delay_buffer" where
  "buffer_hold b i =
     (case find_index (\<lambda>s. sg_id s = i) (db_queue b) of
        None \<Rightarrow> (Err (SegmentNotFound i), b)
      | Some pos \<Rightarrow> (Ok (), b\<lparr>db_queue := (db_queue b)[pos := (db_queue b ! pos)\<lparr>sg_state := Held\<rparr>]\<rparr>))"

definition seg_due :: "nat \<Rightarrow> segment \<Rightarrow> bool" where
  "seg_due now s \<longleftrightarrow> sg_deadline s \<le> now \<and> sg_state s \<noteq> Held"

definition due_segments_at :: "delay_buffer \<Rightarrow> nat \<Rightarrow> (nat \<times> bool \<times> bytes) list \<times> delay_buffer" where
  "due_segments_at b now =
     (map (\<lambda>s. (sg_id s, sg_live s, sg_bytes s)) (filter (seg_due now) (db_queue b)),
      b\<lparr>db_queue := map (\<lambda>s. if seg_due now s then s\<lparr>sg_state := Overdue\<rparr> else s) (db_queue b)\<rparr>)"

definition current_delay_ms_at :: "delay_buffer \<Rightarrow> nat \<Rightarrow> nat \<times> delay_buffer" where
  "current_delay_ms_at b now = (let b' = recompute_delay now b in (db_current_delay_ms b', b'))"

section \<open>Runs of a buffer\<close>

text \<open>
  A run records the segments it admitted and what became of those that left, in order.
  Admissions are counted in 64 bits; a buffer is followed until that counter would wrap.
\<close>

definition admitted_of :: "admission \<Rightarrow> bytes \<Rightarrow> (nat \<times> bytes) list" where
  "admitted_of a bs = (case a of Admitted i \<Rightarrow> [(i, bs)] | BackPressure \<Rightarrow> [])"

definition released_of :: "nat \<Rightarrow> action \<Rightarrow> ('e, released) result \<Rightarrow> (nat \<times> action \<times> released) list" where
  "released_of i a r = (case r of Inl e \<Rightarrow> [] | Inr StillHeld \<Rightarrow> [] | Inr out \<Rightarrow> [(i, a, out)])"

inductive buffer_run ::
    "buffer_config \<Rightarrow> delay_buffer \<Rightarrow> (nat \<times> bytes) list \<Rightarrow> (nat \<times> action \<times> released) list \<Rightarrow> bool" for cfg where
  new: "buffer_run cfg (delay_buffer_new cfg) [] []"
| admit: "buffer_run cfg b adm out \<Longrightarrow> db_next_id b < u64_max \<Longrightarrow>
    buffer_run cfg (snd (admit_at b bs live now)) (adm @ admitted_of (fst (admit_at b bs live now)) bs) out"
| act: "buffer_run cfg b adm out \<Longrightarrow>
    buffer_run cfg (snd (buffer_apply b i a rewritten now)) adm (out @ released_of i a (fst (buffer_apply b i a rewritten now)))"
| hold: "buffer_run cfg b adm out \<Longrightarrow> buffer_run cfg (snd (buffer_hold b i)) adm out"
| due: "buffer_run cfg b adm out \<Longrightarrow> buffer_run cfg (snd (due_segments_at b now)) adm out"
| delay: "buffer_run cfg b adm out \<Longrightarrow> buffer_run cfg (snd (current_delay_ms_at b now)) adm out"

definition queue_bytes :: "segment list \<Rightarrow> nat" where
  "queue_bytes q = sum_list (map (\<lambda>s. length (sg_bytes s)) q)"

definition buffer_ok :: "buffer_config \<Rightarrow> delay_buffer \<Rightarrow> bool" where
  "buffer_ok cfg b \<longleftrightarrow> db_config b = cfg \<and> db_held_bytes b = queue_bytes (db_queue b) \<and>
     length (db_queue b) \<le> bc_max_segments cfg \<and> db_held_bytes b \<le> bc_max_bytes cfg"

text \<open>What a segment is, apart from how long it has been waiting.\<close>

definition seg_core :: "segment \<Rightarrow> nat \<times> bytes" where
  "seg_core s = (sg_id s, sg_bytes s)"

definition outcome_ok :: "(nat \<times> bytes) list \<Rightarrow> nat \<times> action \<times> released \<Rightarrow> bool" where
  "outcome_ok adm = (\<lambda>(i, a, r). \<exists>bs. (i, bs) \<in> set adm \<and> a \<noteq> ActUnspecified \<and> (r = Dropped \<longleftrightarrow> a = Block) \<and>
     (a \<in> {Allow, Warn, Log} \<longrightarrow> r = Forward bs))"

definition run_ok :: "delay_buffer \<Rightarrow> (nat \<times> bytes) list \<Rightarrow> (nat \<times> action \<times> released) list \<Rightarrow> bool" where
  "run_ok b adm out \<longleftrightarrow> distinct (map fst adm) \<and> (\<forall>i\<in>fst ` set adm. i < db_next_id b) \<and>
     mset (map sg_id (db_queue b)) + mset (map fst out) = mset (map fst adm) \<and>
     seg_core ` set (db_queue b) \<subseteq> set adm \<and> (\<forall>e\<in>set out. outcome_ok adm e)"

section \<open>Invariants of a run\<close>

lemma mset_remove_at: "i < length xs \<Longrightarrow> mset (map f xs) = add_mset (f (xs ! i)) (mset (map f (remove_at i xs)))"
  by (subst remove_at_split, assumption) (simp add: remove_at_def)

lemma recompute_frames [frame_simps, simp]:
  "db_config (recompute_delay now b) = db_config b" "db_queue (recompute_delay now b) = db_queue b"
  "db_held_bytes (recompute_delay now b) = db_held_bytes b" "db_next_id (recompute_delay now b) = db_next_id b"
  by (simp_all add: recompute_delay_def)

lemma take_segment_simps [simp]:
  "fst (take_segment now pos b) = db_queue b ! pos"
  "db_config (snd (take_segment now pos b)) = db_config b"
  "db_queue (snd (take_segment now pos b)) = remove_at pos (db_queue b)"
  "db_held_bytes (snd (take_segment now pos b)) = db_held_bytes b - length (sg_bytes (db_queue b ! pos))"
  "db_next_id (snd (take_segment now pos b)) = db_next_id b"
  by (simp_all add: take_segment_def Let_def)

lemma admit_refused: "is_full_for b (length bs) \<Longrightarrow> admit_at b bs live now = (BackPressure, b)"
  by (simp add: admit_at_def is_full_for_def Let_def)

lemma next_id_mod: "n < u64_max \<Longrightarrow> (n + 1) mod 2 ^ 64 = n + 1"
  by (simp add: u64_max_def)

lemma admit_accepted:
  assumes "\<not> is_full_for b (length bs)" "db_next_id b < u64_max"
  shows "fst (admit_at b bs live now) = Admitted (db_next_id b)"
    "db_config (snd (admit_at b bs live now)) = db_config b"
    "map seg_core (db_queue (snd (admit_at b bs live now))) = map seg_core (db_queue b) @ [(db_next_id b, bs)]"
    "db_held_bytes (snd (admit_at b bs live now)) = db_held_bytes b + length bs"
    "db_next_id (snd (admit_at b bs live now)) = db_next_id b + 1"
    "length (db_queue b) < bc_max_segments (db_config b)"
    "min u64_max (db_held_bytes b + length bs) \<le> bc_max_bytes (db_config b)"
  using assms next_id_mod [OF assms(2)]
  by (auto simp: admit_at_def is_full_for_def usize_saturating_add_def Let_def seg_core_def not_less)

lemma apply_missing:
  assumes "i \<notin> sg_id ` set (db_queue b)"
  shows "buffer_apply b i a rewritten now = (Err (SegmentNotFound i), b)"
proof -
  have "find_index (\<lambda>s. sg_id s = i) (db_queue b) = None" using assms by (auto simp: find_index_None)
  then show ?thesis by (simp add: buffer_apply_def)
qed

lemma apply_present:
  assumes "i \<in> sg_id ` set (db_queue b)"
  obtains pos where "pos < length (db_queue b)" "sg_id (db_queue b ! pos) = i"
    "find_index (\<lambda>s. sg_id s = i) (db_queue b) = Some pos"
proof -
  have "find_index (\<lambda>s. sg_id s = i) (db_queue b) \<noteq> None" using assms by (auto simp: find_index_None)
  then obtain pos where "find_index (\<lambda>s. sg_id s = i) (db_queue b) = Some pos" by auto
  with find_index_Some [OF this] show thesis by (intro that) auto
qed

text \<open>One step of a segment's life, for an action that releases it.\<close>

definition release_value :: "action \<Rightarrow> bytes \<Rightarrow> bytes option \<Rightarrow> released" where
  "release_value a bs rewritten =
     (if a = Block then Dropped else if a \<in> {Blur, Mute} then Forward (case rewritten of None \<Rightarrow> bs | Some r \<Rightarrow> r)
      else Forward bs)"

lemma apply_releases:
  assumes "find_index (\<lambda>s. sg_id s = i) (db_queue b) = Some pos" "a \<noteq> ActUnspecified"
  shows "buffer_apply b i a rewritten now =
    (Ok (release_value a (sg_bytes (db_queue b ! pos)) rewritten), snd (take_segment now pos b))"
  using assms by (cases a; cases rewritten) (simp_all add: buffer_apply_def release_value_def split_beta Let_def)

lemma apply_holds:
  assumes "find_index (\<lambda>s. sg_id s = i) (db_queue b) = Some pos"
  shows "buffer_apply b i ActUnspecified rewritten now =
    (Ok StillHeld, b\<lparr>db_queue := (db_queue b)[pos := (db_queue b ! pos)\<lparr>sg_state := Held\<rparr>]\<rparr>)"
  using assms by (simp add: buffer_apply_def)

lemma core_update [simp]:
  "pos < length q \<Longrightarrow> map seg_core (q[pos := (q ! pos)\<lparr>sg_state := x\<rparr>]) = map seg_core q"
  by (rule nth_equalityI) (simp_all add: nth_list_update seg_core_def)

lemma core_due [simp]: "map seg_core (map (\<lambda>s. if P s then s\<lparr>sg_state := x\<rparr> else s) q) = map seg_core q"
  by (simp add: seg_core_def)

text \<open>Both invariants read only the cores of the queued segments.\<close>

lemma sg_id_core: "map sg_id q = map fst (map seg_core q)"
  by (simp add: seg_core_def)

lemma queue_bytes_core: "queue_bytes q = sum_list (map (length \<circ> snd) (map seg_core q))"
  by (simp add: queue_bytes_def seg_core_def comp_def)

lemma same_core:
  assumes "map seg_core (db_queue b') = map seg_core (db_queue b)" "db_config b' = db_config b"
    "db_held_bytes b' = db_held_bytes b" "db_next_id b' = db_next_id b"
  shows "buffer_ok cfg b' = buffer_ok cfg b" "run_ok b' adm out = run_ok b adm out"
proof -
  have "length (db_queue b') = length (db_queue b)" using assms(1) map_eq_imp_length_eq by blast
  moreover have "seg_core ` set (db_queue b') = seg_core ` set (db_queue b)"
    using arg_cong [OF assms(1), of set] by simp
  ultimately show "buffer_ok cfg b' = buffer_ok cfg b" "run_ok b' adm out = run_ok b adm out"
    using assms by (simp_all add: buffer_ok_def run_ok_def queue_bytes_core sg_id_core [of "db_queue b'"] sg_id_core [of "db_queue b"])
qed

lemma hold_core:
  "map seg_core (db_queue (snd (buffer_hold b i))) = map seg_core (db_queue b)"
  "db_config (snd (buffer_hold b i)) = db_config b" "db_held_bytes (snd (buffer_hold b i)) = db_held_bytes b"
  "db_next_id (snd (buffer_hold b i)) = db_next_id b"
  by (auto simp: buffer_hold_def dest: find_index_Some split: option.split)

lemma due_core:
  "map seg_core (db_queue (snd (due_segments_at b now))) = map seg_core (db_queue b)"
  "db_config (snd (due_segments_at b now)) = db_config b" "db_held_bytes (snd (due_segments_at b now)) = db_held_bytes b"
  "db_next_id (snd (due_segments_at b now)) = db_next_id b"
  by (simp_all add: due_segments_at_def seg_core_def)

lemma delay_core:
  "map seg_core (db_queue (snd (current_delay_ms_at b now))) = map seg_core (db_queue b)"
  "db_config (snd (current_delay_ms_at b now)) = db_config b" "db_held_bytes (snd (current_delay_ms_at b now)) = db_held_bytes b"
  "db_next_id (snd (current_delay_ms_at b now)) = db_next_id b"
  by (simp_all add: current_delay_ms_at_def Let_def)

lemma admit_invariants:
  assumes "buffer_ok cfg b" "run_ok b adm out" "db_next_id b < u64_max" "bc_max_bytes cfg < u64_max"
  shows "buffer_ok cfg (snd (admit_at b bs live now)) \<and>
    run_ok (snd (admit_at b bs live now)) (adm @ admitted_of (fst (admit_at b bs live now)) bs) out"
proof (cases "is_full_for b (length bs)")
  case True
  then show ?thesis using assms by (simp add: admit_refused admitted_of_def)
next
  case False
  let ?b = "snd (admit_at b bs live now)"
  note acc = admit_accepted [OF False assms(3)]
  have len: "length (db_queue ?b) = Suc (length (db_queue b))" using arg_cong [OF acc(3), of length] by simp
  have img: "seg_core ` set (db_queue ?b) = insert (db_next_id b, bs) (seg_core ` set (db_queue b))"
    using arg_cong [OF acc(3), of set] by simp
  have "buffer_ok cfg ?b"
    using assms(1,4) acc len by (simp add: buffer_ok_def queue_bytes_core min_def split: if_splits)
  moreover have "db_next_id b \<notin> fst ` set adm" using assms(2) by (auto simp: run_ok_def)
  moreover have "\<forall>e\<in>set out. outcome_ok (adm @ [(db_next_id b, bs)]) e"
    using assms(2) by (fastforce simp: run_ok_def outcome_ok_def)
  ultimately show ?thesis
    using assms(2) acc img
    by (auto simp: run_ok_def admitted_of_def sg_id_core [of "db_queue ?b"] sg_id_core [of "db_queue b"])
qed

lemma apply_invariants:
  assumes ok: "buffer_ok cfg b" and run: "run_ok b adm out"
  shows "buffer_ok cfg (snd (buffer_apply b i a rewritten now)) \<and>
    run_ok (snd (buffer_apply b i a rewritten now)) adm (out @ released_of i a (fst (buffer_apply b i a rewritten now)))"
proof (cases "i \<in> sg_id ` set (db_queue b)")
  case False
  then show ?thesis using assms by (simp add: apply_missing released_of_def)
next
  case True
  then obtain pos where pos: "pos < length (db_queue b)" "sg_id (db_queue b ! pos) = i"
    and idx: "find_index (\<lambda>s. sg_id s = i) (db_queue b) = Some pos" by (rule apply_present)
  show ?thesis
  proof (cases "a = ActUnspecified")
    case True
    let ?b = "b\<lparr>db_queue := (db_queue b)[pos := (db_queue b ! pos)\<lparr>sg_state := Held\<rparr>]\<rparr>"
    have "buffer_ok cfg ?b = buffer_ok cfg b" "run_ok ?b adm out = run_ok b adm out"
      by (rule same_core; use pos in simp)+
    then show ?thesis using ok run True by (simp add: apply_holds [OF idx] released_of_def)
  next
    case False
    let ?b = "snd (take_segment now pos b)" and ?r = "release_value a (sg_bytes (db_queue b ! pos)) rewritten"
    have "db_queue b ! pos \<in> set (db_queue b)" using pos(1) by simp
    then have core: "(i, sg_bytes (db_queue b ! pos)) \<in> set adm"
      using run pos(2) by (auto simp: run_ok_def seg_core_def)
    have "buffer_ok cfg ?b"
      using ok pos sum_list_remove_at [OF pos(1), of "\<lambda>s. length (sg_bytes s)"]
      by (auto simp: buffer_ok_def queue_bytes_def length_remove_at)
    moreover have "run_ok ?b adm (out @ [(i, a, ?r)])"
    proof -
      have "outcome_ok adm (i, a, ?r)"
        using core False by (auto simp: outcome_ok_def release_value_def)
      moreover have "mset (map sg_id (db_queue ?b)) + mset (map fst (out @ [(i, a, ?r)])) = mset (map fst adm)"
        using run mset_remove_at [OF pos(1), of sg_id] pos(2) by (simp add: run_ok_def)
      moreover have "seg_core ` set (db_queue ?b) \<subseteq> set adm"
        using run image_mono [OF set_remove_at [of pos "db_queue b"], of seg_core]
        by (simp only: run_ok_def take_segment_simps) blast
      ultimately show ?thesis using run by (simp add: run_ok_def)
    qed
    moreover have "released_of i a (Ok ?r :: (flow_error, released) result) = [(i, a, ?r)]" by (simp add: released_of_def release_value_def)
    ultimately show ?thesis by (simp add: apply_releases [OF idx False])
  qed
qed

lemma buffer_run_invariants:
  assumes "buffer_run cfg b adm out" "bc_max_bytes cfg < u64_max"
  shows "buffer_ok cfg b \<and> run_ok b adm out"
  using assms(1)
proof (induction rule: buffer_run.induct)
  case new
  show ?case by (simp add: delay_buffer_new_def buffer_ok_def run_ok_def queue_bytes_def)
next
  case (admit b adm out bs live now)
  then show ?case using admit_invariants assms(2) by blast
next
  case (act b adm out i a rewritten now)
  then show ?case using apply_invariants by blast
qed (simp_all add: same_core [OF hold_core] same_core [OF due_core] same_core [OF delay_core])

section \<open>What the buffer guarantees\<close>

lemma sample_buffer_run:
  "buffer_run \<lparr>bc_max_segments = 2, bc_max_bytes = 8, bc_live_delay_ms = 5, bc_vod_budget_ms = 9\<rparr>
     (snd (buffer_apply (snd (admit_at (delay_buffer_new
        \<lparr>bc_max_segments = 2, bc_max_bytes = 8, bc_live_delay_ms = 5, bc_vod_budget_ms = 9\<rparr>) [1, 2] True 0)) 1 Block None 3))
     [(1, [1, 2])] [(1, Block, Dropped)]"
proof -
  let ?cfg = "\<lparr>bc_max_segments = 2, bc_max_bytes = 8, bc_live_delay_ms = 5, bc_vod_budget_ms = 9\<rparr>"
  have 1: "buffer_run ?cfg (snd (admit_at (delay_buffer_new ?cfg) [1, 2] True 0))
      ([] @ admitted_of (fst (admit_at (delay_buffer_new ?cfg) [1, 2] True 0)) [1, 2]) []"
    by (rule buffer_run.admit [OF buffer_run.new]) (simp add: delay_buffer_new_def u64_max_def)
  show ?thesis
    using buffer_run.act [OF 1, of 1 Block None 3]
    by (simp add: admit_at_def delay_buffer_new_def usize_saturating_add_def u64_max_def Let_def admitted_of_def
        buffer_apply_def recompute_delay_def released_of_def)
qed

text \<open>
  The buffer stays within its configured bounds: in every run, whatever is admitted,
  released, held or polled in whatever order, it keeps at most the configured number of
  segments and of bytes, and its byte counter is exactly the size of what it holds, so no
  release underflows it.
\<close>

theorem buffer_within_bounds:
  assumes "buffer_run cfg b adm out" "bc_max_bytes cfg < u64_max"
  shows "length (db_queue b) \<le> bc_max_segments cfg \<and> db_held_bytes b \<le> bc_max_bytes cfg \<and>
    db_held_bytes b = (\<Sum>s\<leftarrow>db_queue b. length (sg_bytes s))"
  using buffer_run_invariants [OF assms] by (simp add: buffer_ok_def queue_bytes_def)

theorem buffer_within_bounds_witness:
  "length (db_queue (snd (buffer_apply (snd (admit_at (delay_buffer_new
        \<lparr>bc_max_segments = 2, bc_max_bytes = 8, bc_live_delay_ms = 5, bc_vod_budget_ms = 9\<rparr>) [1, 2] True 0)) 1 Block None 3))) \<le> 2"
  using buffer_within_bounds [OF sample_buffer_run] by (simp add: u64_max_def)

text \<open>
  No segment is lost, duplicated or let through against its verdict: the segments
  admitted in a run are exactly those still queued together with those that left, each of
  them once; a segment left as dropped if and only if it was blocked, and an allowed, warned
  or logged one left with the bytes it came with. A second decision for a segment that left is
  refused, and leaves the buffer alone.
\<close>

theorem segments_leave_once:
  assumes "buffer_run cfg b adm out" "bc_max_bytes cfg < u64_max"
  shows "distinct (map fst adm) \<and> mset (map sg_id (db_queue b)) + mset (map fst out) = mset (map fst adm) \<and>
    (\<forall>i a r. (i, a, r) \<in> set out \<longrightarrow>
       (\<exists>bs. (i, bs) \<in> set adm \<and> (r = Dropped \<longleftrightarrow> a = Block) \<and> (a \<in> {Allow, Warn, Log} \<longrightarrow> r = Forward bs)) \<and>
       (\<forall>a' rewritten now. buffer_apply b i a' rewritten now = (Err (SegmentNotFound i), b)))"
proof -
  have ok: "run_ok b adm out" using buffer_run_invariants [OF assms] by simp
  have "i \<notin> sg_id ` set (db_queue b)" if "(i, a, r) \<in> set out" for i a r
  proof
    assume "i \<in> sg_id ` set (db_queue b)"
    then have "i \<in># mset (map sg_id (db_queue b))" by simp
    moreover have "i \<in># mset (map fst out)" using that by force
    ultimately have "2 \<le> count (mset (map fst adm)) i"
      using ok count_union [of "mset (map sg_id (db_queue b))" "mset (map fst out)" i]
      by (simp only: run_ok_def count_greater_zero_iff [symmetric])
    moreover have "count (mset (map fst adm)) i \<le> 1"
      using ok by (simp only: run_ok_def distinct_count_atmost_1) simp
    ultimately show False by simp
  qed
  moreover have "outcome_ok adm (i, a, r)" if "(i, a, r) \<in> set out" for i a r
    using ok that by (auto simp: run_ok_def)
  ultimately show ?thesis using ok by (auto simp: run_ok_def outcome_ok_def apply_missing)
qed

theorem segments_leave_once_witness:
  "buffer_apply (snd (buffer_apply (snd (admit_at (delay_buffer_new
        \<lparr>bc_max_segments = 2, bc_max_bytes = 8, bc_live_delay_ms = 5, bc_vod_budget_ms = 9\<rparr>) [1, 2] True 0)) 1 Block None 3)) 1 Allow None 4
     = (Err (SegmentNotFound 1), snd (buffer_apply (snd (admit_at (delay_buffer_new
        \<lparr>bc_max_segments = 2, bc_max_bytes = 8, bc_live_delay_ms = 5, bc_vod_budget_ms = 9\<rparr>) [1, 2] True 0)) 1 Block None 3))"
  using segments_leave_once [OF sample_buffer_run] by (simp add: u64_max_def)

end
