(* ===== verification/FlowClassify.thy ===== *)
theory FlowClassify
  imports DelayBuffer Segments AlertService
begin

text \<open>
  Which traffic is analysed, and how: \<open>bulwark-flow/src/classify.rs\<close> and \<open>classifier.rs\<close>, with the
  flow types of \<open>bulwark-core/src/flow.rs\<close> and \<open>bulwark-flow/src/error.rs\<close>. A captured flow is classified by
  manifest, content type, magic bytes and extension; text, images and audio become units at once,
  video waits in the delay buffer.
\<close>

section \<open>Flows\<close>

record http_header =
  hh_name :: string
  hh_value :: string

record http_head =
  hd_method :: "string option"
  hd_path :: "string option"
  hd_status :: "nat option"
  hd_headers :: "http_header list"
  hd_body_peek :: bytes

definition http_head_default :: http_head where
  "http_head_default = \<lparr>hd_method = None, hd_path = None, hd_status = None, hd_headers = [], hd_body_peek = []\<rparr>"

definition header_of :: "http_head \<Rightarrow> string \<Rightarrow> string option" where
  "header_of h lower_name = map_option hh_value (find (\<lambda>x. hh_name x = lower_name) (hd_headers h))"

definition strip_ct_params :: "string \<Rightarrow> string" where
  "strip_ct_params ct = to_ascii_lowercase (trim (first_part CHR '';'' ct))"

definition content_type :: "http_head \<Rightarrow> string option" where
  "content_type h = map_option strip_ct_params (header_of h ''content-type'')"

datatype flow_payload = HttpFlow http_head | StreamChunk bytes "string option" "string option"

record captured_flow =
  fl_flow_id :: nat
  fl_source_channel :: source_channel
  fl_app_or_host :: string
  fl_readable :: bool
  fl_payload :: flow_payload

definition http_flow :: "nat \<Rightarrow> string \<Rightarrow> http_head \<Rightarrow> captured_flow" where
  "http_flow flow_id app_or_host h =
     \<lparr>fl_flow_id = flow_id, fl_source_channel = Web, fl_app_or_host = app_or_host, fl_readable = True, fl_payload = HttpFlow h\<rparr>"

record inline_media =
  im_data :: bytes
  im_mime_type :: string

datatype analysis_unit = TextUnit text_span | ImageUnit inline_media | AudioUnit inline_media | VideoUnit inline_media nat "nat option"

fun kind_name :: "analysis_unit \<Rightarrow> string" where
  "kind_name (TextUnit _) = ''text''"
| "kind_name (ImageUnit _) = ''image''"
| "kind_name (AudioUnit _) = ''audio''"
| "kind_name (VideoUnit _ _ _) = ''video''"

text \<open>\<open>String::from_utf8_lossy\<close>: each maximal part of an ill-formed sequence becomes one U+FFFD.\<close>

definition second_ok :: "char \<Rightarrow> char \<Rightarrow> bool" where
  "second_ok a b \<longleftrightarrow> cont_byte b \<and> (code a = 224 \<longrightarrow> 160 \<le> code b) \<and> (code a = 237 \<longrightarrow> code b < 160) \<and>
     (code a = 240 \<longrightarrow> 144 \<le> code b) \<and> (code a = 244 \<longrightarrow> code b < 144)"

text \<open>Whether the first character is well-formed, and how many of the bytes after the first belong to it.\<close>

definition utf8_step :: "char \<Rightarrow> string \<Rightarrow> bool \<times> nat" where
  "utf8_step a s =
     (if code a < 128 then (True, 0)
      else if 194 \<le> code a \<and> code a < 224
      then (case s of b # _ \<Rightarrow> if cont_byte b then (True, 1) else (False, 0) | [] \<Rightarrow> (False, 0))
      else if 224 \<le> code a \<and> code a < 240
      then (case s of b # t \<Rightarrow> if \<not> second_ok a b then (False, 0)
                      else (case t of c # _ \<Rightarrow> if cont_byte c then (True, 2) else (False, 1) | [] \<Rightarrow> (False, 1))
            | [] \<Rightarrow> (False, 0))
      else if 240 \<le> code a \<and> code a < 245
      then (case s of b # t \<Rightarrow> if \<not> second_ok a b then (False, 0)
                      else (case t of c # u \<Rightarrow> if \<not> cont_byte c then (False, 1)
                                      else (case u of d # _ \<Rightarrow> if cont_byte d then (True, 3) else (False, 2) | [] \<Rightarrow> (False, 2))
                            | [] \<Rightarrow> (False, 1))
            | [] \<Rightarrow> (False, 0))
      else (False, 0))"

function utf8_lossy :: "string \<Rightarrow> string" where
  "utf8_lossy [] = []"
| "utf8_lossy (a # s) =
     (case utf8_step a s of (ok, n) \<Rightarrow>
        (if ok then a # take n s else [CHR 0xEF, CHR 0xBF, CHR 0xBD]) @ utf8_lossy (drop n s))"
  by pat_completeness auto
termination by (relation "measure length") auto

definition from_utf8_lossy :: "bytes \<Rightarrow> string" where
  "from_utf8_lossy bs = utf8_lossy (text_of bs)"

section \<open>Classification\<close>

datatype disposition = PassThrough | ManifestFlow bool | BufferSegment bool | OtherFlow

record classification =
  cl_media_kind :: media_kind
  cl_source_channel :: source_channel
  cl_disposition :: disposition
  cl_reason :: string

definition live_delay_ms :: nat where "live_delay_ms = 3000"

definition vod_delay_ms :: nat where "vod_delay_ms = 250"

definition is_live :: "source_channel \<Rightarrow> bool" where
  "is_live channel \<longleftrightarrow> channel = LiveStream"

definition promote_video :: "source_channel \<Rightarrow> source_channel" where
  "promote_video channel = (if channel = LiveStream then LiveStream else VideoStream)"

definition promote_live_or_video :: "source_channel \<Rightarrow> bool \<Rightarrow> source_channel" where
  "promote_live_or_video channel live = (if channel = LiveStream \<or> live then LiveStream else VideoStream)"

definition text_web :: "string \<Rightarrow> classification" where
  "text_web reason = \<lparr>cl_media_kind = MkText, cl_source_channel = Web, cl_disposition = PassThrough, cl_reason = reason\<rparr>"

definition class_image :: "source_channel \<Rightarrow> string \<Rightarrow> classification" where
  "class_image channel reason = \<lparr>cl_media_kind = MkImage, cl_source_channel = channel, cl_disposition = PassThrough, cl_reason = reason\<rparr>"

definition class_audio :: "source_channel \<Rightarrow> string \<Rightarrow> classification" where
  "class_audio channel reason = \<lparr>cl_media_kind = MkAudio, cl_source_channel = channel, cl_disposition = PassThrough, cl_reason = reason\<rparr>"

definition buffered_video :: "source_channel \<Rightarrow> bool \<Rightarrow> string \<Rightarrow> classification" where
  "buffered_video channel live reason =
     \<lparr>cl_media_kind = MkVideo, cl_source_channel = channel, cl_disposition = BufferSegment live, cl_reason = reason\<rparr>"

definition class_manifest :: "source_channel \<Rightarrow> bool \<Rightarrow> string \<Rightarrow> classification" where
  "class_manifest channel live reason =
     \<lparr>cl_media_kind = MkUnspecified, cl_source_channel = channel, cl_disposition = ManifestFlow live, cl_reason = reason\<rparr>"

definition starts_with :: "'a list \<Rightarrow> 'a list \<Rightarrow> bool" where
  "starts_with s p \<longleftrightarrow> take (length p) s = p"

definition is_textual_ct :: "string \<Rightarrow> bool" where
  "is_textual_ct ct \<longleftrightarrow>
     ct \<in> {''text/html'', ''text/plain'', ''application/xhtml+xml'', ''application/json'', ''text/json''} \<or> starts_with ct ''text/''"

definition ascii_ws_byte :: "char \<Rightarrow> bool" where
  "ascii_ws_byte c \<longleftrightarrow> code c \<in> {32, 9, 10, 12, 13}"

definition strip_bom :: "string \<Rightarrow> string" where
  "strip_bom s = (if starts_with s [CHR 0xEF, CHR 0xBB, CHR 0xBF] then drop 3 s else s)"

definition looks_like_html :: "bytes \<Rightarrow> bool" where
  "looks_like_html peek =
     (let lower = to_ascii_lowercase (take 64 (dropWhile ascii_ws_byte (strip_bom (text_of (take 512 peek)))))
      in list_ex (starts_with lower) [''<!doctype html'', ''<html'', ''<?xml'', ''<head'', ''<body''])"

text \<open>Reasons with characters outside ASCII are given in UTF-8.\<close>

definition arrow :: string where "arrow = [CHR 0xE2, CHR 0x86, CHR 0x92]"

definition dots :: string where "dots = [CHR 0xE2, CHR 0x80, CHR 0xA6]"

definition classify_content_type :: "string \<Rightarrow> source_channel \<Rightarrow> classification option" where
  "classify_content_type ct channel =
     (if ct \<in> {''application/vnd.apple.mpegurl'', ''application/x-mpegurl'', ''audio/mpegurl''}
      then Some (class_manifest (promote_video channel) (is_live channel) ''content-type HLS manifest'')
      else if ct = ''application/dash+xml'' then Some (class_manifest (promote_video channel) (is_live channel) ''content-type DASH manifest'')
      else if ct = ''video/mp2t'' then Some (buffered_video (promote_video channel) (is_live channel) ''content-type video/mp2t (HLS .ts)'')
      else if starts_with ct ''video/'' \<or> ct = ''application/mp4''
      then Some (buffered_video (promote_video channel) (is_live channel) ''content-type video/*'')
      else if starts_with ct ''audio/'' then Some (class_audio channel ''content-type audio/*'')
      else if starts_with ct ''image/'' then Some (class_image channel ''content-type image/*'')
      else if is_textual_ct ct then Some (text_web ''content-type textual'')
      else None)"

text \<open>\<open>trim_start_matches\<close> of the byte order mark removes every leading one.\<close>

function strip_boms :: "string \<Rightarrow> string" where
  "strip_boms s = (if starts_with s [CHR 0xEF, CHR 0xBB, CHR 0xBF] then strip_boms (drop 3 s) else s)"
  by pat_completeness auto
termination
proof (relation "measure length")
  fix s assume "starts_with s [CHR 0xEF, CHR 0xBB, CHR 0xBF]"
  then have "s \<noteq> []" by (auto simp: starts_with_def)
  then show "(drop 3 s, s) \<in> measure length" by simp
qed simp

declare strip_boms.simps [simp del]

definition manifest_in :: "string \<Rightarrow> source_channel \<Rightarrow> classification option" where
  "manifest_in message channel =
     (let trimmed = trim_start (strip_boms message) in
        if starts_with trimmed ''#EXTM3U'' then
          (let live = (\<not> contains_str message ''#EXT-X-ENDLIST'' \<and> \<not> contains_str message ''#EXT-X-PLAYLIST-TYPE:VOD'' \<or>
                       contains_str message ''#EXT-X-PLAYLIST-TYPE:EVENT'')
           in Some (class_manifest (promote_live_or_video channel live) live
                (if live then ''HLS #EXTM3U without #EXT-X-ENDLIST '' @ arrow @ '' live'' else ''HLS #EXTM3U with #EXT-X-ENDLIST '' @ arrow @ '' VOD'')))
        else
          (let lower = to_ascii_lowercase trimmed
           in if contains_str lower ''<mpd'' \<and> (contains_str lower ''urn:mpeg:dash:schema:mpd'' \<or> contains_str lower ''dash'')
              then (let live = (contains_str lower (''type='' @ [CHR 0x22] @ ''dynamic'' @ [CHR 0x22]) \<or>
                                contains_str lower (''type='' @ [CHR 0x27] @ ''dynamic'' @ [CHR 0x27]))
                    in Some (class_manifest (promote_live_or_video channel live) live
                         (if live then ''DASH MPD type=dynamic '' @ arrow @ '' live'' else ''DASH MPD (static) '' @ arrow @ '' VOD'')))
              else None))"

definition sniff_manifest :: "bytes \<Rightarrow> source_channel \<Rightarrow> classification option" where
  "sniff_manifest peek channel = (if peek = [] then None else manifest_in (from_utf8_lossy (take 4096 peek)) channel)"

definition magic :: "bytes \<Rightarrow> string \<Rightarrow> bool" where
  "magic b s \<longleftrightarrow> starts_with b (as_bytes s)"

definition at_offset :: "nat \<Rightarrow> bytes \<Rightarrow> string \<Rightarrow> bool" where
  "at_offset n b s \<longleftrightarrow> take (length s) (drop n b) = as_bytes s"

definition sniff_magic :: "bytes \<Rightarrow> source_channel \<Rightarrow> classification option" where
  "sniff_magic b channel =
     (if length b < 4 then None
      else if starts_with b [0xFF, 0xD8, 0xFF] then Some (class_image channel ''magic JPEG (FF D8 FF)'')
      else if starts_with b (0x89 # as_bytes ''PNG'') then Some (class_image channel ''magic PNG (89 50 4E 47)'')
      else if magic b ''GIF87a'' \<or> magic b ''GIF89a'' then Some (class_image channel ''magic GIF'')
      else if magic b ''BM'' then Some (class_image channel ''magic BMP'')
      else if 12 \<le> length b \<and> at_offset 0 b ''RIFF'' \<and> at_offset 8 b ''WEBP''
      then Some (class_image channel (''magic WEBP (RIFF'' @ dots @ ''WEBP)''))
      else if 12 \<le> length b \<and> at_offset 0 b ''RIFF'' \<and> at_offset 8 b ''WAVE''
      then Some (class_audio channel (''magic WAV (RIFF'' @ dots @ ''WAVE)''))
      else if 8 \<le> length b \<and> (at_offset 4 b ''ftyp'' \<or> at_offset 4 b ''styp'' \<or> at_offset 4 b ''moof'' \<or> at_offset 4 b ''moov'')
      then (let brand = (if 12 \<le> length b then take 4 (drop 8 b) else take 4 (drop 4 b))
            in if brand = as_bytes ''M4A '' \<or> brand = as_bytes ''M4B ''
               then Some (class_audio channel ''magic ISO-BMFF audio brand (M4A)'')
               else Some (buffered_video (promote_video channel) (is_live channel) (''magic ISO-BMFF (ftyp/styp/moof) '' @ arrow @ '' mp4 video'')))
      else if b ! 0 = 0x47 \<and> (length b < 189 \<or> b ! 188 = 0x47)
      then Some (buffered_video (promote_video channel) (is_live channel) (''magic MPEG-TS sync (0x47) '' @ arrow @ '' .ts video''))
      else if starts_with b [0x1A, 0x45, 0xDF, 0xA3]
      then Some (buffered_video (promote_video channel) (is_live channel) ''magic EBML (WebM/MKV)'')
      else if magic b ''ID3'' then Some (class_audio channel ''magic ID3 (mp3)'')
      else if b ! 0 = 0xFF \<and> and (b ! 1) 0xE0 = 0xE0 then Some (class_audio channel ''magic MPEG audio frame sync'')
      else if magic b ''OggS'' then Some (class_audio channel ''magic Ogg'')
      else if magic b ''fLaC'' then Some (class_audio channel ''magic FLAC'')
      else None)"

definition extension_of :: "string \<Rightarrow> string option" where
  "extension_of path =
     (let last_part = last (split_char CHR ''/'' (takeWhile (\<lambda>c. c \<noteq> CHR ''?'' \<and> c \<noteq> CHR ''#'') path))
      in if CHR ''.'' \<notin> set last_part then None
         else (let ext = last (split_char CHR ''.'' last_part) in if ext = [] then None else Some (to_ascii_lowercase ext)))"

definition classify_extension :: "string \<Rightarrow> source_channel \<Rightarrow> classification option" where
  "classify_extension path channel =
     (case extension_of path of
        None \<Rightarrow> None
      | Some ext \<Rightarrow>
          if ext = ''m3u8'' then Some (class_manifest (promote_video channel) (is_live channel) ''extension .m3u8 (HLS manifest)'')
          else if ext = ''mpd'' then Some (class_manifest (promote_video channel) (is_live channel) ''extension .mpd (DASH manifest)'')
          else if ext = ''ts'' then Some (buffered_video (promote_video channel) (is_live channel) ''extension .ts (HLS segment)'')
          else if ext = ''m4s'' then Some (buffered_video (promote_video channel) (is_live channel) ''extension .m4s (DASH segment)'')
          else if ext \<in> {''mp4'', ''m4v'', ''mov'', ''webm'', ''mkv''}
          then Some (buffered_video (promote_video channel) (is_live channel) ''extension progressive video'')
          else if ext \<in> {''mp3'', ''aac'', ''m4a'', ''ogg'', ''oga'', ''opus'', ''flac'', ''wav''} then Some (class_audio channel ''extension audio'')
          else if ext \<in> {''jpg'', ''jpeg'', ''png'', ''gif'', ''bmp'', ''webp'', ''avif'', ''tiff'', ''tif''} then Some (class_image channel ''extension image'')
          else if ext \<in> {''html'', ''htm'', ''xhtml'', ''txt'', ''json''} then Some (text_web ''extension textual'')
          else None)"

text \<open>The first of several answers, in the order in which the code asks.\<close>

fun first_some :: "'a option list \<Rightarrow> 'a option" where
  "first_some [] = None"
| "first_some (x # xs) = (case x of Some y \<Rightarrow> Some y | None \<Rightarrow> first_some xs)"

definition pass_other :: "source_channel \<Rightarrow> string \<Rightarrow> classification" where
  "pass_other channel reason = \<lparr>cl_media_kind = MkUnspecified, cl_source_channel = channel, cl_disposition = OtherFlow, cl_reason = reason\<rparr>"

definition classify_http :: "source_channel \<Rightarrow> http_head \<Rightarrow> classification" where
  "classify_http channel h =
     (let ct = content_type h; path = (case hd_path h of None \<Rightarrow> [] | Some p \<Rightarrow> p)
      in case first_some [sniff_manifest (hd_body_peek h) channel,
                          (case ct of None \<Rightarrow> None | Some c \<Rightarrow> classify_content_type c channel),
                          sniff_magic (hd_body_peek h) channel,
                          classify_extension path channel] of
           Some c \<Rightarrow> c
         | None \<Rightarrow>
             if (case ct of None \<Rightarrow> False | Some c \<Rightarrow> is_textual_ct c) \<or> looks_like_html (hd_body_peek h)
             then text_web (''text/html-like body '' @ arrow @ '' web text'')
             else pass_other channel (''no media signal (content-type/manifest/magic/extension) '' @ arrow @ '' pass-through''))"

definition chunk_by_type :: "string option \<Rightarrow> source_channel \<Rightarrow> classification option" where
  "chunk_by_type mime_type channel =
     (case map_option strip_ct_params mime_type of
        None \<Rightarrow> None
      | Some mt \<Rightarrow>
          if starts_with mt ''video/'' \<or> mt = ''video/mp2t'' then Some (buffered_video channel (is_live channel) ''stream chunk content-type video/*'')
          else if starts_with mt ''audio/'' then Some (class_audio channel ''stream chunk content-type audio/*'')
          else None)"

definition classify_chunk :: "source_channel \<Rightarrow> bytes \<Rightarrow> string option \<Rightarrow> string option \<Rightarrow> classification" where
  "classify_chunk channel data mime_type url =
     (case first_some [chunk_by_type mime_type channel,
                       (case url of None \<Rightarrow> None | Some u \<Rightarrow> classify_extension u channel),
                       sniff_magic data channel] of
        Some c \<Rightarrow> c
      | None \<Rightarrow> buffered_video channel (is_live channel) (''opaque chunk on streaming channel '' @ arrow @ '' buffer as video''))"

definition classify_flow :: "captured_flow \<Rightarrow> classification" where
  "classify_flow flow =
     (if \<not> fl_readable flow then pass_other (fl_source_channel flow) (''flow not readable (pinned/E2E) '' @ arrow @ '' OCR fallback'')
      else (case fl_payload flow of
              HttpFlow h \<Rightarrow> classify_http (fl_source_channel flow) h
            | StreamChunk data mime_type url \<Rightarrow> classify_chunk (fl_source_channel flow) data mime_type url))"

section \<open>Errors\<close>

datatype core_error = CoreConfig string | ConfigNotFound string | CoreIo string | Detection string | CoreInvalidValue string
  | CoreIpc string | OtherError string

fun flow_error_display :: "flow_error \<Rightarrow> string" where
  "flow_error_display Unclassifiable = ''flow is unclassifiable (no usable content-type, extension, or magic bytes)''"
| "flow_error_display (MalformedManifest m) = ''malformed streaming manifest: '' @ m"
| "flow_error_display (BufferFull m) = ''delay buffer at capacity (back-pressure): '' @ m"
| "flow_error_display (SegmentNotFound i) = ''buffered segment '' @ show_nat i @ '' not found (already released or dropped)''"
| "flow_error_display (DeadlineMissed ms) = ''live deadline ('' @ show_nat ms @ '' ms) missed before a verdict arrived''"

fun core_of_flow :: "flow_error \<Rightarrow> core_error" where
  "core_of_flow (BufferFull m) = CoreIpc (flow_error_display (BufferFull m))"
| "core_of_flow (DeadlineMissed ms) = CoreIpc (flow_error_display (DeadlineMissed ms))"
| "core_of_flow e = CoreInvalidValue (flow_error_display e)"

section \<open>Units for the analyzers\<close>

record flow_classifier =
  fc_buffer :: delay_buffer
  fc_seq :: nat

definition flow_classifier_new :: "buffer_config \<Rightarrow> flow_classifier" where
  "flow_classifier_new config = \<lparr>fc_buffer = delay_buffer_new config, fc_seq = 1\<rparr>"

definition buffer_config_default :: buffer_config where
  "buffer_config_default = \<lparr>bc_max_segments = 64, bc_max_bytes = 67108864, bc_live_delay_ms = live_delay_ms,
     bc_vod_budget_ms = vod_delay_ms\<rparr>"

definition flow_with_defaults :: flow_classifier where
  "flow_with_defaults = flow_classifier_new buffer_config_default"

definition flow_next_seq :: "flow_classifier \<Rightarrow> nat \<times> flow_classifier" where
  "flow_next_seq fc = (fc_seq fc, fc\<lparr>fc_seq := (fc_seq fc + 1) mod 2 ^ 64\<rparr>)"

fun body_bytes :: "flow_payload \<Rightarrow> bytes" where
  "body_bytes (HttpFlow h) = hd_body_peek h"
| "body_bytes (StreamChunk data _ _) = data"

fun mime_of :: "flow_payload \<Rightarrow> string" where
  "mime_of (HttpFlow h) = (case content_type h of None \<Rightarrow> [] | Some c \<Rightarrow> c)"
| "mime_of (StreamChunk _ mime_type _) = (case mime_type of None \<Rightarrow> [] | Some m \<Rightarrow> m)"

definition flow_text_span :: "captured_flow \<Rightarrow> text_span" where
  "flow_text_span flow =
     \<lparr>ts_text = from_utf8_lossy (body_bytes (fl_payload flow)), ts_lang = [], ts_app = fl_app_or_host flow,
      ts_thread_id = ''flow-'' @ show_nat (fl_flow_id flow), ts_from_minor = False, ts_prior_excerpts = []\<rparr>"

definition inline_of :: "captured_flow \<Rightarrow> inline_media" where
  "inline_of flow = \<lparr>im_data = body_bytes (fl_payload flow), im_mime_type = mime_of (fl_payload flow)\<rparr>"

definition buffer_full_message :: "captured_flow \<Rightarrow> delay_buffer \<Rightarrow> string" where
  "buffer_full_message flow b =
     ''flow '' @ show_nat (fl_flow_id flow) @ '' segment ('' @ show_nat (length (body_bytes (fl_payload flow))) @ '' bytes) refused; '' @
     show_nat (length (db_queue b)) @ '' pending, '' @ show_nat (db_held_bytes b) @ '' bytes held''"

definition buffer_video :: "nat \<Rightarrow> captured_flow \<Rightarrow> bool \<Rightarrow> flow_classifier \<Rightarrow> (core_error, analysis_unit list) result \<times> flow_classifier" where
  "buffer_video now flow live fc =
     (if body_bytes (fl_payload flow) = [] then (Ok [], fc)
      else (case admit_at (fc_buffer fc) (body_bytes (fl_payload flow)) live now of
              (Admitted segment_id, b) \<Rightarrow>
                (Ok [VideoUnit (inline_of flow) (if live then live_delay_ms else 0) (Some segment_id)], fc\<lparr>fc_buffer := b\<rparr>)
            | (BackPressure, b) \<Rightarrow> (Err (core_of_flow (BufferFull (buffer_full_message flow b))), fc\<lparr>fc_buffer := b\<rparr>)))"

definition build_units ::
    "nat \<Rightarrow> captured_flow \<Rightarrow> classification \<Rightarrow> flow_classifier \<Rightarrow> (core_error, analysis_unit list) result \<times> flow_classifier" where
  "build_units now flow class fc =
     (case cl_disposition class of
        ManifestFlow _ \<Rightarrow> (Ok [], fc)
      | OtherFlow \<Rightarrow> (Ok [], fc)
      | PassThrough \<Rightarrow>
          (case cl_media_kind class of
             MkText \<Rightarrow> (Ok [TextUnit (flow_text_span flow)], fc)
           | MkImage \<Rightarrow> (Ok [ImageUnit (inline_of flow)], fc)
           | MkAudio \<Rightarrow> (Ok [AudioUnit (inline_of flow)], fc)
           | MkVideo \<Rightarrow> buffer_video now flow False fc
           | MkUnspecified \<Rightarrow> (Ok [], fc))
      | BufferSegment live \<Rightarrow> buffer_video now flow live fc)"

definition flow_classify :: "nat \<Rightarrow> captured_flow \<Rightarrow> flow_classifier \<Rightarrow> (core_error, analysis_unit list) result \<times> flow_classifier" where
  "flow_classify now flow fc = build_units now flow (classify_flow flow) (snd (flow_next_seq fc))"

definition flow_apply ::
    "nat \<Rightarrow> nat \<Rightarrow> action \<Rightarrow> bytes option \<Rightarrow> flow_classifier \<Rightarrow> (core_error, released) result \<times> flow_classifier" where
  "flow_apply now segment_id act rewritten fc =
     (case buffer_apply (fc_buffer fc) segment_id act rewritten now of
        (Inl e, b) \<Rightarrow> (Err (core_of_flow e), fc\<lparr>fc_buffer := b\<rparr>)
      | (Inr r, b) \<Rightarrow> (Ok r, fc\<lparr>fc_buffer := b\<rparr>))"

definition flow_due :: "nat \<Rightarrow> flow_classifier \<Rightarrow> (nat \<times> bool \<times> bytes) list \<times> flow_classifier" where
  "flow_due now fc = (case due_segments_at (fc_buffer fc) now of (ds, b) \<Rightarrow> (ds, fc\<lparr>fc_buffer := b\<rparr>))"

definition flow_current_delay :: "nat \<Rightarrow> flow_classifier \<Rightarrow> nat \<times> flow_classifier" where
  "flow_current_delay now fc = (case current_delay_ms_at (fc_buffer fc) now of (d, b) \<Rightarrow> (d, fc\<lparr>fc_buffer := b\<rparr>))"

definition channel_for_unit :: "analysis_unit \<Rightarrow> source_channel \<Rightarrow> source_channel" where
  "channel_for_unit unit fallback =
     (case unit of
        TextUnit _ \<Rightarrow> Web
      | VideoUnit _ deadline_ms _ \<Rightarrow> if 0 < deadline_ms then LiveStream else VideoStream
      | _ \<Rightarrow> fallback)"

section \<open>Text of a flow is valid UTF-8\<close>

lemma utf8_step_ok:
  assumes "utf8_step a s = (True, n)"
  shows "utf8_ok (a # take n s @ t) = utf8_ok t"
  using assms
  by (auto simp: utf8_step_def second_ok_def Let_def split: if_splits list.splits)

lemma utf8_replacement: "utf8_ok (CHR 0xEF # CHR 0xBF # CHR 0xBD # t) = utf8_ok t"
  by (simp add: cont_byte_def code_def)

lemma utf8_lossy_ok: "utf8_ok (utf8_lossy s)"
proof (induction s rule: utf8_lossy.induct)
  case (2 a s)
  obtain ok n where st: "utf8_step a s = (ok, n)" by force
  then have "utf8_ok (utf8_lossy (drop n s))" using 2 by simp
  with st show ?case by (cases ok) (simp_all add: utf8_step_ok utf8_replacement del: utf8_ok.simps)
qed simp

lemma utf8_ok_step:
  assumes "utf8_ok (a # s)"
  shows "\<exists>n. utf8_step a s = (True, n) \<and> utf8_ok (drop n s)"
  using assms by (auto simp: utf8_step_def second_ok_def split: if_splits list.splits)

lemma utf8_lossy_id: "utf8_ok s \<Longrightarrow> utf8_lossy s = s"
proof (induction s rule: utf8_lossy.induct)
  case (2 a s)
  then obtain n where st: "utf8_step a s = (True, n)" "utf8_ok (drop n s)" using utf8_ok_step by blast
  then have "utf8_lossy (drop n s) = drop n s" using 2 by simp
  with st show ?case by simp
qed simp

text \<open>
  The text handed to the text analyzer is always valid UTF-8, whatever the bytes of the
  flow are, and it is the body itself whenever that is valid.
\<close>

theorem flow_text_valid:
  "utf8_ok (ts_text (flow_text_span flow)) \<and>
   (utf8_ok (text_of (body_bytes (fl_payload flow))) \<longrightarrow> ts_text (flow_text_span flow) = text_of (body_bytes (fl_payload flow)))"
  by (simp add: flow_text_span_def from_utf8_lossy_def utf8_lossy_ok utf8_lossy_id)

section \<open>What the classifier hands out\<close>

text \<open>The segments among the units handed to the analyzers, with their bytes.\<close>

fun video_units :: "analysis_unit list \<Rightarrow> (nat \<times> bytes) list" where
  "video_units [] = []"
| "video_units (VideoUnit m _ (Some i) # us) = (i, im_data m) # video_units us"
| "video_units (_ # us) = video_units us"

lemma video_units_append [simp]: "video_units (us @ vs) = video_units us @ video_units vs"
  by (induction us rule: video_units.induct) auto

definition units_of :: "(core_error, analysis_unit list) result \<Rightarrow> analysis_unit list" where
  "units_of r = (case r of Inl e \<Rightarrow> [] | Inr us \<Rightarrow> us)"

inductive classifier_run ::
    "buffer_config \<Rightarrow> flow_classifier \<Rightarrow> analysis_unit list \<Rightarrow> (nat \<times> action \<times> released) list \<Rightarrow> bool" for cfg where
  new: "classifier_run cfg (flow_classifier_new cfg) [] []"
| flow: "classifier_run cfg fc us out \<Longrightarrow> db_next_id (fc_buffer fc) < u64_max \<Longrightarrow>
    classifier_run cfg (snd (flow_classify now flow fc)) (us @ units_of (fst (flow_classify now flow fc))) out"
| verdict: "classifier_run cfg fc us out \<Longrightarrow>
    classifier_run cfg (snd (flow_apply now i a rewritten fc)) us (out @ released_of i a (fst (flow_apply now i a rewritten fc)))"
| due: "classifier_run cfg fc us out \<Longrightarrow> classifier_run cfg (snd (flow_due now fc)) us out"
| delay: "classifier_run cfg fc us out \<Longrightarrow> classifier_run cfg (snd (flow_current_delay now fc)) us out"

text \<open>Classifying a flow either leaves the buffer alone or admits its body as one video unit.\<close>

lemma buffer_video_admits:
  "fc_buffer (snd (buffer_video now flow live fc)) = fc_buffer fc \<and> video_units (units_of (fst (buffer_video now flow live fc))) = [] \<or>
   (let r = admit_at (fc_buffer fc) (body_bytes (fl_payload flow)) live now
    in fc_buffer (snd (buffer_video now flow live fc)) = snd r \<and>
       video_units (units_of (fst (buffer_video now flow live fc))) = admitted_of (fst r) (body_bytes (fl_payload flow)))"
  by (auto simp: buffer_video_def units_of_def admitted_of_def inline_of_def split: prod.split admission.split)

lemma flow_classify_admits:
  "fc_buffer (snd (flow_classify now flow fc)) = fc_buffer fc \<and> video_units (units_of (fst (flow_classify now flow fc))) = [] \<or>
   (\<exists>live. let r = admit_at (fc_buffer fc) (body_bytes (fl_payload flow)) live now
    in fc_buffer (snd (flow_classify now flow fc)) = snd r \<and>
       video_units (units_of (fst (flow_classify now flow fc))) = admitted_of (fst r) (body_bytes (fl_payload flow)))"
proof -
  have seq: "fc_buffer (snd (flow_next_seq fc)) = fc_buffer fc" by (simp add: flow_next_seq_def)
  show ?thesis
    using buffer_video_admits [of now flow _ "snd (flow_next_seq fc)"]
    by (auto simp: flow_classify_def build_units_def seq units_of_def Let_def split: disposition.split media_kind.split)
qed

lemma flow_apply_buffer:
  "fc_buffer (snd (flow_apply now i a rewritten fc)) = snd (buffer_apply (fc_buffer fc) i a rewritten now)"
  "released_of j b (fst (flow_apply now i a rewritten fc)) = released_of j b (fst (buffer_apply (fc_buffer fc) i a rewritten now))"
  by (auto simp: flow_apply_def released_of_def split: prod.split sum.split)

lemma classifier_run_buffer:
  "classifier_run cfg fc us out \<Longrightarrow> buffer_run cfg (fc_buffer fc) (video_units us) out"
proof (induction rule: classifier_run.induct)
  case new
  show ?case by (simp add: flow_classifier_new_def buffer_run.new)
next
  case (flow fc us out now flow)
  then show ?case using flow_classify_admits [of now flow fc] buffer_run.admit [OF flow.IH flow.hyps(2)]
    by (auto simp: Let_def)
next
  case (verdict fc us out now i a rewritten)
  then show ?case using buffer_run.act [OF verdict.IH] by (simp add: flow_apply_buffer)
next
  case (due fc us out now)
  then show ?case using buffer_run.due [OF due.IH, of now] by (simp add: flow_due_def split_beta)
next
  case (delay fc us out now)
  then show ?case using buffer_run.delay [OF delay.IH, of now] by (simp add: flow_current_delay_def split_beta)
qed

text \<open>
  Claim C40. A video is held from the moment it is handed to the analyzers until its verdict: in
  every run of the classifier, the video units handed out are exactly the segments still in the
  delay buffer together with those that left it, each once and each with the bytes of its flow; a
  segment was dropped if and only if it was blocked, and an allowed one left unchanged.
\<close>

theorem video_held_until_verdict:
  assumes "classifier_run cfg fc us out" "bc_max_bytes cfg < u64_max"
  shows "mset (map sg_id (db_queue (fc_buffer fc))) + mset (map fst out) = mset (map fst (video_units us)) \<and>
    distinct (map fst (video_units us)) \<and>
    (\<forall>s\<in>set (db_queue (fc_buffer fc)). (sg_id s, sg_bytes s) \<in> set (video_units us)) \<and>
    (\<forall>i a r. (i, a, r) \<in> set out \<longrightarrow>
       (\<exists>bs. (i, bs) \<in> set (video_units us) \<and> (r = Dropped \<longleftrightarrow> a = Block) \<and> (a \<in> {Allow, Warn, Log} \<longrightarrow> r = Forward bs)))"
proof -
  have ok: "run_ok (fc_buffer fc) (video_units us) out"
    using buffer_run_invariants [OF classifier_run_buffer [OF assms(1)] assms(2)] by simp
  then have "outcome_ok (video_units us) e" if "e \<in> set out" for e using that by (simp add: run_ok_def)
  then have "\<forall>i a r. (i, a, r) \<in> set out \<longrightarrow>
       (\<exists>bs. (i, bs) \<in> set (video_units us) \<and> (r = Dropped \<longleftrightarrow> a = Block) \<and> (a \<in> {Allow, Warn, Log} \<longrightarrow> r = Forward bs))"
    by (fastforce simp: outcome_ok_def)
  with ok show ?thesis by (auto simp: run_ok_def seg_core_def)
qed

section \<open>Which flows are analysed\<close>

lemma starts_with_iff: "starts_with s p \<longleftrightarrow> (\<exists>r. s = p @ r)"
  by (auto simp: starts_with_def) (metis append_take_drop_id)

lemma starts_with_simps [simp]:
  "starts_with s []" "starts_with (x # s) (y # p) \<longleftrightarrow> x = y \<and> starts_with s p" "\<not> starts_with [] (y # p)"
  by (auto simp: starts_with_def)

text \<open>The unit that a flow of a media kind becomes, apart from the segment's number.\<close>

fun unit_data :: "analysis_unit \<Rightarrow> media_kind \<times> bytes" where
  "unit_data (TextUnit t) = (MkText, as_bytes (ts_text t))"
| "unit_data (ImageUnit m) = (MkImage, im_data m)"
| "unit_data (AudioUnit m) = (MkAudio, im_data m)"
| "unit_data (VideoUnit m _ _) = (MkVideo, im_data m)"

lemma declared_kind:
  assumes "fl_readable flow" "fl_payload flow = HttpFlow h" "sniff_manifest (hd_body_peek h) (fl_source_channel flow) = None"
    "content_type h = Some ct" "classify_content_type ct (fl_source_channel flow) = Some c"
  shows "classify_flow flow = c"
  using assms by (simp add: classify_flow_def classify_http_def Let_def)

lemma declared_image: "starts_with ct ''image/'' \<Longrightarrow> classify_content_type ct ch = Some (class_image ch ''content-type image/*'')"
  by (auto simp: starts_with_iff [of ct] classify_content_type_def)

lemma declared_audio:
  "starts_with ct ''audio/'' \<Longrightarrow> ct \<noteq> ''audio/mpegurl'' \<Longrightarrow> classify_content_type ct ch = Some (class_audio ch ''content-type audio/*'')"
  by (auto simp: starts_with_iff [of ct] classify_content_type_def)

lemma declared_video:
  assumes "starts_with ct ''video/''"
  obtains why where "classify_content_type ct ch = Some (buffered_video (promote_video ch) (is_live ch) why)"
proof (cases "ct = ''video/mp2t''")
  case True
  then show thesis by (intro that [of "''content-type video/mp2t (HLS .ts)''"]) (simp add: classify_content_type_def)
next
  case False
  obtain r where "ct = ''video/'' @ r" using assms starts_with_iff by blast
  with False show thesis by (intro that [of "''content-type video/*''"]) (simp add: classify_content_type_def)
qed

lemma declared_text: "starts_with ct ''text/'' \<Longrightarrow> classify_content_type ct ch = Some (text_web ''content-type textual'')"
  by (auto simp: starts_with_iff [of ct] classify_content_type_def is_textual_ct_def)

definition declares :: "string \<Rightarrow> media_kind \<Rightarrow> bool" where
  "declares ct k \<longleftrightarrow>
     starts_with ct ''text/'' \<and> k = MkText \<or> starts_with ct ''image/'' \<and> k = MkImage \<or>
     starts_with ct ''audio/'' \<and> ct \<noteq> ''audio/mpegurl'' \<and> k = MkAudio \<or> starts_with ct ''video/'' \<and> k = MkVideo"

lemma declares_classified:
  assumes "declares ct k"
  obtains c where "classify_content_type ct ch = Some c" "cl_media_kind c = k"
    "cl_disposition c = (if k = MkVideo then BufferSegment (is_live ch) else PassThrough)"
proof -
  consider "starts_with ct ''text/''" "k = MkText" | "starts_with ct ''image/''" "k = MkImage"
    | "starts_with ct ''audio/''" "ct \<noteq> ''audio/mpegurl''" "k = MkAudio" | "starts_with ct ''video/''" "k = MkVideo"
    using assms unfolding declares_def by blast
  then show thesis
  proof cases
    case 1
    with declared_text [of ct ch] show thesis by (intro that [of "text_web ''content-type textual''"]) (simp_all add: text_web_def)
  next
    case 2
    with declared_image [of ct ch] show thesis by (intro that [of "class_image ch ''content-type image/*''"]) (simp_all add: class_image_def)
  next
    case 3
    with declared_audio [of ct ch] show thesis by (intro that [of "class_audio ch ''content-type audio/*''"]) (simp_all add: class_audio_def)
  next
    case 4
    with declared_video [of ct ch] show thesis using that by (metis (no_types, lifting) buffered_video_def classification.select_convs(1,3))
  qed
qed

lemma buffer_video_full:
  assumes "body_bytes (fl_payload flow) \<noteq> []" "is_full_for (fc_buffer fc) (length (body_bytes (fl_payload flow)))"
  shows "buffer_video now flow live fc = (Err (core_of_flow (BufferFull (buffer_full_message flow (fc_buffer fc)))), fc)"
  using assms by (simp add: buffer_video_def admit_refused)

lemma buffer_video_admitted:
  assumes "body_bytes (fl_payload flow) \<noteq> []" "\<not> is_full_for (fc_buffer fc) (length (body_bytes (fl_payload flow)))"
  shows "fst (buffer_video now flow live fc) =
    Ok [VideoUnit (inline_of flow) (if live then live_delay_ms else 0) (Some (db_next_id (fc_buffer fc)))]"
  using assms by (simp add: buffer_video_def admit_at_def is_full_for_def Let_def)


definition sample_image :: captured_flow where
  "sample_image = http_flow 4 ''example.org'' (http_head_default\<lparr>hd_path := Some ''/page.html'',
     hd_headers := [\<lparr>hh_name = ''content-type'', hh_value = ''Image/PNG; q=1''\<rparr>], hd_body_peek := [0x89, 0x50, 0x4E, 0x47]\<rparr>)"

lemma sample_image_facts:
  "fl_readable sample_image" "sniff_manifest [0x89, 0x50, 0x4E, 0x47] (fl_source_channel sample_image) = None"
  "content_type (http_head_default\<lparr>hd_path := Some ''/page.html'',
     hd_headers := [\<lparr>hh_name = ''content-type'', hh_value = ''Image/PNG; q=1''\<rparr>], hd_body_peek := [0x89, 0x50, 0x4E, 0x47]\<rparr>) = Some ''image/png''"
  "declares ''image/png'' MkImage"
  by code_simp+


text \<open>
  A web page that mentions an MPD element and the word dash among its first bytes is taken for a
  DASH manifest and reaches no analyzer, although it declares itself HTML.
\<close>

definition sample_page :: captured_flow where
  "sample_page = http_flow 5 ''example.org'' (http_head_default\<lparr>
     hd_headers := [\<lparr>hh_name = ''content-type'', hh_value = ''text/html''\<rparr>], hd_body_peek := as_bytes ''<p>a <mpd> dash''\<rparr>)"

lemma page_manifest: "manifest_in ''<p>a <mpd> dash'' Web = Some (class_manifest VideoStream False (''DASH MPD (static) '' @ arrow @ '' VOD''))"
  by code_simp

lemma page_taken_for_manifest: "fst (flow_classify 0 sample_page flow_with_defaults) = Ok []"
proof -
  have "from_utf8_lossy (as_bytes ''<p>a <mpd> dash'') = ''<p>a <mpd> dash''" by code_simp
  then have "sniff_manifest (as_bytes ''<p>a <mpd> dash'') Web = manifest_in ''<p>a <mpd> dash'' Web"
    by (simp add: sniff_manifest_def as_bytes_def)
  with page_manifest show ?thesis
    by (simp add: flow_classify_def classify_flow_def classify_http_def sample_page_def http_flow_def Let_def build_units_def class_manifest_def)
qed

definition sample_video :: captured_flow where
  "sample_video = http_flow 6 ''example.org'' (http_head_default\<lparr>
     hd_headers := [\<lparr>hh_name = ''content-type'', hh_value = ''video/mp4''\<rparr>], hd_body_peek := [1, 2]\<rparr>)"

lemma sample_video_class: "classify_flow sample_video = buffered_video VideoStream False ''content-type video/*''"
  by code_simp

lemma sample_video_admitted:
  "flow_classify 0 sample_video (flow_classifier_new \<lparr>bc_max_segments = 2, bc_max_bytes = 8, bc_live_delay_ms = 5, bc_vod_budget_ms = 9\<rparr>) =
     (Ok [VideoUnit \<lparr>im_data = [1, 2], im_mime_type = ''video/mp4''\<rparr> 0 (Some 1)],
      \<lparr>fc_buffer = snd (admit_at (delay_buffer_new \<lparr>bc_max_segments = 2, bc_max_bytes = 8, bc_live_delay_ms = 5, bc_vod_budget_ms = 9\<rparr>) [1, 2] False 0),
       fc_seq = 2\<rparr>)"
proof -
  have "mime_of (fl_payload sample_video) = ''video/mp4''" "body_bytes (fl_payload sample_video) = [1, 2]" by code_simp+
  then show ?thesis
    by (simp add: flow_classify_def sample_video_class build_units_def buffered_video_def buffer_video_def inline_of_def
        flow_next_seq_def flow_classifier_new_def delay_buffer_new_def admit_at_def usize_saturating_add_def u64_max_def Let_def)
qed

lemma sample_classifier_run:
  "classifier_run \<lparr>bc_max_segments = 2, bc_max_bytes = 8, bc_live_delay_ms = 5, bc_vod_budget_ms = 9\<rparr>
     (snd (flow_classify 0 sample_video (flow_classifier_new \<lparr>bc_max_segments = 2, bc_max_bytes = 8, bc_live_delay_ms = 5, bc_vod_budget_ms = 9\<rparr>)))
     [VideoUnit \<lparr>im_data = [1, 2], im_mime_type = ''video/mp4''\<rparr> 0 (Some 1)] []"
proof -
  let ?cfg = "\<lparr>bc_max_segments = 2, bc_max_bytes = 8, bc_live_delay_ms = 5, bc_vod_budget_ms = 9\<rparr>"
  have "db_next_id (fc_buffer (flow_classifier_new ?cfg)) < u64_max" by (simp add: flow_classifier_new_def delay_buffer_new_def u64_max_def)
  from classifier_run.flow [OF classifier_run.new this, of 0 sample_video] show ?thesis
    by (simp add: sample_video_admitted units_of_def)
qed

theorem video_held_until_verdict_witness:
  "mset (map sg_id (db_queue (fc_buffer (snd (flow_classify 0 sample_video
     (flow_classifier_new \<lparr>bc_max_segments = 2, bc_max_bytes = 8, bc_live_delay_ms = 5, bc_vod_budget_ms = 9\<rparr>)))))) = {#1#}"
  using video_held_until_verdict [OF sample_classifier_run] by (simp add: u64_max_def)

theorem flow_text_valid_witness:
  "ts_text (flow_text_span sample_page) = ''<p>a <mpd> dash''"
proof -
  have "text_of (body_bytes (fl_payload sample_page)) = ''<p>a <mpd> dash''" "utf8_ok ''<p>a <mpd> dash''" by code_simp+
  with flow_text_valid [of sample_page] show ?thesis by simp
qed

end
