(* ===== verification/OffloadRouter.thy ===== *)
theory OffloadRouter
  imports TextEngine FlowClassify
begin

text \<open>
  Where a unit is analysed: \<open>bulwark-infer/src/policy.rs\<close> (the decision table), \<open>router.rs\<close> (the
  negotiated policy, the routing and the dispatch), the local analyzer without a model of
  \<open>analyzer.rs\<close> and \<open>error.rs\<close>. The connection to the cluster is a parameter.
\<close>

section \<open>The decision table\<close>

datatype route = RouteLocal | RouteCluster

record live_conditions =
  lc_rtt_ms :: nat
  lc_queue_depth :: nat
  lc_battery_pct :: int
  lc_on_battery :: bool

record policy_snapshot =
  sn_run_text_local :: bool
  sn_run_image_local :: bool
  sn_run_audio_local :: bool
  sn_run_video_local :: bool
  sn_max_local_rtt_ms :: nat
  sn_min_battery_pct :: nat
  sn_cluster_queue_backpressure :: nat

definition snapshot_from_policy :: "offload_policy \<Rightarrow> policy_snapshot" where
  "snapshot_from_policy p =
     \<lparr>sn_run_text_local = op_run_text_local p, sn_run_image_local = op_run_image_local p, sn_run_audio_local = op_run_audio_local p,
      sn_run_video_local = op_run_video_local p, sn_max_local_rtt_ms = op_max_local_rtt_ms p,
      sn_min_battery_pct = op_min_battery_pct p, sn_cluster_queue_backpressure = op_cluster_queue_backpressure p\<rparr>"

fun run_local_hint :: "policy_snapshot \<Rightarrow> media_kind \<Rightarrow> bool" where
  "run_local_hint s MkText = True"
| "run_local_hint s MkImage = sn_run_image_local s"
| "run_local_hint s MkAudio = sn_run_audio_local s"
| "run_local_hint s MkVideo = sn_run_video_local s"
| "run_local_hint s MkUnspecified = sn_run_text_local s"

definition is_heavy :: "media_kind \<Rightarrow> bool" where
  "is_heavy kind \<longleftrightarrow> kind \<in> {MkImage, MkAudio, MkVideo}"

definition route_decide :: "media_kind \<Rightarrow> policy_snapshot \<Rightarrow> live_conditions \<Rightarrow> route" where
  "route_decide kind policy live =
     (if kind = MkText then RouteLocal
      else if \<not> is_heavy kind then (if run_local_hint policy kind then RouteLocal else RouteCluster)
      else if sn_max_local_rtt_ms policy < lc_rtt_ms live then RouteLocal
      else if sn_cluster_queue_backpressure policy < lc_queue_depth live then RouteLocal
      else if lc_on_battery live \<and> 0 \<le> lc_battery_pct live \<and> nat (lc_battery_pct live) < sn_min_battery_pct policy then RouteCluster
      else if run_local_hint policy kind then RouteLocal
      else RouteCluster)"

section \<open>Errors\<close>

datatype infer_error = Transport string | TlsError string | NoLocalAnalyzer media_kind | Rpc string | NoPolicy

fun media_kind_debug :: "media_kind \<Rightarrow> string" where
  "media_kind_debug MkUnspecified = ''Unspecified''"
| "media_kind_debug MkText = ''Text''"
| "media_kind_debug MkImage = ''Image''"
| "media_kind_debug MkAudio = ''Audio''"
| "media_kind_debug MkVideo = ''Video''"

fun infer_error_display :: "infer_error \<Rightarrow> string" where
  "infer_error_display (Transport m) = ''offload transport error: '' @ m"
| "infer_error_display (TlsError m) = ''mTLS configuration error: '' @ m"
| "infer_error_display (NoLocalAnalyzer k) = ''no local analyzer available for '' @ media_kind_debug k"
| "infer_error_display (Rpc m) = ''cluster rpc failed: '' @ m"
| "infer_error_display NoPolicy = ''no offload policy negotiated''"

fun core_of_infer :: "infer_error \<Rightarrow> core_error" where
  "core_of_infer (NoLocalAnalyzer k) = CoreIpc (infer_error_display (NoLocalAnalyzer k))"
| "core_of_infer e = OtherError (infer_error_display e)"

section \<open>The router\<close>

type_synonym core_analyzer = "analysis_request \<Rightarrow> (core_error, verdict) result"

record offload_client =
  oc_negotiate :: "device_profile \<Rightarrow> (core_error, offload_policy) result"
  oc_refresh :: "refresh_offload \<Rightarrow> (core_error, offload_policy) result"
  oc_analyze :: core_analyzer

record offload_router =
  rt_local :: core_analyzer
  rt_client :: "offload_client option"
  rt_policy :: "offload_policy option"
  rt_battery_pct :: int
  rt_on_battery :: bool

fun media_kind_i32 :: "media_kind \<Rightarrow> int" where
  "media_kind_i32 MkUnspecified = 0"
| "media_kind_i32 MkText = 1"
| "media_kind_i32 MkImage = 2"
| "media_kind_i32 MkAudio = 3"
| "media_kind_i32 MkVideo = 4"

definition media_kind_of_i32 :: "int \<Rightarrow> media_kind" where
  "media_kind_of_i32 n =
     (case find (\<lambda>k. media_kind_i32 k = n) [MkText, MkImage, MkAudio, MkVideo] of None \<Rightarrow> MkUnspecified | Some k \<Rightarrow> k)"

definition local_only_policy :: offload_policy where
  "local_only_policy =
     \<lparr>op_run_text_local = True, op_run_image_local = True, op_run_audio_local = True, op_run_video_local = True,
      op_max_local_rtt_ms = 0, op_min_battery_pct = 0, op_cluster_queue_backpressure = 0, op_ttl_secs = 0,
      op_preferred_local_providers = [], op_policy_id = ''local-only''\<rparr>"

definition router_new :: "core_analyzer \<Rightarrow> offload_client \<Rightarrow> offload_router" where
  "router_new local client =
     \<lparr>rt_local = local, rt_client = Some client, rt_policy = None, rt_battery_pct = 0, rt_on_battery = False\<rparr>"

definition router_local_only :: "core_analyzer \<Rightarrow> offload_router" where
  "router_local_only local =
     \<lparr>rt_local = local, rt_client = None, rt_policy = Some local_only_policy, rt_battery_pct = - 1, rt_on_battery = False\<rparr>"

definition with_cached_policy :: "offload_policy \<Rightarrow> offload_router \<Rightarrow> offload_router" where
  "with_cached_policy policy rt = rt\<lparr>rt_policy := Some policy\<rparr>"

definition set_battery :: "int \<Rightarrow> bool \<Rightarrow> offload_router \<Rightarrow> offload_router" where
  "set_battery battery_pct on_battery rt = rt\<lparr>rt_battery_pct := battery_pct, rt_on_battery := on_battery\<rparr>"

definition route_with_state :: "offload_router \<Rightarrow> media_kind \<Rightarrow> nat \<Rightarrow> nat \<Rightarrow> route option" where
  "route_with_state rt kind rtt_ms depth =
     map_option (\<lambda>policy. route_decide kind (snapshot_from_policy policy)
       \<lparr>lc_rtt_ms = rtt_ms, lc_queue_depth = depth, lc_battery_pct = rt_battery_pct rt, lc_on_battery = rt_on_battery rt\<rparr>)
       (rt_policy rt)"

definition router_negotiate :: "device_profile \<Rightarrow> offload_router \<Rightarrow> (core_error, offload_policy) result \<times> offload_router" where
  "router_negotiate profile rt =
     (let rt = set_battery (pf_battery_pct profile) (pf_on_battery profile) rt
      in case (case rt_client rt of Some client \<Rightarrow> oc_negotiate client profile | None \<Rightarrow> Ok local_only_policy) of
           Inl e \<Rightarrow> (Err e, rt)
         | Inr policy \<Rightarrow> (Ok policy, rt\<lparr>rt_policy := Some policy\<rparr>))"

text \<open>\<open>route\<close>: the lock on the state may be taken, and then the answer is local.\<close>

definition router_route :: "bool \<Rightarrow> offload_router \<Rightarrow> media_kind \<Rightarrow> nat \<Rightarrow> nat \<Rightarrow> route" where
  "router_route locked rt kind rtt_ms depth =
     (if locked then RouteLocal
      else (case route_with_state rt kind rtt_ms depth of None \<Rightarrow> RouteLocal | Some r \<Rightarrow> r))"

definition router_analyze :: "offload_router \<Rightarrow> analysis_request \<Rightarrow> (core_error, verdict) result" where
  "router_analyze rt req =
     (let kind = media_kind_of_i32 (aq_media_kind req)
      in case (case route_with_state rt kind 0 0 of None \<Rightarrow> RouteLocal | Some r \<Rightarrow> r) of
           RouteLocal \<Rightarrow> rt_local rt req
         | RouteCluster \<Rightarrow> (case rt_client rt of Some client \<Rightarrow> oc_analyze client req | None \<Rightarrow> rt_local rt req))"

definition router_refresh :: "refresh_offload \<Rightarrow> offload_router \<Rightarrow> (core_error, offload_policy) result \<times> offload_router" where
  "router_refresh req rt =
     (let rt = set_battery (ro_battery_pct req) (0 \<le> ro_battery_pct req) rt
      in case rt_client rt of
           None \<Rightarrow> (Err (core_of_infer NoPolicy), rt)
         | Some client \<Rightarrow>
             (case oc_refresh client req of
                Inl e \<Rightarrow> (Err e, rt)
              | Inr policy \<Rightarrow> (Ok policy, rt\<lparr>rt_policy := Some policy\<rparr>)))"

definition inconclusive_verdict :: "analysis_request \<Rightarrow> verdict" where
  "inconclusive_verdict req =
     verdict_default\<lparr>v_request_id := aq_request_id req, v_category := category_i32 Safe, v_action := action_i32 Log,
       v_severity := severity_i32 Info, v_score := f32_round 0,
       v_rationale := ''no local model for this media kind; offload to cluster'', v_worker_id := ''local:null''\<rparr>"

definition null_analyzer :: core_analyzer where
  "null_analyzer req = Ok (inconclusive_verdict req)"

section \<open>What the router does\<close>

lemma media_kind_of_i32_i32 [simp]: "media_kind_of_i32 (media_kind_i32 k) = k"
  by (cases k) (simp_all add: media_kind_of_i32_def)

text \<open>The written decision table, top row first.\<close>

fun first_rule :: "(bool \<times> route) list \<Rightarrow> route" where
  "first_rule [] = RouteLocal"
| "first_rule ((guard, r) # rules) = (if guard then r else first_rule rules)"

definition decision_table :: "media_kind \<Rightarrow> offload_policy \<Rightarrow> nat \<Rightarrow> nat \<Rightarrow> int \<Rightarrow> bool \<Rightarrow> route" where
  "decision_table kind p rtt queue battery on_battery =
     first_rule
       [(kind = MkText, RouteLocal),
        (op_max_local_rtt_ms p < rtt, RouteLocal),
        (op_cluster_queue_backpressure p < queue, RouteLocal),
        (is_heavy kind \<and> on_battery \<and> 0 \<le> battery \<and> battery < int (op_min_battery_pct p), RouteCluster),
        (is_heavy kind \<and> run_local_hint (snapshot_from_policy p) kind, RouteLocal),
        (is_heavy kind, RouteCluster)]"

text \<open>
  The router follows the published decision table for every kind of media: text is never
  sent away, a slow link or a loaded cluster keeps work on the device even on a low battery, a low
  battery moves heavy media to the cluster, and otherwise the negotiated hint decides; without
  a negotiated policy, and while the state is locked, everything stays local.
\<close>

theorem routing_follows_table:
  assumes "kind \<noteq> MkUnspecified"
  shows "router_route locked rt kind rtt queue =
    (case rt_policy rt of
       Some p \<Rightarrow> if locked then RouteLocal else decision_table kind p rtt queue (rt_battery_pct rt) (rt_on_battery rt)
     | None \<Rightarrow> RouteLocal)"
  using assms
  by (cases kind)
     (auto simp: router_route_def route_with_state_def route_decide_def decision_table_def is_heavy_def snapshot_from_policy_def
       nat_less_iff split: option.split)

theorem routing_follows_table_witness:
  "router_route False (with_cached_policy (local_only_policy\<lparr>op_run_audio_local := False, op_max_local_rtt_ms := 50\<rparr>)
     (router_local_only null_analyzer)) MkAudio 60 0 = RouteLocal"
  using routing_follows_table [of MkAudio False "with_cached_policy (local_only_policy\<lparr>op_run_audio_local := False, op_max_local_rtt_ms := 50\<rparr>)
     (router_local_only null_analyzer)" 60 0]
  by (simp add: with_cached_policy_def decision_table_def local_only_policy_def)

text \<open>A unit without a kind never looks at the link, although the table's rows on it come first.\<close>

lemma unspecified_leaves_table:
  assumes "rt_policy rt = Some p" "\<not> op_run_text_local p" "op_max_local_rtt_ms p < rtt"
  shows "router_route False rt MkUnspecified rtt queue = RouteCluster \<and>
    decision_table MkUnspecified p rtt queue (rt_battery_pct rt) (rt_on_battery rt) = RouteLocal"
  using assms by (simp add: router_route_def route_with_state_def route_decide_def is_heavy_def snapshot_from_policy_def decision_table_def)

end
