(* ===== verification/Interception.thy ===== *)
theory Interception
  imports FlowClassify Blocklist
begin

text \<open>
  The intercepting proxy of the device: \<open>bulwark-net/src/pinning.rs\<close> (which hosts cannot be read),
  \<open>quic.rs\<close> (the downgrade decision), \<open>proxy.rs\<close> (the decision gate, requests, responses and
  WebSocket messages) and the conversion of \<open>interceptor.rs\<close>. The body of a message is the
  sequence of chunks its stream delivers; a header is the text of its first value. The decoder
  of compressed bodies belongs to the HTTP library and is a parameter. A handler that waits for a
  decision leaves a job, which the decision or the end of its time window finishes.
\<close>

section \<open>Pinning\<close>

datatype host_capability = UnknownHost | Mitmable | Pinned

record pinning_signal =
  ps_app_or_host :: string
  ps_failed_open :: bool

definition pin_strike_threshold :: nat where "pin_strike_threshold = 3"

record pinning_registry =
  pr_map :: "string \<rightharpoonup> host_capability"
  pr_strikes :: "string \<rightharpoonup> nat"
  pr_fail_open :: bool

definition pinning_new :: "bool \<Rightarrow> pinning_registry" where
  "pinning_new fail_open = \<lparr>pr_map = Map.empty, pr_strikes = Map.empty, pr_fail_open = fail_open\<rparr>"

definition capability :: "pinning_registry \<Rightarrow> string \<Rightarrow> host_capability" where
  "capability r host = (case pr_map r host of None \<Rightarrow> UnknownHost | Some c \<Rightarrow> c)"

definition is_pinned :: "pinning_registry \<Rightarrow> string \<Rightarrow> bool" where
  "is_pinned r host \<longleftrightarrow> capability r host = Pinned"

definition record_mitmable :: "string \<Rightarrow> pinning_registry \<Rightarrow> pinning_registry" where
  "record_mitmable host r = r\<lparr>pr_map := (pr_map r)(host \<mapsto> Mitmable), pr_strikes := (pr_strikes r)(host := None)\<rparr>"

definition record_pinned :: "string \<Rightarrow> pinning_registry \<Rightarrow> pinning_signal \<times> pinning_registry" where
  "record_pinned host r =
     (\<lparr>ps_app_or_host = host, ps_failed_open = pr_fail_open r\<rparr>, r\<lparr>pr_map := (pr_map r)(host \<mapsto> Pinned)\<rparr>)"

definition record_intercept_attempt :: "string \<Rightarrow> pinning_registry \<Rightarrow> pinning_signal option \<times> pinning_registry" where
  "record_intercept_attempt host r =
     (if capability r host \<noteq> UnknownHost then (None, r)
      else (let strikes = (case pr_strikes r host of None \<Rightarrow> 0 | Some n \<Rightarrow> n) + 1;
                r = r\<lparr>pr_strikes := (pr_strikes r)(host \<mapsto> strikes)\<rparr>
            in if pin_strike_threshold \<le> strikes
               then (let r = r\<lparr>pr_strikes := (pr_strikes r)(host := None)\<rparr>; (signal, r) = record_pinned host r in (Some signal, r))
               else (None, r)))"

section \<open>QUIC\<close>

record quic_downgrade =
  qd_enabled :: bool
  qd_allowlist :: "string list"

definition should_block_udp :: "quic_downgrade \<Rightarrow> nat \<Rightarrow> string \<Rightarrow> bool" where
  "should_block_udp q dst_port host =
     (if \<not> qd_enabled q then False
      else if dst_port \<noteq> 443 then False
      else \<not> list_ex (\<lambda>a. to_ascii_lowercase a = to_ascii_lowercase host) (qd_allowlist q))"

section \<open>Messages\<close>

datatype chunk = Chunk bytes | ChunkError

record http_request =
  rq_authority :: "string option"
  rq_method :: string
  rq_uri :: string
  rq_header :: "string \<Rightarrow> string option"
  rq_body :: "chunk list"

record http_response =
  rs_status :: nat
  rs_header :: "string \<Rightarrow> string option"
  rs_body :: "chunk list"

datatype request_or_response = ToServer http_request | ToClient http_response

datatype flow_source = SrcWeb | SrcVideoStream | SrcLiveStream

record proxy_flow =
  pf_flow_id :: nat
  pf_source :: flow_source
  pf_app_or_host :: string
  pf_readable :: bool
  pf_method :: string
  pf_uri :: string
  pf_body :: bytes
  pf_is_response :: bool
  pf_content_type :: "string option"
  pf_image_body :: "bytes option"
  pf_video_body :: "bytes option"

datatype intercept_decision = DecForward | DecRewrite bytes | DecDrop

definition body_peek_cap :: nat where "body_peek_cap = 64 * 1024"

definition html_gate_cap :: nat where "html_gate_cap = 2 * 1024 * 1024"

definition image_body_cap :: nat where "image_body_cap = 8 * 1024 * 1024"

definition audio_body_cap :: nat where "audio_body_cap = 8 * 1024 * 1024"

definition video_segment_cap :: nat where "video_segment_cap = 16 * 1024 * 1024"

definition media_decision_timeout :: nat where "media_decision_timeout = 1500"

definition html_decision_timeout :: nat where "html_decision_timeout = 350"

definition websocket_decision_timeout :: nat where "websocket_decision_timeout = 250"

datatype media_class = ImageMedia | VideoMedia | AudioMedia | UnsupportedImage

definition normalize_host_header :: "string \<Rightarrow> string" where
  "normalize_host_header raw =
     (let value = trim raw
      in case strip_prefix ''['' value of
           Some rest \<Rightarrow> (case split_once '']'' rest of Some (host, _) \<Rightarrow> to_ascii_lowercase host | None \<Rightarrow> to_ascii_lowercase value)
         | None \<Rightarrow> to_ascii_lowercase (trim (first_part CHR '':'' value)))"

definition host_of_request :: "http_request \<Rightarrow> string" where
  "host_of_request rq =
     (case rq_authority rq of
        Some host \<Rightarrow> to_ascii_lowercase (trim host)
      | None \<Rightarrow> (case rq_header rq ''host'' of Some v \<Rightarrow> normalize_host_header v | None \<Rightarrow> []))"

definition classify_source :: "string \<Rightarrow> flow_source" where
  "classify_source uri =
     (let lower = to_ascii_lowercase uri
      in if contains_str lower ''.m3u8'' \<or> contains_str lower ''.ts?'' \<or> ends_with lower ''.ts'' \<or> contains_str lower ''.mpd'' \<or>
            contains_str lower ''.m4s''
         then SrcVideoStream else SrcWeb)"

definition peek :: "bytes \<Rightarrow> bytes" where
  "peek full = take body_peek_cap full"

definition content_type_of :: "(string \<Rightarrow> string option) \<Rightarrow> string option" where
  "content_type_of headers = map_option strip_ct_params (headers ''content-type'')"

definition content_length_of :: "(string \<Rightarrow> string option) \<Rightarrow> nat option" where
  "content_length_of headers = Option.bind (headers ''content-length'') parse_u64"

definition has_content_encoding :: "(string \<Rightarrow> string option) \<Rightarrow> bool" where
  "has_content_encoding headers =
     (case headers ''content-encoding'' of
        None \<Rightarrow> False
      | Some v \<Rightarrow> trim v \<noteq> [] \<and> to_ascii_lowercase (trim v) \<noteq> ''identity'')"

definition media_class_of :: "string option \<Rightarrow> media_class option" where
  "media_class_of ctype =
     (case ctype of
        None \<Rightarrow> None
      | Some ct \<Rightarrow>
          if ct \<in> {''image/jpeg'', ''image/jpg'', ''image/pjpeg'', ''image/png'', ''image/apng'', ''image/webp'', ''image/gif'', ''image/bmp'', ''image/x-ms-bmp''}
          then Some ImageMedia
          else if starts_with ct ''image/'' then Some UnsupportedImage
          else if starts_with ct ''video/'' then Some VideoMedia
          else if starts_with ct ''audio/'' then Some AudioMedia
          else None)"

fun media_cap :: "media_class \<Rightarrow> nat" where
  "media_cap ImageMedia = image_body_cap"
| "media_cap VideoMedia = video_segment_cap"
| "media_cap AudioMedia = audio_body_cap"
| "media_cap UnsupportedImage = 0"

definition media_source :: "media_class \<Rightarrow> flow_source" where
  "media_source c = (if c = VideoMedia then SrcVideoStream else SrcWeb)"

definition is_html :: "string option \<Rightarrow> bool" where
  "is_html ctype \<longleftrightarrow> ctype \<in> {Some ''text/html'', Some ''application/xhtml+xml''}"

definition should_capture_text :: "string option \<Rightarrow> bool" where
  "should_capture_text ctype =
     (case ctype of
        None \<Rightarrow> False
      | Some ct \<Rightarrow>
          if ct \<in> {''text/event-stream'', ''application/stream+json'', ''application/x-ndjson''} then False
          else starts_with ct ''text/'' \<or>
               ct \<in> {''application/json'', ''application/x-www-form-urlencoded'', ''application/xml'', ''application/xhtml+xml''})"

definition gate_policy :: "bool \<Rightarrow> nat \<times> intercept_decision" where
  "gate_policy media = (if media then (media_decision_timeout, DecDrop) else (html_decision_timeout, DecForward))"

definition plain_response :: "nat \<Rightarrow> string \<Rightarrow> string \<Rightarrow> http_response" where
  "plain_response status ct body =
     \<lparr>rs_status = status, rs_header = (\<lambda>_. None)(''content-type'' := Some ct), rs_body = [Chunk (as_bytes body)]\<rparr>"

definition blocked_response :: http_response where
  "blocked_response = plain_response 403 ''text/plain; charset=utf-8'' ''Blocked by Bulwark''"

definition block_page_html :: string where
  "block_page_html = ''<!doctype html><html><head><meta charset='' @ [CHR 0x22] @ ''utf-8'' @ [CHR 0x22] @
     ''><title>Blocked by PH Bulwark</title></head><body style='' @ [CHR 0x22] @ ''font-family:sans-serif;text-align:center;margin-top:15vh'' @ [CHR 0x22] @
     ''><h1>Page blocked</h1><p>This page was blocked by PH Bulwark'' @ [CHR 0x27] @
     ''s content filter.</p><p>If you think this is a mistake, ask your parent or guardian to review it.</p></body></html>''"

definition blocked_page_response :: http_response where
  "blocked_page_response = plain_response 403 ''text/html; charset=utf-8'' block_page_html"

definition bad_gateway_response :: http_response where
  "bad_gateway_response = plain_response 502 ''text/plain; charset=utf-8'' ''Upstream body stream failed''"

definition unsupported_encoding_response :: http_response where
  "unsupported_encoding_response = plain_response 415 ''text/plain; charset=utf-8'' ''Unsupported content encoding''"

section \<open>Bounded reads\<close>

datatype bounded_read = Complete bytes | Overflow "chunk list" bytes

text \<open>The loop that copies the buffered chunks up to the cap.\<close>

fun capture :: "nat \<Rightarrow> bytes \<Rightarrow> bytes list \<Rightarrow> bytes" where
  "capture cap captured [] = captured"
| "capture cap captured (b # bs) =
     (let remaining = cap - length captured
      in if remaining = 0 then captured else capture cap (captured @ take remaining b) bs)"

fun collect_loop :: "nat \<Rightarrow> bytes list \<Rightarrow> nat \<Rightarrow> chunk list \<Rightarrow> bounded_read option" where
  "collect_loop cap bufs got [] = Some (Complete (concat bufs))"
| "collect_loop cap bufs got (ChunkError # rest) = None"
| "collect_loop cap bufs got (Chunk c # rest) =
     (let next_total = usize_saturating_add got (length c)
      in if cap < next_total then
           (let captured = capture cap [] bufs; remaining = cap - length captured;
                captured = (if 0 < remaining then captured @ take remaining c else captured)
            in Some (Overflow (map Chunk bufs @ Chunk c # rest) captured))
         else collect_loop cap (bufs @ [c]) next_total rest)"

definition collect_bounded :: "chunk list \<Rightarrow> nat \<Rightarrow> bounded_read option" where
  "collect_bounded body cap = collect_loop cap [] 0 body"

section \<open>The decision gate and the flow channel\<close>

record proxy =
  px_pending :: "nat set"
  px_armed :: bool
  px_pinning :: pinning_registry
  px_blocklist :: host_blocklist
  px_queue :: "proxy_flow list"
  px_capacity :: nat
  px_receiving :: bool
  px_next_flow_id :: nat

definition proxy_new :: "pinning_registry \<Rightarrow> host_blocklist \<Rightarrow> nat \<Rightarrow> proxy" where
  "proxy_new pinning blocklist capacity =
     \<lparr>px_pending = {}, px_armed = False, px_pinning = pinning, px_blocklist = blocklist, px_queue = [], px_capacity = capacity,
      px_receiving = True, px_next_flow_id = 1\<rparr>"

definition set_armed :: "bool \<Rightarrow> proxy \<Rightarrow> proxy" where
  "set_armed armed px = px\<lparr>px_armed := armed\<rparr>"

definition gate_register :: "nat \<Rightarrow> proxy \<Rightarrow> proxy" where
  "gate_register flow_id px = px\<lparr>px_pending := insert flow_id (px_pending px)\<rparr>"

definition gate_cancel :: "nat \<Rightarrow> proxy \<Rightarrow> proxy" where
  "gate_cancel flow_id px = px\<lparr>px_pending := px_pending px - {flow_id}\<rparr>"

text \<open>\<open>resolve\<close>: whether the decision was sent to a handler that waits, and the gate after it.\<close>

definition gate_resolve :: "nat \<Rightarrow> proxy \<Rightarrow> bool \<times> proxy" where
  "gate_resolve flow_id px = (flow_id \<in> px_pending px, px\<lparr>px_pending := px_pending px - {flow_id}\<rparr>)"

definition next_id :: "proxy \<Rightarrow> nat \<times> proxy" where
  "next_id px = (px_next_flow_id px, px\<lparr>px_next_flow_id := (px_next_flow_id px + 1) mod 2 ^ 64\<rparr>)"

definition emit :: "proxy_flow \<Rightarrow> proxy \<Rightarrow> bool \<times> proxy" where
  "emit flow px =
     (let sent = (px_receiving px \<and> length (px_queue px) < px_capacity px);
          px = (if sent then px\<lparr>px_queue := px_queue px @ [flow]\<rparr> else px);
          px = (if pf_app_or_host flow \<noteq> [] then px\<lparr>px_pinning := record_mitmable (pf_app_or_host flow) (px_pinning px)\<rparr> else px)
      in (sent, px))"

definition flow_of ::
    "nat \<Rightarrow> flow_source \<Rightarrow> string \<Rightarrow> string \<Rightarrow> string \<Rightarrow> bytes \<Rightarrow> bool \<Rightarrow> string option \<Rightarrow> bytes option \<Rightarrow> bytes option \<Rightarrow> proxy_flow" where
  "flow_of flow_id source host mthd uri body is_response ctype image_body video_body =
     \<lparr>pf_flow_id = flow_id, pf_source = source, pf_app_or_host = host, pf_readable = True, pf_method = mthd, pf_uri = uri,
      pf_body = body, pf_is_response = is_response, pf_content_type = ctype, pf_image_body = image_body, pf_video_body = video_body\<rparr>"

text \<open>A flow that is reported to the pipeline and not waited for.\<close>

definition report :: "(nat \<Rightarrow> proxy_flow) \<Rightarrow> proxy \<Rightarrow> proxy" where
  "report mk px = (let (flow_id, px) = next_id px in snd (emit (mk flow_id) px))"

definition on_pinned :: "string \<Rightarrow> proxy \<Rightarrow> bool \<times> proxy" where
  "on_pinned host px = (let (signal, r) = record_pinned host (px_pinning px) in (ps_failed_open signal, px\<lparr>px_pinning := r\<rparr>))"

definition is_request_blocked :: "proxy \<Rightarrow> http_request \<Rightarrow> bool" where
  "is_request_blocked px rq =
     (if blocklist_is_empty (px_blocklist px) then False
      else host_of_request rq \<noteq> [] \<and> is_blocked (px_blocklist px) (host_of_request rq))"

definition decide_intercept :: "string \<Rightarrow> proxy \<Rightarrow> bool \<times> proxy" where
  "decide_intercept host px =
     (if host = [] then (True, px)
      else if is_pinned (px_pinning px) host then (\<not> pr_fail_open (px_pinning px), px)
      else (let (signal, r) = record_intercept_attempt host (px_pinning px); px = px\<lparr>px_pinning := r\<rparr>
            in (if signal \<noteq> None then \<not> pr_fail_open r else True, px)))"

section \<open>Requests\<close>

type_synonym 'm decoder = "'m \<Rightarrow> 'm option"

text \<open>
  \<open>handle_request\<close> returns the answer, the host it remembers for the response, if it gets that far,
  and the proxy.
\<close>

definition handle_request :: "http_request decoder \<Rightarrow> http_request \<Rightarrow> proxy \<Rightarrow> request_or_response \<times> string option \<times> proxy" where
  "handle_request decode rq px =
     (if is_request_blocked px rq then (ToClient blocked_page_response, None, px)
      else
       (let host = host_of_request rq; ctype = content_type_of (rq_header rq);
            flow = (\<lambda>flow_id body ct. flow_of flow_id (classify_source (rq_uri rq)) host (rq_method rq) (rq_uri rq) body False ct None None);
            (flow_id, px) = next_id px
        in if \<not> should_capture_text ctype then (ToServer rq, Some host, snd (emit (flow flow_id [] ctype) px))
           else (case decode rq of
                   None \<Rightarrow> (ToClient unsupported_encoding_response, Some host, px)
                 | Some rq' \<Rightarrow>
                     (let ctype' = content_type_of (rq_header rq')
                      in case collect_bounded (rq_body rq') body_peek_cap of
                           Some (Complete full) \<Rightarrow>
                             (ToServer (rq'\<lparr>rq_body := [Chunk full]\<rparr>), Some host, snd (emit (flow flow_id (peek full) ctype') px))
                         | Some (Overflow body pk) \<Rightarrow>
                             (ToServer (rq'\<lparr>rq_body := body\<rparr>), Some host, snd (emit (flow flow_id pk ctype') px))
                         | None \<Rightarrow> (ToClient bad_gateway_response, Some host, px)))))"

section \<open>Responses\<close>

text \<open>What a handler that waits for a decision still has to do.\<close>

record gate_job =
  gj_flow_id :: nat
  gj_parts :: http_response
  gj_full :: bytes
  gj_media :: bool
  gj_html :: bool

datatype outcome = Reply http_response | Await gate_job

definition with_body :: "http_response \<Rightarrow> bytes \<Rightarrow> http_response" where
  "with_body parts full = parts\<lparr>rs_body := [Chunk full]\<rparr>"

definition gate_flow :: "http_response \<Rightarrow> bytes \<Rightarrow> string \<Rightarrow> string option \<Rightarrow> media_class option \<Rightarrow> nat \<Rightarrow> proxy_flow" where
  "gate_flow parts full host ctype media flow_id =
     (let source = (if media = Some VideoMedia then SrcVideoStream else SrcWeb);
          (body, image_body, video_body) =
            (case media of
               Some ImageMedia \<Rightarrow> (peek full, Some full, None)
             | Some VideoMedia \<Rightarrow> (peek full, None, Some full)
             | Some AudioMedia \<Rightarrow> (full, None, None)
             | _ \<Rightarrow> (peek full, None, None))
      in flow_of flow_id source host [] (''status:'' @ show_nat (rs_status parts)) body True ctype image_body video_body)"

definition gate_buffered ::
    "http_response \<Rightarrow> bytes \<Rightarrow> string \<Rightarrow> string option \<Rightarrow> media_class option \<Rightarrow> bool \<Rightarrow> proxy \<Rightarrow> outcome \<times> proxy" where
  "gate_buffered parts full host ctype media html px =
     (let (flow_id, px) = next_id px;
          armed = px_armed px;
          px = (if armed then gate_register flow_id px else px);
          (emitted, px) = emit (gate_flow parts full host ctype media flow_id) px
      in if \<not> armed then (Reply (with_body parts full), px)
         else if \<not> emitted then (Reply (if media \<noteq> None then blocked_response else with_body parts full), gate_cancel flow_id px)
         else (Await \<lparr>gj_flow_id = flow_id, gj_parts = parts, gj_full = full, gj_media = media \<noteq> None, gj_html = html\<rparr>, px))"

text \<open>The end of the wait: a decision, or the window passed and the registration is cancelled.\<close>

definition finish_job :: "gate_job \<Rightarrow> intercept_decision \<Rightarrow> http_response" where
  "finish_job job decision =
     (case decision of
        DecForward \<Rightarrow> with_body (gj_parts job) (gj_full job)
      | DecRewrite replacement \<Rightarrow>
          (gj_parts job)\<lparr>rs_header := (rs_header (gj_parts job))(''content-length'' := None, ''content-encoding'' := None),
            rs_body := [Chunk replacement]\<rparr>
      | DecDrop \<Rightarrow> if gj_html job then blocked_page_response else blocked_response)"

definition expire_job :: "gate_job \<Rightarrow> proxy \<Rightarrow> http_response \<times> proxy" where
  "expire_job job px = (finish_job job (snd (gate_policy (gj_media job))), gate_cancel (gj_flow_id job) px)"

definition status_flow :: "flow_source \<Rightarrow> string \<Rightarrow> http_response \<Rightarrow> bytes \<Rightarrow> string option \<Rightarrow> nat \<Rightarrow> proxy_flow" where
  "status_flow source host rs body ctype flow_id =
     flow_of flow_id source host [] (''status:'' @ show_nat (rs_status rs)) body True ctype None None"

definition handle_media :: "media_class \<Rightarrow> string \<Rightarrow> http_response \<Rightarrow> proxy \<Rightarrow> outcome \<times> proxy" where
  "handle_media cls host rs px =
     (let ctype = content_type_of (rs_header rs); cap = media_cap cls
      in if (case content_length_of (rs_header rs) of None \<Rightarrow> False | Some n \<Rightarrow> cap < n)
         then (Reply blocked_response, report (status_flow (media_source cls) host rs [] ctype) px)
         else (case collect_bounded (rs_body rs) cap of
                 Some (Complete full) \<Rightarrow>
                   if full = [] then (Reply (rs\<lparr>rs_body := []\<rparr>), px)
                   else gate_buffered rs full host ctype (Some cls) False px
               | Some (Overflow _ pk) \<Rightarrow> (Reply blocked_response, report (status_flow (media_source cls) host rs pk ctype) px)
               | None \<Rightarrow> (Reply blocked_response, px)))"

definition decode_again :: "http_response decoder \<Rightarrow> http_response decoder" where
  "decode_again decode rs = (if has_content_encoding (rs_header rs) then decode rs else Some rs)"

definition handle_html :: "http_response decoder \<Rightarrow> string \<Rightarrow> http_response \<Rightarrow> proxy \<Rightarrow> outcome \<times> proxy" where
  "handle_html decode host rs px =
     (if (case content_length_of (rs_header rs) of None \<Rightarrow> False | Some n \<Rightarrow> html_gate_cap < n) then (Reply blocked_page_response, px)
      else (case decode_again decode rs of
              None \<Rightarrow> (Reply blocked_page_response, px)
            | Some rs' \<Rightarrow>
                (case collect_bounded (rs_body rs') html_gate_cap of
                   Some (Complete full) \<Rightarrow>
                     if full = [] then (Reply (rs'\<lparr>rs_body := []\<rparr>), px)
                     else gate_buffered rs' full host (content_type_of (rs_header rs')) None True px
                 | Some (Overflow _ _) \<Rightarrow> (Reply blocked_page_response, px)
                 | None \<Rightarrow> (Reply blocked_page_response, px))))"

text \<open>The status of a reported flow is that of the response before it is decoded a second time.\<close>

definition handle_text :: "http_response decoder \<Rightarrow> string \<Rightarrow> http_response \<Rightarrow> proxy \<Rightarrow> outcome \<times> proxy" where
  "handle_text decode host rs px =
     (case decode_again decode rs of
        None \<Rightarrow> (Reply bad_gateway_response, px)
      | Some rs' \<Rightarrow>
          (let ctype = content_type_of (rs_header rs')
           in case collect_bounded (rs_body rs') body_peek_cap of
                Some (Complete full) \<Rightarrow> (Reply (with_body rs' full), report (status_flow SrcWeb host rs (peek full) ctype) px)
              | Some (Overflow body pk) \<Rightarrow> (Reply (rs'\<lparr>rs_body := body\<rparr>), report (status_flow SrcWeb host rs pk ctype) px)
              | None \<Rightarrow> (Reply bad_gateway_response, px)))"

definition handle_decoded :: "http_response decoder \<Rightarrow> string \<Rightarrow> http_response \<Rightarrow> proxy \<Rightarrow> outcome \<times> proxy" where
  "handle_decoded decode host rs px =
     (let ctype = content_type_of (rs_header rs); media = media_class_of ctype
      in if media = Some UnsupportedImage then (Reply blocked_response, px)
         else (case media of
                 Some cls \<Rightarrow> handle_media cls host rs px
               | None \<Rightarrow>
                   if is_html ctype then handle_html decode host rs px
                   else if should_capture_text ctype then handle_text decode host rs px
                   else (Reply rs, report (status_flow SrcWeb host rs [] ctype) px)))"

definition handle_response :: "http_response decoder \<Rightarrow> string \<Rightarrow> http_response \<Rightarrow> proxy \<Rightarrow> outcome \<times> proxy" where
  "handle_response decode host rs px =
     (let ctype = content_type_of (rs_header rs); media = media_class_of ctype
      in if media = Some UnsupportedImage then (Reply blocked_response, px)
         else if has_content_encoding (rs_header rs) \<and> (media \<noteq> None \<or> should_capture_text ctype)
         then (case decode rs of
                 Some rs' \<Rightarrow> handle_decoded decode host rs' px
               | None \<Rightarrow> (Reply (if is_html ctype then blocked_page_response
                                 else if media \<noteq> None then blocked_response else bad_gateway_response), px))
         else handle_decoded decode host rs px)"

section \<open>WebSocket messages\<close>

datatype ws_message = WsText string | WsBinary bytes | WsPing bytes | WsPong bytes | WsClose | WsFrame bytes

datatype ws_outcome = WsReply "ws_message option" | WsAwait nat ws_message

definition handle_message :: "bool \<Rightarrow> ws_message \<Rightarrow> proxy \<Rightarrow> ws_outcome \<times> proxy" where
  "handle_message is_response message px =
     (case message of
        WsText content \<Rightarrow>
          if content = [] then (WsReply (Some message), px)
          else if body_peek_cap < length content then (WsReply None, px)
          else (let (flow_id, px) = next_id px;
                    armed = px_armed px;
                    px = (if armed then gate_register flow_id px else px);
                    (emitted, px) = emit (flow_of flow_id SrcWeb [] (if is_response then [] else ''WEBSOCKET'') ''websocket''
                                            (as_bytes content) is_response (Some ''text/plain'') None None) px
                in if \<not> armed then (WsReply (Some message), px)
                   else if \<not> emitted then (WsReply None, gate_cancel flow_id px)
                   else (WsAwait flow_id message, px))
      | _ \<Rightarrow> (WsReply (Some message), px))"

definition finish_message :: "ws_message \<Rightarrow> intercept_decision \<Rightarrow> ws_message option" where
  "finish_message message decision = (if decision = DecForward then Some message else None)"

definition expire_message :: "nat \<Rightarrow> ws_message \<Rightarrow> proxy \<Rightarrow> ws_message option \<times> proxy" where
  "expire_message flow_id message px = (finish_message message DecDrop, gate_cancel flow_id px)"

section \<open>Flows for the pipeline\<close>

fun map_source :: "flow_source \<Rightarrow> source_channel" where
  "map_source SrcWeb = Web"
| "map_source SrcVideoStream = VideoStream"
| "map_source SrcLiveStream = LiveStream"

definition convert :: "proxy_flow \<Rightarrow> captured_flow" where
  "convert flow =
     (let headers = (case pf_content_type flow of None \<Rightarrow> [] | Some ct \<Rightarrow> [\<lparr>hh_name = ''content-type'', hh_value = ct\<rparr>]);
          body = (case (pf_image_body flow, pf_video_body flow) of
                    (Some img, _) \<Rightarrow> img
                  | (None, Some seg) \<Rightarrow> seg
                  | (None, None) \<Rightarrow> pf_body flow)
      in \<lparr>fl_flow_id = pf_flow_id flow, fl_source_channel = map_source (pf_source flow), fl_app_or_host = pf_app_or_host flow,
          fl_readable = pf_readable flow,
          fl_payload = HttpFlow \<lparr>hd_method = (if pf_method flow = [] then None else Some (pf_method flow)),
            hd_path = (if pf_uri flow = [] then None else Some (pf_uri flow)), hd_status = None, hd_headers = headers, hd_body_peek = body\<rparr>\<rparr>)"

definition next_flow :: "proxy \<Rightarrow> captured_flow option \<times> proxy" where
  "next_flow px = (case px_queue px of [] \<Rightarrow> (None, px) | flow # rest \<Rightarrow> (Some (convert flow), px\<lparr>px_queue := rest\<rparr>))"

section \<open>Bounded reads deliver what the stream holds\<close>

text \<open>The bytes a stream delivers before it ends or fails.\<close>

fun stream_bytes :: "chunk list \<Rightarrow> bytes" where
  "stream_bytes (Chunk c # rest) = c @ stream_bytes rest"
| "stream_bytes _ = []"

definition bounded_spec :: "chunk list \<Rightarrow> nat \<Rightarrow> bounded_read option" where
  "bounded_spec body cap =
     (if cap < length (stream_bytes body) then Some (Overflow body (take cap (stream_bytes body)))
      else if ChunkError \<in> set body then None
      else Some (Complete (stream_bytes body)))"

lemma capture_take: "length captured \<le> cap \<Longrightarrow> capture cap captured bufs = take cap (captured @ concat bufs)"
proof (induction bufs arbitrary: captured)
  case (Cons b bs)
  then show ?case
    using Cons.IH [of "captured @ take (cap - length captured) b"]
    by (cases "length b \<le> cap - length captured") (auto simp: Let_def)
qed simp

lemma stream_bytes_chunks [simp]: "stream_bytes (map Chunk cs @ rest) = concat cs @ stream_bytes rest"
  by (induction cs) auto

lemma stream_bytes_all [simp]: "stream_bytes (map Chunk cs) = concat cs"
  using stream_bytes_chunks [of cs "[]"] by simp

lemma collect_loop_spec:
  assumes "cap < u64_max" "got = length (concat bufs)" "got \<le> cap"
  shows "collect_loop cap bufs got body = bounded_spec (map Chunk bufs @ body) cap"
  using assms
proof (induction cap bufs got body rule: collect_loop.induct)
  case (3 cap bufs got c rest)
  show ?case
  proof (cases "cap < usize_saturating_add got (length c)")
    case True
    then have big: "cap < got + length c" by (simp add: usize_saturating_add_def)
    have "capture cap [] bufs = concat bufs" using 3 by (simp add: capture_take)
    with True big 3 show ?thesis by (auto simp: bounded_spec_def Let_def)
  next
    case False
    then have small: "got + length c \<le> cap" "usize_saturating_add got (length c) = got + length c"
      using "3.prems" by (auto simp: usize_saturating_add_def min_def split: if_splits)
    then have "collect_loop cap (bufs @ [c]) (got + length c) rest = bounded_spec (map Chunk (bufs @ [c]) @ rest) cap"
      using 3 False by simp
    with False small show ?thesis by (simp add: Let_def)
  qed
qed (auto simp: bounded_spec_def)

text \<open>
  Claim C38. The bounded read of a message body is exact: a body within the cap is returned whole, one
  that fails before passing it is an error, and of one that passes it the peek is exactly its
  first bytes while the stream handed on replays the whole body, errors included.
\<close>

theorem bounded_read_exact: "cap < u64_max \<Longrightarrow> collect_bounded body cap = bounded_spec body cap"
  by (simp add: collect_bounded_def collect_loop_spec)

theorem bounded_read_exact_witness:
  "collect_bounded [Chunk [1, 2], Chunk [3, 4], ChunkError] 3 = Some (Overflow [Chunk [1, 2], Chunk [3, 4], ChunkError] [1, 2, 3])"
  using bounded_read_exact [of 3 "[Chunk [1, 2], Chunk [3, 4], ChunkError]"] by (simp add: u64_max_def bounded_spec_def)

section \<open>Pinning, host by host\<close>

datatype pin_event = Attempted string | Read string | Refused string

text \<open>What happens to the registry: an attempt to intercept, a flow that could be read, an explicit refusal.\<close>

fun pin_step :: "pin_event \<Rightarrow> pinning_registry \<Rightarrow> pinning_registry" where
  "pin_step (Attempted h) r = snd (record_intercept_attempt h r)"
| "pin_step (Read h) r = record_mitmable h r"
| "pin_step (Refused h) r = snd (record_pinned h r)"

text \<open>The specification: each host is an automaton of its own that counts attempts until it is known.\<close>

datatype host_state = Counting nat | Known bool

fun host_step :: "string \<Rightarrow> pin_event \<Rightarrow> host_state \<Rightarrow> host_state" where
  "host_step h (Attempted g) (Counting n) = (if g \<noteq> h then Counting n else if n = 2 then Known False else Counting (n + 1))"
| "host_step h (Attempted g) s = s"
| "host_step h (Read g) s = (if g = h then Known True else s)"
| "host_step h (Refused g) s = (if g = h then Known False else s)"

fun abs_state :: "host_state \<Rightarrow> host_capability" where
  "abs_state (Counting _) = UnknownHost"
| "abs_state (Known True) = Mitmable"
| "abs_state (Known False) = Pinned"

definition tracks :: "pinning_registry \<Rightarrow> string \<Rightarrow> host_state \<Rightarrow> bool" where
  "tracks r h s \<longleftrightarrow>
     pr_map r h = (case s of Counting _ \<Rightarrow> None | Known ok \<Rightarrow> Some (abs_state s)) \<and>
     (\<forall>n. s = Counting n \<longrightarrow> n < 3 \<and> pr_strikes r h = (if n = 0 then None else Some n))"

lemma tracks_capability: "tracks r h s \<Longrightarrow> capability r h = abs_state s"
  by (cases s rule: abs_state.cases) (auto simp: tracks_def capability_def)

lemma tracks_attempt:
  assumes "tracks r h s"
  shows "tracks (snd (record_intercept_attempt g r)) h (host_step h (Attempted g) s)"
proof (cases "g = h")
  case False
  then show ?thesis using assms
    by (cases s) (auto simp: record_intercept_attempt_def record_pinned_def tracks_def Let_def)
next
  case True
  show ?thesis
  proof (cases s)
    case (Counting n)
    then have "n < 3" "pr_strikes r h = (if n = 0 then None else Some n)" "capability r h = UnknownHost"
      using assms tracks_capability [OF assms] by (auto simp: tracks_def)
    then show ?thesis using Counting True assms
      by (auto simp: record_intercept_attempt_def record_pinned_def tracks_def pin_strike_threshold_def Let_def)
  next
    case (Known ok)
    then have "capability r h \<noteq> UnknownHost" using tracks_capability [OF assms] by (cases ok) auto
    then show ?thesis using Known True assms by (simp add: record_intercept_attempt_def)
  qed
qed

lemma tracks_step: "tracks r h s \<Longrightarrow> tracks (pin_step e r) h (host_step h e s)"
  by (cases e) (auto simp: tracks_attempt, auto simp: tracks_def record_mitmable_def record_pinned_def split: host_state.splits)

lemma tracks_run: "tracks r h s \<Longrightarrow> tracks (fold pin_step es r) h (fold (host_step h) es s)"
  by (induction es arbitrary: r s) (auto simp: tracks_step)

lemma tracks_new: "tracks (pinning_new fail_open) h (Counting 0)"
  by (simp add: tracks_def pinning_new_def)

text \<open>
  Claim C39. The pinning registry refines one small automaton per host: whatever is attempted, read and
  refused in whatever order, a host is unknown while fewer than three attempts in a row stayed
  without a flow, then held to be pinned, and inspectable from the first flow that could be read;
  the events of one host never change what is believed of another.
\<close>

theorem pinning_refines_automaton:
  "capability (fold pin_step es (pinning_new fail_open)) h = abs_state (fold (host_step h) es (Counting 0))"
  using tracks_capability [OF tracks_run [OF tracks_new]] .

section \<open>What passes the gate\<close>

text \<open>A decoder undoes the content encoding; the type of the content stays what it was.\<close>

definition keeps_type :: "http_response decoder \<Rightarrow> bool" where
  "keeps_type decode \<longleftrightarrow> (\<forall>rs rs'. decode rs = Some rs' \<longrightarrow> content_type_of (rs_header rs') = content_type_of (rs_header rs))"

text \<open>What a handler leaves behind when it waits: its flow is registered, queued last, and carries the whole body.\<close>

definition awaits :: "gate_job \<Rightarrow> proxy \<Rightarrow> proxy \<Rightarrow> bool" where
  "awaits job px px' \<longleftrightarrow>
     gj_flow_id job = px_next_flow_id px \<and> px_pending px' = insert (gj_flow_id job) (px_pending px) \<and>
     (\<exists>flow. px_queue px' = px_queue px @ [flow] \<and> pf_flow_id flow = gj_flow_id job \<and>
        (gj_media job \<longrightarrow> body_bytes (fl_payload (convert flow)) = gj_full job) \<and>
        pf_content_type flow = content_type_of (rs_header (gj_parts job)))"

lemma next_id_frames [simp]:
  "fst (next_id px) = px_next_flow_id px" "px_pending (snd (next_id px)) = px_pending px" "px_armed (snd (next_id px)) = px_armed px"
  "px_queue (snd (next_id px)) = px_queue px" "px_capacity (snd (next_id px)) = px_capacity px"
  "px_receiving (snd (next_id px)) = px_receiving px" "px_pinning (snd (next_id px)) = px_pinning px"
  by (simp_all add: next_id_def)

lemma emit_frames [simp]:
  "px_pending (snd (emit flow px)) = px_pending px" "px_armed (snd (emit flow px)) = px_armed px"
  "px_next_flow_id (snd (emit flow px)) = px_next_flow_id px"
  "px_queue (snd (emit flow px)) = px_queue px @ (if fst (emit flow px) then [flow] else [])"
  by (simp_all add: emit_def Let_def)

lemma register_frames [simp]:
  "px_pending (gate_register i px) = insert i (px_pending px)" "px_armed (gate_register i px) = px_armed px"
  "px_queue (gate_register i px) = px_queue px" "px_next_flow_id (gate_register i px) = px_next_flow_id px"
  by (simp_all add: gate_register_def)

lemma gate_flow_facts:
  "pf_flow_id (gate_flow rs full host ct media i) = i" "pf_content_type (gate_flow rs full host ct media i) = ct"
  "media \<noteq> None \<Longrightarrow> media \<noteq> Some UnsupportedImage \<Longrightarrow> body_bytes (fl_payload (convert (gate_flow rs full host ct media i))) = full"
  by (auto simp: gate_flow_def flow_of_def convert_def Let_def split: option.split media_class.split)

lemma gate_buffered_armed:
  assumes "px_armed px" "media \<noteq> Some UnsupportedImage"
  shows "case gate_buffered rs full host (content_type_of (rs_header rs)) media html px of
      (Reply r, px') \<Rightarrow> r = (if media \<noteq> None then blocked_response else with_body rs full)
    | (Await job, px') \<Rightarrow> awaits job px px' \<and> gj_media job = (media \<noteq> None) \<and> gj_html job = html \<and> gj_parts job = rs \<and> gj_full job = full"
proof -
  let ?px = "gate_register (px_next_flow_id px) (px\<lparr>px_next_flow_id := (px_next_flow_id px + 1) mod 2 ^ 64\<rparr>)"
    and ?flow = "gate_flow rs full host (content_type_of (rs_header rs)) media (px_next_flow_id px)"
  obtain sent px' where e: "emit ?flow ?px = (sent, px')" by force
  have frames: "px_pending px' = insert (px_next_flow_id px) (px_pending px)" "px_queue px' = px_queue px @ (if sent then [?flow] else [])"
  proof -
    have "sent = fst (emit ?flow ?px)" "px' = snd (emit ?flow ?px)" by (simp_all only: e fst_conv snd_conv)
    then show "px_pending px' = insert (px_next_flow_id px) (px_pending px)" "px_queue px' = px_queue px @ (if sent then [?flow] else [])"
      by simp_all
  qed
  have "gate_buffered rs full host (content_type_of (rs_header rs)) media html px =
      (if sent then (Await \<lparr>gj_flow_id = px_next_flow_id px, gj_parts = rs, gj_full = full, gj_media = media \<noteq> None, gj_html = html\<rparr>, px')
       else (Reply (if media \<noteq> None then blocked_response else with_body rs full), gate_cancel (px_next_flow_id px) px'))"
    using assms(1) e by (simp add: gate_buffered_def next_id_def)
  then show ?thesis using frames assms(2) by (cases sent) (simp_all add: awaits_def gate_flow_facts)
qed

lemma gate_media_outcome:
  assumes "px_armed px" "cls \<noteq> UnsupportedImage"
  shows "gate_buffered rs full host (content_type_of (rs_header rs)) (Some cls) html px = (Reply r, px') \<Longrightarrow> r = blocked_response"
    "gate_buffered rs full host (content_type_of (rs_header rs)) (Some cls) html px = (Await job, px') \<Longrightarrow>
       awaits job px px' \<and> gj_media job \<and> gj_html job = html"
  using gate_buffered_armed [OF assms(1), where media = "Some cls" and rs = rs and host = host and html = html and full = full] assms(2)
  by auto

lemma handle_media_armed:
  assumes "px_armed px" "cls \<noteq> UnsupportedImage"
  shows "case handle_media cls host rs px of
      (Reply r, px') \<Rightarrow> r = blocked_response \<or> rs_body r = []
    | (Await job, px') \<Rightarrow> awaits job px px' \<and> gj_media job \<and> \<not> gj_html job"
  by (auto simp: handle_media_def Let_def dest: gate_media_outcome [OF assms]
      split: option.split bounded_read.split prod.splits outcome.splits)

lemma finish_drop: "finish_job job DecDrop = (if gj_html job then blocked_page_response else blocked_response)"
  by (simp add: finish_job_def)

lemma handle_decoded_media:
  assumes "px_armed px" "media_class_of (content_type_of (rs_header rs)) = Some cls"
  shows "case handle_decoded decode host rs px of
      (Reply r, px') \<Rightarrow> r = blocked_response \<or> rs_body r = []
    | (Await job, px') \<Rightarrow> awaits job px px' \<and> gj_media job \<and> \<not> gj_html job"
  using assms handle_media_armed [OF assms(1), of cls host rs] by (cases "cls = UnsupportedImage") (auto simp: handle_decoded_def Let_def)

text \<open>
  Media waits for a verdict: while the gate is armed, a response that declares an image, a
  video or audio is answered at once only by the block page or an empty body; otherwise its
  whole body is queued for analysis under a fresh number and it waits, and what ends the wait is a
  decision for that number: forwarded, it leaves with its own body; dropped, or undecided when
  its window has passed, it is blocked.
\<close>

theorem media_waits_for_decision:
  assumes "px_armed px" "keeps_type decode" "media_class_of (content_type_of (rs_header rs)) \<noteq> None"
  shows "case handle_response decode host rs px of
      (Reply r, px') \<Rightarrow> r = blocked_response \<or> rs_body r = []
    | (Await job, px') \<Rightarrow> awaits job px px' \<and> gj_media job \<and>
        finish_job job DecForward = with_body (gj_parts job) (gj_full job) \<and> finish_job job DecDrop = blocked_response \<and>
        (\<forall>px''. fst (expire_job job px'') = blocked_response)"
proof -
  obtain cls where cls: "media_class_of (content_type_of (rs_header rs)) = Some cls" using assms(3) by blast
  have "case handle_response decode host rs px of
      (Reply r, px') \<Rightarrow> r = blocked_response \<or> rs_body r = []
    | (Await job, px') \<Rightarrow> awaits job px px' \<and> gj_media job \<and> \<not> gj_html job"
  proof (cases "has_content_encoding (rs_header rs) \<and> cls \<noteq> UnsupportedImage")
    case True
    have html: "\<not> is_html (content_type_of (rs_header rs))"
      using cls by (auto simp: is_html_def media_class_of_def)
    show ?thesis
    proof (cases "decode rs")
      case None
      then show ?thesis using True cls html by (simp add: handle_response_def Let_def)
    next
      case (Some rs')
      then have "media_class_of (content_type_of (rs_header rs')) = Some cls" using assms(2) cls by (simp add: keeps_type_def)
      from handle_decoded_media [OF assms(1) this, of decode host] True Some cls show ?thesis by (simp add: handle_response_def Let_def)
    qed
  next
    case False
    with handle_decoded_media [OF assms(1) cls, of decode host] cls show ?thesis by (auto simp: handle_response_def Let_def)
  qed
  then show ?thesis
    by (auto simp: finish_drop finish_job_def expire_job_def gate_policy_def split: prod.splits outcome.splits)
qed

definition sample_png :: http_response where
  "sample_png = \<lparr>rs_status = 200, rs_header = (\<lambda>_. None)(''content-type'' := Some ''image/png''), rs_body = [Chunk [0x89], Chunk [0x50]]\<rparr>"

definition sample_proxy :: proxy where
  "sample_proxy = set_armed True (proxy_new (pinning_new True) blocklist_default 4)"

definition sample_job :: gate_job where
  "sample_job = \<lparr>gj_flow_id = 1, gj_parts = sample_png, gj_full = [0x89, 0x50], gj_media = True, gj_html = False\<rparr>"

lemma sample_type: "content_type_of (rs_header sample_png) = Some ''image/png''"
  by code_simp

lemma sample_awaits: "fst (handle_response Some ''h'' sample_png sample_proxy) = Await sample_job"
proof -
  have "media_class_of (Some ''image/png'') = Some ImageMedia" by code_simp
  then show ?thesis
    by (simp add: handle_response_def sample_type Let_def handle_decoded_def handle_media_def content_length_of_def)
       (simp add: sample_png_def has_content_encoding_def collect_bounded_def image_body_cap_def usize_saturating_add_def
         u64_max_def gate_buffered_def next_id_def gate_register_def emit_def sample_proxy_def set_armed_def proxy_new_def Let_def
         sample_job_def gate_flow_def flow_of_def split_beta)
qed

theorem media_waits_for_decision_witness:
  "awaits sample_job sample_proxy (snd (handle_response Some ''h'' sample_png sample_proxy)) \<and>
   finish_job sample_job DecForward = with_body sample_png [0x89, 0x50] \<and> fst (expire_job sample_job sample_proxy) = blocked_response"
proof -
  have "px_armed sample_proxy" "media_class_of (content_type_of (rs_header sample_png)) \<noteq> None" by code_simp+
  moreover have "keeps_type Some" by (simp add: keeps_type_def)
  ultimately show ?thesis
    using media_waits_for_decision [of sample_proxy Some sample_png "''h''"] sample_awaits
    by (auto simp: split_beta sample_job_def)
qed

end
