(* ===== verification/DevicePipeline.thy ===== *)
theory DevicePipeline
  imports OffloadRouter Interception Policy PortableStore
begin

text \<open>
  The pipeline of a device: \<open>bulwark-client/src/lib.rs\<close>. A captured flow is classified, each unit is
  analysed, the policy decides, the interceptor is told, a held video is released, and the alert and
  the audit row follow. The image model, the video analyzer, the cluster and the hash belong to
  libraries outside the repository and are fields of the environment, like the clocks.
\<close>

section \<open>Verdicts for what could not be analysed\<close>

definition coverage_gap :: "string \<Rightarrow> string \<Rightarrow> verdict" where
  "coverage_gap request_id rationale =
     verdict_default\<lparr>v_request_id := request_id, v_category := category_i32 CatUnspecified, v_action := action_i32 Block,
       v_severity := severity_i32 Medium, v_score := f32_round 0, v_rationale := rationale\<rparr>"

definition action_to_decision :: "action \<Rightarrow> bytes option \<Rightarrow> intercept_decision" where
  "action_to_decision act rewritten =
     (if act = Block then DecDrop
      else if act \<in> {Blur, Mute} then (case rewritten of Some r \<Rightarrow> DecRewrite r | None \<Rightarrow> DecDrop)
      else DecForward)"

section \<open>The image score cache\<close>

record image_score_cache =
  ic_capacity :: nat
  ic_scores :: "(bytes, f32_bits) fmap"
  ic_order :: "bytes list"

definition image_cache_new :: "nat \<Rightarrow> image_score_cache" where
  "image_cache_new capacity = \<lparr>ic_capacity = max capacity 1, ic_scores = fmempty, ic_order = []\<rparr>"

definition image_cache_get :: "image_score_cache \<Rightarrow> bytes \<Rightarrow> f32_bits option" where
  "image_cache_get c hash = fmlookup (ic_scores c) hash"

fun image_evict :: "nat \<Rightarrow> bytes list \<Rightarrow> (bytes, f32_bits) fmap \<Rightarrow> bytes list \<times> (bytes, f32_bits) fmap" where
  "image_evict capacity [] scores = ([], scores)"
| "image_evict capacity (oldest # order) scores =
     (if capacity \<le> fcard (fmdom scores) then image_evict capacity order (fmdrop oldest scores) else (oldest # order, scores))"

definition image_cache_insert :: "bytes \<Rightarrow> f32_bits \<Rightarrow> image_score_cache \<Rightarrow> image_score_cache" where
  "image_cache_insert hash score c =
     (if fmlookup (ic_scores c) hash \<noteq> None then c\<lparr>ic_scores := fmupd hash score (ic_scores c)\<rparr>
      else (let (order, scores) = image_evict (ic_capacity c) (ic_order c) (ic_scores c)
            in c\<lparr>ic_order := order @ [hash], ic_scores := fmupd hash score scores\<rparr>))"

section \<open>The pipeline\<close>

record pipeline_env =
  pe_tx :: text_env
  pe_sha :: "bytes \<Rightarrow> bytes"
  pe_mac :: "bytes \<Rightarrow> bytes \<Rightarrow> bytes"
  pe_write :: store_write
  pe_model_id :: string
  pe_score :: "bytes \<Rightarrow> f32_bits"
  pe_video :: "core_analyzer option"
  pe_offload :: "offload_router option"
  pe_alert :: bool
  pe_apply_fails :: "nat \<Rightarrow> intercept_decision \<Rightarrow> core_error option"

text \<open>What the clocks read while one unit is handled, in milliseconds and, for the buffer, nanoseconds.\<close>

record pipeline_clock =
  ck_admit :: nat
  ck_apply :: nat
  ck_span :: int
  ck_text :: "int \<times> int"
  ck_request :: int
  ck_alert :: int
  ck_store :: int

record pipeline =
  pl_device_id :: string
  pl_classifier :: flow_classifier
  pl_text :: text_analyzer
  pl_policy :: policy_config
  pl_age_profile :: age_profile
  pl_store :: "portable_store option"
  pl_image_scores :: image_score_cache

definition default_image_cache_entries :: nat where "default_image_cache_entries = 4096"

definition pipeline_new :: "string \<Rightarrow> text_analyzer \<Rightarrow> string option \<Rightarrow> pipeline" where
  "pipeline_new device_id ta cache_var =
     \<lparr>pl_device_id = device_id, pl_classifier = flow_with_defaults, pl_text = ta, pl_policy = policy_config_default,
      pl_age_profile = Teen, pl_store = None,
      pl_image_scores = image_cache_new (parse_positive u64_max default_image_cache_entries cache_var)\<rparr>"

definition sha256_array :: "(bytes \<Rightarrow> bytes) \<Rightarrow> bytes \<Rightarrow> bytes" where
  "sha256_array sha bs = (if length (sha bs) = 32 then sha bs else replicate 32 0)"

definition short_hash_hex :: "(bytes \<Rightarrow> bytes) \<Rightarrow> bytes \<Rightarrow> string" where
  "short_hash_hex sha bs = hex (take 8 (sha256_array sha bs))"

fun kind_tag :: "media_kind \<Rightarrow> string" where
  "kind_tag MkAudio = ''audio''"
| "kind_tag MkImage = ''img''"
| "kind_tag MkVideo = ''video''"
| "kind_tag _ = ''media''"

definition build_image_evidence :: "(bytes \<Rightarrow> bytes) \<Rightarrow> bytes \<Rightarrow> string \<Rightarrow> evidence" where
  "build_image_evidence sha bs model_id = evidence_default\<lparr>ev_sha256 := sha bs, ev_model_id := model_id\<rparr>"

definition nsfw_block_threshold :: f32 where
  "nsfw_block_threshold = f32_lit 11744051 24"

fun fmt3 :: "f32 \<Rightarrow> string" where
  "fmt3 NaN = ''NaN''"
| "fmt3 PInf = ''inf''"
| "fmt3 NInf = ''-inf''"
| "fmt3 NZero = ''-0.000''"
| "fmt3 (Fin q) =
     (let n = nat (round_half_even (\<bar>q\<bar> * 1000))
      in (if q < 0 then ''-'' else '''') @ show_nat (n div 1000) @ ''.'' @ show_nat (n mod 1000 div 100) @
         show_nat (n mod 100 div 10) @ show_nat (n mod 10))"

text \<open>The verdict on an image, from its score.\<close>

definition image_verdict :: "pipeline_env \<Rightarrow> string \<Rightarrow> bytes \<Rightarrow> f32_bits \<Rightarrow> verdict" where
  "image_verdict env request_id bs score =
     (let x = f32_of_bits score
      in if \<not> f32_is_finite x then coverage_gap request_id ''image model returned an invalid score''
         else (let category = (if f32_ge x nsfw_block_threshold then AdultImage else Safe);
                   act = (if category = Safe then Allow else Block);
                   severity = (if act = Block then severity_for_score x else Info)
               in verdict_default\<lparr>v_request_id := request_id, v_category := category_i32 category, v_action := action_i32 act,
                    v_severity := severity_i32 severity, v_score := score,
                    v_rationale := ''local image model score '' @ fmt3 x @ '' vs threshold '' @ fmt2 nsfw_block_threshold,
                    v_evidence := Some (build_image_evidence (pe_sha env) bs (pe_model_id env))\<rparr>))"

definition analyze_image :: "pipeline_env \<Rightarrow> inline_media \<Rightarrow> pipeline \<Rightarrow> verdict \<times> pipeline" where
  "analyze_image env media pl =
     (let bs = im_data media;
          request_id = pl_device_id pl @ ''-img-'' @ short_hash_hex (pe_sha env) bs
      in if pe_model_id env = ''stub-noop'' then (coverage_gap request_id ''no local image model is available; image was not scored'', pl)
         else (let hash = sha256_array (pe_sha env) bs
               in case image_cache_get (pl_image_scores pl) hash of
                    Some score \<Rightarrow> (image_verdict env request_id bs score, pl)
                  | None \<Rightarrow>
                      (let score = pe_score env bs
                       in (image_verdict env request_id bs score,
                           if f32_is_finite (f32_of_bits score)
                           then pl\<lparr>pl_image_scores := image_cache_insert hash score (pl_image_scores pl)\<rparr> else pl))))"

definition media_request :: "pipeline \<Rightarrow> string \<Rightarrow> media_kind \<Rightarrow> int \<Rightarrow> inline_media \<Rightarrow> analysis_request" where
  "media_request pl request_id kind ts media =
     \<lparr>aq_request_id = request_id, aq_media_kind = media_kind_i32 kind, aq_source_channel = 0, aq_device_id = pl_device_id pl, aq_ts = ts,
      aq_text_span = None, aq_media = Some (InlineMedia (im_data media) (im_mime_type media)), aq_deadline_ms = 0\<rparr>"

text \<open>An answer of another analyzer: taken over if it names a category, a gap in coverage otherwise.\<close>

definition covered :: "string \<Rightarrow> string \<Rightarrow> string \<Rightarrow> (core_error, verdict) result \<Rightarrow> verdict" where
  "covered request_id incomplete failed answer =
     (case answer of
        Inr v \<Rightarrow> if verdict_category v \<noteq> CatUnspecified then v
                 else coverage_gap request_id (if v_rationale v = [] then incomplete else v_rationale v)
      | Inl e \<Rightarrow> coverage_gap request_id failed)"

definition analyze_offload :: "pipeline_env \<Rightarrow> pipeline_clock \<Rightarrow> offload_router \<Rightarrow> inline_media \<Rightarrow> media_kind \<Rightarrow> pipeline \<Rightarrow> verdict" where
  "analyze_offload env ck router media kind pl =
     (let request_id = pl_device_id pl @ ''-'' @ kind_tag kind @ ''-'' @ short_hash_hex (pe_sha env) (im_data media)
      in covered request_id ''remote analysis returned incomplete coverage'' ''remote analysis failed; content was not analysed''
           (router_analyze router (media_request pl request_id kind (ck_request ck) media)))"

definition analyze_video :: "pipeline_env \<Rightarrow> pipeline_clock \<Rightarrow> core_analyzer \<Rightarrow> inline_media \<Rightarrow> nat option \<Rightarrow> pipeline \<Rightarrow> verdict" where
  "analyze_video env ck analyzer media segment_id pl =
     (let tag = (case segment_id of Some i \<Rightarrow> ''seg'' @ show_nat i | None \<Rightarrow> short_hash_hex (pe_sha env) (im_data media));
          request_id = pl_device_id pl @ ''-video-'' @ tag
      in covered request_id ''video analysis incomplete'' ''video analysis failed; content was not analysed''
           (analyzer (media_request pl request_id MkVideo (ck_request ck) media)))"

definition unit_separator :: string where "unit_separator = [CHR 0x1F]"

definition scoped_thread_id :: "string \<Rightarrow> text_span \<Rightarrow> string" where
  "scoped_thread_id device_id span = device_id @ unit_separator @ trim (ts_app span) @ unit_separator @ trim (ts_thread_id span)"

text \<open>\<open>None\<close> is the panic of a text analyzer without an English lexicon.\<close>

definition pipeline_analyze :: "pipeline_env \<Rightarrow> pipeline_clock \<Rightarrow> analysis_unit \<Rightarrow> pipeline \<Rightarrow> (verdict \<times> pipeline) option" where
  "pipeline_analyze env ck unit pl =
     (case unit of
        TextUnit span \<Rightarrow>
          (let thread_id = scoped_thread_id (pl_device_id pl) span;
               request_id = pl_device_id pl @ ''-text-'' @ short_hash_hex (pe_sha env) (as_bytes thread_id)
           in map_option (\<lambda>(v, ta). (v, pl\<lparr>pl_text := ta\<rparr>))
                (analyze_span (pe_tx env) (ck_text ck) request_id (span\<lparr>ts_thread_id := thread_id\<rparr>) (ck_span ck) (pl_text pl)))
      | ImageUnit media \<Rightarrow> Some (analyze_image env media pl)
      | VideoUnit media _ segment_id \<Rightarrow>
          (case pe_video env of
             Some analyzer \<Rightarrow> Some (analyze_video env ck analyzer media segment_id pl, pl)
           | None \<Rightarrow> Some (coverage_gap (pl_device_id pl @ ''-video-'' @ short_hash_hex (pe_sha env) (im_data media))
                            ''video analyzer unavailable; content was not analysed'', pl))
      | AudioUnit media \<Rightarrow>
          (case pe_offload env of
             Some router \<Rightarrow> Some (analyze_offload env ck router media MkAudio pl, pl)
           | None \<Rightarrow> Some (coverage_gap (pl_device_id pl @ ''-audio-'' @ short_hash_hex (pe_sha env) (im_data media))
                            ''audio analyzer/offload unavailable; content was not analysed'', pl)))"

section \<open>Handling a flow\<close>

datatype effect = Decide nat intercept_decision | RaiseAlert alert_event

record block_report =
  br_host :: string
  br_category :: category
  br_score :: f32_bits

definition pipeline_alert :: "pipeline \<Rightarrow> string \<Rightarrow> verdict \<Rightarrow> alert_kind \<Rightarrow> int \<Rightarrow> alert_event" where
  "pipeline_alert pl host v kind ts =
     \<lparr>ae_alert_id = pl_device_id pl @ ''-'' @ v_request_id v, ae_kind = alert_kind_i32 kind, ae_category = v_category v,
      ae_severity = v_severity v, ae_app = host, ae_device_id = pl_device_id pl, ae_ts = ts, ae_redacted_context = v_rationale v,
      ae_evidence = v_evidence v, ae_child_id = [], ae_family_id = [], ae_local_segment_uri = v_local_segment_uri v\<rparr>"

definition rewrite_of :: "verdict \<Rightarrow> bytes option" where
  "rewrite_of v = (if v_remediated_media v = [] then None else Some (v_remediated_media v))"

definition flow_context :: "captured_flow \<Rightarrow> pipeline \<Rightarrow> policy_context" where
  "flow_context flow pl =
     \<lparr>ctx_device = pl_device_id pl, ctx_source_channel = fl_source_channel flow, ctx_age_profile = pl_age_profile pl\<rparr>"

definition release_segment :: "pipeline_clock \<Rightarrow> analysis_unit \<Rightarrow> action \<Rightarrow> bytes option \<Rightarrow> pipeline \<Rightarrow> pipeline" where
  "release_segment ck unit act rewritten pl =
     (case unit of
        VideoUnit _ _ (Some i) \<Rightarrow> pl\<lparr>pl_classifier := snd (flow_apply (ck_apply ck) i act rewritten (pl_classifier pl))\<rparr>
      | _ \<Rightarrow> pl)"

definition store_event :: "pipeline_env \<Rightarrow> pipeline_clock \<Rightarrow> verdict \<Rightarrow> action \<Rightarrow> alert_kind option \<Rightarrow> pipeline \<Rightarrow> pipeline" where
  "store_event env ck v act alert pl =
     (case pl_store pl of
        None \<Rightarrow> pl
      | Some st \<Rightarrow>
          pl\<lparr>pl_store := Some (snd (record_sync (pe_sha env) (pe_mac env) (pe_write env) st
            \<lparr>se_device = pl_device_id pl, se_verdict = v, se_action = act, se_alert = alert, se_ts = ck_store ck\<rparr>))\<rparr>)"

type_synonym unit_result = "(core_error, block_report list) result \<times> effect list \<times> pipeline"

definition handle_unit :: "pipeline_env \<Rightarrow> pipeline_clock \<Rightarrow> captured_flow \<Rightarrow> analysis_unit \<Rightarrow> pipeline \<Rightarrow> unit_result option" where
  "handle_unit env ck flow unit pl =
     (case pipeline_analyze env ck unit pl of
        None \<Rightarrow> None
      | Some (v, pl) \<Rightarrow>
          (let ctx = flow_context flow pl;
               act = policy_decide (pl_policy pl) v ctx;
               alert = policy_alert_for (pl_policy pl) v act ctx;
               decision = action_to_decision act (rewrite_of v)
           in case pe_apply_fails env (fl_flow_id flow) decision of
                Some e \<Rightarrow> Some (Err e, [Decide (fl_flow_id flow) decision], pl)
              | None \<Rightarrow>
                  (let pl = release_segment ck unit act (rewrite_of v) pl;
                       reports = (if act = Block then [\<lparr>br_host = fl_app_or_host flow, br_category = verdict_category v, br_score = v_score v\<rparr>] else []);
                       alerts = (case alert of
                                   Some kind \<Rightarrow> if pe_alert env then [RaiseAlert (pipeline_alert pl (fl_app_or_host flow) v kind (ck_alert ck))] else []
                                 | None \<Rightarrow> [])
                   in Some (Ok reports, Decide (fl_flow_id flow) decision # alerts, store_event env ck v act alert pl))))"

fun handle_units :: "pipeline_env \<Rightarrow> pipeline_clock \<Rightarrow> captured_flow \<Rightarrow> analysis_unit list \<Rightarrow> pipeline \<Rightarrow> unit_result option" where
  "handle_units env ck flow [] pl = Some (Ok [], [], pl)"
| "handle_units env ck flow (unit # units) pl =
     (case handle_unit env ck flow unit pl of
        None \<Rightarrow> None
      | Some (Inl e, effs, pl) \<Rightarrow> Some (Err e, effs, pl)
      | Some (Inr reports, effs, pl) \<Rightarrow>
          map_option (\<lambda>(r, effs', pl). ((case r of Inl e \<Rightarrow> Err e | Inr rs \<Rightarrow> Ok (reports @ rs)), effs @ effs', pl))
            (handle_units env ck flow units pl))"

definition handle_flow_reporting :: "pipeline_env \<Rightarrow> pipeline_clock \<Rightarrow> captured_flow \<Rightarrow> pipeline \<Rightarrow> unit_result option" where
  "handle_flow_reporting env ck flow pl =
     (case flow_classify (ck_admit ck) flow (pl_classifier pl) of
        (Inl e, fc) \<Rightarrow> Some (Err e, [], pl\<lparr>pl_classifier := fc\<rparr>)
      | (Inr units, fc) \<Rightarrow> handle_units env ck flow units (pl\<lparr>pl_classifier := fc\<rparr>))"

text \<open>One turn of \<open>run\<close>: a flow whose handling failed is dropped.\<close>

definition pipeline_turn :: "pipeline_env \<Rightarrow> pipeline_clock \<Rightarrow> captured_flow \<Rightarrow> pipeline \<Rightarrow> (effect list \<times> pipeline) option" where
  "pipeline_turn env ck flow pl =
     map_option (\<lambda>(r, effs, pl). (case r of Inl e \<Rightarrow> effs @ [Decide (fl_flow_id flow) DecDrop] | Inr _ \<Rightarrow> effs, pl))
       (handle_flow_reporting env ck flow pl)"

section \<open>What could not be analysed is dropped\<close>

definition unusable :: "(core_error, verdict) result \<Rightarrow> bool" where
  "unusable answer \<longleftrightarrow> (case answer of Inl e \<Rightarrow> True | Inr v \<Rightarrow> verdict_category v = CatUnspecified)"

text \<open>
  No usable answer for a unit: there is no model or analyzer for its kind, the score is no number,
  or the analyzer failed or named no category. The request is the one the pipeline sends.
\<close>

fun uncovered :: "pipeline_env \<Rightarrow> pipeline_clock \<Rightarrow> pipeline \<Rightarrow> analysis_unit \<Rightarrow> bool" where
  "uncovered env ck pl (TextUnit _) = False"
| "uncovered env ck pl (ImageUnit m) \<longleftrightarrow> pe_model_id env = ''stub-noop'' \<or>
     \<not> f32_is_finite (f32_of_bits (case image_cache_get (pl_image_scores pl) (sha256_array (pe_sha env) (im_data m)) of
                                     Some score \<Rightarrow> score | None \<Rightarrow> pe_score env (im_data m)))"
| "uncovered env ck pl (AudioUnit m) \<longleftrightarrow>
     (case pe_offload env of None \<Rightarrow> True
      | Some router \<Rightarrow> \<forall>i. unusable (router_analyze router (media_request pl i MkAudio (ck_request ck) m)))"
| "uncovered env ck pl (VideoUnit m _ _) \<longleftrightarrow>
     (case pe_video env of None \<Rightarrow> True
      | Some analyzer \<Rightarrow> \<forall>i. unusable (analyzer (media_request pl i MkVideo (ck_request ck) m)))"

lemma gap_category [simp]: "verdict_category (coverage_gap i why) = CatUnspecified"
  by (simp add: coverage_gap_def verdict_category_def category_of_i32_def category_all_def)

lemma covered_unusable: "unusable answer \<Longrightarrow> verdict_category (covered i a b answer) = CatUnspecified"
  by (auto simp: unusable_def covered_def split: sum.splits)

lemma covered_usable: "\<not> unusable answer \<Longrightarrow> covered i a b answer = projr answer"
  by (auto simp: unusable_def covered_def split: sum.splits)

lemma uncovered_category:
  assumes "uncovered env ck pl u"
  obtains v pl' where "pipeline_analyze env ck u pl = Some (v, pl')" "verdict_category v = CatUnspecified"
    "pl_policy pl' = pl_policy pl" "pl_age_profile pl' = pl_age_profile pl" "pl_device_id pl' = pl_device_id pl"
proof (cases u)
  case (ImageUnit m)
  with assms show thesis
    by (cases "pe_model_id env = ''stub-noop''")
       (auto intro!: that simp: pipeline_analyze_def analyze_image_def image_verdict_def Let_def split: option.splits)
next
  case (AudioUnit m)
  with assms show thesis
    by (auto intro!: that simp: pipeline_analyze_def analyze_offload_def covered_unusable Let_def split: option.splits)
next
  case (VideoUnit m d i)
  with assms show thesis
    by (auto intro!: that simp: pipeline_analyze_def analyze_video_def covered_unusable Let_def split: option.splits)
qed (use assms in simp)

lemma unspecified_blocked:
  assumes "verdict_category v = CatUnspecified" "pc_fail_closed_uncovered cfg"
  shows "policy_decide cfg v ctx = Block" "policy_alert_for cfg v a ctx = Some Intervention"
  using assms by (simp_all add: policy_decide_def policy_alert_for_def evaluate_def policy_decision_new_def Let_def)


section \<open>The score cache changes no verdict\<close>

definition cache_wf :: "image_score_cache \<Rightarrow> bool" where
  "cache_wf c \<longleftrightarrow> 0 < ic_capacity c \<and> distinct (ic_order c) \<and> fset (fmdom (ic_scores c)) = set (ic_order c) \<and>
     length (ic_order c) \<le> ic_capacity c"

text \<open>Every cached score is what the model gives for some image with that hash, and a number.\<close>

definition cache_sound :: "(bytes \<Rightarrow> bytes) \<Rightarrow> (bytes \<Rightarrow> f32_bits) \<Rightarrow> image_score_cache \<Rightarrow> bool" where
  "cache_sound sha score c \<longleftrightarrow>
     (\<forall>h x. fmlookup (ic_scores c) h = Some x \<longrightarrow>
        (\<exists>bs. sha256_array sha bs = h \<and> x = score bs) \<and> f32_is_finite (f32_of_bits x))"

lemma fcard_dom: "distinct xs \<Longrightarrow> fset (fmdom m) = set xs \<Longrightarrow> fcard (fmdom m) = length xs"
  by (simp add: fcard.rep_eq distinct_card)

lemma cache_wf_card: "cache_wf c \<Longrightarrow> fcard (fmdom (ic_scores c)) \<le> ic_capacity c"
  using fcard_dom [of "ic_order c" "ic_scores c"] by (simp add: cache_wf_def)

lemma image_evict_wf:
  assumes "distinct order" "fset (fmdom scores) = set order" "0 < capacity" "image_evict capacity order scores = (order', scores')"
  shows "distinct order' \<and> fset (fmdom scores') = set order' \<and> length order' < capacity \<and>
    (\<forall>k x. fmlookup scores' k = Some x \<longrightarrow> fmlookup scores k = Some x)"
  using assms
proof (induction capacity order scores rule: image_evict.induct)
  case (2 capacity oldest order scores)
  have card: "fcard (fmdom scores) = length (oldest # order)" using "2.prems" by (intro fcard_dom) auto
  show ?case
  proof (cases "capacity \<le> fcard (fmdom scores)")
    case True
    have "distinct order" "fset (fmdom (fmdrop oldest scores)) = set order" "0 < capacity"
      "image_evict capacity order (fmdrop oldest scores) = (order', scores')"
      using "2.prems" True by auto
    note IH = "2.IH" [OF True this]
    have "fmlookup scores k = Some x" if "fmlookup scores' k = Some x" for k x
    proof -
      have "fmlookup (fmdrop oldest scores) k = Some x" using IH that by simp
      then show ?thesis by (simp split: if_splits)
    qed
    with IH show ?thesis by simp
  next
    case False
    then have "order' = oldest # order" "scores' = scores" using "2.prems"(4) by simp_all
    then show ?thesis using "2.prems"(1,2) card False by simp
  qed
qed auto

lemma image_cache_insert_wf:
  assumes "cache_wf c"
  shows "cache_wf (image_cache_insert hash x c)"
proof (cases "fmlookup (ic_scores c) hash = None")
  case True
  obtain order scores where e: "image_evict (ic_capacity c) (ic_order c) (ic_scores c) = (order, scores)" by force
  have wf: "distinct order" "fset (fmdom scores) = set order" "length order < ic_capacity c"
      "\<forall>k y. fmlookup scores k = Some y \<longrightarrow> fmlookup (ic_scores c) k = Some y"
    using image_evict_wf [OF _ _ _ e] assms by (auto simp: cache_wf_def)
  have "fmlookup scores hash = None" using wf(4) True by (cases "fmlookup scores hash") auto
  then have "hash \<notin> set order" using wf(2) by (metis fmdom_notI)
  then show ?thesis using True e wf assms by (auto simp: image_cache_insert_def cache_wf_def)
next
  case False
  then have "hash \<in> fset (fmdom (ic_scores c))" by (metis fmdom_notD)
  then show ?thesis using False assms by (auto simp: image_cache_insert_def cache_wf_def)
qed

lemma image_cache_insert_capacity [simp]: "ic_capacity (image_cache_insert hash x c) = ic_capacity c"
  by (simp add: image_cache_insert_def split: prod.split)

lemma image_cache_insert_sound:
  assumes "cache_sound sha score c" "cache_wf c" "f32_is_finite (f32_of_bits (score bs))"
  shows "cache_sound sha score (image_cache_insert (sha256_array sha bs) (score bs) c)"
proof -
  obtain order scores where e: "image_evict (ic_capacity c) (ic_order c) (ic_scores c) = (order, scores)" by force
  have "\<forall>k y. fmlookup scores k = Some y \<longrightarrow> fmlookup (ic_scores c) k = Some y"
    using image_evict_wf [OF _ _ _ e] assms(2) by (auto simp: cache_wf_def)
  then show ?thesis
    using assms(1,3) e by (fastforce simp: cache_sound_def image_cache_insert_def split: if_splits)
qed

text \<open>The same analysis with no cache at all.\<close>

definition analyze_image_plain :: "pipeline_env \<Rightarrow> inline_media \<Rightarrow> pipeline \<Rightarrow> verdict" where
  "analyze_image_plain env media pl =
     (let request_id = pl_device_id pl @ ''-img-'' @ short_hash_hex (pe_sha env) (im_data media)
      in if pe_model_id env = ''stub-noop'' then coverage_gap request_id ''no local image model is available; image was not scored''
         else image_verdict env request_id (im_data media) (pe_score env (im_data media)))"

text \<open>The pipelines that a sequence of images leads to.\<close>

fun images_seen :: "pipeline_env \<Rightarrow> inline_media list \<Rightarrow> pipeline \<Rightarrow> pipeline" where
  "images_seen env [] pl = pl"
| "images_seen env (m # ms) pl = images_seen env ms (snd (analyze_image env m pl))"

lemma analyze_image_keeps:
  assumes "cache_wf (pl_image_scores pl)" "cache_sound (pe_sha env) (pe_score env) (pl_image_scores pl)"
  shows "cache_wf (pl_image_scores (snd (analyze_image env m pl)))"
    "cache_sound (pe_sha env) (pe_score env) (pl_image_scores (snd (analyze_image env m pl)))"
    "ic_capacity (pl_image_scores (snd (analyze_image env m pl))) = ic_capacity (pl_image_scores pl)"
    "pl_device_id (snd (analyze_image env m pl)) = pl_device_id pl"
  using assms
  by (auto simp: analyze_image_def Let_def image_cache_insert_wf image_cache_insert_sound split: option.splits)

lemma images_seen_keeps:
  assumes "cache_wf (pl_image_scores pl)" "cache_sound (pe_sha env) (pe_score env) (pl_image_scores pl)"
  shows "cache_wf (pl_image_scores (images_seen env ms pl)) \<and> cache_sound (pe_sha env) (pe_score env) (pl_image_scores (images_seen env ms pl)) \<and>
    ic_capacity (pl_image_scores (images_seen env ms pl)) = ic_capacity (pl_image_scores pl) \<and> pl_device_id (images_seen env ms pl) = pl_device_id pl"
  using assms
proof (induction ms arbitrary: pl)
  case (Cons m ms)
  show ?case using Cons.IH [OF analyze_image_keeps(1,2) [OF Cons.prems]] analyze_image_keeps(3,4) [OF Cons.prems] by simp
qed simp

lemma image_cache_new_ok: "cache_wf (image_cache_new n)" "cache_sound sha score (image_cache_new n)"
  by (simp_all add: cache_wf_def cache_sound_def image_cache_new_def)

text \<open>
  Claim C37. The score cache of images is invisible and bounded: after any sequence of images the
  verdict on an image is the one a pipeline without a cache gives, provided images with the same
  hash have the same score, and the cache never holds more entries than its capacity, which is at
  least one.
\<close>

theorem image_cache_transparent:
  assumes "\<And>a b. sha256_array (pe_sha env) a = sha256_array (pe_sha env) b \<Longrightarrow> pe_score env a = pe_score env b"
    and "pl_image_scores pl = image_cache_new n"
  shows "fst (analyze_image env m (images_seen env ms pl)) = analyze_image_plain env m pl \<and>
    fcard (fmdom (ic_scores (pl_image_scores (images_seen env ms pl)))) \<le> max n 1"
proof -
  let ?pl = "images_seen env ms pl"
  have inv: "cache_wf (pl_image_scores ?pl)" "cache_sound (pe_sha env) (pe_score env) (pl_image_scores ?pl)"
      "ic_capacity (pl_image_scores ?pl) = max n 1" "pl_device_id ?pl = pl_device_id pl"
    using images_seen_keeps [of pl env ms] image_cache_new_ok assms(2) by (simp_all add: image_cache_new_def)
  have "x = pe_score env (im_data m)"
    if look: "fmlookup (ic_scores (pl_image_scores ?pl)) (sha256_array (pe_sha env) (im_data m)) = Some x" for x
  proof -
    from inv(2) look have "\<exists>b. sha256_array (pe_sha env) b = sha256_array (pe_sha env) (im_data m) \<and> x = pe_score env b"
      unfolding cache_sound_def by simp
    then obtain b where b: "sha256_array (pe_sha env) b = sha256_array (pe_sha env) (im_data m)" "x = pe_score env b" by blast
    show ?thesis unfolding b(2) by (rule assms(1) [OF b(1)])
  qed
  then have "fst (analyze_image env m ?pl) = analyze_image_plain env m pl"
    using inv(4) by (auto simp: analyze_image_def analyze_image_plain_def image_cache_get_def Let_def split: option.split)
  moreover have "fcard (fmdom (ic_scores (pl_image_scores ?pl))) \<le> max n 1"
    using cache_wf_card [OF inv(1)] inv(3) by simp
  ultimately show ?thesis by simp
qed

section \<open>A router without a policy\<close>

text \<open>
  The router that the client builds is never given a policy, so audio goes to the analyzer that has
  no model. Its answer names the category Safe, which the pipeline takes for an analysis: the
  audio is forwarded.
\<close>

lemma fresh_router_passes_audio:
  assumes "pe_offload env = Some (router_new null_analyzer client)" "pe_apply_fails env (fl_flow_id flow) DecForward = None"
  shows "handle_unit env ck flow (AudioUnit m) pl = Some (Ok [], [Decide (fl_flow_id flow) DecForward],
    store_event env ck (fst (the (pipeline_analyze env ck (AudioUnit m) pl))) Allow None pl)"
proof -
  let ?i = "pl_device_id pl @ ''-'' @ kind_tag MkAudio @ ''-'' @ short_hash_hex (pe_sha env) (im_data m)"
  let ?v = "inconclusive_verdict (media_request pl ?i MkAudio (ck_request ck) m)"
  have cat: "verdict_category ?v = Safe" by (simp add: inconclusive_verdict_def verdict_category_def category_of_i32_def category_all_def)
  have an: "pipeline_analyze env ck (AudioUnit m) pl = Some (?v, pl)"
    using assms(1) cat
    by (simp add: pipeline_analyze_def analyze_offload_def covered_def router_analyze_def route_with_state_def router_new_def null_analyzer_def Let_def)
  have "policy_decide (pl_policy pl) ?v ctx = Allow" "policy_alert_for (pl_policy pl) ?v Allow ctx = None" for ctx
    using cat by (simp_all add: policy_decide_def policy_alert_for_def evaluate_def policy_decision_new_def is_intervention_def Let_def)
  then show ?thesis
    using assms(2) by (simp add: handle_unit_def an action_to_decision_def release_segment_def Let_def)
qed

text \<open>
  An image the model scores below the fixed threshold is safe to the pipeline and allowed in every
  age profile, also where the profile blocks from a lower score on.
\<close>

lemma low_image_score_allowed:
  assumes "f32_is_finite (f32_of_bits score)" "\<not> f32_ge (f32_of_bits score) nsfw_block_threshold"
  shows "policy_decide cfg (image_verdict env i bs score) ctx = Allow"
  using assms
  by (simp add: image_verdict_def policy_decide_def evaluate_def policy_decision_new_def verdict_category_def category_of_i32_def category_all_def Let_def)

lemma manifest_disposition: "manifest_in msg ch = Some c \<Longrightarrow> \<exists>live. cl_disposition c = ManifestFlow live"
  by (auto simp: manifest_in_def class_manifest_def Let_def split: if_splits)

lemma manifest_no_units:
  "cl_disposition c = ManifestFlow live \<or> cl_disposition c = OtherFlow \<Longrightarrow> build_units now flow c fc = (Ok [], fc)"
  by (auto simp: build_units_def)

text \<open>
  A playlist that is served as \<open>audio/mpegurl\<close> is audio to the proxy, which waits for a decision, and a
  manifest to the classifier, which hands out no unit: no decision is made.
\<close>

lemma mpegurl_never_decided:
  assumes "fl_readable flow" "fl_payload flow = HttpFlow h" "content_type h = Some ''audio/mpegurl''"
  shows "\<exists>pl'. handle_flow_reporting env ck flow pl = Some (Ok [], [], pl')"
proof -
  have "\<exists>live. cl_disposition (classify_flow flow) = ManifestFlow live"
  proof (cases "sniff_manifest (hd_body_peek h) (fl_source_channel flow)")
    case None
    have "classify_content_type ''audio/mpegurl'' ch = Some (class_manifest (promote_video ch) (is_live ch) ''content-type HLS manifest'')" for ch
      by (simp add: classify_content_type_def)
    from declared_kind [OF assms(1,2) None assms(3) this] show ?thesis by (simp add: class_manifest_def)
  next
    case (Some c)
    then have "classify_flow flow = c" using assms(1,2) by (simp add: classify_flow_def classify_http_def Let_def)
    then show ?thesis using Some manifest_disposition by (auto simp: sniff_manifest_def split: if_splits)
  qed
  then show ?thesis using manifest_no_units by (auto simp: handle_flow_reporting_def flow_classify_def)
qed

text \<open>A conversation is named after the number of its flow, so two flows are never of one conversation.\<close>

lemma append_sep_inj:
  assumes "c \<notin> set x" "c \<notin> set y" "a @ c # x = b @ c # y"
  shows "x = y"
proof -
  have "takeWhile (\<lambda>z. z \<noteq> c) (rev (p @ c # q)) = rev q" if "c \<notin> set q" for p q
    using that takeWhile_append2 [of "rev q" "\<lambda>z. z \<noteq> c" "c # rev p"] by auto
  then have "rev x = rev y" using assms by metis
  then show ?thesis by simp
qed

lemma conversations_never_shared:
  assumes "fl_flow_id f \<noteq> fl_flow_id g"
  shows "scoped_thread_id device (flow_text_span f) \<noteq> scoped_thread_id device (flow_text_span g)"
proof
  let ?t = "\<lambda>n. ''flow-'' @ show_nat n"
  have plain: "graphic c \<and> c \<noteq> CHR 0x1F" if "c \<in> set (?t n)" for c n
    using that show_nat_digits [of c n] by (auto simp: graphic_def is_digit_def code_def)
  have tr: "trim (?t n) = ?t n" for n
  proof (rule trim_graphic)
    show "graphic (hd (?t n))" "graphic (last (?t n))" using plain [of "hd (?t n)" n] plain [of "last (?t n)" n] by simp_all
  qed simp
  have sep: "CHR 0x1F \<notin> set (?t n)" for n using plain by blast
  assume "scoped_thread_id device (flow_text_span f) = scoped_thread_id device (flow_text_span g)"
  then have "trim (fl_app_or_host f) @ CHR 0x1F # trim (?t (fl_flow_id f)) = trim (fl_app_or_host g) @ CHR 0x1F # trim (?t (fl_flow_id g))"
    by (simp add: scoped_thread_id_def flow_text_span_def unit_separator_def)
  from append_sep_inj [OF sep sep this [unfolded tr]] have "?t (fl_flow_id f) = ?t (fl_flow_id g)" .
  then show False using assms by simp
qed

section \<open>Proxy and pipeline together\<close>

record device =
  dv_proxy :: proxy
  dv_jobs :: "gate_job list"
  dv_pipeline :: pipeline

type_synonym answer = "gate_job \<times> intercept_decision option \<times> http_response"

text \<open>A decision reaches the handler that waits for it, if one still does.\<close>

fun deliver :: "effect \<Rightarrow> device \<times> answer list \<Rightarrow> device \<times> answer list" where
  "deliver (Decide i d) (dv, log) =
     (case gate_resolve i (dv_proxy dv) of (sent, px) \<Rightarrow>
        if sent then
          (dv\<lparr>dv_proxy := px, dv_jobs := filter (\<lambda>j. gj_flow_id j \<noteq> i) (dv_jobs dv)\<rparr>,
           log @ map (\<lambda>j. (j, Some d, finish_job j d)) (filter (\<lambda>j. gj_flow_id j = i) (dv_jobs dv)))
        else (dv\<lparr>dv_proxy := px\<rparr>, log))"
| "deliver (RaiseAlert _) x = x"

text \<open>
  The interleavings of a device: messages arrive, the pipeline takes flows from the channel, decisions
  arrive at the gate, and windows end, in any order. A run keeps what was answered at once and
  what was answered after a wait. A failed flow is dropped at once by one of the programs and left to
  its window by the others: \<open>drops\<close> is either.
\<close>

inductive device_run ::
    "pipeline_env \<Rightarrow> http_request decoder \<Rightarrow> http_response decoder \<Rightarrow> policy_config \<Rightarrow>
     device \<Rightarrow> (http_response \<times> http_response) list \<Rightarrow> answer list \<Rightarrow> bool"
  for env decode_rq decode cfg where
  start: "px_armed (dv_proxy dv) \<Longrightarrow> px_queue (dv_proxy dv) = [] \<Longrightarrow> dv_jobs dv = [] \<Longrightarrow> pl_policy (dv_pipeline dv) = cfg \<Longrightarrow>
    device_run env decode_rq decode cfg dv [] []"
| respond: "device_run env decode_rq decode cfg dv direct log \<Longrightarrow> px_next_flow_id (dv_proxy dv) < u64_max \<Longrightarrow>
    handle_response decode host rs (dv_proxy dv) = (Reply r, px) \<Longrightarrow>
    device_run env decode_rq decode cfg (dv\<lparr>dv_proxy := px\<rparr>) (direct @ [(rs, r)]) log"
| wait: "device_run env decode_rq decode cfg dv direct log \<Longrightarrow> px_next_flow_id (dv_proxy dv) < u64_max \<Longrightarrow>
    handle_response decode host rs (dv_proxy dv) = (Await job, px) \<Longrightarrow>
    device_run env decode_rq decode cfg (dv\<lparr>dv_proxy := px, dv_jobs := dv_jobs dv @ [job]\<rparr>) direct log"
| request: "device_run env decode_rq decode cfg dv direct log \<Longrightarrow> px_next_flow_id (dv_proxy dv) < u64_max \<Longrightarrow>
    handle_request decode_rq rq (dv_proxy dv) = (a, h, px) \<Longrightarrow>
    device_run env decode_rq decode cfg (dv\<lparr>dv_proxy := px\<rparr>) direct log"
| message: "device_run env decode_rq decode cfg dv direct log \<Longrightarrow> px_next_flow_id (dv_proxy dv) < u64_max \<Longrightarrow>
    handle_message is_response m (dv_proxy dv) = (out, px) \<Longrightarrow>
    device_run env decode_rq decode cfg (dv\<lparr>dv_proxy := px\<rparr>) direct log"
| lapse: "device_run env decode_rq decode cfg dv direct log \<Longrightarrow>
    device_run env decode_rq decode cfg (dv\<lparr>dv_proxy := snd (expire_message i m (dv_proxy dv))\<rparr>) direct log"
| connect: "device_run env decode_rq decode cfg dv direct log \<Longrightarrow>
    device_run env decode_rq decode cfg (dv\<lparr>dv_proxy := snd (decide_intercept host (dv_proxy dv))\<rparr>) direct log"
| work: "device_run env decode_rq decode cfg dv direct log \<Longrightarrow> next_flow (dv_proxy dv) = (Some flow, px) \<Longrightarrow>
    handle_flow_reporting env ck flow (dv_pipeline dv) = Some (r, effs, pl) \<Longrightarrow>
    fold deliver (effs @ (if drops r then [Decide (fl_flow_id flow) DecDrop] else [])) (dv\<lparr>dv_proxy := px, dv_pipeline := pl\<rparr>, log) = (dv', log') \<Longrightarrow>
    device_run env decode_rq decode cfg dv' direct log'"
| expire: "device_run env decode_rq decode cfg dv direct log \<Longrightarrow> job \<in> set (dv_jobs dv) \<Longrightarrow> expire_job job (dv_proxy dv) = (r, px) \<Longrightarrow>
    device_run env decode_rq decode cfg
      (dv\<lparr>dv_proxy := px, dv_jobs := filter (\<lambda>j. gj_flow_id j \<noteq> gj_flow_id job) (dv_jobs dv)\<rparr>) direct (log @ [(job, None, r)])"

fun class_kind :: "media_class \<Rightarrow> media_kind" where
  "class_kind VideoMedia = MkVideo"
| "class_kind AudioMedia = MkAudio"
| "class_kind _ = MkImage"

text \<open>
  The analyzer of its kind judged exactly the body that waits, and the decision is what the policy
  made of the verdict.
\<close>

definition judged :: "pipeline_env \<Rightarrow> policy_config \<Rightarrow> gate_job \<Rightarrow> intercept_decision \<Rightarrow> bool" where
  "judged env cfg job d \<longleftrightarrow>
     (\<exists>ck u pl v pl' ctx. map_option class_kind (media_class_of (content_type_of (rs_header (gj_parts job)))) = Some (fst (unit_data u)) \<and>
        snd (unit_data u) = gj_full job \<and> pipeline_analyze env ck u pl = Some (v, pl') \<and>
        d = action_to_decision (policy_decide cfg v ctx) (rewrite_of v))"

lemma pipeline_analyze_frames:
  assumes "pipeline_analyze env ck u pl = Some (v, pl')"
  shows "pl_policy pl' = pl_policy pl" "pl_age_profile pl' = pl_age_profile pl" "pl_device_id pl' = pl_device_id pl"
  using assms by (auto simp: pipeline_analyze_def analyze_image_def Let_def split: analysis_unit.splits option.splits if_splits)

lemma handle_unit_decides:
  assumes "handle_unit env ck flow u pl = Some (r, effs, pl')"
  shows "pl_policy pl' = pl_policy pl"
    "Decide i d \<in> set effs \<Longrightarrow> i = fl_flow_id flow \<and>
       (\<exists>v pl1 ctx. pipeline_analyze env ck u pl = Some (v, pl1) \<and> d = action_to_decision (policy_decide (pl_policy pl) v ctx) (rewrite_of v))"
proof -
  obtain v pl1 where an: "pipeline_analyze env ck u pl = Some (v, pl1)" using assms by (auto simp: handle_unit_def split: option.splits)
  note fr = pipeline_analyze_frames [OF an]
  have rel: "pl_policy (release_segment ck u a rw pl1) = pl_policy pl" for a rw
    using fr(1) by (auto simp: release_segment_def split: analysis_unit.split option.split)
  have st: "pl_policy (store_event env ck v a k q) = pl_policy q" for a k q by (simp add: store_event_def split: option.split)
  show "pl_policy pl' = pl_policy pl"
    using assms an fr(1) by (auto simp: handle_unit_def Let_def rel st split: option.splits)
  show "i = fl_flow_id flow \<and>
       (\<exists>v pl1 ctx. pipeline_analyze env ck u pl = Some (v, pl1) \<and> d = action_to_decision (policy_decide (pl_policy pl) v ctx) (rewrite_of v))"
    if "Decide i d \<in> set effs"
  proof -
    have "i = fl_flow_id flow \<and> d = action_to_decision (policy_decide (pl_policy pl) v (flow_context flow pl1)) (rewrite_of v)"
      using assms an fr(1) that by (auto simp: handle_unit_def Let_def split: option.splits if_splits)
    with an show ?thesis by blast
  qed
qed

lemma handle_units_decides:
  assumes "handle_units env ck flow us pl = Some (r, effs, pl')" 
  shows "pl_policy pl' = pl_policy pl \<and> (\<forall>i d. Decide i d \<in> set effs \<longrightarrow> i = fl_flow_id flow \<and>
    (\<exists>u\<in>set us. \<exists>v pl0 pl1 ctx. pipeline_analyze env ck u pl0 = Some (v, pl1) \<and>
       d = action_to_decision (policy_decide (pl_policy pl) v ctx) (rewrite_of v)))"
  using assms
proof (induction us arbitrary: pl r effs pl')
  case (Cons u us)
  obtain r1 effs1 pl1 where h: "handle_unit env ck flow u pl = Some (r1, effs1, pl1)" using Cons.prems by (auto split: option.splits)
  note d = handle_unit_decides [OF h]
  show ?case
  proof (cases r1)
    case (Inl e)
    with Cons.prems h have "pl' = pl1" "effs = effs1" by auto
    then show ?thesis using d by (metis list.set_intros(1))
  next
    case (Inr rs)
    with Cons.prems h obtain r2 effs2 where t: "handle_units env ck flow us pl1 = Some (r2, effs2, pl')" "effs = effs1 @ effs2"
      by auto
    from Cons.IH [OF t(1)] d t(2) show ?thesis by (metis Un_iff list.set_intros set_append)
  qed
qed simp

lemma media_class_declares:
  assumes "media_class_of (Some ct) = Some cls" "cls \<noteq> UnsupportedImage" "ct \<noteq> ''audio/mpegurl''"
  shows "declares ct (class_kind cls)"
  using assms by (auto simp: media_class_of_def declares_def split: if_splits)

lemma buffer_video_unit:
  "fst (buffer_video now flow live fc) = Inr us \<Longrightarrow> u \<in> set us \<Longrightarrow> unit_data u = (MkVideo, body_bytes (fl_payload flow))"
  by (auto simp: buffer_video_def inline_of_def split: if_splits prod.splits admission.splits)

lemma typed_media_units:
  assumes "fl_payload flow = HttpFlow h" "content_type h = Some ct" "media_class_of (Some ct) = Some cls" "cls \<noteq> UnsupportedImage"
    "fst (flow_classify now flow fc) = Inr us" "u \<in> set us"
  shows "unit_data u = (class_kind cls, hd_body_peek h)"
proof -
  have readable: "fl_readable flow"
    using assms(5,6) by (rule_tac ccontr) (auto simp: flow_classify_def classify_flow_def pass_other_def build_units_def)
  have plain: "sniff_manifest (hd_body_peek h) (fl_source_channel flow) = None"
  proof (rule ccontr)
    assume "sniff_manifest (hd_body_peek h) (fl_source_channel flow) \<noteq> None"
    then obtain c where c: "sniff_manifest (hd_body_peek h) (fl_source_channel flow) = Some c" by blast
    then have "\<exists>live. cl_disposition c = ManifestFlow live" by (auto simp: sniff_manifest_def dest: manifest_disposition split: if_splits)
    moreover have "classify_flow flow = c" using c readable assms(1) by (simp add: classify_flow_def classify_http_def Let_def)
    ultimately show False using assms(5,6) manifest_no_units by (auto simp: flow_classify_def)
  qed
  have "ct \<noteq> ''audio/mpegurl''"
  proof
    assume "ct = ''audio/mpegurl''"
    then have "classify_content_type ct (fl_source_channel flow) = Some (class_manifest (promote_video (fl_source_channel flow)) (is_live (fl_source_channel flow)) ''content-type HLS manifest'')"
      by (simp add: classify_content_type_def)
    from declared_kind [OF readable assms(1) plain assms(2) this] show False
      using assms(5,6) by (auto simp: flow_classify_def build_units_def class_manifest_def)
  qed
  with assms(3,4) have "declares ct (class_kind cls)" by (rule media_class_declares)
  then obtain c where c: "classify_content_type ct (fl_source_channel flow) = Some c" "cl_media_kind c = class_kind cls"
      "cl_disposition c = (if class_kind cls = MkVideo then BufferSegment (is_live (fl_source_channel flow)) else PassThrough)"
    by (rule declares_classified)
  have cls: "classify_flow flow = c" by (rule declared_kind [OF readable assms(1) plain assms(2) c(1)])
  show ?thesis
  proof (cases "class_kind cls = MkVideo")
    case True
    then show ?thesis
      using assms(5,6) cls c(3) buffer_video_unit assms(1) by (fastforce simp: flow_classify_def build_units_def)
  next
    case False
    then have "class_kind cls \<in> {MkImage, MkAudio}" by (cases cls) auto
    then show ?thesis
      using False assms(1,5,6) cls c(2,3) by (auto simp: flow_classify_def build_units_def inline_of_def)
  qed
qed

lemma strip_ct_idem: "strip_ct_params (strip_ct_params s) = strip_ct_params s"
proof -
  let ?t = "trim (first_part CHR '';'' s)"
  have "CHR '';'' \<notin> set ?t" using set_trim first_part_free by blast
  moreover have "c = CHR '';''" if eq: "ascii_lower_char c = CHR '';''" for c
  proof -
    have semi: "code (CHR '';'') = 59" by (simp add: code_def)
    then have "(if 65 \<le> code c \<and> code c \<le> 90 then code c + 32 else code c) = 59" using code_ascii_lower [of c] eq by simp
    then have "code c = code (CHR '';'')" using semi by (simp split: if_splits)
    then show ?thesis by (simp only: code_eq_iff)
  qed
  ultimately have "CHR '';'' \<notin> set (to_ascii_lowercase ?t)" by (force simp: to_ascii_lowercase_def)
  then have "first_part CHR '';'' (to_ascii_lowercase ?t) = to_ascii_lowercase ?t" by (rule first_part_id)
  then show ?thesis by (simp add: strip_ct_params_def trim_lower)
qed

text \<open>The flow of a job that waits says what the job needs to hear.\<close>

definition carries :: "proxy_flow \<Rightarrow> gate_job \<Rightarrow> bool" where
  "carries flow job \<longleftrightarrow> gj_media job \<longrightarrow> body_bytes (fl_payload (convert flow)) = gj_full job \<and>
     pf_content_type flow = content_type_of (rs_header (gj_parts job)) \<and>
     (\<exists>cls. media_class_of (content_type_of (rs_header (gj_parts job))) = Some cls \<and> cls \<noteq> UnsupportedImage)"

lemma carried_units:
  assumes "carries flow job" "gj_media job" "fst (flow_classify now (convert flow) fc) = Inr us" "u \<in> set us"
  shows "map_option class_kind (media_class_of (content_type_of (rs_header (gj_parts job)))) = Some (fst (unit_data u)) \<and>
    snd (unit_data u) = gj_full job"
proof -
  obtain cls where cls: "media_class_of (content_type_of (rs_header (gj_parts job))) = Some cls" "cls \<noteq> UnsupportedImage"
    and ct: "pf_content_type flow = content_type_of (rs_header (gj_parts job))"
    and body: "body_bytes (fl_payload (convert flow)) = gj_full job"
    using assms(1,2) by (auto simp: carries_def)
  obtain raw where raw: "rs_header (gj_parts job) ''content-type'' = Some raw"
    using cls(1) by (cases "rs_header (gj_parts job) ''content-type''") (auto simp: content_type_of_def media_class_of_def)
  obtain h where h: "fl_payload (convert flow) = HttpFlow h" "hd_headers h = [\<lparr>hh_name = ''content-type'', hh_value = strip_ct_params raw\<rparr>]"
    using ct raw by (simp add: convert_def content_type_of_def Let_def)
  then have "content_type h = Some (strip_ct_params raw)"
    by (simp add: content_type_def header_of_def strip_ct_idem)
  moreover have "media_class_of (Some (strip_ct_params raw)) = Some cls" using cls(1) raw by (simp add: content_type_of_def)
  ultimately have "unit_data u = (class_kind cls, hd_body_peek h)"
    using typed_media_units [OF h(1) _ _ cls(2) assms(3,4)] by blast
  then show ?thesis using cls(1) body h(1) by simp
qed

text \<open>A step of the proxy only appends flows with fresh numbers.\<close>

definition extends :: "proxy \<Rightarrow> proxy \<Rightarrow> bool" where
  "extends px px' \<longleftrightarrow> px_armed px' = px_armed px \<and> px_next_flow_id px \<le> px_next_flow_id px' \<and>
     (\<exists>fs. px_queue px' = px_queue px @ fs \<and> (\<forall>f\<in>set fs. px_next_flow_id px \<le> pf_flow_id f \<and> pf_flow_id f < px_next_flow_id px'))"

lemma extends_same:
  "px_armed px' = px_armed px \<Longrightarrow> px_next_flow_id px' = px_next_flow_id px \<Longrightarrow> px_queue px' = px_queue px \<Longrightarrow> extends px px'"
  by (simp add: extends_def)

lemma extends_emit:
  assumes "px_next_flow_id px < u64_max" "pf_flow_id f = px_next_flow_id px" "px_armed px1 = px_armed px"
    "px_next_flow_id px1 = (px_next_flow_id px + 1) mod 2 ^ 64" "px_queue px1 = px_queue px"
  shows "extends px (snd (emit f px1))" "extends px px1"
  using assms next_id_mod [OF assms(1)] by (auto simp: extends_def)

lemma extends_cancel: "extends px px' \<Longrightarrow> extends px (gate_cancel i px')"
  by (simp add: extends_def gate_cancel_def)

lemma extends_report:
  assumes "px_next_flow_id px < u64_max" "\<And>i. pf_flow_id (mk i) = i"
  shows "extends px (report mk px)"
proof -
  have "report mk px = snd (emit (mk (px_next_flow_id px)) (px\<lparr>px_next_flow_id := (px_next_flow_id px + 1) mod 2 ^ 64\<rparr>))"
    by (simp add: report_def next_id_def)
  then show ?thesis using extends_emit(1) [OF assms(1)] assms(2) by simp
qed

lemma status_flow_id [simp]: "pf_flow_id (status_flow src host rs body ct i) = i"
  by (simp add: status_flow_def flow_of_def)

lemma flow_of_id [simp]: "pf_flow_id (flow_of i src host m uri body r ct a b) = i"
  by (simp add: flow_of_def)

lemma extends_gate:
  assumes "px_next_flow_id px < u64_max"
  shows "extends px (snd (gate_buffered rs full host ct media html px))"
proof -
  let ?px = "px\<lparr>px_next_flow_id := (px_next_flow_id px + 1) mod 2 ^ 64\<rparr>"
  let ?px1 = "if px_armed px then gate_register (px_next_flow_id px) ?px else ?px"
  obtain sent px2 where em: "emit (gate_flow rs full host ct media (px_next_flow_id px)) ?px1 = (sent, px2)" by force
  have "extends px (snd (emit (gate_flow rs full host ct media (px_next_flow_id px)) ?px1))"
    by (rule extends_emit(1) [OF assms]) (simp_all add: gate_flow_facts(1) gate_register_def)
  then have e: "extends px px2" "extends px (gate_cancel i px2)" for i using em extends_cancel by simp_all
  have "snd (gate_buffered rs full host ct media html px) \<in> {px2, gate_cancel (px_next_flow_id px) px2}"
    using em by (cases "px_armed px"; cases sent) (simp_all add: gate_buffered_def next_id_def)
  then show ?thesis using e by auto
qed

lemma extends_refl: "extends px px"
  by (simp add: extends_def)

lemma extends_response:
  assumes "px_next_flow_id px < u64_max"
  shows "extends px (snd (handle_response decode host rs px))"
proof -
  note ex = extends_report [OF assms] extends_gate [OF assms] extends_refl
  have media: "extends px (snd (handle_media cls host rs px))" for cls rs
    by (simp add: handle_media_def Let_def ex split: option.split bounded_read.split)
  have html: "extends px (snd (handle_html decode host rs px))" for rs
    by (simp add: handle_html_def Let_def ex split: option.split bounded_read.split)
  have captured: "extends px (snd (handle_text decode host rs px))" for rs
    by (simp add: handle_text_def Let_def ex split: option.split bounded_read.split)
  have dec: "extends px (snd (handle_decoded decode host rs px))" for rs
    by (simp add: handle_decoded_def Let_def ex media html captured split: option.split)
  show ?thesis by (simp add: handle_response_def Let_def ex dec split: option.split)
qed

lemma extends_request:
  assumes "px_next_flow_id px < u64_max"
  shows "extends px (snd (snd (handle_request decode rq px)))"
proof -
  note ex = extends_emit [OF assms, where ?px1.0 = "px\<lparr>px_next_flow_id := (px_next_flow_id px + 1) mod 2 ^ 64\<rparr>", simplified] 
  have step: "extends px (px\<lparr>px_next_flow_id := Suc (px_next_flow_id px) mod 2 ^ 64\<rparr>)"
    using extends_emit(2) [OF assms, where ?px1.0 = "px\<lparr>px_next_flow_id := Suc (px_next_flow_id px) mod 2 ^ 64\<rparr>"
        and f = "flow_of (px_next_flow_id px) SrcWeb [] [] [] [] False None None None"] by simp
  show ?thesis
    using step by (simp add: handle_request_def next_id_def Let_def extends_refl ex split: option.split bounded_read.split)
qed

lemma extends_message:
  assumes "px_next_flow_id px < u64_max"
  shows "extends px (snd (handle_message is_response m px))"
proof (cases m)
  case (WsText content)
  let ?px = "px\<lparr>px_next_flow_id := (px_next_flow_id px + 1) mod 2 ^ 64\<rparr>"
  let ?px1 = "if px_armed px then gate_register (px_next_flow_id px) ?px else ?px"
  let ?f = "flow_of (px_next_flow_id px) SrcWeb [] (if is_response then [] else ''WEBSOCKET'') ''websocket'' (as_bytes content) is_response
    (Some ''text/plain'') None None"
  have "extends px (snd (emit ?f ?px1))" by (rule extends_emit(1) [OF assms]) (simp_all add: gate_register_def)
  then show ?thesis using WsText extends_refl extends_cancel
    by (auto simp: handle_message_def next_id_def split_beta Let_def)
qed (simp_all add: handle_message_def extends_refl)

lemma extends_connect: "extends px (snd (decide_intercept host px))"
  by (auto simp: decide_intercept_def extends_same split_beta Let_def)

lemma awaited_response:
  assumes "px_armed px" "handle_response decode host rs px = (Await job, px')"
  shows "awaits job px px' \<and> (gj_media job \<longrightarrow> \<not> gj_html job \<and>
    (\<exists>cls. media_class_of (content_type_of (rs_header (gj_parts job))) = Some cls \<and> cls \<noteq> UnsupportedImage))"
proof -
  let ?P = "\<lambda>out :: outcome \<times> proxy. \<forall>job px'. out = (Await job, px') \<longrightarrow> awaits job px px' \<and> (gj_media job \<longrightarrow> \<not> gj_html job \<and>
    (\<exists>cls. media_class_of (content_type_of (rs_header (gj_parts job))) = Some cls \<and> cls \<noteq> UnsupportedImage))"
  have gate: "?P (gate_buffered rs full host (content_type_of (rs_header rs)) media html px)"
    if "media \<noteq> Some UnsupportedImage" "media = None \<or> \<not> html \<and> media_class_of (content_type_of (rs_header rs)) = media" for rs full media html
    using gate_buffered_armed [OF assms(1) that(1), where rs = rs and full = full and host = host and html = html] that by auto
  have media: "?P (handle_media cls host rs px)"
    if "cls \<noteq> UnsupportedImage" "media_class_of (content_type_of (rs_header rs)) = Some cls" for cls rs
    using gate [where media = "Some cls" and html = False and rs = rs] that
    by (auto simp: handle_media_def Let_def split: option.splits bounded_read.splits if_splits)
  have html: "?P (handle_html decode host rs px)" for rs
    using gate [where media = None and html = True]
    by (auto simp: handle_html_def Let_def split: option.splits bounded_read.splits if_splits)
  have dec: "?P (handle_decoded decode host rs px)" for rs
    using media html by (auto simp: handle_decoded_def handle_text_def Let_def split: option.splits bounded_read.splits if_splits)
  have "?P (handle_response decode host rs px)"
    using dec by (auto simp: handle_response_def Let_def split: option.splits if_splits)
  with assms(2) show ?thesis by blast
qed

definition device_ok :: "policy_config \<Rightarrow> device \<Rightarrow> bool" where
  "device_ok cfg dv \<longleftrightarrow> px_armed (dv_proxy dv) \<and> pl_policy (dv_pipeline dv) = cfg \<and>
     (\<forall>f\<in>set (px_queue (dv_proxy dv)). pf_flow_id f < px_next_flow_id (dv_proxy dv)) \<and>
     (\<forall>j\<in>set (dv_jobs dv). gj_flow_id j < px_next_flow_id (dv_proxy dv) \<and> (gj_media j \<longrightarrow> \<not> gj_html j) \<and>
        (\<forall>f\<in>set (px_queue (dv_proxy dv)). pf_flow_id f = gj_flow_id j \<longrightarrow> carries f j))"

definition log_ok :: "pipeline_env \<Rightarrow> policy_config \<Rightarrow> answer list \<Rightarrow> bool" where
  "log_ok env cfg log \<longleftrightarrow>
     (\<forall>(job, c, r)\<in>set log. gj_media job \<longrightarrow> \<not> gj_html job \<and>
        (r = blocked_response \<or> (\<exists>d. c = Some d \<and> r = finish_job job d \<and> judged env cfg job d)))"

lemma log_ok_append [simp]: "log_ok env cfg (xs @ ys) \<longleftrightarrow> log_ok env cfg xs \<and> log_ok env cfg ys"
  by (auto simp: log_ok_def)

lemma device_ok_extends:
  assumes "device_ok cfg dv" "extends (dv_proxy dv) px"
  shows "device_ok cfg (dv\<lparr>dv_proxy := px\<rparr>)"
proof -
  obtain fs where fs: "px_queue px = px_queue (dv_proxy dv) @ fs"
      "\<forall>f\<in>set fs. px_next_flow_id (dv_proxy dv) \<le> pf_flow_id f \<and> pf_flow_id f < px_next_flow_id px"
    and px: "px_armed px = px_armed (dv_proxy dv)" "px_next_flow_id (dv_proxy dv) \<le> px_next_flow_id px"
    using assms(2) by (auto simp: extends_def)
  then show ?thesis using assms(1) by (fastforce simp: device_ok_def)
qed

lemma device_ok_wait:
  assumes "device_ok cfg dv" "px_next_flow_id (dv_proxy dv) < u64_max"
    "handle_response decode host rs (dv_proxy dv) = (Await job, px)"
  shows "device_ok cfg (dv\<lparr>dv_proxy := px, dv_jobs := dv_jobs dv @ [job]\<rparr>)"
proof -
  have armed: "px_armed (dv_proxy dv)" using assms(1) by (simp add: device_ok_def)
  note aw = awaited_response [OF armed assms(3)]
  have ext: "extends (dv_proxy dv) px" using extends_response [OF assms(2), of decode host rs] assms(3) by simp
  note ok = device_ok_extends [OF assms(1) this]
  obtain flow where flow: "px_queue px = px_queue (dv_proxy dv) @ [flow]" "pf_flow_id flow = gj_flow_id job" "carries flow job"
      "gj_flow_id job = px_next_flow_id (dv_proxy dv)"
    using aw by (auto simp: awaits_def carries_def)
  have "pf_flow_id f \<noteq> gj_flow_id job" if "f \<in> set (px_queue (dv_proxy dv))" for f
    using assms(1) that flow(4) by (auto simp: device_ok_def)
  moreover have "gj_flow_id job < px_next_flow_id px" using ext flow(1,2) by (auto simp: extends_def)
  ultimately show ?thesis using ok flow aw by (auto simp: device_ok_def)
qed

lemma deliver_ok:
  assumes "device_ok cfg dv" "log_ok env cfg log" "deliver e (dv, log) = (dv', log')"
    "\<And>i d j. e = Decide i d \<Longrightarrow> j \<in> set (dv_jobs dv) \<Longrightarrow> gj_flow_id j = i \<Longrightarrow> gj_media j \<Longrightarrow> d = DecDrop \<or> judged env cfg j d"
  shows "device_ok cfg dv' \<and> log_ok env cfg log' \<and> set (dv_jobs dv') \<subseteq> set (dv_jobs dv)"
proof (cases e)
  case (Decide i d)
  have new: "log_ok env cfg (map (\<lambda>j. (j, Some d, finish_job j d)) (filter (\<lambda>j. gj_flow_id j = i) (dv_jobs dv)))"
  proof -
    have "\<not> gj_html j \<and> (finish_job j d = blocked_response \<or> judged env cfg j d)" if "j \<in> set (dv_jobs dv)" "gj_flow_id j = i" "gj_media j" for j
      using assms(4) [OF Decide that] assms(1) that by (auto simp: device_ok_def finish_drop)
    then show ?thesis by (auto simp: log_ok_def)
  qed
  then have "log_ok env cfg log'" using assms(2,3) Decide by (auto simp: gate_resolve_def split: if_splits)
  moreover have "device_ok cfg dv' \<and> set (dv_jobs dv') \<subseteq> set (dv_jobs dv)"
    using assms(1,3) Decide by (auto simp: gate_resolve_def device_ok_def split: if_splits)
  ultimately show ?thesis by simp
qed (use assms in simp)

lemma delivers_ok:
  assumes "device_ok cfg dv" "log_ok env cfg log" "fold deliver es (dv, log) = (dv', log')"
    "\<And>i d j. Decide i d \<in> set es \<Longrightarrow> j \<in> set (dv_jobs dv) \<Longrightarrow> gj_flow_id j = i \<Longrightarrow> gj_media j \<Longrightarrow> d = DecDrop \<or> judged env cfg j d"
  shows "device_ok cfg dv' \<and> log_ok env cfg log'"
  using assms
proof (induction es arbitrary: dv log)
  case (Cons e es)
  obtain dv1 log1 where d: "deliver e (dv, log) = (dv1, log1)" by force
  have one: "device_ok cfg dv1 \<and> log_ok env cfg log1 \<and> set (dv_jobs dv1) \<subseteq> set (dv_jobs dv)"
    using Cons.prems by (intro deliver_ok [OF _ _ d]) auto
  show ?case
    using Cons.prems(3,4) d one by (intro Cons.IH [of dv1 log1]) auto
qed simp

lemma work_decides:
  assumes "handle_flow_reporting env ck flow pl = Some (r, effs, pl')"
  shows "pl_policy pl' = pl_policy pl \<and> (\<forall>i d. Decide i d \<in> set effs \<longrightarrow> i = fl_flow_id flow \<and>
    (\<exists>us. fst (flow_classify (ck_admit ck) flow (pl_classifier pl)) = Inr us \<and>
       (\<exists>u\<in>set us. \<exists>v pl0 pl1 ctx. pipeline_analyze env ck u pl0 = Some (v, pl1) \<and>
          d = action_to_decision (policy_decide (pl_policy pl) v ctx) (rewrite_of v))))"
proof (cases "flow_classify (ck_admit ck) flow (pl_classifier pl)")
  case (Pair a fc)
  show ?thesis
  proof (cases a)
    case (Inl e)
    with Pair assms show ?thesis by (auto simp: handle_flow_reporting_def)
  next
    case (Inr us)
    with Pair assms have "handle_units env ck flow us (pl\<lparr>pl_classifier := fc\<rparr>) = Some (r, effs, pl')"
      by (simp add: handle_flow_reporting_def)
    from handle_units_decides [OF this] Pair Inr show ?thesis by simp
  qed
qed

lemma work_ok:
  assumes "device_ok cfg dv" "log_ok env cfg log" "next_flow (dv_proxy dv) = (Some flow, px)"
    "handle_flow_reporting env ck flow (dv_pipeline dv) = Some (r, effs, pl)"
    "fold deliver (effs @ (if drops r then [Decide (fl_flow_id flow) DecDrop] else [])) (dv\<lparr>dv_proxy := px, dv_pipeline := pl\<rparr>, log) = (dv', log')"
  shows "device_ok cfg dv' \<and> log_ok env cfg log'"
proof -
  obtain f rest where f: "px_queue (dv_proxy dv) = f # rest" "flow = convert f" "px = (dv_proxy dv)\<lparr>px_queue := rest\<rparr>"
    using assms(3) by (auto simp: next_flow_def split: list.splits)
  have fid: "fl_flow_id flow = pf_flow_id f" using f(2) by (simp add: convert_def Let_def)
  note w = work_decides [OF assms(4)]
  have cfg: "pl_policy (dv_pipeline dv) = cfg" using assms(1) by (simp add: device_ok_def)
  have ok: "device_ok cfg (dv\<lparr>dv_proxy := px, dv_pipeline := pl\<rparr>)" using assms(1) f w by (auto simp: device_ok_def)
  have "d = DecDrop \<or> judged env cfg j d"
    if i: "Decide i d \<in> set (effs @ (if drops r then [Decide (fl_flow_id flow) DecDrop] else []))" and j: "j \<in> set (dv_jobs dv)" "gj_flow_id j = i" "gj_media j"
    for i d j
  proof (cases "Decide i d \<in> set effs")
    case True
    then obtain us u v pl0 pl1 ctx where u: "i = pf_flow_id f" "fst (flow_classify (ck_admit ck) (convert f) (pl_classifier (dv_pipeline dv))) = Inr us" "u \<in> set us"
        "pipeline_analyze env ck u pl0 = Some (v, pl1)" "d = action_to_decision (policy_decide cfg v ctx) (rewrite_of v)"
      using w cfg fid f(2) by blast
    have "carries f j" using assms(1) f(1) j(1,2) u(1) by (auto simp: device_ok_def)
    from carried_units [OF this j(3) u(2,3)] u(4,5) show ?thesis unfolding judged_def by blast
  next
    case False
    with i show ?thesis by (auto split: if_splits)
  qed
  then show ?thesis using delivers_ok [OF ok assms(2,5)] by simp
qed

lemma expire_ok:
  assumes "device_ok cfg dv" "log_ok env cfg log" "job \<in> set (dv_jobs dv)" "expire_job job (dv_proxy dv) = (r, px)"
  shows "device_ok cfg (dv\<lparr>dv_proxy := px, dv_jobs := filter (\<lambda>j. gj_flow_id j \<noteq> gj_flow_id job) (dv_jobs dv)\<rparr>) \<and>
    log_ok env cfg (log @ [(job, None, r)])"
  using assms by (auto simp: device_ok_def log_ok_def expire_job_def gate_policy_def finish_drop gate_cancel_def)

lemma device_run_ok:
  assumes "device_run env decode_rq decode cfg dv direct log" "keeps_type decode"
  shows "device_ok cfg dv \<and> log_ok env cfg log \<and>
    (\<forall>(rs, r)\<in>set direct. media_class_of (content_type_of (rs_header rs)) \<noteq> None \<longrightarrow> r = blocked_response \<or> rs_body r = [])"
  using assms(1)
proof (induction rule: device_run.induct)
  case (start dv)
  then show ?case by (simp add: device_ok_def log_ok_def)
next
  case (respond dv direct log host rs r px)
  have "extends (dv_proxy dv) px" using extends_response [OF respond.hyps(2), of decode host rs] respond.hyps(3) by simp
  moreover have "media_class_of (content_type_of (rs_header rs)) \<noteq> None \<longrightarrow> r = blocked_response \<or> rs_body r = []"
    using media_waits_for_decision [OF _ assms(2), of "dv_proxy dv" rs host] respond by (auto simp: device_ok_def)
  ultimately show ?case using respond.IH device_ok_extends by auto
next
  case (wait dv direct log host rs job px)
  then show ?case using device_ok_wait by blast
next
  case (request dv direct log rq a h px)
  have "extends (dv_proxy dv) px" using extends_request [OF request.hyps(2), of decode_rq rq] request.hyps(3) by simp
  then show ?case using request.IH device_ok_extends by blast
next
  case (message dv direct log is_response m out px)
  have "extends (dv_proxy dv) px" using extends_message [OF message.hyps(2), of is_response m] message.hyps(3) by simp
  then show ?case using message.IH device_ok_extends by blast
next
  case (lapse dv direct log i m)
  have "extends (dv_proxy dv) (snd (expire_message i m (dv_proxy dv)))" by (simp add: expire_message_def extends_cancel extends_refl)
  then show ?case using lapse.IH device_ok_extends by blast
next
  case (connect dv direct log host)
  then show ?case using device_ok_extends [OF _ extends_connect] by blast
next
  case (work dv direct log flow px ck r effs pl drops dv' log')
  then show ?case using work_ok by blast
next
  case (expire dv direct log job r px)
  then show ?case using expire_ok by blast
qed


section \<open>Examples\<close>

definition sample_device_env :: pipeline_env where
  "sample_device_env =
     \<lparr>pe_tx = sample_tx, pe_sha = (\<lambda>bs. replicate 32 0), pe_mac = (\<lambda>k bs. bs), pe_write = (\<lambda>path i. Ok ()), pe_model_id = ''m'',
      pe_score = (\<lambda>bs. f32_round 0), pe_video = None, pe_offload = None, pe_alert = True, pe_apply_fails = (\<lambda>i d. None)\<rparr>"

definition sample_clock :: pipeline_clock where
  "sample_clock = \<lparr>ck_admit = 0, ck_apply = 1, ck_span = 1, ck_text = (1, 1), ck_request = 1, ck_alert = 1, ck_store = 1\<rparr>"

definition sample_pipeline :: pipeline where
  "sample_pipeline = pipeline_new ''tablet'' (sample_analyzer 10) None"

lemma sample_pipeline_policy [simp]:
  "pl_policy sample_pipeline = policy_config_default" "pc_fail_closed_uncovered policy_config_default"
  by (simp_all add: sample_pipeline_def pipeline_new_def policy_config_default_def)


theorem image_cache_transparent_witness:
  "fst (analyze_image sample_device_env \<lparr>im_data = [1], im_mime_type = []\<rparr> (images_seen sample_device_env [\<lparr>im_data = [2], im_mime_type = []\<rparr>] sample_pipeline)) =
   analyze_image_plain sample_device_env \<lparr>im_data = [1], im_mime_type = []\<rparr> sample_pipeline"
proof -
  have "pl_image_scores sample_pipeline = image_cache_new (parse_positive u64_max default_image_cache_entries None)"
    by (simp add: sample_pipeline_def pipeline_new_def)
  moreover have "pe_score sample_device_env a = pe_score sample_device_env b" for a b by (simp add: sample_device_env_def)
  ultimately show ?thesis using image_cache_transparent [of sample_device_env sample_pipeline] by blast
qed

lemma sample_queue:
  "px_queue (snd (handle_response Some ''h'' sample_png sample_proxy)) = [gate_flow sample_png [0x89, 0x50] ''h'' (Some ''image/png'') (Some ImageMedia) 1]"
proof -
  have "media_class_of (Some ''image/png'') = Some ImageMedia" by code_simp
  then show ?thesis
    by (simp add: handle_response_def sample_type Let_def handle_decoded_def handle_media_def content_length_of_def)
       (simp add: sample_png_def has_content_encoding_def collect_bounded_def image_body_cap_def usize_saturating_add_def
         u64_max_def gate_buffered_def next_id_def gate_register_def emit_def sample_proxy_def set_armed_def proxy_new_def Let_def
         gate_flow_def flow_of_def split_beta)
qed

definition sample_flow :: captured_flow where
  "sample_flow = convert (gate_flow sample_png [0x89, 0x50] ''h'' (Some ''image/png'') (Some ImageMedia) 1)"

lemma sample_flow_facts:
  "fl_flow_id sample_flow = 1"
  "\<exists>m fc. flow_classify 0 sample_flow flow_with_defaults = (Ok [ImageUnit m], fc) \<and> im_data m = [0x89, 0x50]"
proof -
  let ?h = "\<lparr>hd_method = None, hd_path = Some ''status:200'', hd_status = None,
    hd_headers = [\<lparr>hh_name = ''content-type'', hh_value = ''image/png''\<rparr>], hd_body_peek = [0x89, 0x50]\<rparr>"
  have flow: "sample_flow = \<lparr>fl_flow_id = 1, fl_source_channel = Web, fl_app_or_host = ''h'', fl_readable = True, fl_payload = HttpFlow ?h\<rparr>"
  proof -
    have "show_nat 200 = ''200''" by code_simp
    then show ?thesis by (simp add: sample_flow_def gate_flow_def flow_of_def convert_def sample_png_def Let_def)
  qed
  have fl: "fl_readable sample_flow" "fl_payload sample_flow = HttpFlow ?h" "fl_source_channel sample_flow = Web" unfolding flow by simp_all
  show "fl_flow_id sample_flow = 1" unfolding flow by simp
  have "classify_content_type ''image/png'' Web = Some (class_image Web ''content-type image/*'')" by (simp add: declared_image)
  moreover have "sniff_manifest [0x89, 0x50] Web = None" "content_type ?h = Some ''image/png''" by code_simp+
  ultimately have "classify_flow sample_flow = class_image Web ''content-type image/*''"
    using declared_kind [of sample_flow ?h "''image/png''"] fl by simp
  then show "\<exists>m fc. flow_classify 0 sample_flow flow_with_defaults = (Ok [ImageUnit m], fc) \<and> im_data m = [0x89, 0x50]"
    using fl by (simp add: flow_classify_def build_units_def class_image_def inline_of_def)
qed

lemma zero_is_safe:
  "verdict_category (image_verdict env i bs (f32_round 0)) = Safe"
  by (simp add: image_verdict_def f32_constants nsfw_block_threshold_def f32_lit_def verdict_category_def Let_def Fract_of_int_quotient
      category_of_i32_def category_all_def)

lemma sample_turn:
  "\<exists>pl. handle_flow_reporting sample_device_env sample_clock sample_flow sample_pipeline = Some (Ok [], [Decide 1 DecForward], pl)"
proof -
  obtain m fc where c: "flow_classify 0 sample_flow flow_with_defaults = (Ok [ImageUnit m], fc)"
    using sample_flow_facts(2) by blast
  let ?pl = "sample_pipeline\<lparr>pl_classifier := fc\<rparr>"
  let ?i = "''tablet-img-'' @ short_hash_hex (\<lambda>bs. replicate 32 0) (im_data m)"
  let ?v = "image_verdict sample_device_env ?i (im_data m) (f32_round 0)"
  have dev: "pl_device_id ?pl = ''tablet''" "pl_image_scores ?pl = image_cache_new (parse_positive u64_max default_image_cache_entries None)"
      "pl_store ?pl = None" "pl_policy ?pl = policy_config_default"
    by (simp_all add: sample_pipeline_def pipeline_new_def)
  then obtain pl where a: "analyze_image sample_device_env m ?pl = (?v, pl)" "pl_policy pl = policy_config_default" "pl_store pl = None"
    by (simp add: analyze_image_def sample_device_env_def image_cache_get_def image_cache_new_def Let_def)
  have dec: "policy_decide policy_config_default ?v ctx = Allow" "policy_alert_for policy_config_default ?v Allow ctx = None" for ctx
    using zero_is_safe [of sample_device_env ?i "im_data m"]
    by (simp_all add: policy_decide_def policy_alert_for_def evaluate_def policy_decision_new_def is_intervention_def Let_def)
  have "handle_unit sample_device_env sample_clock sample_flow (ImageUnit m) ?pl = Some (Ok [], [Decide 1 DecForward], pl)"
  proof -
    have "pe_apply_fails sample_device_env i d = None" for i d by (simp add: sample_device_env_def)
    then show ?thesis
      using a dec sample_flow_facts(1)
      by (simp add: handle_unit_def pipeline_analyze_def action_to_decision_def release_segment_def store_event_def Let_def)
  qed
  then show ?thesis
    using c by (simp add: handle_flow_reporting_def sample_clock_def sample_pipeline_def pipeline_new_def)
qed

lemma sample_device_run:
  "\<exists>dv. device_run sample_device_env Some Some policy_config_default dv [] [(sample_job, Some DecForward, with_body sample_png [0x89, 0x50])]"
proof -
  let ?dv = "\<lparr>dv_proxy = sample_proxy, dv_jobs = [], dv_pipeline = sample_pipeline\<rparr>"
  let ?px = "snd (handle_response Some ''h'' sample_png sample_proxy)"
  have "device_run sample_device_env Some Some policy_config_default ?dv [] []"
    by (rule device_run.start) (simp_all add: sample_proxy_def set_armed_def proxy_new_def)
  moreover have "px_next_flow_id sample_proxy < u64_max" by (simp add: sample_proxy_def set_armed_def proxy_new_def u64_max_def)
  moreover have resp: "handle_response Some ''h'' sample_png sample_proxy = (Await sample_job, ?px)"
    using sample_awaits by (metis prod.collapse)
  ultimately have run: "device_run sample_device_env Some Some policy_config_default (?dv\<lparr>dv_proxy := ?px, dv_jobs := [sample_job]\<rparr>) [] []"
    using device_run.wait [of sample_device_env Some Some policy_config_default ?dv "[]" "[]" "''h''" sample_png sample_job ?px] by simp
  have "awaits sample_job sample_proxy ?px"
    using awaited_response [OF _ resp] by (simp add: sample_proxy_def set_armed_def proxy_new_def)
  then have pend: "1 \<in> px_pending ?px" by (simp add: awaits_def sample_job_def)
  obtain pl where turn: "handle_flow_reporting sample_device_env sample_clock sample_flow sample_pipeline = Some (Ok [], [Decide 1 DecForward], pl)"
    using sample_turn by blast
  have nxt: "next_flow ?px = (Some sample_flow, ?px\<lparr>px_queue := []\<rparr>)" by (simp add: next_flow_def sample_queue sample_flow_def)
  obtain dv' log' where fold: "fold deliver [Decide 1 DecForward] (?dv\<lparr>dv_proxy := ?px\<lparr>px_queue := []\<rparr>, dv_jobs := [sample_job], dv_pipeline := pl\<rparr>, []) = (dv', log')"
    by force
  then have "log' = [(sample_job, Some DecForward, with_body sample_png [0x89, 0x50])]"
    using pend by (auto simp: gate_resolve_def finish_job_def sample_job_def split: if_splits)
  then show ?thesis
    using device_run.work [OF run, of sample_flow "?px\<lparr>px_queue := []\<rparr>" sample_clock "Ok []" "[Decide 1 DecForward]" pl "\<lambda>_. False"] nxt turn fold
    by auto
qed


end
