(* ===== verification/Spec2Isabelle.thy ===== *)
theory Spec2Isabelle
  imports Policy PortableStore RateLimit SniDns StaffAdmin Tamper TextEngine DevicePipeline
begin

text \<open>
  \<^bold>\<open>Bulwark\<close> is a child-safety system. A thin client on the child's device intercepts traffic, holds
  it for a bounded time and sends what it cannot decide to an analysis server; classifiers grade
  the content; a policy turns a grade into an action and, where needed, an alert; guardians see
  the alerts of their own children and may override a decision; a server keeps the accounts of
  guardians and staff, the registry of children and devices, and the audit trail.

  \<^bold>\<open>Parts and theories.\<close> File names are relative to \<open>src/crates\<close>.

  \<^item> \<open>Prelude\<close>, \<open>StrOps\<close>, \<open>F32\<close>: what the program uses of the Rust language and standard library.
    Strings are byte lists (the UTF-8 encoding), with trimming, ASCII case mapping, splitting and
    decimal rendering; saturating and wrapping integers; finite maps with \<open>retain\<close>; binary32
    values, their comparisons (false on NaN) and their rendering with two decimals.
  \<^item> \<open>Proto\<close>: the enumerations and messages of the wire contract, and the helpers of
    \<open>bulwark-proto/src/lib.rs\<close>.
  \<^item> \<open>HashChain\<close>: the contract of a hash-chained log as the locale \<open>hash_chain\<close>: appending keeps a
    log valid, an edit, insertion, removal or swap inside is found at the first row concerned, and
    the last hash commits to the whole log when linking is injective. It is interpreted on
    the program's own logs: \<open>audit_log\<close> (guardian decisions), \<open>plain_chain\<close> and \<open>keyed_chain\<close>
    (audit rows), \<open>store_log\<close> (the store on disk) and \<open>staff_chain\<close> (staff actions).
  \<^item> \<open>Allowlist\<close>: \<open>bulwark-policy/src/allowlist.rs\<close>. The allowlist per device and the log of
    guardian decisions; \<open>allowlist_reach\<close> are the states that calls of \<open>apply\<close> reach. It refines a
    set of grants.
  \<^item> \<open>PolicyConfig\<close>, \<open>Policy\<close>: \<open>bulwark-policy/src/config.rs\<close>, \<open>error.rs\<close> and \<open>lib.rs\<close>. Age profiles,
    bands, thresholds, validation; the decision function on every category, the override and the
    trait \<open>PolicyEngine\<close>, whose contract is the locale \<open>policy_engine\<close>. The decision function refines
    a table of score bands.
  \<^item> \<open>AuditRow\<close>, \<open>PortableStore\<close>: \<open>bulwark-store/src/model.rs\<close>, \<open>hashchain.rs\<close>, \<open>portable.rs\<close>,
    \<open>retention.rs\<close>, \<open>crypto.rs\<close>. The projection of an event to a row without content, the canonical
    bytes, plain and keyed links, the verifier, and the store with evidence, purge and reload.
  \<^item> \<open>Throttle\<close>, \<open>Accounts\<close>: \<open>bulwark-server/src/accounts.rs\<close>, the record \<open>Inner\<close> and one definition
    per operation of \<open>AccountStore\<close> and per gRPC handler. An operation that releases the lock
    (\<open>login\<close>, \<open>change_password\<close>, \<open>reset_password\<close>, the rotation of a recovery code) is cut into the
    part that reads, the part that computes without the lock and the part that commits.
  \<^item> \<open>AccountsInv\<close>, \<open>AccountsProps\<close>, \<open>Enrollment\<close>, \<open>AccountsPersist\<close>: the transition system of the
    critical sections (\<open>acct_step\<close>, \<open>acct_reach\<close>: every interleaving of pending operations) with its
    invariant; sign-in, lockout, password change and reset; children, devices and guardians, with
    the locale \<open>alert_routing\<close> for the agreement of fan-out and subscription; snapshot and reload.
  \<^item> \<open>RateLimit\<close>: \<open>bulwark-alert/src/ratelimit.rs\<close> and the pacing fields of \<open>config.rs\<close>.
  \<^item> \<open>DelayBuffer\<close>: \<open>bulwark-flow/src/buffer.rs\<close>, with \<open>buffer_run\<close> for sequences of calls.
  \<^item> \<open>Cluster\<close>: \<open>bulwark-cluster/src/lib.rs\<close>, the work queue with leases, membership and health, with
    \<open>cluster_run\<close> for sequences of calls.
  \<^item> \<open>Blocklist\<close>: \<open>bulwark-net/src/blocklist.rs\<close>, the parser and the matcher of blocked hosts.
  \<^item> \<open>SniDns\<close>: \<open>bulwark-net/src/vpn/sni_dns.rs\<close>, the parsers of DNS questions and TLS ClientHellos,
    the verdict and the negative answer.
  \<^item> \<open>SafetyCases\<close>, \<open>Staff\<close>, \<open>StaffAdmin\<close>: \<open>bulwark-server/src/safety_cases.rs\<close> and \<open>staff.rs\<close>. The
    workflow of safety cases, staff accounts with one-time codes, the staff audit log, and every RPC
    of the staff console.

  \<^item> \<open>Segments\<close>: \<open>bulwark-video/src/store.rs\<close>, the clips kept for review: a directory of files with
    six lines of ownership metadata each, lifetimes, owner-scoped opening and the purge.
  \<^item> \<open>DeviceAuth\<close>: \<open>bulwark-server/src/auth.rs\<close>, the credential a device presents with a request.
  \<^item> \<open>Relay\<close>: \<open>bulwark-server/src/relay.rs\<close>. The alert hub with its allowlist, pending reviews and push
    targets, its files and the replay of the decision journal, and the review handlers; \<open>hub_reach\<close>
    are the hubs that events, decisions, registrations and restarts reach.
  \<^item> \<open>ReviewSecurity\<close>: \<open>bulwark-server/src/review_security.rs\<close>. The ledger that binds alert ids to facts
    (\<open>ledger_run\<close>) and the review service in front of the relay.
  \<^item> \<open>AlertService\<close>: \<open>bulwark-server/src/service.rs\<close> and \<open>lib.rs\<close>. The services a device calls: analysis
    of one request, a batch or a stream, the offload policy, and raising alerts; its theorems follow
    an alert from the credential of the device to the stream of a guardian.
  \<^item> \<open>Tamper\<close>: \<open>bulwark-server/src/tamper.rs\<close>. Heartbeats, what they report as tampered with, and the sweep
    for silent devices; \<open>tamper_run\<close> are sequences of calls.
  \<^item> \<open>FamilySafety\<close>: \<open>bulwark-server/src/family_safety.rs\<close>. The SOS button, and safety notices with their
    board (\<open>broadcast_run\<close>).
  \<^item> \<open>ChildControl\<close>: \<open>bulwark-server/src/child_control.rs\<close>. The settings of a child, their versions and
    the stream of them to the device, what a device has applied, the files (\<open>config_run\<close>), and the
    policy a device is sent, which is shown to be the allowlist of the relay.
  \<^item> \<open>WgProvision\<close>: \<open>bulwark-server/src/wg_provision.rs\<close>. The pool of tunnel addresses and its file
    (\<open>wg_reachable\<close>), the signed sessions that renew a lease, and the handler that grants one, which reads
    the guardian's settings from the file of \<open>ChildControl\<close>.
  \<^item> \<open>F32Arith\<close>: addition, multiplication and division of binary32 numbers on their bits, with rounding to the
    nearest value, which is proved to be within half a unit in the last place.
  \<^item> \<open>TextEngine\<close>: \<open>bulwark-text/src/lexicon.rs\<close>, \<open>engine.rs\<close>, \<open>state.rs\<close>, \<open>redact.rs\<close>, \<open>error.rs\<close> and
    \<open>analyzer.rs\<close>. The grooming rules, their scores, the memory of conversations with the loop that makes
    room in it, and the verdict on a message.
  \<^item> \<open>FlowClassify\<close>: \<open>bulwark-flow/src/classify.rs\<close>, \<open>classifier.rs\<close>, \<open>error.rs\<close> and \<open>bulwark-core/src/flow.rs\<close>.
    Which captured flow is analysed as what, by manifest, content type, magic bytes and extension, and the
    units handed to the analyzers; \<open>classifier_run\<close> are sequences of calls, each a run of the delay buffer.
  \<^item> \<open>Interception\<close>: \<open>bulwark-net/src/proxy.rs\<close>, \<open>pinning.rs\<close> and, in part, \<open>quic.rs\<close> and \<open>interceptor.rs\<close>. The
    decision gate, the handlers of requests, responses and WebSocket messages with their bounded reads, and the
    registry of pinned hosts, which refines one automaton per host. A handler that waits leaves a job.
  \<^item> \<open>OffloadRouter\<close>: \<open>bulwark-infer/src/policy.rs\<close>, \<open>router.rs\<close> and, in part, \<open>analyzer.rs\<close> and \<open>error.rs\<close>. Where a
    unit is analysed; the routing is shown to follow its published table.
  \<^item> \<open>DevicePipeline\<close>: \<open>bulwark-client/src/lib.rs\<close>. Classification, analysis, policy, decision, release, alert and
    audit row of a flow, with the cache of image scores. \<open>device_run\<close> interleaves proxy and pipeline: its theorem
    follows a response from the server through gate, classifier, analyzer and policy to the child.

  The locale \<open>device_rpc\<close> of \<open>DeviceAuth\<close> is the contract of every service a device calls: without a credential
  behind the device and token a request presents, the call is refused and changes nothing. It is
  interpreted on raising alerts, analysis, offload, heartbeats, SOS, the two reads of settings and tunnel leases.

  \<^bold>\<open>How the parts interact.\<close> The policy engine consults the allowlist; the account store answers
  which guardians an alert goes to and which devices a guardian may see; the staff console calls
  the account store (reset and unlock of a guardian), the safety cases and its own log; the SNI and
  DNS inspection asks the blocklist; on the device the proxy asks the blocklist and the pinning registry and
  waits for the pipeline, which calls the classifier with its delay buffer, the text engine, the router, the
  policy and the store. Each such call is a call of the model's definition.

  \<^bold>\<open>Parameters.\<close> Code that is not in the repository is an argument: SHA-256, HMAC, Argon2, PBKDF2
  and Base32 are functions; the clock, random identifiers and the outcome of disk writes are
  arguments of each step; Unicode case mapping beyond ASCII is a function. What a theorem needs of
  them (injectivity of a hash on the inputs at hand, freshness of an identifier, a clock that does
  not run backwards) is a hypothesis in its statement, and its witness instantiates it.

  \<^bold>\<open>Termination and bounds.\<close> Every function is total: the parsers recurse on the unread bytes, so no fuel is
  used. The eviction loop of the text analyzer is a \<open>while_option\<close> that is proved to return. Machine integers are kept at their width where the code can saturate or wrap (millisecond
  clocks, counters, big-endian lengths, durations).

  \<^bold>\<open>Not modelled.\<close> Sockets, TLS, TUN devices, kernel interfaces and the third-party state machines
  behind them; the decoder of compressed bodies and the header parser of the HTTP library; SQL executed by
  database engines; decoders and neural networks; regular expressions of a third-party crate; user interfaces
  and language bindings; asynchronous scheduling beyond the interleaving of critical sections. On the device, a
  stream of chunks is finite, a wait for a decision ends by the decision or by its window, and flow numbers
  are followed until their 64 bits would wrap.
\<close>

section \<open>Across components\<close>



end
